(* ===== verification/Prelude.thy ===== *)
theory Prelude
  imports Main "HOL-Library.Word"
begin

text \<open>
  Shared vocabulary of the development: the machine integers of the C sources, the faults a
  statement can end in, the result type of the modelled operations, and the list lemmas the
  components use.

  The sources are compiled for x86-64 Linux: \<^verbatim>\<open>int\<close> and enumerations have 32 bits,
  \<^verbatim>\<open>size_t\<close>, \<^verbatim>\<open>unsigned long\<close> and pointers 64, and memory is little endian.  Unsigned C
  integers are words of their width, so that their arithmetic wraps around as it does in C.
  Values of type \<^verbatim>\<open>int\<close> that are only stored, compared and handed on (file descriptors, return
  codes) are mathematical integers; where a 32-bit pattern is reinterpreted as an
  \<^verbatim>\<open>int\<close> the model says so with \<^term>\<open>sint\<close>.
\<close>

unbundle bit_operations_syntax

named_theorems exec_simps \<open>evaluation of the result monad and of the memory accessors\<close>

section \<open>Machine integers\<close>

type_synonym u8 = "8 word"
type_synonym u16 = "16 word"
type_synonym u32 = "32 word"
type_synonym u64 = "64 word"

text \<open>A C \<^verbatim>\<open>int\<close> initialised from a 32-bit unsigned value.\<close>

definition int_of_u32 :: "u32 \<Rightarrow> int" where
  "int_of_u32 w = sint w"

lemma int_of_u32_small:
  assumes "unat w < 2 ^ 31"
  shows "int_of_u32 w = int (unat w)"
proof -
  have "signed_take_bit 31 (uint w) = uint w"
  proof (rule signed_take_bit_int_eq_self)
    show "- (2 ^ 31) \<le> uint w" using uint_ge_0 [of w] by (simp add: order_trans [of _ 0])
    have "int (unat w) < int (2 ^ 31)" using assms by (simp only: of_nat_less_iff)
    then show "uint w < 2 ^ 31" by simp
  qed
  then show ?thesis
    by (simp add: int_of_u32_def sint_uint)
qed

lemma int_of_u32_big:
  assumes "2 ^ 31 \<le> unat w"
  shows "int_of_u32 w = uint w - 2 ^ 32"
proof -
  have lt: "uint w < 2 ^ 32" using uint_lt2p [of w] by simp
  have "int (2 ^ 31) \<le> int (unat w)" using assms by (simp only: of_nat_le_iff)
  then have ge: "2 ^ 31 \<le> uint w" by simp
  have "take_bit 32 (uint w - 2 ^ 32) = take_bit 32 (uint w)"
    by (simp add: take_bit_eq_mod mod_diff_eq flip: mod_diff_right_eq)
  then have "signed_take_bit 31 (uint w) = signed_take_bit 31 (uint w - 2 ^ 32)"
    by (simp add: signed_take_bit_eq_iff_take_bit_eq)
  also have "\<dots> = uint w - 2 ^ 32"
    using lt ge by (intro signed_take_bit_int_eq_self) simp_all
  finally show ?thesis by (simp add: int_of_u32_def sint_uint)
qed

text \<open>Conversions between widths that keep the value.\<close>

lemma unat_ucast_small:
  fixes w :: "'a::len word"
  assumes "unat w < 2 ^ LENGTH('b)"
  shows "unat (ucast w :: 'b::len word) = unat w"
  using assms by (simp add: unsigned_ucast_eq take_bit_nat_eq_self)

lemma unat_ucast_up [simp]:
  fixes w :: "'a::len word"
  assumes "LENGTH('a) \<le> LENGTH('b)"
  shows "unat (ucast w :: 'b::len word) = unat w"
proof (rule unat_ucast_small)
  have "unat w < 2 ^ LENGTH('a)" by simp
  also have "\<dots> \<le> 2 ^ LENGTH('b)" using assms by simp
  finally show "unat w < 2 ^ LENGTH('b)" .
qed

lemma unat_of_nat_small: "n < 2 ^ LENGTH('a) \<Longrightarrow> unat (of_nat n :: 'a::len word) = n"
  by (simp add: unat_of_nat)

lemma unat_word_of_int_small:
  "0 \<le> i \<Longrightarrow> i < 2 ^ LENGTH('a) \<Longrightarrow> unat (word_of_int i :: 'a::len word) = nat i"
  by (simp add: unat_eq_nat_uint uint_word_of_int_eq take_bit_int_eq_self)

section \<open>Faults and results\<close>

text \<open>
  The ways a modelled operation can end abnormally.  \<open>AssertFail\<close> is a failed
  \<^verbatim>\<open>assert\<close> (the process aborts), \<open>Segv\<close> an access to an unmapped address,
  \<open>DivZero\<close> an integer division or remainder by zero, \<open>BadIndex\<close> an access outside a C array
  (undefined behaviour in C), \<open>Overrun\<close> a \<^verbatim>\<open>memcpy\<close> past the end of its destination array,
  \<open>BadFd\<close> a descriptor outside the range of an \<^verbatim>\<open>fd_set\<close>, \<open>DoubleFree\<close> a use or a second release
  of freed storage, and \<open>ExitFailure\<close> a call of \<^verbatim>\<open>die_test\<close>, i.e. \<^verbatim>\<open>exit(EXIT_FAILURE)\<close>,
  or of \<^verbatim>\<open>abort\<close>.
\<close>

datatype fault =
    AssertFail
  | Segv u64
  | DivZero
  | BadIndex int
  | Overrun
  | BadFd int
  | DoubleFree
  | ExitFailure string

text \<open>
  Results: \<open>None\<close> is a computation that does not return, \<open>Some (Inl f)\<close> one that ends in the
  fault \<open>f\<close>, \<open>Some (Inr x)\<close> one that returns \<open>x\<close>.
\<close>

type_synonym 'a exec = "(fault + 'a) option"

definition ret :: "'a \<Rightarrow> 'a exec" where
  "ret x = Some (Inr x)"

definition fail :: "fault \<Rightarrow> 'a exec" where
  "fail e = Some (Inl e)"

definition bindE :: "'a exec \<Rightarrow> ('a \<Rightarrow> 'b exec) \<Rightarrow> 'b exec" where
  "bindE m f = Option.bind m (\<lambda>r. case r of Inl e \<Rightarrow> Some (Inl e) | Inr x \<Rightarrow> f x)"

text \<open>An \<^verbatim>\<open>assert\<close> and other checks that stop the process when they fail.\<close>

definition ensure :: "bool \<Rightarrow> fault \<Rightarrow> unit exec" where
  "ensure P e = (if P then ret () else fail e)"

lemma bindE_ret [simp, exec_simps]: "bindE (ret x) f = f x"
  by (simp add: bindE_def ret_def)

lemma bindE_fail [simp, exec_simps]: "bindE (fail e) f = fail e"
  by (simp add: bindE_def fail_def)

lemma bindE_None [simp, exec_simps]: "bindE None f = None"
  by (simp add: bindE_def)

lemma ret_inject [simp]: "ret x = ret y \<longleftrightarrow> x = y"
  by (simp add: ret_def)

lemma fail_inject [simp]: "fail e = fail e' \<longleftrightarrow> e = e'"
  by (simp add: fail_def)

lemma ret_neq_fail [simp]: "ret x \<noteq> fail e" "fail e \<noteq> ret x"
  by (simp_all add: ret_def fail_def)

lemma ret_neq_None [simp]: "ret x \<noteq> None" "None \<noteq> ret x" "fail e \<noteq> None" "None \<noteq> fail e"
  by (simp_all add: ret_def fail_def)

lemma exec_cases [case_names NoReturn Fail Ret]:
  obtains "m = None" | e where "m = fail e" | x where "m = ret x"
proof (cases m)
  case None
  then show thesis using that(1) by blast
next
  case (Some r)
  then show thesis using that(2,3) by (cases r) (auto simp: ret_def fail_def)
qed

lemma bindE_assoc: "bindE (bindE m f) g = bindE m (\<lambda>x. bindE (f x) g)"
  by (cases m rule: exec_cases) simp_all

lemma bindE_eq_ret: "bindE m f = ret y \<longleftrightarrow> (\<exists>x. m = ret x \<and> f x = ret y)"
  by (cases m rule: exec_cases) simp_all

lemma bindE_eq_fail:
  "bindE m f = fail e \<longleftrightarrow> m = fail e \<or> (\<exists>x. m = ret x \<and> f x = fail e)"
  by (cases m rule: exec_cases) simp_all

lemma bindE_retE [elim!]:
  assumes "bindE m f = ret y"
  obtains x where "m = ret x" and "f x = ret y"
  using assms by (auto simp: bindE_eq_ret)

lemma ensure_ret [simp]: "ensure P e = ret u \<longleftrightarrow> P"
  by (simp add: ensure_def)

lemma ensure_True [simp, exec_simps]: "ensure True e = ret ()"
  by (simp add: ensure_def)

lemma ensure_False [simp, exec_simps]: "ensure False e = fail e"
  by (simp add: ensure_def)

text \<open>A computation that ends, with a value or with a fault.\<close>

definition returns :: "'a exec \<Rightarrow> bool" where
  "returns m \<longleftrightarrow> m \<noteq> None"

lemma returns_ret [simp]: "returns (ret x)" "returns (fail e)" "returns (ensure P e)"
  by (simp_all add: returns_def ensure_def del: not_None_eq)

lemma returns_bindE: "returns f \<Longrightarrow> (\<And>a. f = ret a \<Longrightarrow> returns (g a)) \<Longrightarrow> returns (bindE f g)"
  by (cases f rule: exec_cases) (simp_all add: returns_def)

text \<open>\<open>bindE\<close> is monotone, so that loops over it can be defined by
  \<^theory_text>\<open>partial_function (option)\<close>.\<close>

lemma bindE_mono [partial_function_mono]:
  assumes "mono_option B" and "\<And>y. mono_option (\<lambda>f. C y f)"
  shows "mono_option (\<lambda>f. bindE (B f) (\<lambda>y. C y f))"
proof -
  have "mono_option (\<lambda>f. case r of Inl e \<Rightarrow> Some (Inl e) | Inr x \<Rightarrow> C x f)" for r :: "fault + 'c"
    by (cases r) (use assms(2) in \<open>auto simp: monotone_def option.leq_refl\<close>)
  then show ?thesis
    unfolding bindE_def by (intro bind_mono assms(1))
qed

section \<open>Lists\<close>

text \<open>Overwriting a slice of a byte array, as a store to a field of a C object does.\<close>

definition poke :: "nat \<Rightarrow> 'a list \<Rightarrow> 'a list \<Rightarrow> 'a list" where
  "poke off bs xs = take off xs @ bs @ drop (off + length bs) xs"

definition peek :: "nat \<Rightarrow> nat \<Rightarrow> 'a list \<Rightarrow> 'a list" where
  "peek off n xs = take n (drop off xs)"

lemma length_poke [simp]:
  "off + length bs \<le> length xs \<Longrightarrow> length (poke off bs xs) = length xs"
  by (simp add: poke_def)

lemma length_peek [simp]: "off + n \<le> length xs \<Longrightarrow> length (peek off n xs) = n"
  by (simp add: peek_def)

lemma nth_poke:
  assumes "off + length bs \<le> length xs" and "\<not> (off \<le> p \<and> p < off + length bs)" and "p < length xs"
  shows "poke off bs xs ! p = xs ! p"
proof (cases "p < off")
  case True
  then show ?thesis using assms by (simp add: poke_def nth_append)
next
  case False
  then have "p = off + length bs + (p - (off + length bs))" using assms(2) by simp
  then obtain k where "p = off + length bs + k" ..
  then show ?thesis using assms by (simp add: poke_def nth_append)
qed

lemma peek_poke_same [simp]:
  "off + length bs \<le> length xs \<Longrightarrow> n = length bs \<Longrightarrow> peek off n (poke off bs xs) = bs"
  by (simp add: peek_def poke_def)

lemma peek_poke_before:
  assumes "off + n \<le> off'" and "off' \<le> length xs"
  shows "peek off n (poke off' bs xs) = peek off n xs"
proof -
  have "take (off + n) (poke off' bs xs) = take (off + n) xs"
    using assms by (simp add: poke_def min_def)
  then show ?thesis
    by (metis peek_def take_drop add.commute)
qed

lemma peek_poke_after:
  assumes "off' + length bs \<le> off" and "off' + length bs \<le> length xs"
  shows "peek off n (poke off' bs xs) = peek off n xs"
proof -
  have "drop off (poke off' bs xs) = drop off xs"
    using assms by (simp add: poke_def)
  then show ?thesis by (simp add: peek_def)
qed

lemma peek_take:
  assumes "off + n \<le> k"
  shows "peek off n (take k xs) = peek off n xs"
  using assms by (simp add: peek_def drop_take min_def)

lemma peek_append_left:
  assumes "off + n \<le> length xs"
  shows "peek off n (xs @ ys) = peek off n xs"
  using assms by (simp add: peek_def)

section \<open>Evaluation at numerals\<close>

lemma all_less_2: "(\<forall>j<(2::nat). P j) \<longleftrightarrow> P 0 \<and> P 1"
  by (auto simp: less_Suc_eq numeral_2_eq_2)

lemma replicate_eval: "replicate (numeral k) x = x # replicate (pred_numeral k) x"
  by (simp add: numeral_eq_Suc)

end
