(* ===== verification/Memory.thy ===== *)
theory Memory
  imports Prelude
begin

text \<open>
  The bytes behind C objects.  \<open>le_bytes\<close> and \<open>of_le\<close> are the little-endian encoding and
  decoding of an unsigned integer; every field of a wire message and of a ring in shared memory
  goes through them.  \<open>mem\<close> is the address space of the process: a byte at every mapped address.
  Loads and stores of unmapped bytes fault.  The lemmas give, for \<open>load_bytes\<close> and \<open>store_bytes\<close>,
  when they succeed, what a load reads after a store at the same address, and that a store leaves
  every other byte alone; \<open>region\<close> is the set of addresses an access touches.
\<close>

section \<open>Little-endian integers\<close>

fun le_bytes :: "nat \<Rightarrow> 'a::len word \<Rightarrow> u8 list" where
  "le_bytes 0 w = []"
| "le_bytes (Suc n) w = ucast w # le_bytes n (drop_bit 8 w)"

fun of_le :: "u8 list \<Rightarrow> 'a::len word" where
  "of_le [] = 0"
| "of_le (b # bs) = ucast b OR push_bit 8 (of_le bs)"

lemma length_le_bytes [simp]: "length (le_bytes n w) = n"
  by (induction n arbitrary: w) simp_all

lemma bit_of_le:
  "bit (of_le bs :: 'a::len word) k \<longleftrightarrow>
     k < LENGTH('a) \<and> k div 8 < length bs \<and> bit (bs ! (k div 8)) (k mod 8)"
proof (induction bs arbitrary: k)
  case Nil
  then show ?case by simp
next
  case (Cons b bs)
  show ?case
  proof (cases "k < 8")
    case True
    then show ?thesis
      by (auto simp: bit_or_iff bit_push_bit_iff bit_ucast_iff bit_imp_le_length)
  next
    case False
    then obtain j where k: "k = j + 8" by (metis add.commute le_add_diff_inverse not_less)
    have "\<not> bit b k" using False bit_imp_le_length [of b k] by auto
    moreover have "(j + 8) div 8 = Suc (j div 8)" by simp
    ultimately show ?thesis
      using Cons.IH [of j] by (auto simp: k bit_or_iff bit_push_bit_iff bit_ucast_iff)
  qed
qed

lemma nth_le_bytes:
  "i < n \<Longrightarrow> le_bytes n w ! i = ucast (drop_bit (8 * i) w)"
proof (induction n arbitrary: w i)
  case 0
  then show ?case by simp
next
  case (Suc n)
  show ?case
  proof (cases i)
    case 0
    then show ?thesis by simp
  next
    case (Suc j)
    then show ?thesis using Suc.IH [of j "drop_bit 8 w"] Suc.prems
      by (simp add: drop_bit_drop_bit add.commute)
  qed
qed

text \<open>Decoding inverts encoding when every bit of the integer is written.\<close>

lemma of_le_le_bytes [simp]:
  fixes w :: "'a::len word"
  assumes "LENGTH('a) \<le> 8 * n"
  shows "of_le (le_bytes n w) = w"
proof (rule bit_word_eqI)
  fix k assume k: "k < LENGTH('a)"
  then have "k div 8 < n" using assms by linarith
  moreover have "8 * (k div 8) + k mod 8 = k" by simp
  ultimately show "bit (of_le (le_bytes n w) :: 'a word) k \<longleftrightarrow> bit w k"
    using k by (simp add: bit_of_le nth_le_bytes bit_ucast_iff bit_drop_bit_eq)
qed

lemma le_bytes_of_le:
  assumes "length bs = n" and "8 * n \<le> LENGTH('a)"
  shows "le_bytes n (of_le bs :: 'a::len word) = bs"
proof (rule nth_equalityI)
  show "length (le_bytes n (of_le bs :: 'a word)) = length bs" using assms by simp
  fix i assume "i < length (le_bytes n (of_le bs :: 'a word))"
  then have i: "i < n" by simp
  show "le_bytes n (of_le bs :: 'a word) ! i = bs ! i"
  proof (rule bit_word_eqI)
    fix k assume "k < LENGTH(8)"
    then have k: "k < 8" by simp
    with i assms have "8 * i + k < LENGTH('a)" by linarith
    moreover have "(8 * i + k) div 8 = i" "(8 * i + k) mod 8 = k" using k by simp_all
    ultimately show "bit (le_bytes n (of_le bs :: 'a word) ! i) k \<longleftrightarrow> bit (bs ! i) k"
      using i k assms by (simp add: nth_le_bytes bit_ucast_iff bit_drop_bit_eq bit_of_le)
  qed
qed

section \<open>The address space\<close>

type_synonym mem = "u64 \<Rightarrow> u8 option"

definition region :: "u64 \<Rightarrow> nat \<Rightarrow> u64 set" where
  "region a n = (\<lambda>i. a + of_nat i) ` {..<n}"

lemma region_0 [simp]: "region a 0 = {}"
  by (simp add: region_def)

lemma region_Suc: "region a (Suc n) = insert a (region (a + 1) n)"
  unfolding region_def lessThan_Suc_eq_insert_0 image_insert image_image
  by (simp add: add.assoc)

lemma region_sub:
  assumes "off + k \<le> n"
  shows "region (a + of_nat off) k \<subseteq> region a n"
proof
  fix x assume "x \<in> region (a + of_nat off) k"
  then obtain i where "i < k" "x = a + of_nat (off + i)"
    by (auto simp: region_def add.assoc)
  moreover have "off + i < n" using \<open>i < k\<close> assms by simp
  ultimately show "x \<in> region a n" unfolding region_def by blast
qed

lemma unat_of_nat64: "i < 2 ^ 64 \<Longrightarrow> unat (of_nat i :: u64) = i"
  by (rule unat_of_nat_small) simp

lemma region_iff:
  assumes "n \<le> 2 ^ 64"
  shows "x \<in> region a n \<longleftrightarrow> unat (x - a) < n"
proof
  assume "x \<in> region a n"
  then obtain i where i: "i < n" "x = a + of_nat i" by (auto simp: region_def)
  then have "unat (x - a) = i" using assms by (simp add: unat_of_nat64)
  with i show "unat (x - a) < n" by simp
next
  assume "unat (x - a) < n"
  moreover have "x = a + of_nat (unat (x - a))" by simp
  ultimately show "x \<in> region a n" by (auto simp: region_def intro!: image_eqI)
qed

lemma region_head_notin: "n < 2 ^ 64 \<Longrightarrow> a \<notin> region (a + 1) n"
proof -
  assume n: "n < 2 ^ 64"
  have "unat (a - (a + 1)) = 2 ^ 64 - 1" by (simp add: unat_eq_nat_uint uint_word_ariths)
  with n region_iff [of n a "a + 1"] show ?thesis by simp
qed

text \<open>Sub-accesses of one object that do not overlap touch disjoint addresses.\<close>

lemma region_disjoint_offsets:
  assumes "i + k \<le> j \<or> j + l \<le> i" and "i + k \<le> 2 ^ 64" and "j + l \<le> 2 ^ 64"
  shows "region (a + of_nat i) k \<inter> region (a + of_nat j) l = {}"
proof -
  have False
    if x: "p < k" "q < l" "a + of_nat i + of_nat p = a + of_nat j + of_nat q" for p q :: nat
  proof -
    from x(3) have "(of_nat (i + p) :: u64) = of_nat (j + q)" by (simp add: add.assoc)
    moreover have "i + p < 2 ^ 64" "j + q < 2 ^ 64" using x assms by linarith+
    ultimately have "i + p = j + q"
      by (metis unat_of_nat64)
    with x assms(1) show False by linarith
  qed
  then show ?thesis by (auto simp: region_def)
qed

fun load_bytes :: "mem \<Rightarrow> u64 \<Rightarrow> nat \<Rightarrow> u8 list option" where
  "load_bytes m a 0 = Some []"
| "load_bytes m a (Suc n) =
     (case m a of
        None \<Rightarrow> None
      | Some b \<Rightarrow> map_option ((#) b) (load_bytes m (a + 1) n))"

fun store_bytes :: "mem \<Rightarrow> u64 \<Rightarrow> u8 list \<Rightarrow> mem option" where
  "store_bytes m a [] = Some m"
| "store_bytes m a (b # bs) =
     (if m a = None then None else store_bytes (m(a \<mapsto> b)) (a + 1) bs)"

lemma load_bytes_length: "load_bytes m a n = Some bs \<Longrightarrow> length bs = n"
  by (induction m a n arbitrary: bs rule: load_bytes.induct) (auto split: option.splits)

lemma load_bytes_cong:
  "(\<And>x. x \<in> region a n \<Longrightarrow> m x = m' x) \<Longrightarrow> load_bytes m a n = load_bytes m' a n"
  by (induction m a n rule: load_bytes.induct) (auto simp: region_Suc split: option.splits)

lemma load_bytes_iff_mapped: "(\<exists>bs. load_bytes m a n = Some bs) \<longleftrightarrow> region a n \<subseteq> dom m"
proof (induction m a n rule: load_bytes.induct)
  case (2 m a n)
  then show ?case by (auto simp: region_Suc split: option.splits)
qed simp

lemma store_bytes_frame:
  "store_bytes m a bs = Some m' \<Longrightarrow> x \<notin> region a (length bs) \<Longrightarrow> m' x = m x"
  by (induction m a bs rule: store_bytes.induct) (auto simp: region_Suc split: if_splits)

lemma store_bytes_dom: "store_bytes m a bs = Some m' \<Longrightarrow> dom m' = dom m"
  by (induction m a bs rule: store_bytes.induct) (auto split: if_splits)

lemma store_bytes_iff_mapped:
  "(\<exists>m'. store_bytes m a bs = Some m') \<longleftrightarrow> region a (length bs) \<subseteq> dom m"
proof (induction m a bs rule: store_bytes.induct)
  case (2 m a b bs)
  show ?case
  proof (cases "m a")
    case None
    then show ?thesis by (auto simp: region_Suc)
  next
    case (Some c)
    then have "insert a (dom m) = dom m" by blast
    moreover have "(\<exists>m'. store_bytes (m(a \<mapsto> b)) (a + 1) bs = Some m') \<longleftrightarrow>
        region (a + 1) (length bs) \<subseteq> dom (m(a \<mapsto> b))"
      using 2 Some by blast
    ultimately show ?thesis using Some by (simp add: region_Suc domI)
  qed
qed simp

lemma load_store_same:
  assumes "store_bytes m a bs = Some m'" and "length bs \<le> 2 ^ 64"
  shows "load_bytes m' a (length bs) = Some bs"
  using assms
proof (induction m a bs rule: store_bytes.induct)
  case (2 m a b bs)
  then have ma: "m a \<noteq> None" and st: "store_bytes (m(a \<mapsto> b)) (a + 1) bs = Some m'"
    by (simp_all split: if_splits)
  have "a \<notin> region (a + 1) (length bs)"
    by (rule region_head_notin) (use 2 in simp)
  then have "m' a = Some b" using store_bytes_frame [OF st] by simp
  moreover have "load_bytes m' (a + 1) (length bs) = Some bs"
    by (rule "2.IH" [OF ma st]) (use 2 in simp)
  ultimately show ?case by simp
qed simp

lemma load_store_disjoint:
  assumes "store_bytes m a bs = Some m'" and "region a (length bs) \<inter> region c n = {}"
  shows "load_bytes m' c n = load_bytes m c n"
  using assms by (intro load_bytes_cong) (metis disjoint_iff store_bytes_frame)

lemma region_sub_const:
  assumes "unat k + j \<le> n"
  shows "region (a + k) j \<subseteq> region a n"
  using region_sub [of "unat k" j n a] assms by simp

lemma region_disjoint_sub:
  assumes "region a n \<inter> U = {}" and "unat k + j \<le> n"
  shows "region (a + k) j \<inter> U = {}"
  using assms(1) region_sub_const [OF assms(2), of a] by blast

section \<open>Typed access\<close>

text \<open>Reading and writing an unsigned integer of \<open>n\<close> bytes, and a \<^verbatim>\<open>memcpy\<close> out of and into
  the address space.\<close>

definition load_le :: "mem \<Rightarrow> u64 \<Rightarrow> nat \<Rightarrow> 'a::len word exec" where
  "load_le m a n = (case load_bytes m a n of None \<Rightarrow> fail (Segv a) | Some bs \<Rightarrow> ret (of_le bs))"

definition memcpy_from :: "mem \<Rightarrow> u64 \<Rightarrow> nat \<Rightarrow> u8 list exec" where
  "memcpy_from m a n = (case load_bytes m a n of None \<Rightarrow> fail (Segv a) | Some bs \<Rightarrow> ret bs)"

definition memcpy_to :: "mem \<Rightarrow> u64 \<Rightarrow> u8 list \<Rightarrow> mem exec" where
  "memcpy_to m a bs = (case store_bytes m a bs of None \<Rightarrow> fail (Segv a) | Some m' \<Rightarrow> ret m')"

definition store_le :: "mem \<Rightarrow> u64 \<Rightarrow> nat \<Rightarrow> 'a::len word \<Rightarrow> mem exec" where
  "store_le m a n w = memcpy_to m a (le_bytes n w)"

abbreviation load16 :: "mem \<Rightarrow> u64 \<Rightarrow> u16 exec" where "load16 m a \<equiv> load_le m a 2"
abbreviation load32 :: "mem \<Rightarrow> u64 \<Rightarrow> u32 exec" where "load32 m a \<equiv> load_le m a 4"
abbreviation load64 :: "mem \<Rightarrow> u64 \<Rightarrow> u64 exec" where "load64 m a \<equiv> load_le m a 8"
abbreviation store8 :: "mem \<Rightarrow> u64 \<Rightarrow> u8 \<Rightarrow> mem exec" where "store8 m a w \<equiv> store_le m a 1 w"
abbreviation store16 :: "mem \<Rightarrow> u64 \<Rightarrow> u16 \<Rightarrow> mem exec" where "store16 m a w \<equiv> store_le m a 2 w"
abbreviation store32 :: "mem \<Rightarrow> u64 \<Rightarrow> u32 \<Rightarrow> mem exec" where "store32 m a w \<equiv> store_le m a 4 w"

lemma load_le_cong:
  "(\<And>x. x \<in> region a n \<Longrightarrow> m x = m' x) \<Longrightarrow> load_le m a n = load_le m' a n"
  using load_bytes_cong [of a n m m'] by (simp add: load_le_def)

lemma memcpy_from_cong:
  "(\<And>x. x \<in> region a n \<Longrightarrow> m x = m' x) \<Longrightarrow> memcpy_from m a n = memcpy_from m' a n"
  using load_bytes_cong [of a n m m'] by (simp add: memcpy_from_def)

text \<open>Accesses outside the addresses \<open>U\<close> that a computation may have written.\<close>

lemma load_le_frame:
  assumes "region a n \<inter> U = {}" and "\<And>x. x \<notin> U \<Longrightarrow> m' x = m x"
  shows "load_le m' a n = load_le m a n"
  using assms by (intro load_le_cong) blast

lemma memcpy_from_frame:
  assumes "memcpy_from m p n = ret bs" and "region p n \<inter> U = {}" and "\<And>x. x \<notin> U \<Longrightarrow> m' x = m x"
  shows "memcpy_from m' p n = ret bs"
  using assms memcpy_from_cong [of p n m' m] by (metis disjoint_iff)

lemma memcpy_from_ret: "memcpy_from m a n = ret bs \<longleftrightarrow> load_bytes m a n = Some bs"
  by (auto simp: memcpy_from_def split: option.splits)

lemma memcpy_from_length: "memcpy_from m p n = ret bs \<Longrightarrow> length bs = n"
  by (simp add: memcpy_from_ret load_bytes_length)

lemma memcpy_to_ret: "memcpy_to m a bs = ret m' \<longleftrightarrow> store_bytes m a bs = Some m'"
  by (auto simp: memcpy_to_def split: option.splits)

lemma memcpy_to_mapped:
  assumes "region a (length bs) \<subseteq> dom m"
  obtains m' where "memcpy_to m a bs = ret m'"
  using assms store_bytes_iff_mapped [of m a bs] by (auto simp: memcpy_to_ret)

lemma load_le_mapped:
  assumes "region a n \<subseteq> dom m"
  obtains w where "load_le m a n = ret w"
  using assms load_bytes_iff_mapped [of m a n] by (auto simp: load_le_def)

lemma memcpy_from_mapped:
  assumes "region a n \<subseteq> dom m"
  obtains bs where "memcpy_from m a n = ret bs" and "length bs = n"
proof -
  obtain bs where "load_bytes m a n = Some bs"
    using assms load_bytes_iff_mapped [of m a n] by blast
  then show thesis using that load_bytes_length [of m a n bs] by (simp add: memcpy_from_def)
qed

lemma memcpy_to_frame:
  "memcpy_to m a bs = ret m' \<Longrightarrow> x \<notin> region a (length bs) \<Longrightarrow> m' x = m x"
  by (simp add: memcpy_to_ret store_bytes_frame)

lemma memcpy_to_dom: "memcpy_to m a bs = ret m' \<Longrightarrow> dom m' = dom m"
  by (simp add: memcpy_to_ret store_bytes_dom)

lemma store_le_frame:
  "store_le m a n w = ret m' \<Longrightarrow> x \<notin> region a n \<Longrightarrow> m' x = m x"
  by (simp add: store_le_def memcpy_to_frame)

lemma store_le_dom: "store_le m a n w = ret m' \<Longrightarrow> dom m' = dom m"
  by (simp add: store_le_def memcpy_to_dom)

lemma load_store_le:
  fixes w :: "'a::len word"
  assumes "store_le m a n w = ret m'" and "LENGTH('a) \<le> 8 * n" and "n \<le> 2 ^ 64"
  shows "load_le m' a n = ret w"
  using assms load_store_same [of m a "le_bytes n w" m']
  by (simp add: store_le_def memcpy_to_ret load_le_def)

lemma memcpy_roundtrip:
  assumes "memcpy_to m a bs = ret m'" and "length bs \<le> 2 ^ 64"
  shows "memcpy_from m' a (length bs) = ret bs"
  using assms load_store_same [of m a bs m'] by (simp add: memcpy_to_ret memcpy_from_ret)

lemma load_le_memcpy_disjoint:
  assumes "memcpy_to m a bs = ret m'" and "region a (length bs) \<inter> region c n = {}"
  shows "load_le m' c n = load_le m c n"
  using assms by (intro load_le_cong) (metis disjoint_iff memcpy_to_frame)

lemma load_le_store_le_disjoint:
  assumes "store_le m a k w = ret m'" and "region a k \<inter> region c n = {}"
  shows "load_le m' c n = load_le m c n"
  using assms by (intro load_le_cong) (metis disjoint_iff store_le_frame)

lemma memcpy_from_store_le_disjoint:
  assumes "store_le m a k w = ret m'" and "region a k \<inter> region c n = {}"
  shows "memcpy_from m' c n = memcpy_from m c n"
  using assms by (intro memcpy_from_cong) (metis disjoint_iff store_le_frame)

lemma store_le_mapped:
  assumes "region a n \<subseteq> dom m"
  shows "\<exists>m'. store_le m a n w = ret m'"
  using assms memcpy_to_mapped [of a "le_bytes n w" m] by (auto simp: store_le_def)

lemma load_le_no_overrun: "load_le m a n \<noteq> fail Overrun"
  by (simp add: load_le_def split: option.splits)

lemma memcpy_from_no_overrun: "memcpy_from m a n \<noteq> fail Overrun"
  by (simp add: memcpy_from_def split: option.splits)

lemma returns_load_le [simp]: "returns (load_le m a n)"
  by (simp add: load_le_def split: option.splits)

lemma returns_memcpy_from [simp]: "returns (memcpy_from m a n)"
  by (simp add: memcpy_from_def split: option.splits)

lemma store_bytes_append:
  "store_bytes m a (xs @ ys) =
     Option.bind (store_bytes m a xs) (\<lambda>m'. store_bytes m' (a + of_nat (length xs)) ys)"
  by (induction m a xs rule: store_bytes.induct) (simp_all add: add.assoc fun_upd_def)

lemma memcpy_to_append:
  "memcpy_to m a (xs @ ys) = ret m2 \<longleftrightarrow>
     (\<exists>m1. memcpy_to m a xs = ret m1 \<and> memcpy_to m1 (a + of_nat (length xs)) ys = ret m2)"
  by (simp add: memcpy_to_ret store_bytes_append bind_eq_Some_conv)

lemma le_bytes_0 [simp]: "le_bytes n 0 = replicate n 0"
  by (induction n) simp_all

lemma load_after_store:
  "store_le m a k w = ret m' \<Longrightarrow> region c n \<inter> region a k = {} \<Longrightarrow> load_le m' c n = load_le m c n"
  by (rule load_le_store_le_disjoint) blast+

lemma store_le_step:
  fixes w :: "'a::len word"
  assumes "region a k \<subseteq> R" and "R \<subseteq> D" and "dom m = D" and "LENGTH('a) \<le> 8 * k" and "k \<le> 2 ^ 64"
  obtains m' where "store_le m a k w = ret m'" and "dom m' = D" and "load_le m' a k = ret w"
    and "\<And>x. x \<notin> region a k \<Longrightarrow> m' x = m x"
proof -
  have "region a k \<subseteq> dom m" using assms(1-3) by blast
  then obtain m' where m': "store_le m a k w = ret m'" using store_le_mapped by blast
  moreover have "dom m' = D" using store_le_dom [OF m'] assms(3) by simp
  ultimately show thesis
    using that load_store_le [OF m' assms(4,5)] store_le_frame [OF m'] by blast
qed

section \<open>Evaluation at numerals\<close>

lemma region_numeral:
  "region a (numeral k) = insert a (region (a + 1) (pred_numeral k))"
  by (simp add: numeral_eq_Suc region_Suc)

lemma load_bytes_numeral:
  "load_bytes m a (numeral k) =
     (case m a of
        None \<Rightarrow> None
      | Some b \<Rightarrow> map_option ((#) b) (load_bytes m (a + 1) (pred_numeral k)))"
  by (simp add: numeral_eq_Suc)

lemmas memory_eval = region_numeral load_bytes_numeral replicate_eval

end
