(* ===== verification/Message.thy ===== *)
theory Message
  imports Memory
begin

text \<open>
  The vhost-user protocol messages of \<^verbatim>\<open>src/vhost_user.h\<close> and \<^verbatim>\<open>src/vhost.h\<close> and their
  reception in \<^verbatim>\<open>src/vhost_user.c\<close>.  A \<open>VHostUserMsg\<close> is a packed structure of
  three 32-bit header fields and a union; the union is kept as its bytes, and the members
  \<open>u64\<close>, \<open>state\<close>, \<open>addr\<close>, \<open>file\<close> and \<open>memory\<close> are views of these bytes at the
  offsets the C layout gives them.  \<open>vhost_user_receive\<close> takes what \<^verbatim>\<open>recvmsg\<close> answered as an
  argument.
\<close>

section \<open>Request codes\<close>

datatype VHostUserRequest =
    VHOST_USER_NONE
  | VHOST_USER_GET_FEATURES
  | VHOST_USER_SET_FEATURES
  | VHOST_USER_SET_OWNER
  | VHOST_USER_RESET_OWNER
  | VHOST_USER_SET_MEM_TABLE
  | VHOST_USER_SET_LOG_BASE
  | VHOST_USER_SET_LOG_FD
  | VHOST_USER_SET_VRING_NUM
  | VHOST_USER_SET_VRING_ADDR
  | VHOST_USER_SET_VRING_BASE
  | VHOST_USER_GET_VRING_BASE
  | VHOST_USER_SET_VRING_KICK
  | VHOST_USER_SET_VRING_CALL
  | VHOST_USER_SET_VRING_ERR
  | VHOST_USER_NET_SET_BACKEND
  | VHOST_USER_ECHO
  | VHOST_USER_MAX

fun request_code :: "VHostUserRequest \<Rightarrow> u32" where
  "request_code VHOST_USER_NONE = 0"
| "request_code VHOST_USER_GET_FEATURES = 1"
| "request_code VHOST_USER_SET_FEATURES = 2"
| "request_code VHOST_USER_SET_OWNER = 3"
| "request_code VHOST_USER_RESET_OWNER = 4"
| "request_code VHOST_USER_SET_MEM_TABLE = 5"
| "request_code VHOST_USER_SET_LOG_BASE = 6"
| "request_code VHOST_USER_SET_LOG_FD = 7"
| "request_code VHOST_USER_SET_VRING_NUM = 8"
| "request_code VHOST_USER_SET_VRING_ADDR = 9"
| "request_code VHOST_USER_SET_VRING_BASE = 10"
| "request_code VHOST_USER_GET_VRING_BASE = 11"
| "request_code VHOST_USER_SET_VRING_KICK = 12"
| "request_code VHOST_USER_SET_VRING_CALL = 13"
| "request_code VHOST_USER_SET_VRING_ERR = 14"
| "request_code VHOST_USER_NET_SET_BACKEND = 15"
| "request_code VHOST_USER_ECHO = 16"
| "request_code VHOST_USER_MAX = 17"

definition all_requests :: "VHostUserRequest list" where
  "all_requests =
     [VHOST_USER_NONE, VHOST_USER_GET_FEATURES, VHOST_USER_SET_FEATURES, VHOST_USER_SET_OWNER,
      VHOST_USER_RESET_OWNER, VHOST_USER_SET_MEM_TABLE, VHOST_USER_SET_LOG_BASE,
      VHOST_USER_SET_LOG_FD, VHOST_USER_SET_VRING_NUM, VHOST_USER_SET_VRING_ADDR,
      VHOST_USER_SET_VRING_BASE, VHOST_USER_GET_VRING_BASE, VHOST_USER_SET_VRING_KICK,
      VHOST_USER_SET_VRING_CALL, VHOST_USER_SET_VRING_ERR, VHOST_USER_NET_SET_BACKEND,
      VHOST_USER_ECHO, VHOST_USER_MAX]"

text \<open>The enumerator a request field holds; a field of the wire may hold none.\<close>

definition request_of :: "u32 \<Rightarrow> VHostUserRequest option" where
  "request_of w = find (\<lambda>r. request_code r = w) all_requests"

section \<open>Structures of the payload\<close>

record vhost_vring_state =
  vs_index :: u32
  vs_num :: u32

record vhost_vring_file =
  vf_index :: u32
  vf_fd :: int

record vhost_vring_addr =
  va_index :: u32
  va_flags :: u32
  va_desc_user_addr :: u64
  va_used_user_addr :: u64
  va_avail_user_addr :: u64
  va_log_guest_addr :: u64

record VHostUserMemoryRegion =
  mr_guest_phys_addr :: u64
  mr_memory_size :: u64
  mr_userspace_addr :: u64

text \<open>\<^verbatim>\<open>VHOST_USER_MEMORY_MAX_NREGIONS\<close>, and the size of the union: its largest member is the
  memory table of two 32-bit fields and eight regions of 24 bytes.\<close>

definition MAX_NREGIONS :: nat where
  "MAX_NREGIONS = 8"

definition PAYLOAD_SIZE :: nat where
  "PAYLOAD_SIZE = 8 + 24 * MAX_NREGIONS"

definition MSG_SIZE :: nat where
  "MSG_SIZE = 12 + PAYLOAD_SIZE"

record VHostUserMsg =
  msg_request :: u32
  msg_flags :: u32
  msg_size :: u32
  msg_payload :: "u8 list"

definition wf_msg :: "VHostUserMsg \<Rightarrow> bool" where
  "wf_msg m \<longleftrightarrow> length (msg_payload m) = PAYLOAD_SIZE"

definition bytes_of_msg :: "VHostUserMsg \<Rightarrow> u8 list" where
  "bytes_of_msg m =
     le_bytes 4 (msg_request m) @ le_bytes 4 (msg_flags m) @ le_bytes 4 (msg_size m) @ msg_payload m"

definition msg_of_bytes :: "u8 list \<Rightarrow> VHostUserMsg" where
  "msg_of_bytes bs =
     \<lparr>msg_request = of_le (peek 0 4 bs), msg_flags = of_le (peek 4 4 bs),
      msg_size = of_le (peek 8 4 bs), msg_payload = drop 12 bs\<rparr>"

section \<open>The members of the union\<close>

definition msg_u64 :: "VHostUserMsg \<Rightarrow> u64" where
  "msg_u64 m = of_le (peek 0 8 (msg_payload m))"

definition msg_state :: "VHostUserMsg \<Rightarrow> vhost_vring_state" where
  "msg_state m =
     \<lparr>vs_index = of_le (peek 0 4 (msg_payload m)), vs_num = of_le (peek 4 4 (msg_payload m))\<rparr>"

definition set_state :: "vhost_vring_state \<Rightarrow> VHostUserMsg \<Rightarrow> VHostUserMsg" where
  "set_state st m =
     m\<lparr>msg_payload := poke 0 (le_bytes 4 (vs_index st) @ le_bytes 4 (vs_num st)) (msg_payload m)\<rparr>"

definition msg_file :: "VHostUserMsg \<Rightarrow> vhost_vring_file" where
  "msg_file m =
     \<lparr>vf_index = of_le (peek 0 4 (msg_payload m)),
      vf_fd = sint (of_le (peek 4 4 (msg_payload m)) :: u32)\<rparr>"

definition msg_addr :: "VHostUserMsg \<Rightarrow> vhost_vring_addr" where
  "msg_addr m =
     (let p = msg_payload m in
      \<lparr>va_index = of_le (peek 0 4 p), va_flags = of_le (peek 4 4 p),
       va_desc_user_addr = of_le (peek 8 8 p), va_used_user_addr = of_le (peek 16 8 p),
       va_avail_user_addr = of_le (peek 24 8 p), va_log_guest_addr = of_le (peek 32 8 p)\<rparr>)"

definition msg_nregions :: "VHostUserMsg \<Rightarrow> u32" where
  "msg_nregions m = of_le (peek 0 4 (msg_payload m))"

definition msg_region :: "VHostUserMsg \<Rightarrow> nat \<Rightarrow> VHostUserMemoryRegion" where
  "msg_region m i =
     (let p = msg_payload m; off = 8 + 24 * i in
      \<lparr>mr_guest_phys_addr = of_le (peek off 8 p), mr_memory_size = of_le (peek (off + 8) 8 p),
       mr_userspace_addr = of_le (peek (off + 16) 8 p)\<rparr>)"

section \<open>A received message with its descriptors\<close>

text \<open>
  \<open>lm_fds\<close> holds the bytes of the array \<^verbatim>\<open>int fds[VHOST_USER_MEMORY_MAX_NREGIONS]\<close>.
\<close>

record VHostUserLocalMsg =
  lm_request :: VHostUserMsg
  lm_fd_num :: u64
  lm_fds :: "u8 list"

definition lm_fd :: "VHostUserLocalMsg \<Rightarrow> nat \<Rightarrow> int" where
  "lm_fd m i = sint (of_le (peek (4 * i) 4 (lm_fds m)) :: u32)"

definition wf_local_msg :: "VHostUserLocalMsg \<Rightarrow> bool" where
  "wf_local_msg m \<longleftrightarrow> wf_msg (lm_request m) \<and> length (lm_fds m) = 4 * MAX_NREGIONS"

text \<open>
  The answer of \<^verbatim>\<open>recvmsg\<close>: its return value, the bytes it wrote to the buffer, whether
  \<^verbatim>\<open>msg_flags\<close> has \<^verbatim>\<open>MSG_TRUNC\<close> or \<^verbatim>\<open>MSG_CTRUNC\<close>, and the first control message if there is one.
\<close>

record cmsghdr =
  cm_len :: u64
  cm_sol_socket :: bool
  cm_scm_rights :: bool
  cm_data :: "u8 list"

record recv_answer =
  rv_ret :: int
  rv_data :: "u8 list"
  rv_trunc :: bool
  rv_cmsg :: "cmsghdr option"

definition CMSG_LEN0 :: u64 where
  "CMSG_LEN0 = 16"

definition vhost_user_receive ::
  "recv_answer \<Rightarrow> VHostUserLocalMsg \<Rightarrow> int \<times> VHostUserLocalMsg" where
  "vhost_user_receive rv lm =
     (let fd_size = of_nat (4 * MAX_NREGIONS) :: u64;
          lm = lm\<lparr>lm_fd_num := 0,
                  lm_request := msg_of_bytes (poke 0 (rv_data rv) (bytes_of_msg (lm_request lm)))\<rparr>
      in if rv_ret rv > 0
         then if rv_trunc rv then (-1, lm)
              else case rv_cmsg rv of
                     None \<Rightarrow> (rv_ret rv, lm)
                   | Some c \<Rightarrow>
                       if cm_len c > 0 \<and> cm_sol_socket c \<and> cm_scm_rights c
                       then if fd_size \<ge> cm_len c - CMSG_LEN0
                            then let n = cm_len c - CMSG_LEN0 in
                                 (rv_ret rv,
                                  lm\<lparr>lm_fds := poke 0 (take (unat n) (cm_data c)) (lm_fds lm),
                                     lm_fd_num := n div 4\<rparr>)
                            else (rv_ret rv, lm)
                       else (rv_ret rv, lm)
         else (rv_ret rv, lm))"

section \<open>Message names\<close>

definition cmd_from_vhostmsg :: "VHostUserMsg \<Rightarrow> string" where
  "cmd_from_vhostmsg m =
     (case request_of (msg_request m) of
        Some VHOST_USER_NONE \<Rightarrow> ''VHOST_USER_NONE''
      | Some VHOST_USER_GET_FEATURES \<Rightarrow> ''VHOST_USER_GET_FEATURES''
      | Some VHOST_USER_SET_FEATURES \<Rightarrow> ''VHOST_USER_SET_FEATURES''
      | Some VHOST_USER_SET_OWNER \<Rightarrow> ''VHOST_USER_SET_OWNER''
      | Some VHOST_USER_RESET_OWNER \<Rightarrow> ''VHOST_USER_RESET_OWNER''
      | Some VHOST_USER_SET_MEM_TABLE \<Rightarrow> ''VHOST_USER_SET_MEM_TABLE''
      | Some VHOST_USER_SET_LOG_BASE \<Rightarrow> ''VHOST_USER_SET_LOG_BASE''
      | Some VHOST_USER_SET_LOG_FD \<Rightarrow> ''VHOST_USER_SET_LOG_FD''
      | Some VHOST_USER_SET_VRING_NUM \<Rightarrow> ''VHOST_USER_SET_VRING_NUM''
      | Some VHOST_USER_SET_VRING_ADDR \<Rightarrow> ''VHOST_USER_SET_VRING_ADDR''
      | Some VHOST_USER_SET_VRING_BASE \<Rightarrow> ''VHOST_USER_SET_VRING_BASE''
      | Some VHOST_USER_GET_VRING_BASE \<Rightarrow> ''VHOST_USER_GET_VRING_BASE''
      | Some VHOST_USER_SET_VRING_KICK \<Rightarrow> ''VHOST_USER_SET_VRING_KICK''
      | Some VHOST_USER_SET_VRING_CALL \<Rightarrow> ''VHOST_USER_SET_VRING_CALL''
      | Some VHOST_USER_SET_VRING_ERR \<Rightarrow> ''VHOST_USER_SET_VRING_ERR''
      | Some VHOST_USER_MAX \<Rightarrow> ''VHOST_USER_MAX''
      | _ \<Rightarrow> ''UNDEFINED'')"

section \<open>Lemmas\<close>

lemmas size_defs = MAX_NREGIONS_def PAYLOAD_SIZE_def MSG_SIZE_def

lemma request_of_code [simp]: "request_of (request_code r) = Some r"
  by (cases r) (simp_all add: request_of_def all_requests_def)

lemma request_of_eq_Some: "request_of w = Some r \<longleftrightarrow> w = request_code r"
proof
  assume "request_of w = Some r"
  then show "w = request_code r" by (auto simp: request_of_def find_Some_iff)
qed simp

lemma length_bytes_of_msg [simp]: "wf_msg m \<Longrightarrow> length (bytes_of_msg m) = MSG_SIZE"
  by (simp add: bytes_of_msg_def wf_msg_def MSG_SIZE_def)

lemma wf_msg_of_bytes: "length bs = MSG_SIZE \<Longrightarrow> wf_msg (msg_of_bytes bs)"
  by (simp add: wf_msg_def msg_of_bytes_def MSG_SIZE_def)

lemma msg_of_bytes_of_msg [simp]: "msg_of_bytes (bytes_of_msg m) = m"
  by (simp add: msg_of_bytes_def bytes_of_msg_def peek_def)

lemma bytes_of_msg_of_bytes:
  assumes "length bs = MSG_SIZE"
  shows "bytes_of_msg (msg_of_bytes bs) = bs"
proof -
  have "bs = take 4 bs @ take 4 (drop 4 bs) @ take 4 (drop 8 bs) @ drop 12 bs"
    by (metis append_take_drop_id drop_drop numeral_plus_numeral semiring_norm(2)
        semiring_norm(5) semiring_norm(6) semiring_norm(3) semiring_norm(4))
  then show ?thesis
    using assms by (simp add: bytes_of_msg_def msg_of_bytes_def peek_def le_bytes_of_le size_defs)
qed

lemma msg_state_set_state:
  assumes "wf_msg m"
  shows "msg_state (set_state st m) = st"
proof -
  have "take 4 (drop 4 (le_bytes 4 (vs_index st) @ le_bytes 4 (vs_num st))) = le_bytes 4 (vs_num st)"
    by simp
  then show ?thesis
    using assms by (simp add: msg_state_def set_state_def poke_def peek_def)
qed

lemma wf_set_state: "wf_msg m \<Longrightarrow> wf_msg (set_state st m)"
  by (simp add: wf_msg_def set_state_def size_defs)

lemma vhost_user_receive_wf:
  assumes "wf_local_msg lm" and "length (rv_data rv) \<le> MSG_SIZE"
  shows "wf_local_msg (snd (vhost_user_receive rv lm))"
proof -
  have w: "wf_msg (msg_of_bytes (poke 0 (rv_data rv) (bytes_of_msg (lm_request lm))))"
    using assms by (intro wf_msg_of_bytes) (simp add: wf_local_msg_def)
  have f: "length (poke 0 (take (unat n) bs) (lm_fds lm)) = 4 * MAX_NREGIONS"
    if "n \<le> (of_nat (4 * MAX_NREGIONS) :: u64)" for n bs
  proof -
    have "unat n \<le> 4 * MAX_NREGIONS"
      using that by (simp add: word_le_nat_alt size_defs)
    then show ?thesis using assms by (subst length_poke) (simp_all add: wf_local_msg_def)
  qed
  show ?thesis
    using w f assms
    by (auto simp: vhost_user_receive_def Let_def wf_local_msg_def split: option.splits)
qed

section \<open>Reception\<close>

definition null_msg :: VHostUserLocalMsg where
  "null_msg =
     \<lparr>lm_request = \<lparr>msg_request = 0, msg_flags = 0, msg_size = 0, msg_payload = replicate PAYLOAD_SIZE 0\<rparr>,
      lm_fd_num = 0, lm_fds = replicate (4 * MAX_NREGIONS) 0\<rparr>"

lemma poke_0_full: "length bs = length xs \<Longrightarrow> poke 0 bs xs = bs"
  by (simp add: poke_def)

text \<open>
  C26. What is sent is what is received: when \<^verbatim>\<open>recvmsg\<close> delivers the bytes of a message and up to
  eight descriptors, \<open>vhost_user_receive\<close> yields that message, the number of descriptors and the
  descriptors.
\<close>

theorem receive_decodes:
  assumes "wf_msg msg" and "wf_local_msg lm" and "k \<le> MAX_NREGIONS" and "length fdbytes = 4 * k"
    and "rv = \<lparr>rv_ret = int MSG_SIZE, rv_data = bytes_of_msg msg, rv_trunc = False,
               rv_cmsg = Some \<lparr>cm_len = CMSG_LEN0 + of_nat (4 * k), cm_sol_socket = True, cm_scm_rights = True,
                               cm_data = fdbytes\<rparr>\<rparr>"
  shows "vhost_user_receive rv lm =
           (int MSG_SIZE, \<lparr>lm_request = msg, lm_fd_num = of_nat k, lm_fds = poke 0 fdbytes (lm_fds lm)\<rparr>)"
proof -
  have uk: "unat (of_nat k :: u64) = k" using assms(3) by (intro unat_of_nat_small) (simp add: size_defs)
  have u: "unat (4 * of_nat k :: u64) = 4 * k"
    using assms(3) unat_of_nat_small [of "4 * k", where 'a = 64] by (simp add: size_defs)
  then have le: "(4 * of_nat k :: u64) \<le> 32" using assms(3) by (simp add: word_le_nat_alt size_defs)
  have pos: "0 < CMSG_LEN0 + 4 * of_nat k"
    using u assms(3) by (simp add: word_less_nat_alt unat_word_ariths CMSG_LEN0_def size_defs)
  have div: "(4 * of_nat k :: u64) div 4 = of_nat k"
    using u uk by (simp add: word_unat_eq_iff unat_div_distrib)
  show ?thesis
    using assms le pos div u
    by (simp add: vhost_user_receive_def Let_def wf_local_msg_def poke_0_full size_defs)
qed

theorem receive_decodes_witness:
  "\<exists>rv. vhost_user_receive rv null_msg =
     (int MSG_SIZE, \<lparr>lm_request = lm_request null_msg, lm_fd_num = 1, lm_fds = poke 0 [7, 0, 0, 0] (lm_fds null_msg)\<rparr>)"
proof -
  have "wf_msg (lm_request null_msg)" "wf_local_msg null_msg"
    by (simp_all add: null_msg_def wf_msg_def wf_local_msg_def)
  then show ?thesis
    using receive_decodes [of "lm_request null_msg" null_msg 1 "[7, 0, 0, 0]"] by (auto simp: size_defs)
qed

end
