(* ===== verification/Regions.thy ===== *)
theory Regions
  imports Message
begin

text \<open>
  The memory table of the server: \<open>VHostUserLocalMemory\<close>, \<open>_set_mem_table\<close>, \<open>init_shm_from_fd\<close>,
  \<open>_map_user_addr\<close> and \<open>_map_guest_addr\<close> of \<^verbatim>\<open>src/vhost_user.c\<close>.  The two translations walk the
  same table and differ in the base address they compare with; the locale \<open>addr_map\<close> states that
  loop once and derives its meaning, and it is interpreted for both.  \<^verbatim>\<open>mmap\<close> is a parameter:
  given a descriptor, a size and the address space it answers with an address and the new
  address space, or fails.
\<close>

section \<open>Data\<close>

record VHostUserLocalMemoryRegion =
  lr_guest_phys_addr :: u64
  lr_memory_size :: u64
  lr_userspace_addr :: u64
  lr_mmap_addr :: u64

record VHostUserLocalMemory =
  mt_nregions :: u32
  mt_regions :: "VHostUserLocalMemoryRegion list"

type_synonym mmap_fn = "int \<Rightarrow> u64 \<Rightarrow> mem \<Rightarrow> (u64 \<times> mem) option"

definition wf_memory :: "VHostUserLocalMemory \<Rightarrow> bool" where
  "wf_memory M \<longleftrightarrow> length (mt_regions M) = MAX_NREGIONS \<and> unat (mt_nregions M) \<le> MAX_NREGIONS"

section \<open>Operations\<close>

definition init_shm_from_fd :: "mmap_fn \<Rightarrow> int \<Rightarrow> u64 \<Rightarrow> mem \<Rightarrow> u64 \<times> mem" where
  "init_shm_from_fd mmap fd sz m =
     (case mmap fd sz m of None \<Rightarrow> (0, m) | Some (a, m') \<Rightarrow> (a, m'))"

text \<open>\<open>vhost_user_map_guest_memory\<close> takes the size as an \<^verbatim>\<open>int\<close>, which is sign-extended to
  \<^verbatim>\<open>size_t\<close> in the call of \<^verbatim>\<open>mmap\<close>.\<close>

definition vhost_user_map_guest_memory :: "mmap_fn \<Rightarrow> int \<Rightarrow> int \<Rightarrow> mem \<Rightarrow> u64 \<times> mem" where
  "vhost_user_map_guest_memory mmap fd sz m =
     (case mmap fd (of_int sz) m of None \<Rightarrow> (0, m) | Some (a, m') \<Rightarrow> (a, m'))"

text \<open>The loops of \<open>_map_user_addr\<close> and \<open>_map_guest_addr\<close>, from index \<open>idx\<close> on.\<close>

function map_user_addr_from :: "VHostUserLocalMemory \<Rightarrow> u64 \<Rightarrow> nat \<Rightarrow> u64 exec" where
  "map_user_addr_from M addr idx =
     (if idx < unat (mt_nregions M)
      then if idx < length (mt_regions M)
           then let r = mt_regions M ! idx in
                if lr_userspace_addr r \<le> addr \<and> addr < lr_userspace_addr r + lr_memory_size r
                then ret (lr_mmap_addr r + addr - lr_userspace_addr r)
                else map_user_addr_from M addr (Suc idx)
           else fail (BadIndex (int idx))
      else ret 0)"
  by pat_completeness auto
termination
  by (relation "measure (\<lambda>(M, addr, idx). unat (mt_nregions M) - idx)") auto

function map_guest_addr_from :: "VHostUserLocalMemory \<Rightarrow> u64 \<Rightarrow> nat \<Rightarrow> u64 exec" where
  "map_guest_addr_from M addr idx =
     (if idx < unat (mt_nregions M)
      then if idx < length (mt_regions M)
           then let r = mt_regions M ! idx in
                if lr_guest_phys_addr r \<le> addr \<and> addr < lr_guest_phys_addr r + lr_memory_size r
                then ret (lr_mmap_addr r + addr - lr_guest_phys_addr r)
                else map_guest_addr_from M addr (Suc idx)
           else fail (BadIndex (int idx))
      else ret 0)"
  by pat_completeness auto
termination
  by (relation "measure (\<lambda>(M, addr, idx). unat (mt_nregions M) - idx)") auto

declare map_user_addr_from.simps [simp del] map_guest_addr_from.simps [simp del]

definition map_user_addr :: "VHostUserLocalMemory \<Rightarrow> u64 \<Rightarrow> u64 exec" where
  "map_user_addr M addr = map_user_addr_from M addr 0"

definition map_guest_addr :: "VHostUserLocalMemory \<Rightarrow> u64 \<Rightarrow> u64 exec" where
  "map_guest_addr M addr = map_guest_addr_from M addr 0"

text \<open>
  The loop of \<open>_set_mem_table\<close>.  The arrays \<^verbatim>\<open>msg->fds\<close> and \<^verbatim>\<open>memory.regions\<close> have
  eight elements each.
\<close>

function set_mem_table_from ::
  "mmap_fn \<Rightarrow> VHostUserLocalMsg \<Rightarrow> nat \<Rightarrow> VHostUserLocalMemory \<times> mem \<Rightarrow>
     (VHostUserLocalMemory \<times> mem) exec" where
  "set_mem_table_from mmap msg idx (M, m) =
     (if idx < unat (msg_nregions (lm_request msg))
      then if idx < MAX_NREGIONS
           then if lm_fd msg idx > 0
                then let mr = msg_region (lm_request msg) idx in
                     if idx < unat (lm_fd_num msg)
                     then let (a, m') = init_shm_from_fd mmap (lm_fd msg idx) (mr_memory_size mr) m;
                              r = \<lparr>lr_guest_phys_addr = mr_guest_phys_addr mr,
                                   lr_memory_size = mr_memory_size mr,
                                   lr_userspace_addr = mr_userspace_addr mr,
                                   lr_mmap_addr = a\<rparr>
                          in set_mem_table_from mmap msg (Suc idx)
                               (M\<lparr>mt_regions := (mt_regions M)[idx := r],
                                  mt_nregions := mt_nregions M + 1\<rparr>, m')
                     else fail AssertFail
                else set_mem_table_from mmap msg (Suc idx) (M, m)
           else fail (BadIndex (int idx))
      else ret (M, m))"
  by pat_completeness auto
termination
  by (relation "measure (\<lambda>(mmap, msg, idx, s). unat (msg_nregions (lm_request msg)) - idx)") auto

declare set_mem_table_from.simps [simp del]

definition set_mem_table ::
  "mmap_fn \<Rightarrow> VHostUserLocalMsg \<Rightarrow> VHostUserLocalMemory \<times> mem \<Rightarrow>
     (int \<times> VHostUserLocalMemory \<times> mem) exec" where
  "set_mem_table mmap msg s =
     (case s of (M, m) \<Rightarrow>
        bindE (set_mem_table_from mmap msg 0 (M\<lparr>mt_nregions := 0\<rparr>, m))
          (\<lambda>(M', m'). ret (0, M', m')))"

section \<open>Translation, once for both bases\<close>

definition contains :: "u64 \<Rightarrow> u64 \<Rightarrow> u64 \<Rightarrow> bool" where
  "contains b n a \<longleftrightarrow> unat b \<le> unat a \<and> unat a < unat b + unat n"

definition no_wrap :: "u64 \<Rightarrow> u64 \<Rightarrow> bool" where
  "no_wrap b n \<longleftrightarrow> unat b + unat n < 2 ^ 64"

lemma contains_iff:
  assumes "no_wrap b n"
  shows "b \<le> a \<and> a < b + n \<longleftrightarrow> contains b n a"
proof -
  have "unat (b + n) = unat b + unat n"
    using assms by (simp add: no_wrap_def unat_word_ariths)
  then show ?thesis by (simp add: contains_def word_le_nat_alt word_less_nat_alt)
qed

locale addr_map =
  fixes base :: "VHostUserLocalMemoryRegion \<Rightarrow> u64"
    and walk :: "VHostUserLocalMemory \<Rightarrow> u64 \<Rightarrow> nat \<Rightarrow> u64 exec"
  assumes walk_unfold:
    "walk M a i =
       (if i < unat (mt_nregions M)
        then if i < length (mt_regions M)
             then let r = mt_regions M ! i in
                  if base r \<le> a \<and> a < base r + lr_memory_size r
                  then ret (lr_mmap_addr r + a - base r)
                  else walk M a (Suc i)
             else fail (BadIndex (int i))
        else ret 0)"
begin

lemma walk_skip:
  assumes "\<And>j. i \<le> j \<Longrightarrow> j < k \<Longrightarrow>
             \<not> (base (mt_regions M ! j) \<le> a \<and>
                a < base (mt_regions M ! j) + lr_memory_size (mt_regions M ! j))"
    and "i \<le> k" and "k \<le> unat (mt_nregions M)" and "k \<le> length (mt_regions M)"
  shows "walk M a i = walk M a k"
  using assms(2,1)
proof (induction i rule: inc_induct)
  case base
  then show ?case by simp
next
  case (step j)
  have "walk M a j = walk M a (Suc j)"
    using step.prems [of j] step.hyps assms(3,4) by (subst walk_unfold) (auto simp: Let_def)
  with step show ?case by simp
qed

text \<open>An address inside exactly one region goes to the same offset of its mapping.\<close>

lemma walk_hit:
  assumes "k < unat (mt_nregions M)" and "unat (mt_nregions M) \<le> length (mt_regions M)"
    and "\<And>j. j \<le> k \<Longrightarrow> no_wrap (base (mt_regions M ! j)) (lr_memory_size (mt_regions M ! j))"
    and "contains (base (mt_regions M ! k)) (lr_memory_size (mt_regions M ! k)) a"
    and "\<And>j. j < k \<Longrightarrow> \<not> contains (base (mt_regions M ! j)) (lr_memory_size (mt_regions M ! j)) a"
  shows "walk M a 0 = ret (lr_mmap_addr (mt_regions M ! k) + (a - base (mt_regions M ! k)))"
proof -
  have "walk M a 0 = walk M a k"
    using assms by (intro walk_skip) (auto simp: contains_iff)
  also have "\<dots> = ret (lr_mmap_addr (mt_regions M ! k) + (a - base (mt_regions M ! k)))"
    using assms(1,2,4) contains_iff [OF assms(3) [of k], of a]
    by (subst walk_unfold) (simp add: Let_def)
  finally show ?thesis .
qed

text \<open>An address outside every region is translated to the null pointer.\<close>

lemma walk_miss:
  assumes "unat (mt_nregions M) \<le> length (mt_regions M)"
    and "\<And>j. j < unat (mt_nregions M) \<Longrightarrow>
           no_wrap (base (mt_regions M ! j)) (lr_memory_size (mt_regions M ! j)) \<and>
           \<not> contains (base (mt_regions M ! j)) (lr_memory_size (mt_regions M ! j)) a"
  shows "walk M a 0 = ret 0"
proof -
  have "walk M a 0 = walk M a (unat (mt_nregions M))"
    using assms by (intro walk_skip) (auto simp: contains_iff)
  then show ?thesis by (subst (asm) (2) walk_unfold) simp
qed

lemma walk_total:
  assumes "unat (mt_nregions M) \<le> length (mt_regions M)"
  shows "\<exists>p. walk M a i = ret p"
proof (induction "unat (mt_nregions M) - i" arbitrary: i)
  case 0
  then show ?case by (subst walk_unfold) simp
next
  case (Suc d)
  then have "\<exists>p. walk M a (Suc i) = ret p" by simp
  with assms Suc.hyps(2) show ?case by (subst walk_unfold) (auto simp: Let_def)
qed

end

interpretation user_map: addr_map lr_userspace_addr map_user_addr_from
  by unfold_locales (rule map_user_addr_from.simps)

interpretation guest_map: addr_map lr_guest_phys_addr map_guest_addr_from
  by unfold_locales (rule map_guest_addr_from.simps)

lemma map_user_addr_total: "wf_memory M \<Longrightarrow> \<exists>p. map_user_addr M a = ret p"
  by (simp add: map_user_addr_def user_map.walk_total wf_memory_def)

lemma map_guest_addr_total: "wf_memory M \<Longrightarrow> \<exists>p. map_guest_addr M a = ret p"
  by (simp add: map_guest_addr_def guest_map.walk_total wf_memory_def)

section \<open>Filling the table\<close>

text \<open>Whatever a message holds, a table that \<open>set_mem_table\<close> returns is well formed.\<close>

lemma set_mem_table_from_wf:
  assumes "set_mem_table_from mmap msg idx (M, m) = ret (M', m')"
    and "length (mt_regions M) = MAX_NREGIONS" and "unat (mt_nregions M) \<le> idx" and "idx \<le> MAX_NREGIONS"
  shows "wf_memory M'"
  using assms
proof (induction mmap msg idx "(M, m)" arbitrary: M m rule: set_mem_table_from.induct)
  case (1 mmap msg idx M m)
  show ?case
  proof (cases "idx < unat (msg_nregions (lm_request msg))")
    case False
    with 1 show ?thesis
      by (subst (asm) set_mem_table_from.simps) (auto simp: wf_memory_def)
  next
    case True
    have idx: "idx < MAX_NREGIONS"
      using "1.prems"(1) True by (subst (asm) set_mem_table_from.simps) (auto split: if_splits)
    show ?thesis
    proof (cases "lm_fd msg idx > 0")
      case False
      with "1.prems" True idx have "set_mem_table_from mmap msg (Suc idx) (M, m) = ret (M', m')"
        by (subst (asm) set_mem_table_from.simps) simp
      with "1.hyps"(2) [OF True idx False] "1.prems" idx show ?thesis by simp
    next
      case fd: True
      obtain a m2 where am: "init_shm_from_fd mmap (lm_fd msg idx)
          (mr_memory_size (msg_region (lm_request msg) idx)) m = (a, m2)" by fastforce
      have n: "unat (mt_nregions M + 1) = Suc (unat (mt_nregions M))"
        using "1.prems"(3) idx by (subst unat_word_ariths) (simp add: size_defs)
      have fdn: "idx < unat (lm_fd_num msg)"
        using "1.prems"(1) True fd idx
        by (subst (asm) set_mem_table_from.simps) (auto simp: Let_def split: if_splits)
      show ?thesis
        using "1.hyps"(1) [OF True idx fd refl fdn am [symmetric] refl refl]
          "1.prems" True fd idx n fdn am
        by (subst (asm) (1) set_mem_table_from.simps) (simp add: Let_def)
    qed
  qed
qed

lemma set_mem_table_wf:
  assumes "set_mem_table mmap msg (M, m) = ret (r, M', m')" and "wf_memory M"
  shows "wf_memory M'"
  using assms by (auto simp: set_mem_table_def wf_memory_def dest: set_mem_table_from_wf)

section \<open>What the table means\<close>

text \<open>The table entry for region \<open>i\<close> of a message, and where and into what address space the first
  regions are mapped.\<close>

definition local_region :: "(nat \<Rightarrow> u64) \<Rightarrow> VHostUserLocalMsg \<Rightarrow> nat \<Rightarrow> VHostUserLocalMemoryRegion" where
  "local_region addr msg i =
     (let mr = msg_region (lm_request msg) i in
      \<lparr>lr_guest_phys_addr = mr_guest_phys_addr mr, lr_memory_size = mr_memory_size mr,
       lr_userspace_addr = mr_userspace_addr mr, lr_mmap_addr = addr i\<rparr>)"

fun map_all :: "mmap_fn \<Rightarrow> VHostUserLocalMsg \<Rightarrow> nat \<Rightarrow> mem \<Rightarrow> mem" where
  "map_all mmap msg 0 m = m"
| "map_all mmap msg (Suc i) m =
     snd (init_shm_from_fd mmap (lm_fd msg i) (mr_memory_size (msg_region (lm_request msg) i)) (map_all mmap msg i m))"

definition mapped_at :: "mmap_fn \<Rightarrow> VHostUserLocalMsg \<Rightarrow> mem \<Rightarrow> nat \<Rightarrow> u64" where
  "mapped_at mmap msg m i =
     fst (init_shm_from_fd mmap (lm_fd msg i) (mr_memory_size (msg_region (lm_request msg) i)) (map_all mmap msg i m))"

definition sample_table :: VHostUserLocalMemory where
  "sample_table =
     \<lparr>mt_nregions = 2,
      mt_regions = \<lparr>lr_guest_phys_addr = 0, lr_memory_size = 0x1000, lr_userspace_addr = 0x7000, lr_mmap_addr = 0x10000\<rparr> #
        \<lparr>lr_guest_phys_addr = 0x2000, lr_memory_size = 0x1000, lr_userspace_addr = 0x9000, lr_mmap_addr = 0x30000\<rparr> #
        replicate 6 \<lparr>lr_guest_phys_addr = 0, lr_memory_size = 0, lr_userspace_addr = 0, lr_mmap_addr = 0\<rparr>\<rparr>"

text \<open>A memory table of two regions, sent with descriptors \<open>a\<close> and \<open>b\<close>.\<close>

definition table_msg :: "u32 \<Rightarrow> u32 \<Rightarrow> VHostUserLocalMsg" where
  "table_msg a b =
     \<lparr>lm_request =
        \<lparr>msg_request = request_code VHOST_USER_SET_MEM_TABLE, msg_flags = 1, msg_size = 56,
         msg_payload = poke 0 (le_bytes 4 (2 :: u32) @ le_bytes 4 (0 :: u32) @
           le_bytes 8 (0 :: u64) @ le_bytes 8 (0x1000 :: u64) @ le_bytes 8 (0x7000 :: u64) @
           le_bytes 8 (0x2000 :: u64) @ le_bytes 8 (0x1000 :: u64) @ le_bytes 8 (0x9000 :: u64)) (replicate PAYLOAD_SIZE 0)\<rparr>,
      lm_fd_num = 2, lm_fds = poke 0 (le_bytes 4 a @ le_bytes 4 b) (replicate (4 * MAX_NREGIONS) 0)\<rparr>"

text \<open>
  A guest physical address is translated to the same offset in the mapping of the first region
  that contains it.
\<close>

theorem map_guest_addr_hit:
  assumes "wf_memory M" and "k < unat (mt_nregions M)"
    and "\<forall>j\<le>k. no_wrap (lr_guest_phys_addr (mt_regions M ! j)) (lr_memory_size (mt_regions M ! j))"
    and "contains (lr_guest_phys_addr (mt_regions M ! k)) (lr_memory_size (mt_regions M ! k)) a"
    and "\<forall>j<k. \<not> contains (lr_guest_phys_addr (mt_regions M ! j)) (lr_memory_size (mt_regions M ! j)) a"
  shows "map_guest_addr M a =
           ret (lr_mmap_addr (mt_regions M ! k) + (a - lr_guest_phys_addr (mt_regions M ! k)))"
  using assms unfolding map_guest_addr_def by (intro guest_map.walk_hit) (auto simp: wf_memory_def)

text \<open>
  A user address outside every region is translated to the null pointer.
\<close>

theorem map_user_addr_miss:
  assumes "wf_memory M"
    and "\<forall>j < unat (mt_nregions M).
           no_wrap (lr_userspace_addr (mt_regions M ! j)) (lr_memory_size (mt_regions M ! j)) \<and>
           \<not> contains (lr_userspace_addr (mt_regions M ! j)) (lr_memory_size (mt_regions M ! j)) a"
  shows "map_user_addr M a = ret 0"
  using assms unfolding map_user_addr_def by (intro user_map.walk_miss) (auto simp: wf_memory_def)

lemma set_mem_table_from_all:
  assumes n: "n = unat (msg_nregions (lm_request msg))" "n \<le> MAX_NREGIONS" "n \<le> unat (lm_fd_num msg)"
    and fds: "\<And>i. i < n \<Longrightarrow> lm_fd msg i > 0"
    and k: "k \<le> n" and len: "length (mt_regions M) = MAX_NREGIONS"
  shows "set_mem_table_from mmap msg k (M, map_all mmap msg k m) =
           ret (M\<lparr>mt_regions := map (\<lambda>i. if k \<le> i \<and> i < n then local_region (mapped_at mmap msg m) msg i
                                          else mt_regions M ! i) [0..<MAX_NREGIONS],
                  mt_nregions := mt_nregions M + of_nat (n - k)\<rparr>, map_all mmap msg n m)"
  using k len
proof (induction "n - k" arbitrary: k M)
  case 0
  then have "k = n" by simp
  moreover have "map (\<lambda>i. if n \<le> i \<and> i < n then local_region (mapped_at mmap msg m) msg i else mt_regions M ! i)
      [0..<MAX_NREGIONS] = mt_regions M"
    using 0 by (intro nth_equalityI) auto
  ultimately show ?case using n(1) by (subst set_mem_table_from.simps) (simp del: map_eq_conv)
next
  case (Suc d)
  have k: "k < n" using Suc by simp
  let ?r = "local_region (mapped_at mmap msg m) msg k"
  let ?M = "M\<lparr>mt_regions := (mt_regions M)[k := ?r], mt_nregions := mt_nregions M + 1\<rparr>"
  have "set_mem_table_from mmap msg k (M, map_all mmap msg k m) =
      set_mem_table_from mmap msg (Suc k) (?M, map_all mmap msg (Suc k) m)"
    using k n fds [OF k]
    by (subst set_mem_table_from.simps) (simp add: Let_def local_region_def mapped_at_def split: prod.split)
  also have "\<dots> = ret (?M\<lparr>mt_regions := map (\<lambda>i. if Suc k \<le> i \<and> i < n then local_region (mapped_at mmap msg m) msg i
                                          else mt_regions ?M ! i) [0..<MAX_NREGIONS],
                  mt_nregions := mt_nregions ?M + of_nat (n - Suc k)\<rparr>, map_all mmap msg n m)"
    using Suc.hyps(1) [of "Suc k" ?M] Suc.hyps(2) Suc.prems k by simp
  also have "map (\<lambda>i. if Suc k \<le> i \<and> i < n then local_region (mapped_at mmap msg m) msg i else mt_regions ?M ! i) [0..<MAX_NREGIONS] =
      map (\<lambda>i. if k \<le> i \<and> i < n then local_region (mapped_at mmap msg m) msg i else mt_regions M ! i) [0..<MAX_NREGIONS]"
    using k Suc.prems(2) n(2) by (auto simp: nth_list_update)
  finally show ?case using k by (simp add: of_nat_diff)
qed

text \<open>
  A memory table of at most eight regions that comes with a valid descriptor for each is stored
  completely: every region is mapped in order, the count is the number of regions and each entry has
  the addresses of the message and the address of its mapping.
\<close>

theorem set_mem_table_fills:
  assumes "wf_memory M" and n: "n = unat (msg_nregions (lm_request msg))" "n \<le> MAX_NREGIONS" "n \<le> unat (lm_fd_num msg)"
    and fds: "\<forall>i<n. lm_fd msg i > 0"
  shows "\<exists>M'. set_mem_table mmap msg (M, m) = ret (0, M', map_all mmap msg n m) \<and> unat (mt_nregions M') = n \<and>
           (\<forall>i<n. mt_regions M' ! i = local_region (mapped_at mmap msg m) msg i) \<and> wf_memory M'"
proof -
  have "unat (of_nat n :: u32) = n" using n(2) by (simp add: unat_of_nat size_defs)
  then show ?thesis
    using set_mem_table_from_all [OF n _ le0, of "M\<lparr>mt_nregions := 0\<rparr>" mmap m] fds assms(1) n(2)
    by (simp add: set_mem_table_def wf_memory_def)
qed

text \<open>
  A region without a descriptor is skipped but keeps its place: of two regions whose first has no
  valid descriptor, the second is stored at index 1 while the count is 1, so that every later walk of
  the table sees only the stale entry 0.
\<close>

theorem set_mem_table_gap:
  assumes "wf_memory M" and "msg_nregions (lm_request msg) = 2" and "2 \<le> unat (lm_fd_num msg)"
    and "lm_fd msg 0 \<le> 0" and "0 < lm_fd msg 1"
  shows "\<exists>M' m'. set_mem_table mmap msg (M, m) = ret (0, M', m') \<and> mt_nregions M' = 1 \<and>
           mt_regions M' ! 0 = mt_regions M ! 0 \<and>
           lr_guest_phys_addr (mt_regions M' ! 1) = mr_guest_phys_addr (msg_region (lm_request msg) 1)"
proof -
  obtain a m' where "init_shm_from_fd mmap (lm_fd msg 1) (mr_memory_size (msg_region (lm_request msg) 1)) m = (a, m')"
    by fastforce
  with assms show ?thesis
    by (simp add: set_mem_table_def set_mem_table_from.simps [of mmap msg 0] set_mem_table_from.simps [of mmap msg "Suc 0"]
        set_mem_table_from.simps [of mmap msg "Suc (Suc 0)"] size_defs Let_def wf_memory_def)
qed

lemma sample_table_wf: "wf_memory sample_table"
  by (simp add: sample_table_def wf_memory_def size_defs)

lemma table_msg_simps:
  "msg_nregions (lm_request (table_msg a b)) = 2" "lm_fd (table_msg a b) 0 = sint a" "lm_fd (table_msg a b) (Suc 0) = sint b"
  "lm_fd_num (table_msg a b) = 2"
  by (simp_all add: table_msg_def msg_nregions_def lm_fd_def poke_def peek_def size_defs)

theorem map_guest_addr_hit_witness: "map_guest_addr sample_table 0x2345 = ret 0x30345"
  using map_guest_addr_hit [OF sample_table_wf, of 1 "0x2345"]
  by (simp add: sample_table_def no_wrap_def contains_def less_Suc_eq le_Suc_eq)

theorem map_user_addr_miss_witness: "map_user_addr sample_table 0x8000 = ret 0"
  using map_user_addr_miss [OF sample_table_wf, of "0x8000"]
  by (simp add: sample_table_def no_wrap_def contains_def all_less_2)

theorem set_mem_table_fills_witness:
  "\<exists>M' m'. set_mem_table (\<lambda>fd sz m. None) (table_msg 5 6) (sample_table, Map.empty) = ret (0, M', m') \<and>
     unat (mt_nregions M') = 2"
  using set_mem_table_fills [OF sample_table_wf, of 2 "table_msg 5 6" "\<lambda>fd sz m. None" Map.empty]
  by (auto simp: table_msg_simps size_defs all_less_2)

theorem set_mem_table_gap_witness:
  "\<exists>M' m'. set_mem_table (\<lambda>fd sz m. None) (table_msg 0 6) (sample_table, Map.empty) = ret (0, M', m') \<and>
     mt_nregions M' = 1"
  using set_mem_table_gap [OF sample_table_wf, of "table_msg 0 6" "\<lambda>fd sz m. None" Map.empty]
  by (auto simp: table_msg_simps)

end
