(* ===== verification/FdList.thy ===== *)
theory FdList
  imports Prelude "HOL-Library.Multiset"
begin

text \<open>
  The descriptor list of the event loop: \<open>FdList\<close>, \<open>init_fd_list\<close>, \<open>find_fd_node_by_fd\<close>,
  \<open>add_fd_list\<close>, \<open>del_fd_list\<close> and \<open>fd_set_from_fd_list\<close> of \<^verbatim>\<open>src/vhost_user.c\<close>, with the
  types of \<^verbatim>\<open>src/vhost_user.h\<close>.  The locale \<open>fd_registry\<close> is what the event loop relies on,
  a bounded bag of registered nodes; it is interpreted for the read and for the write array.
\<close>

section \<open>Data\<close>

text \<open>The functions that the program registers, and the context they get: every registration of
  the program passes the one \<open>VHostUser\<close> object.\<close>

datatype FdHandler = AcceptSockServer | ReceiveSockServer | KickServer

datatype FdContext = NullContext | VhostUserContext

datatype FdType = FD_READ | FD_WRITE

record FdNode =
  node_fd :: int
  node_context :: FdContext
  node_handler :: "FdHandler option"

record FdList =
  fl_nfds :: u64
  fl_fdmax :: int
  fl_read_fds :: "FdNode list"
  fl_write_fds :: "FdNode list"
  fl_ms :: u32

definition FD_LIST_SIZE :: nat where
  "FD_LIST_SIZE = 10"

definition FD_SETSIZE :: int where
  "FD_SETSIZE = 1024"

definition empty_node :: FdNode where
  "empty_node = \<lparr>node_fd = -1, node_context = NullContext, node_handler = None\<rparr>"

text \<open>The array that \<^verbatim>\<open>type\<close> selects, and its replacement.\<close>

definition fds_of :: "FdList \<Rightarrow> FdType \<Rightarrow> FdNode list" where
  "fds_of fl t = (if t = FD_READ then fl_read_fds fl else fl_write_fds fl)"

definition set_fds :: "FdType \<Rightarrow> FdNode list \<Rightarrow> FdList \<Rightarrow> FdList" where
  "set_fds t ns fl = (if t = FD_READ then fl\<lparr>fl_read_fds := ns\<rparr> else fl\<lparr>fl_write_fds := ns\<rparr>)"

definition wf_fd_list :: "FdList \<Rightarrow> bool" where
  "wf_fd_list fl \<longleftrightarrow>
     length (fl_read_fds fl) = FD_LIST_SIZE \<and> length (fl_write_fds fl) = FD_LIST_SIZE"

section \<open>Operations\<close>

definition init_fd_list :: "FdList \<Rightarrow> u32 \<Rightarrow> FdList" where
  "init_fd_list fl ms =
     fl\<lparr>fl_nfds := 0, fl_fdmax := -1,
        fl_read_fds := replicate FD_LIST_SIZE empty_node,
        fl_write_fds := replicate FD_LIST_SIZE empty_node,
        fl_ms := 1\<rparr>"

fun find_fd_node_by_fd :: "FdNode list \<Rightarrow> int \<Rightarrow> nat option" where
  "find_fd_node_by_fd [] fd = None"
| "find_fd_node_by_fd (n # ns) fd =
     (if node_fd n = fd then Some 0 else map_option Suc (find_fd_node_by_fd ns fd))"

text \<open>The first component is the returned value: the success path of the C function ends without
  a \<^verbatim>\<open>return\<close>, so there it is \<open>None\<close>.\<close>

definition add_fd_list ::
  "FdList \<Rightarrow> FdType \<Rightarrow> int \<Rightarrow> FdContext \<Rightarrow> FdHandler option \<Rightarrow> int option \<times> FdList" where
  "add_fd_list fl t fd ctx h =
     (case find_fd_node_by_fd (fds_of fl t) (-1) of
        None \<Rightarrow> (Some (-1), fl)
      | Some i \<Rightarrow>
          (None,
           set_fds t ((fds_of fl t)[i := \<lparr>node_fd = fd, node_context = ctx, node_handler = h\<rparr>]) fl))"

definition del_fd_list :: "FdList \<Rightarrow> FdType \<Rightarrow> int \<Rightarrow> int \<times> FdList" where
  "del_fd_list fl t fd =
     (case find_fd_node_by_fd (fds_of fl t) fd of
        None \<Rightarrow> (-1, fl)
      | Some i \<Rightarrow>
          (0, set_fds t ((fds_of fl t)[i := \<lparr>node_fd = -1, node_context = NullContext,
                                              node_handler = None\<rparr>]) fl))"

text \<open>The loop of \<open>fd_set_from_fd_list\<close>.  \<^verbatim>\<open>FD_SET\<close> writes outside the \<^verbatim>\<open>fd_set\<close> for a
  descriptor that is negative or not below \<^verbatim>\<open>FD_SETSIZE\<close>.\<close>

fun collect_fds :: "FdNode list \<Rightarrow> int set \<Rightarrow> int \<Rightarrow> (int set \<times> int) exec" where
  "collect_fds [] S mx = ret (S, mx)"
| "collect_fds (n # ns) S mx =
     (let fd = node_fd n in
      if fd \<noteq> -1
      then if 0 \<le> fd \<and> fd < FD_SETSIZE
           then collect_fds ns (insert fd S) (if fd > mx then fd else mx)
           else fail (BadFd fd)
      else collect_fds ns S mx)"

definition fd_set_from_fd_list :: "FdList \<Rightarrow> FdType \<Rightarrow> (int set \<times> FdList) exec" where
  "fd_set_from_fd_list fl t =
     bindE (collect_fds (fds_of fl t) {} (fl_fdmax fl))
       (\<lambda>(S, mx). ret (S, fl\<lparr>fl_fdmax := mx\<rparr>))"

section \<open>Searching\<close>

lemma find_fd_None: "find_fd_node_by_fd ns fd = None \<longleftrightarrow> fd \<notin> node_fd ` set ns"
  by (induction ns fd rule: find_fd_node_by_fd.induct) auto

lemma find_fd_Some:
  "find_fd_node_by_fd ns fd = Some i \<Longrightarrow>
     i < length ns \<and> node_fd (ns ! i) = fd \<and> (\<forall>j < i. node_fd (ns ! j) \<noteq> fd)"
proof (induction ns fd arbitrary: i rule: find_fd_node_by_fd.induct)
  case (2 n ns fd)
  show ?case
  proof (cases "node_fd n = fd")
    case True
    with "2.prems" show ?thesis by simp
  next
    case False
    with "2.prems" obtain k where "find_fd_node_by_fd ns fd = Some k" "i = Suc k" by auto
    with "2.IH" False show ?thesis by (auto simp: less_Suc_eq_0_disj)
  qed
qed simp

lemma length_set_fds:
  "length ns = length (fds_of fl t) \<Longrightarrow> wf_fd_list fl \<Longrightarrow> wf_fd_list (set_fds t ns fl)"
  by (cases t) (auto simp: wf_fd_list_def set_fds_def fds_of_def)

lemma fds_of_set_fds [simp]:
  "fds_of (set_fds t ns fl) t' = (if t' = t then ns else fds_of fl t')"
  by (cases t; cases t') (simp_all add: fds_of_def set_fds_def)

lemma length_fds_of [simp]: "wf_fd_list fl \<Longrightarrow> length (fds_of fl t) = FD_LIST_SIZE"
  by (cases t) (simp_all add: wf_fd_list_def fds_of_def)

lemma init_fd_list_wf [simp]: "wf_fd_list (init_fd_list fl ms)"
  by (simp add: wf_fd_list_def init_fd_list_def)

lemma add_fd_list_wf: "wf_fd_list fl \<Longrightarrow> wf_fd_list (snd (add_fd_list fl t fd ctx h))"
  by (auto simp: add_fd_list_def length_set_fds split: option.splits)

lemma del_fd_list_wf: "wf_fd_list fl \<Longrightarrow> wf_fd_list (snd (del_fd_list fl t fd))"
  by (auto simp: del_fd_list_def length_set_fds split: option.splits)

section \<open>The bag of registered nodes\<close>

definition active :: "FdNode list \<Rightarrow> FdNode multiset" where
  "active ns = filter_mset (\<lambda>n. node_fd n \<noteq> -1) (mset ns)"

lemma active_replicate_empty [simp]: "active (replicate k empty_node) = {#}"
  by (induction k) (simp_all add: active_def empty_node_def)

lemma size_active_le: "size (active ns) \<le> length ns"
  unfolding active_def by (metis size_filter_mset_lesseq size_mset)

lemma active_update_fill:
  assumes "i < length ns" and "node_fd (ns ! i) = -1" and "node_fd n \<noteq> -1"
  shows "active (ns[i := n]) = add_mset n (active ns)"
  using assms by (simp add: active_def mset_update filter_diff_mset)

lemma active_update_clear:
  assumes "i < length ns" and "node_fd (ns ! i) \<noteq> -1" and "node_fd n = -1"
  shows "active (ns[i := n]) = active ns - {#ns ! i#}"
  using assms by (simp add: active_def mset_update filter_diff_mset)

lemma active_full:
  assumes "-1 \<notin> node_fd ` set ns"
  shows "size (active ns) = length ns"
proof -
  have "active ns = mset ns"
    unfolding active_def using assms by (auto simp: filter_mset_eq_conv image_iff)
  then show ?thesis by simp
qed

lemma active_not_full:
  assumes "-1 \<in> node_fd ` set ns"
  shows "size (active ns) < length ns"
proof -
  obtain n where "n \<in># mset ns" "node_fd n = -1" using assms by auto
  then have "active ns \<subset># mset ns"
    unfolding active_def by (metis (mono_tags, lifting) multiset_filter_subset filter_mset_eq_conv
        mem_Collect_eq set_mset_filter subset_mset.le_imp_less_or_eq)
  then show ?thesis by (metis mset_subset_size size_mset)
qed

text \<open>
  The contract of a bounded registration list with contents \<open>bag\<close>: registering a node adds it to
  the bag, unless the list already holds \<open>cap\<close> nodes, and then nothing changes; unregistering a
  descriptor removes one node with that descriptor.
\<close>

locale fd_registry =
  fixes wf :: "'l \<Rightarrow> bool"
    and bag :: "'l \<Rightarrow> FdNode multiset"
    and reg :: "'l \<Rightarrow> FdNode \<Rightarrow> 'l"
    and unreg :: "'l \<Rightarrow> int \<Rightarrow> 'l"
    and cap :: nat
  assumes size_bag: "wf l \<Longrightarrow> size (bag l) \<le> cap"
    and bag_fd: "n \<in># bag l \<Longrightarrow> node_fd n \<noteq> -1"
    and wf_reg: "wf l \<Longrightarrow> wf (reg l n)"
    and wf_unreg: "wf l \<Longrightarrow> wf (unreg l fd)"
    and bag_reg: "wf l \<Longrightarrow> node_fd n \<noteq> -1 \<Longrightarrow>
          bag (reg l n) = (if size (bag l) < cap then add_mset n (bag l) else bag l)"
    and bag_unreg: "wf l \<Longrightarrow> fd \<noteq> -1 \<Longrightarrow> fd \<in> node_fd ` set_mset (bag l) \<Longrightarrow>
          \<exists>n. n \<in># bag l \<and> node_fd n = fd \<and> bag (unreg l fd) = bag l - {#n#}"
    and bag_unreg_absent: "wf l \<Longrightarrow> fd \<noteq> -1 \<Longrightarrow> fd \<notin> node_fd ` set_mset (bag l) \<Longrightarrow>
          bag (unreg l fd) = bag l"
begin

lemma reg_then_unreg:
  assumes "wf l" and "node_fd n \<noteq> -1" and "node_fd n \<notin> node_fd ` set_mset (bag l)"
    and "size (bag l) < cap"
  shows "bag (unreg (reg l n) (node_fd n)) = bag l"
proof -
  have b: "bag (reg l n) = add_mset n (bag l)" using assms bag_reg by simp
  then obtain k where "k \<in># bag (reg l n)" "node_fd k = node_fd n"
    "bag (unreg (reg l n) (node_fd n)) = bag (reg l n) - {#k#}"
    using bag_unreg [of "reg l n" "node_fd n"] assms wf_reg by auto
  moreover from this have "k = n" using b assms(3) by (auto simp: image_iff)
  ultimately show ?thesis using b by simp
qed

lemma reg_keeps:
  assumes "wf l" and "node_fd n \<noteq> -1" and "k \<in># bag l"
  shows "k \<in># bag (reg l n)"
  using assms bag_reg by simp

lemma unreg_keeps:
  assumes "wf l" and "fd \<noteq> -1" and "k \<in># bag l" and "node_fd k \<noteq> fd"
  shows "k \<in># bag (unreg l fd)"
proof (cases "fd \<in> node_fd ` set_mset (bag l)")
  case True
  then obtain n where "n \<in># bag l" "node_fd n = fd" "bag (unreg l fd) = bag l - {#n#}"
    using bag_unreg assms by blast
  moreover from this assms(4) have "k \<noteq> n" by auto
  ultimately show ?thesis using assms(3) by (simp add: in_diff_count)
next
  case False
  with bag_unreg_absent assms show ?thesis by simp
qed

lemma registered_after_reg:
  assumes "wf l" and "node_fd n \<noteq> -1"
  shows "n \<in># bag (reg l n) \<or> size (bag (reg l n)) = cap"
  using bag_reg [OF assms] size_bag [OF assms(1)] by auto

end

definition bag_of :: "FdType \<Rightarrow> FdList \<Rightarrow> FdNode multiset" where
  "bag_of t fl = active (fds_of fl t)"

definition reg_of :: "FdType \<Rightarrow> FdList \<Rightarrow> FdNode \<Rightarrow> FdList" where
  "reg_of t fl n = snd (add_fd_list fl t (node_fd n) (node_context n) (node_handler n))"

definition unreg_of :: "FdType \<Rightarrow> FdList \<Rightarrow> int \<Rightarrow> FdList" where
  "unreg_of t fl fd = snd (del_fd_list fl t fd)"

lemma bag_reg_of:
  assumes "wf_fd_list fl" and "node_fd n \<noteq> -1"
  shows "bag_of t (reg_of t fl n) =
           (if size (bag_of t fl) < FD_LIST_SIZE then add_mset n (bag_of t fl) else bag_of t fl)"
proof (cases "find_fd_node_by_fd (fds_of fl t) (-1)")
  case None
  then have "size (bag_of t fl) = FD_LIST_SIZE"
    using active_full [of "fds_of fl t"] assms by (simp add: find_fd_None bag_of_def)
  with None show ?thesis by (simp add: bag_of_def reg_of_def add_fd_list_def)
next
  case (Some i)
  then have "-1 \<in> node_fd ` set (fds_of fl t)" by (metis find_fd_None option.distinct(1))
  then have "size (bag_of t fl) < FD_LIST_SIZE"
    using active_not_full [of "fds_of fl t"] assms by (simp add: bag_of_def)
  with Some find_fd_Some [OF Some] assms show ?thesis
    by (simp add: bag_of_def reg_of_def add_fd_list_def active_update_fill)
qed

lemma bag_unreg_of:
  assumes "fd \<noteq> -1" and "fd \<in> node_fd ` set_mset (bag_of t fl)"
  shows "\<exists>n. n \<in># bag_of t fl \<and> node_fd n = fd \<and> bag_of t (unreg_of t fl fd) = bag_of t fl - {#n#}"
proof -
  have "fd \<in> node_fd ` set (fds_of fl t)"
    using assms(2) by (auto simp: bag_of_def active_def)
  then obtain i where i: "find_fd_node_by_fd (fds_of fl t) fd = Some i"
    by (metis find_fd_None not_None_eq)
  from find_fd_Some [OF i] assms(1) have
    "fds_of fl t ! i \<in># bag_of t fl" "node_fd (fds_of fl t ! i) = fd"
    by (auto simp: bag_of_def active_def)
  moreover have "bag_of t (unreg_of t fl fd) = bag_of t fl - {#fds_of fl t ! i#}"
    using i find_fd_Some [OF i] assms(1)
    by (simp add: bag_of_def unreg_of_def del_fd_list_def active_update_clear)
  ultimately show ?thesis by blast
qed

lemma bag_unreg_of_absent:
  assumes "fd \<noteq> -1" and "fd \<notin> node_fd ` set_mset (bag_of t fl)"
  shows "bag_of t (unreg_of t fl fd) = bag_of t fl"
proof -
  have "fd \<notin> node_fd ` set (fds_of fl t)" using assms by (auto simp: bag_of_def active_def)
  then show ?thesis by (simp add: find_fd_None [symmetric] unreg_of_def del_fd_list_def)
qed

lemma fd_registry_of:
  "fd_registry wf_fd_list (bag_of t) (reg_of t) (unreg_of t) FD_LIST_SIZE"
proof
  show "size (bag_of t l) \<le> FD_LIST_SIZE" if "wf_fd_list l" for l
    using that size_active_le [of "fds_of l t"] by (simp add: bag_of_def)
  show "node_fd n \<noteq> -1" if "n \<in># bag_of t l" for n l
    using that by (simp add: bag_of_def active_def)
  show "wf_fd_list (reg_of t l n)" "wf_fd_list (unreg_of t l fd)" if "wf_fd_list l" for l n fd
    using that by (simp_all add: reg_of_def unreg_of_def add_fd_list_wf del_fd_list_wf)
qed (blast intro: bag_reg_of bag_unreg_of bag_unreg_of_absent)+

interpretation rfds: fd_registry wf_fd_list "bag_of FD_READ" "reg_of FD_READ" "unreg_of FD_READ"
  FD_LIST_SIZE
  by (rule fd_registry_of)

interpretation wfds: fd_registry wf_fd_list "bag_of FD_WRITE" "reg_of FD_WRITE" "unreg_of FD_WRITE"
  FD_LIST_SIZE
  by (rule fd_registry_of)

section \<open>Building the descriptor set\<close>

text \<open>When every registered descriptor fits an \<^verbatim>\<open>fd_set\<close>, the set that is built holds exactly the
  registered descriptors and \<open>fdmax\<close> is raised to the largest of them.\<close>

lemma collect_fds_ret:
  assumes "\<And>n. n \<in> set ns \<Longrightarrow> node_fd n = -1 \<or> (0 \<le> node_fd n \<and> node_fd n < FD_SETSIZE)"
  shows "collect_fds ns S mx =
           ret (S \<union> (node_fd ` set ns - {-1}), fold max (filter (\<lambda>fd. fd \<noteq> -1) (map node_fd ns)) mx)"
  using assms
proof (induction ns arbitrary: S mx)
  case (Cons n ns)
  have "collect_fds (n # ns) S mx =
      (if node_fd n \<noteq> -1 then collect_fds ns (insert (node_fd n) S) (max (node_fd n) mx)
       else collect_fds ns S mx)"
    using Cons.prems [of n] by (auto simp: max_def Let_def)
  with Cons show ?case by (auto simp: insert_Diff_if)
qed simp

lemma fold_max_ge: "x \<in> set xs \<Longrightarrow> x \<le> fold max xs (m::int)"
  by (metis Max.set_eq_fold Max_ge List.finite_set insert_iff list.simps(15) set_simps(2))

section \<open>Registration and selection\<close>

definition no_fds :: FdList where
  "no_fds = \<lparr>fl_nfds = 0, fl_fdmax = -1, fl_read_fds = replicate FD_LIST_SIZE empty_node,
             fl_write_fds = replicate FD_LIST_SIZE empty_node, fl_ms = 1\<rparr>"

text \<open>
  A new descriptor is registered for reading while a node is free, and removing it again leaves
  exactly the registrations that were there before.
\<close>

theorem add_then_del:
  assumes "wf_fd_list fl" and "fd \<noteq> -1" and "fd \<notin> node_fd ` set_mset (bag_of FD_READ fl)"
    and "size (bag_of FD_READ fl) < FD_LIST_SIZE"
  shows "\<lparr>node_fd = fd, node_context = ctx, node_handler = h\<rparr> \<in>#
           bag_of FD_READ (snd (add_fd_list fl FD_READ fd ctx h)) \<and>
         bag_of FD_READ (snd (del_fd_list (snd (add_fd_list fl FD_READ fd ctx h)) FD_READ fd)) = bag_of FD_READ fl"
  using rfds.reg_then_unreg [OF assms(1), of "\<lparr>node_fd = fd, node_context = ctx, node_handler = h\<rparr>"]
    rfds.bag_reg [OF assms(1), of "\<lparr>node_fd = fd, node_context = ctx, node_handler = h\<rparr>"] assms
  by (simp add: reg_of_def unreg_of_def)

theorem add_then_del_witness:
  "bag_of FD_READ (snd (del_fd_list (snd (add_fd_list no_fds FD_READ 7 VhostUserContext (Some KickServer))) FD_READ 7)) = {#}"
  using add_then_del [of no_fds 7 VhostUserContext "Some KickServer"]
  by (simp add: no_fds_def wf_fd_list_def bag_of_def fds_of_def FD_LIST_SIZE_def)

text \<open>
  The set passed to \<^verbatim>\<open>select\<close> holds exactly the registered descriptors, and \<open>fdmax\<close> is an upper
  bound of them, when every descriptor fits an \<^verbatim>\<open>fd_set\<close>.
\<close>

theorem fd_set_exact:
  assumes "wf_fd_list fl" and "\<forall>n\<in>#bag_of t fl. 0 \<le> node_fd n \<and> node_fd n < FD_SETSIZE"
  shows "\<exists>S fl'. fd_set_from_fd_list fl t = ret (S, fl') \<and> S = node_fd ` set_mset (bag_of t fl) \<and>
           (\<forall>fd\<in>S. fd \<le> fl_fdmax fl') \<and> fl_fdmax fl \<le> fl_fdmax fl'"
proof -
  let ?ns = "fds_of fl t"
  have "node_fd n = -1 \<or> (0 \<le> node_fd n \<and> node_fd n < FD_SETSIZE)" if "n \<in> set ?ns" for n
    using assms(2) that by (auto simp: bag_of_def active_def)
  then have "collect_fds ?ns {} (fl_fdmax fl) =
      ret (node_fd ` set ?ns - {-1}, fold max (filter (\<lambda>fd. fd \<noteq> -1) (map node_fd ?ns)) (fl_fdmax fl))"
    using collect_fds_ret [of ?ns "{}"] by simp
  moreover have "node_fd ` set ?ns - {-1} = node_fd ` set_mset (bag_of t fl)"
    by (auto simp: bag_of_def active_def)
  moreover have "fl_fdmax fl \<le> fold max xs (fl_fdmax fl)" for xs
    by (induction xs rule: rev_induct) auto
  ultimately show ?thesis
    by (auto simp: fd_set_from_fd_list_def bag_of_def active_def intro!: fold_max_ge)
qed

theorem fd_set_exact_witness:
  "\<exists>S fl'. fd_set_from_fd_list (snd (add_fd_list no_fds FD_READ 7 VhostUserContext (Some KickServer))) FD_READ = ret (S, fl') \<and>
     S = {7} \<and> 7 \<le> fl_fdmax fl'"
  using fd_set_exact [of "snd (add_fd_list no_fds FD_READ 7 VhostUserContext (Some KickServer))" FD_READ]
  by (auto simp: no_fds_def wf_fd_list_def bag_of_def fds_of_def set_fds_def add_fd_list_def FD_LIST_SIZE_def empty_node_def
      replicate_eval active_def FD_SETSIZE_def)

end
