(* ===== verification/State.thy ===== *)
theory State
  imports Regions FdList
begin

text \<open>
  The state of the server process: the structures of \<^verbatim>\<open>src/vring.h\<close> and
  \<^verbatim>\<open>src/vhost_user.h\<close>, the global \<^verbatim>\<open>g_send_lock\<close>, the address space, and the record of
  the system calls made so far.  The rings themselves live in the address space that the memory
  table maps; \<open>Vring\<close> only holds their addresses.
\<close>

section \<open>Rings\<close>

record Vring =
  vr_kickfd :: int
  vr_callfd :: int
  vr_desc :: u64
  vr_avail :: u64
  vr_used :: u64
  vr_num :: u32
  vr_last_avail_idx :: u16
  vr_last_used_idx :: u16

text \<open>The function pointers of the program, each with its one possible target.\<close>

datatype AvailHandler = AvailHandlerServer
datatype MapHandler = MapHandlerServer
datatype InMsgHandler = InMsgServer
datatype PollHandler = VhostUserPollHandler

record ProcessHandler =
  ph_context :: FdContext
  ph_avail_handler :: "AvailHandler option"
  ph_map_handler :: "MapHandler option"

record VringTable =
  vt_handler :: ProcessHandler
  vt_vring :: "Vring list"

record AppHandlers =
  ah_context :: FdContext
  ah_in_handler :: "InMsgHandler option"
  ah_poll_handler :: "PollHandler option"

definition VHOST_CLIENT_VRING_IDX_RX :: nat where
  "VHOST_CLIENT_VRING_IDX_RX = 0"

definition VHOST_CLIENT_VRING_IDX_TX :: nat where
  "VHOST_CLIENT_VRING_IDX_TX = 1"

definition VHOST_CLIENT_VRING_NUM :: nat where
  "VHOST_CLIENT_VRING_NUM = 2"

definition ETH_PACKET_SIZE :: nat where
  "ETH_PACKET_SIZE = 1518"

text \<open>\<open>sizeof(struct virtio_net_hdr)\<close>: two bytes and four 16-bit fields.\<close>

definition HDR_LEN :: nat where
  "HDR_LEN = 10"

definition BUFFER_SIZE :: nat where
  "BUFFER_SIZE = HDR_LEN + ETH_PACKET_SIZE"

section \<open>The server object\<close>

record VHostUser =
  vu_path :: string
  vu_memory :: VHostUserLocalMemory
  vu_vring_table :: VringTable
  vu_is_polling :: int
  vu_buffer :: "u8 list"
  vu_buffer_size :: u32
  vu_status :: int
  vu_sock :: int
  vu_fd_list :: FdList
  vu_handlers :: AppHandlers

text \<open>System calls with their arguments.  \<open>IoMsyncLocal\<close> is an \<^verbatim>\<open>msync\<close> of the address of a
  local variable.\<close>

datatype io_event =
    IoWrite int "u8 list"
  | IoFsync int
  | IoRead int
  | IoClose int
  | IoMsync u64 u64
  | IoMsyncLocal u64
  | IoMmap int u64
  | IoRecvmsg int
  | IoAccept int
  | IoSelect int "int set" "int set"
  | IoUnlink string
  | IoSocket
  | IoBind int string
  | IoListen int

record proc =
  p_vu :: VHostUser
  p_mem :: mem
  p_send_lock :: int
  p_io :: "io_event list"

definition emit :: "io_event list \<Rightarrow> proc \<Rightarrow> proc" where
  "emit es s = s\<lparr>p_io := p_io s @ es\<rparr>"

abbreviation p_memory :: "proc \<Rightarrow> VHostUserLocalMemory" where
  "p_memory s \<equiv> vu_memory (p_vu s)"

abbreviation p_vrings :: "proc \<Rightarrow> Vring list" where
  "p_vrings s \<equiv> vt_vring (vu_vring_table (p_vu s))"

abbreviation p_handler :: "proc \<Rightarrow> ProcessHandler" where
  "p_handler s \<equiv> vt_handler (vu_vring_table (p_vu s))"

abbreviation p_fd_list :: "proc \<Rightarrow> FdList" where
  "p_fd_list s \<equiv> vu_fd_list (p_vu s)"

definition set_vrings :: "Vring list \<Rightarrow> proc \<Rightarrow> proc" where
  "set_vrings vs s =
     s\<lparr>p_vu := (p_vu s)\<lparr>vu_vring_table := (vu_vring_table (p_vu s))\<lparr>vt_vring := vs\<rparr>\<rparr>\<rparr>"

text \<open>Access to \<^verbatim>\<open>vring_table->vring[i]\<close>; the array has two elements and C does not check the
  index, which may be a negative \<^verbatim>\<open>int\<close>.\<close>

definition get_vring :: "proc \<Rightarrow> int \<Rightarrow> Vring exec" where
  "get_vring s i =
     (if 0 \<le> i \<and> nat i < length (p_vrings s) then ret (p_vrings s ! nat i) else fail (BadIndex i))"

definition upd_vring :: "int \<Rightarrow> (Vring \<Rightarrow> Vring) \<Rightarrow> proc \<Rightarrow> proc exec" where
  "upd_vring i f s =
     bindE (get_vring s i) (\<lambda>v. ret (set_vrings ((p_vrings s)[nat i := f v]) s))"

definition set_fd_list :: "FdList \<Rightarrow> proc \<Rightarrow> proc" where
  "set_fd_list fl s = s\<lparr>p_vu := (p_vu s)\<lparr>vu_fd_list := fl\<rparr>\<rparr>"

section \<open>The type invariant\<close>

text \<open>The C types: arrays have their declared lengths, and the memory table never counts more
  regions than it has.\<close>

definition wf_proc :: "proc \<Rightarrow> bool" where
  "wf_proc s \<longleftrightarrow>
     length (p_vrings s) = VHOST_CLIENT_VRING_NUM \<and> wf_memory (p_memory s) \<and>
     wf_fd_list (p_fd_list s) \<and> length (vu_buffer (p_vu s)) = BUFFER_SIZE"

lemma emit_simps [simp]:
  "p_vu (emit es s) = p_vu s" "p_mem (emit es s) = p_mem s"
  "p_send_lock (emit es s) = p_send_lock s" "p_io (emit es s) = p_io s @ es"
  by (simp_all add: emit_def)

lemma set_vrings_simps [simp]:
  "p_vrings (set_vrings vs s) = vs" "p_mem (set_vrings vs s) = p_mem s"
  "p_memory (set_vrings vs s) = p_memory s" "p_handler (set_vrings vs s) = p_handler s"
  "p_fd_list (set_vrings vs s) = p_fd_list s" "p_io (set_vrings vs s) = p_io s"
  "vu_buffer (p_vu (set_vrings vs s)) = vu_buffer (p_vu s)"
  "vu_buffer_size (p_vu (set_vrings vs s)) = vu_buffer_size (p_vu s)"
  "vu_handlers (p_vu (set_vrings vs s)) = vu_handlers (p_vu s)"
  "vu_is_polling (p_vu (set_vrings vs s)) = vu_is_polling (p_vu s)"
  "vu_sock (p_vu (set_vrings vs s)) = vu_sock (p_vu s)"
  "p_send_lock (set_vrings vs s) = p_send_lock s"
  by (simp_all add: set_vrings_def)

lemma set_fd_list_simps [simp]:
  "p_fd_list (set_fd_list fl s) = fl" "p_vrings (set_fd_list fl s) = p_vrings s"
  "p_mem (set_fd_list fl s) = p_mem s" "p_memory (set_fd_list fl s) = p_memory s"
  "p_handler (set_fd_list fl s) = p_handler s" "p_io (set_fd_list fl s) = p_io s"
  "vu_buffer (p_vu (set_fd_list fl s)) = vu_buffer (p_vu s)"
  "vu_handlers (p_vu (set_fd_list fl s)) = vu_handlers (p_vu s)"
  "vu_sock (p_vu (set_fd_list fl s)) = vu_sock (p_vu s)"
  "p_send_lock (set_fd_list fl s) = p_send_lock s"
  by (simp_all add: set_fd_list_def)

lemma wf_emit [simp]: "wf_proc (emit es s) = wf_proc s"
  by (simp add: wf_proc_def)

lemma wf_set_vrings [simp]:
  "length vs = length (p_vrings s) \<Longrightarrow> wf_proc (set_vrings vs s) = wf_proc s"
  by (simp add: wf_proc_def)

lemma wf_set_fd_list: "wf_proc s \<Longrightarrow> wf_fd_list fl \<Longrightarrow> wf_proc (set_fd_list fl s)"
  by (simp add: wf_proc_def)

lemma get_vring_ok: "wf_proc s \<Longrightarrow> i < VHOST_CLIENT_VRING_NUM \<Longrightarrow> get_vring s (int i) = ret (p_vrings s ! i)"
  by (simp add: get_vring_def wf_proc_def)

lemma get_vring_ret:
  "get_vring s i = ret v \<Longrightarrow> 0 \<le> i \<and> nat i < length (p_vrings s) \<and> v = p_vrings s ! nat i"
  by (auto simp: get_vring_def split: if_splits)

lemma upd_vring_ok:
  "wf_proc s \<Longrightarrow> i < VHOST_CLIENT_VRING_NUM \<Longrightarrow>
     upd_vring (int i) f s = ret (set_vrings ((p_vrings s)[i := f (p_vrings s ! i)]) s)"
  by (simp add: upd_vring_def get_vring_ok)

text \<open>The same for an index that the C function takes as an unsigned 32-bit integer.\<close>

lemma get_vring_uint:
  "wf_proc s \<Longrightarrow> unat v < VHOST_CLIENT_VRING_NUM \<Longrightarrow> get_vring s (uint v) = ret (p_vrings s ! unat v)"
  using get_vring_ok [of s "unat v"] by simp

lemma upd_vring_uint:
  "wf_proc s \<Longrightarrow> unat v < VHOST_CLIENT_VRING_NUM \<Longrightarrow>
     upd_vring (uint v) f s = ret (set_vrings ((p_vrings s)[unat v := f (p_vrings s ! unat v)]) s)"
  using upd_vring_ok [of s "unat v" f] by simp

lemma upd_vring_wf: "upd_vring i f s = ret s' \<Longrightarrow> wf_proc s \<Longrightarrow> wf_proc s'"
  by (auto simp: upd_vring_def)

end
