(* ===== verification/Sample.thy ===== *)
theory Sample
  imports State
begin

text \<open>
  A small running server on which the properties of the data path are evaluated: one guest region
  of a kilobyte mapped at \<^verbatim>\<open>0x10000\<close>, and two rings of two descriptors inside it.  The first
  chain of the transmit ring is a 10 byte header followed by a 4 byte frame; the first descriptor of
  the receive ring is a buffer of 64 bytes.
\<close>

definition sample_byte :: "u64 \<Rightarrow> u8" where
  "sample_byte a =
     (case map_of [(0x10001, 3), (0x10008, 10), (0x1000C, 1), (0x1000E, 1),
                   (0x10010, 0x10), (0x10011, 3), (0x10018, 4),
                   (0x10040, 0x80), (0x10041, 3), (0x10048, 0x40), (0x1004C, 2), (0x1004E, 1),
                   (0x10102, 1),
                   (0x10310, 0xDE), (0x10311, 0xAD), (0x10312, 0xBE), (0x10313, 0xEF)] a
      of Some b \<Rightarrow> b | None \<Rightarrow> 0)"

definition sample_mem :: mem where
  "sample_mem a = (if 0x10000 \<le> a \<and> a < 0x10400 then Some (sample_byte a) else None)"

definition null_region :: VHostUserLocalMemoryRegion where
  "null_region = \<lparr>lr_guest_phys_addr = 0, lr_memory_size = 0, lr_userspace_addr = 0, lr_mmap_addr = 0\<rparr>"

definition sample_memory :: VHostUserLocalMemory where
  "sample_memory =
     \<lparr>mt_nregions = 1,
      mt_regions = \<lparr>lr_guest_phys_addr = 0, lr_memory_size = 0x400, lr_userspace_addr = 0x7000,
                    lr_mmap_addr = 0x10000\<rparr> # replicate 7 null_region\<rparr>"

definition sample_vring :: Vring where
  "sample_vring =
     \<lparr>vr_kickfd = 7, vr_callfd = 8, vr_desc = 0x10000, vr_avail = 0x10100, vr_used = 0x10200,
      vr_num = 2, vr_last_avail_idx = 0, vr_last_used_idx = 0\<rparr>"

definition sample_rx :: Vring where
  "sample_rx =
     \<lparr>vr_kickfd = 5, vr_callfd = 6, vr_desc = 0x10040, vr_avail = 0x10140, vr_used = 0x10240,
      vr_num = 2, vr_last_avail_idx = 0, vr_last_used_idx = 0\<rparr>"

definition sample_fd_list :: FdList where
  "sample_fd_list =
     init_fd_list \<lparr>fl_nfds = 0, fl_fdmax = 0, fl_read_fds = [], fl_write_fds = [], fl_ms = 0\<rparr> 1"

definition sample_proc :: proc where
  "sample_proc =
     \<lparr>p_vu = \<lparr>vu_path = ''/tmp/vhost.sock'', vu_memory = sample_memory,
              vu_vring_table = \<lparr>vt_handler = \<lparr>ph_context = VhostUserContext, ph_avail_handler = Some AvailHandlerServer,
                                               ph_map_handler = Some MapHandlerServer\<rparr>,
                                vt_vring = [sample_rx, sample_vring]\<rparr>,
              vu_is_polling = 0, vu_buffer = replicate BUFFER_SIZE 0, vu_buffer_size = 0, vu_status = 0,
              vu_sock = 3, vu_fd_list = sample_fd_list,
              vu_handlers = \<lparr>ah_context = VhostUserContext, ah_in_handler = Some InMsgServer,
                             ah_poll_handler = Some VhostUserPollHandler\<rparr>\<rparr>,
      p_mem = sample_mem, p_send_lock = 0, p_io = []\<rparr>"

definition sample_pkts :: "(u16 \<times> u8 list list) list" where
  "sample_pkts = [(0, [replicate 10 0, [0xDE, 0xAD, 0xBE, 0xEF]])]"

text \<open>The sample ring with a second descriptor of length \<open>2\<^sup>3\<^sup>2 - 8\<close>.\<close>

definition sample_wrapping :: proc where
  "sample_wrapping =
     sample_proc\<lparr>p_mem := sample_mem(0x10018 \<mapsto> 0xF8, 0x10019 \<mapsto> 0xFF, 0x1001A \<mapsto> 0xFF, 0x1001B \<mapsto> 0xFF)\<rparr>"

text \<open>The sample ring with a first descriptor that is empty and its own successor.\<close>

definition sample_cyclic :: proc where
  "sample_cyclic = sample_proc\<lparr>p_mem := sample_mem(0x10008 \<mapsto> 0, 0x1000E \<mapsto> 0)\<rparr>"

lemma sample_proc_simps [simp]:
  "p_mem sample_proc = sample_mem" "p_vrings sample_proc = [sample_rx, sample_vring]"
  "ph_avail_handler (p_handler sample_proc) = Some AvailHandlerServer"
  "ph_map_handler (p_handler sample_proc) = Some MapHandlerServer"
  "p_memory sample_proc = sample_memory" "p_fd_list sample_proc = sample_fd_list"
  "p_send_lock sample_proc = 0" "p_io sample_proc = []"
  by (simp_all add: sample_proc_def)

lemma sample_wf: "wf_proc sample_proc"
  by (simp add: sample_proc_def wf_proc_def VHOST_CLIENT_VRING_NUM_def sample_memory_def wf_memory_def
      MAX_NREGIONS_def sample_fd_list_def wf_fd_list_def init_fd_list_def)

text \<open>Parts of the sample memory, by their offsets.\<close>

lemma sample_dom: "dom sample_mem = region 0x10000 0x400"
  by (rule set_eqI) (simp add: region_iff sample_mem_def dom_def word_le_nat_alt word_less_nat_alt unat_sub_if', unat_arith)

lemma sample_region: "unat k + n \<le> 0x400 \<Longrightarrow> region (0x10000 + k) n \<subseteq> dom sample_mem"
  unfolding sample_dom by (rule region_sub_const)

lemma sample_disjoint:
  "unat i + k \<le> unat j \<or> unat j + l \<le> unat i \<Longrightarrow> unat i + k \<le> 0x400 \<Longrightarrow> unat j + l \<le> 0x400 \<Longrightarrow>
     region (0x10000 + i) k \<inter> region (0x10000 + j) l = {}"
  using region_disjoint_offsets [of "unat i" k "unat j" l "0x10000"] by simp

end
