(* ===== verification/Vring.thy ===== *)
theory Vring
  imports Sample
begin

text \<open>
  The data path of the server, from \<^verbatim>\<open>src/vhost_user.c\<close>: reading a descriptor chain and
  consuming the available ring (\<open>process_desc\<close>, \<open>process_avail_vring\<close>), delivering a packet to
  the guest (\<open>put_vring\<close>, \<open>put_rx_vring\<close>) and the notification (\<open>kick\<close>).  Descriptors and rings
  are read from and written to the address space at the offsets of \<^verbatim>\<open>struct vring_desc\<close>,
  \<^verbatim>\<open>struct vring_avail\<close> and \<^verbatim>\<open>struct vring_used\<close>.  The two loops of the code have no bound of
  their own, so they are partial functions: \<open>None\<close> is a loop that never ends.
\<close>

section \<open>Layout of the rings\<close>

definition desc_at :: "u64 \<Rightarrow> u32 \<Rightarrow> u64" where
  "desc_at desc i = desc + of_nat (16 * unat i)"

definition desc_addr :: "mem \<Rightarrow> u64 \<Rightarrow> u32 \<Rightarrow> u64 exec" where
  "desc_addr m desc i = load64 m (desc_at desc i)"

definition desc_len :: "mem \<Rightarrow> u64 \<Rightarrow> u32 \<Rightarrow> u32 exec" where
  "desc_len m desc i = load32 m (desc_at desc i + 8)"

definition desc_flags :: "mem \<Rightarrow> u64 \<Rightarrow> u32 \<Rightarrow> u16 exec" where
  "desc_flags m desc i = load16 m (desc_at desc i + 12)"

definition desc_next :: "mem \<Rightarrow> u64 \<Rightarrow> u32 \<Rightarrow> u16 exec" where
  "desc_next m desc i = load16 m (desc_at desc i + 14)"

definition avail_idx :: "mem \<Rightarrow> u64 \<Rightarrow> u16 exec" where
  "avail_idx m avail = load16 m (avail + 2)"

definition avail_at :: "u64 \<Rightarrow> u32 \<Rightarrow> u64" where
  "avail_at avail i = avail + of_nat (4 + 2 * unat i)"

definition avail_ring :: "mem \<Rightarrow> u64 \<Rightarrow> u32 \<Rightarrow> u16 exec" where
  "avail_ring m avail i = load16 m (avail_at avail i)"

definition used_idx :: "mem \<Rightarrow> u64 \<Rightarrow> u16 exec" where
  "used_idx m used = load16 m (used + 2)"

definition used_at :: "u64 \<Rightarrow> u32 \<Rightarrow> u64" where
  "used_at used i = used + of_nat (4 + 8 * unat i)"

definition VIRTIO_DESC_F_NEXT :: u16 where
  "VIRTIO_DESC_F_NEXT = 1"

definition VRING_IDX_NONE :: u16 where
  "VRING_IDX_NONE = - 1"

section \<open>Consuming the available ring\<close>

text \<open>\<^verbatim>\<open>handler->map_handler\<close> when it is set, else the address itself.\<close>

definition map_handler :: "proc \<Rightarrow> u64 \<Rightarrow> u64 exec" where
  "map_handler s addr = map_guest_addr (p_memory s) addr"

definition map_desc_addr :: "proc \<Rightarrow> u64 \<Rightarrow> u64 exec" where
  "map_desc_addr s addr =
     (case ph_map_handler (p_handler s) of
        Some MapHandlerServer \<Rightarrow> map_handler s addr
      | None \<Rightarrow> ret addr)"

text \<open>
  The loop of \<open>process_desc\<close>.  \<open>buf\<close> holds the \<^verbatim>\<open>len\<close> bytes copied so far to the array
  \<^verbatim>\<open>uint8_t buf[ETH_PACKET_SIZE]\<close>.  The guard adds two \<^verbatim>\<open>uint32_t\<close>, so it can wrap; the copy
  itself writes \<^verbatim>\<open>cur_len\<close> bytes.
\<close>

partial_function (option) gather :: "proc \<Rightarrow> u64 \<Rightarrow> u32 \<Rightarrow> u8 list \<Rightarrow> u8 list exec" where
  "gather s desc i buf =
     bindE (desc_len (p_mem s) desc i) (\<lambda>cur_len.
     bindE (bindE (desc_addr (p_mem s) desc i) (map_desc_addr s)) (\<lambda>cur.
       if unat (of_nat (length buf) + cur_len) < ETH_PACKET_SIZE
       then bindE (ensure (length buf + unat cur_len \<le> ETH_PACKET_SIZE) Overrun) (\<lambda>_.
            bindE (memcpy_from (p_mem s) cur (unat cur_len)) (\<lambda>bs.
            bindE (desc_flags (p_mem s) desc i) (\<lambda>flags.
              if flags AND VIRTIO_DESC_F_NEXT \<noteq> 0
              then bindE (desc_next (p_mem s) desc i) (\<lambda>nx. gather s desc (ucast nx) (buf @ bs))
              else ret (buf @ bs))))
       else ret buf))"

text \<open>\<^verbatim>\<open>memcpy(vhost_user->buffer, buf, size)\<close>: the destination has \<open>BUFFER_SIZE\<close> bytes.\<close>

definition avail_handler_server :: "u8 list \<Rightarrow> u64 \<Rightarrow> proc \<Rightarrow> proc exec" where
  "avail_handler_server buf n s =
     bindE (ensure (unat n \<le> BUFFER_SIZE) Overrun) (\<lambda>_.
       ret (s\<lparr>p_vu := (p_vu s)\<lparr>vu_buffer := poke 0 (take (unat n) buf) (vu_buffer (p_vu s)),
                               vu_buffer_size := ucast n\<rparr>\<rparr>))"

definition process_desc :: "u32 \<Rightarrow> u32 \<Rightarrow> proc \<Rightarrow> (int \<times> proc) exec" where
  "process_desc v_idx a_idx s =
     bindE (get_vring s (uint v_idx)) (\<lambda>vr.
     bindE (ensure (vr_num vr \<noteq> 0) DivZero) (\<lambda>_.
       let u_idx = ucast (ucast (vr_last_used_idx vr) mod vr_num vr) :: u16 in
     bindE (avail_ring (p_mem s) (vr_avail vr) a_idx) (\<lambda>d_idx.
     bindE (gather s (vr_desc vr) (ucast d_idx) []) (\<lambda>buf.
       let len = of_nat (length buf) :: u32 in
       if len = 0 then ret (-1, s)
       else bindE (store32 (p_mem s) (used_at (vr_used vr) (ucast u_idx)) (ucast d_idx)) (\<lambda>m.
            bindE (store32 m (used_at (vr_used vr) (ucast u_idx) + 4) len) (\<lambda>m.
              let s = s\<lparr>p_mem := m\<rparr> in
              case ph_avail_handler (p_handler s) of
                Some AvailHandlerServer \<Rightarrow>
                  bindE (avail_handler_server (drop HDR_LEN buf) (ucast len - of_nat HDR_LEN) s)
                    (\<lambda>s. ret (0, s))
              | None \<Rightarrow> ret (0, s)))))))"

text \<open>The loop of \<open>process_avail_vring\<close>; \<open>avail\<close> and \<open>num\<close> are read once, before it.\<close>

partial_function (option) process_avail_loop ::
  "u32 \<Rightarrow> u64 \<Rightarrow> u32 \<Rightarrow> u16 \<Rightarrow> u32 \<Rightarrow> proc \<Rightarrow> (u32 \<times> proc) exec" where
  "process_avail_loop v_idx avail num a_idx cnt s =
     bindE (get_vring s (uint v_idx)) (\<lambda>vr.
     bindE (avail_idx (p_mem s) avail) (\<lambda>ai.
       if vr_last_avail_idx vr = ai then ret (cnt, s)
       else bindE (process_desc v_idx (ucast a_idx) s) (\<lambda>r.
            bindE (upd_vring (uint v_idx)
                    (\<lambda>vr. vr\<lparr>vr_last_avail_idx := vr_last_avail_idx vr + 1,
                             vr_last_used_idx := vr_last_used_idx vr + 1\<rparr>) (snd r)) (\<lambda>s.
              process_avail_loop v_idx avail num (ucast ((ucast a_idx + 1) mod num)) (cnt + 1) s))))"

definition process_avail_vring :: "u32 \<Rightarrow> proc \<Rightarrow> (u32 \<times> proc) exec" where
  "process_avail_vring v_idx s =
     bindE (get_vring s (uint v_idx)) (\<lambda>vr.
     bindE (ensure (vr_num vr \<noteq> 0) DivZero) (\<lambda>_.
     bindE (process_avail_loop v_idx (vr_avail vr) (vr_num vr)
             (ucast (ucast (vr_last_avail_idx vr) mod vr_num vr)) 0 s) (\<lambda>(cnt, s).
     bindE (get_vring s (uint v_idx)) (\<lambda>vr'.
     bindE (store16 (p_mem s) (vr_used vr + 2) (vr_last_used_idx vr')) (\<lambda>m.
       ret (cnt, s\<lparr>p_mem := m\<rparr>))))))"

definition poll_avail_vring :: "u32 \<Rightarrow> proc \<Rightarrow> (u32 \<times> proc) exec" where
  "poll_avail_vring idx s =
     bindE (get_vring s (uint idx)) (\<lambda>vr.
       if vr_desc vr \<noteq> 0 then process_avail_vring idx s else ret (0, s))"

section \<open>Specification of the ring\<close>

text \<open>
  \<open>desc_read\<close>: descriptor \<open>i\<close> has this address, length, flags and successor, and lies outside the
  addresses \<open>U\<close> that the server writes.  \<open>desc_chain\<close>: the pieces of the packet that starts at
  descriptor \<open>i\<close>, in the order of the chain; the addresses are translated by \<open>tr\<close>.
\<close>

definition desc_read ::
  "mem \<Rightarrow> u64 set \<Rightarrow> u64 \<Rightarrow> u32 \<Rightarrow> u64 \<Rightarrow> u32 \<Rightarrow> u16 \<Rightarrow> u16 \<Rightarrow> bool" where
  "desc_read m U desc i a l f n \<longleftrightarrow>
     desc_addr m desc i = ret a \<and> desc_len m desc i = ret l \<and> desc_flags m desc i = ret f \<and>
     desc_next m desc i = ret n \<and> region (desc_at desc i) 16 \<inter> U = {}"

inductive desc_chain ::
  "(u64 \<Rightarrow> u64 exec) \<Rightarrow> mem \<Rightarrow> u64 set \<Rightarrow> u64 \<Rightarrow> u32 \<Rightarrow> u8 list list \<Rightarrow> bool"
  for tr :: "u64 \<Rightarrow> u64 exec" and m :: mem and U :: "u64 set" and desc :: u64 where
  last_desc:
    "desc_read m U desc i a l f n \<Longrightarrow> f AND VIRTIO_DESC_F_NEXT = 0 \<Longrightarrow> tr a = ret p \<Longrightarrow>
     memcpy_from m p (unat l) = ret bs \<Longrightarrow> region p (unat l) \<inter> U = {} \<Longrightarrow>
     desc_chain tr m U desc i [bs]"
| next_desc:
    "desc_read m U desc i a l f n \<Longrightarrow> f AND VIRTIO_DESC_F_NEXT \<noteq> 0 \<Longrightarrow> tr a = ret p \<Longrightarrow>
     memcpy_from m p (unat l) = ret bs \<Longrightarrow> region p (unat l) \<inter> U = {} \<Longrightarrow>
     desc_chain tr m U desc (ucast n) cs \<Longrightarrow>
     desc_chain tr m U desc i (bs # cs)"

text \<open>A set of descriptors closed under the successor, none empty and none so long that a sum of
  32-bit lengths can wrap.\<close>

definition sound_chain :: "mem \<Rightarrow> u64 \<Rightarrow> u32 set \<Rightarrow> bool" where
  "sound_chain m desc I \<longleftrightarrow>
     (\<forall>j\<in>I. (\<forall>l. desc_len m desc j = ret l \<longrightarrow> 0 < unat l \<and> unat l < 2 ^ 32 - ETH_PACKET_SIZE) \<and>
            (\<forall>f n. desc_flags m desc j = ret f \<longrightarrow> f AND VIRTIO_DESC_F_NEXT \<noteq> 0 \<longrightarrow>
                   desc_next m desc j = ret n \<longrightarrow> ucast n \<in> I))"

definition in_bounds :: "u8 list exec \<Rightarrow> bool" where
  "in_bounds r \<longleftrightarrow> returns r \<and> r \<noteq> fail Overrun \<and> (\<forall>out. r = ret out \<longrightarrow> length out < ETH_PACKET_SIZE)"

text \<open>The effect of one packet on the server: the frame after the header is in \<^verbatim>\<open>buffer\<close>.\<close>

definition take_pkt :: "u8 list \<Rightarrow> VHostUser \<Rightarrow> VHostUser" where
  "take_pkt pkt u =
     u\<lparr>vu_buffer := poke 0 (drop HDR_LEN pkt) (vu_buffer u),
       vu_buffer_size := of_nat (length pkt - HDR_LEN)\<rparr>"

definition deliver :: "u8 list \<Rightarrow> mem \<Rightarrow> proc \<Rightarrow> proc" where
  "deliver pkt m s = s\<lparr>p_mem := m, p_vu := take_pkt pkt (p_vu s)\<rparr>"

text \<open>The used element of counter value \<open>u\<close>, the whole used ring, and a ring the server can work
  on: a size that divides the range of the 16-bit counters, a mapped used ring and an available
  ring that does not overlap it.\<close>

definition used_slot :: "u64 \<Rightarrow> u32 \<Rightarrow> u16 \<Rightarrow> u64" where
  "used_slot used num u = used + of_nat (4 + 8 * (unat u mod unat num))"

definition used_region :: "Vring \<Rightarrow> u64 set" where
  "used_region vr = region (vr_used vr) (4 + 8 * unat (vr_num vr))"

definition ring_ok :: "mem \<Rightarrow> Vring \<Rightarrow> bool" where
  "ring_ok m vr \<longleftrightarrow>
     vr_num vr \<noteq> 0 \<and> unat (vr_num vr) dvd 2 ^ 16 \<and> used_region vr \<subseteq> dom m \<and>
     region (vr_avail vr) (4 + 2 * unat (vr_num vr)) \<inter> used_region vr = {}"

text \<open>Position \<open>i\<close> of the available ring holds the chain of a packet; \<open>pending\<close>: the packets
  \<open>ps\<close>, each with its head descriptor, are queued from counter value \<open>a\<close> on.\<close>

definition pkt_ready ::
  "(u64 \<Rightarrow> u64 exec) \<Rightarrow> mem \<Rightarrow> Vring \<Rightarrow> nat \<Rightarrow> u16 \<times> u8 list list \<Rightarrow> bool" where
  "pkt_ready tr m vr i p \<longleftrightarrow>
     avail_ring m (vr_avail vr) (of_nat i) = ret (fst p) \<and>
     desc_chain tr m (used_region vr) (vr_desc vr) (ucast (fst p)) (snd p) \<and>
     HDR_LEN \<le> length (concat (snd p)) \<and> length (concat (snd p)) < ETH_PACKET_SIZE"

definition pending ::
  "(u64 \<Rightarrow> u64 exec) \<Rightarrow> mem \<Rightarrow> Vring \<Rightarrow> nat \<Rightarrow> (u16 \<times> u8 list list) list \<Rightarrow> bool" where
  "pending tr m vr a ps \<longleftrightarrow>
     (\<forall>k < length ps. pkt_ready tr m vr ((a + k) mod unat (vr_num vr)) (ps ! k))"

text \<open>The ring, the used elements and the process after \<open>n\<close> packets.\<close>

definition bump :: "nat \<Rightarrow> Vring \<Rightarrow> Vring" where
  "bump n vr = vr\<lparr>vr_last_avail_idx := vr_last_avail_idx vr + of_nat n,
                   vr_last_used_idx := vr_last_used_idx vr + of_nat n\<rparr>"

abbreviation pkts :: "(u16 \<times> u8 list list) list \<Rightarrow> u8 list list" where
  "pkts ps \<equiv> map (\<lambda>p. concat (snd p)) ps"

definition used_entries :: "mem \<Rightarrow> Vring \<Rightarrow> (u16 \<times> u8 list list) list \<Rightarrow> bool" where
  "used_entries m vr ps \<longleftrightarrow>
     (\<forall>k < length ps.
        let slot = used_slot (vr_used vr) (vr_num vr) (vr_last_used_idx vr + of_nat k) in
        load32 m slot = ret (ucast (fst (ps ! k))) \<and>
        load32 m (slot + 4) = ret (of_nat (length (concat (snd (ps ! k))))))"

definition slots :: "Vring \<Rightarrow> nat \<Rightarrow> u64 set" where
  "slots vr n = (\<Union>k<n. region (used_slot (vr_used vr) (vr_num vr) (vr_last_used_idx vr + of_nat k)) 8)"

definition consumed :: "u32 \<Rightarrow> Vring \<Rightarrow> (u16 \<times> u8 list list) list \<Rightarrow> mem \<Rightarrow> proc \<Rightarrow> proc" where
  "consumed v vr ps m s =
     set_vrings ((p_vrings s)[unat v := bump (length ps) vr])
       (s\<lparr>p_mem := m, p_vu := fold take_pkt (pkts ps) (p_vu s)\<rparr>)"

section \<open>Reading a chain\<close>

lemma desc_read_frame:
  assumes "desc_read m U desc i a l f n" and fr: "\<And>x. x \<notin> U \<Longrightarrow> m' x = m x"
  shows "desc_read m' U desc i a l f n"
proof -
  have d: "region (desc_at desc i) 16 \<inter> U = {}" using assms(1) by (simp add: desc_read_def)
  note r = region_disjoint_sub [OF d]
  have "load64 m' (desc_at desc i) = load64 m (desc_at desc i)"
    using r [of 0 8] fr by (intro load_le_frame [where U = U]) simp_all
  moreover have "load32 m' (desc_at desc i + 8) = load32 m (desc_at desc i + 8)"
    using r [of 8 4] fr by (intro load_le_frame [where U = U]) simp_all
  moreover have "load16 m' (desc_at desc i + 12) = load16 m (desc_at desc i + 12)"
    using r [of 12 2] fr by (intro load_le_frame [where U = U]) simp_all
  moreover have "load16 m' (desc_at desc i + 14) = load16 m (desc_at desc i + 14)"
    using r [of 14 2] fr by (intro load_le_frame [where U = U]) simp_all
  ultimately show ?thesis
    using assms(1)
    by (simp add: desc_read_def desc_addr_def desc_len_def desc_flags_def desc_next_def)
qed

lemma desc_chain_frame:
  assumes "desc_chain tr m U desc i cs" and "\<And>x. x \<notin> U \<Longrightarrow> m' x = m x"
  shows "desc_chain tr m' U desc i cs"
  using assms
proof (induction rule: desc_chain.induct)
  case (last_desc i a l f n p bs)
  then show ?case
    by (blast intro: desc_chain.last_desc desc_read_frame memcpy_from_frame)
next
  case (next_desc i a l f n p bs cs)
  then show ?case
    by (blast intro: desc_chain.next_desc desc_read_frame memcpy_from_frame)
qed

lemma gather_step:
  assumes "desc_read (p_mem s) U desc i a l f n" and "map_desc_addr s a = ret p"
    and "memcpy_from (p_mem s) p (unat l) = ret bs" and "length buf + length bs < ETH_PACKET_SIZE"
  shows "gather s desc i buf =
           (if f AND VIRTIO_DESC_F_NEXT \<noteq> 0 then gather s desc (ucast n) (buf @ bs)
            else ret (buf @ bs))"
proof -
  have "unat l = length bs" using assms(3) memcpy_from_length by metis
  moreover from this have "unat (of_nat (length buf) + l) = length buf + unat l"
    using assms(4) by (simp add: unat_word_ariths unat_of_nat ETH_PACKET_SIZE_def)
  ultimately show ?thesis
    using assms by (subst gather.simps) (simp add: desc_read_def)
qed

lemma gather_chain:
  assumes "desc_chain (map_desc_addr s) (p_mem s) U desc i cs"
    and "length buf + length (concat cs) < ETH_PACKET_SIZE"
  shows "gather s desc i buf = ret (buf @ concat cs)"
  using assms
proof (induction arbitrary: buf rule: desc_chain.induct)
  case (last_desc i a l f n p bs)
  then show ?case using gather_step [of s U desc i a l f n p bs buf] by simp
next
  case (next_desc i a l f n p bs cs)
  then show ?case using gather_step [of s U desc i a l f n p bs buf] by simp
qed


lemma add_len_nowrap:
  "n + unat l \<le> ETH_PACKET_SIZE \<Longrightarrow> unat (of_nat n + l :: u32) = n + unat l"
  by (simp add: unat_word_ariths unat_of_nat ETH_PACKET_SIZE_def)

lemma returns_desc [simp]:
  "returns (desc_addr m d i)" "returns (desc_len m d i)" "returns (desc_flags m d i)" "returns (desc_next m d i)"
  by (simp_all add: desc_addr_def desc_len_def desc_flags_def desc_next_def)

lemma desc_no_overrun:
  "desc_addr m d i \<noteq> fail Overrun" "desc_len m d i \<noteq> fail Overrun" "desc_flags m d i \<noteq> fail Overrun"
  "desc_next m d i \<noteq> fail Overrun"
  by (simp_all add: desc_addr_def desc_len_def desc_flags_def desc_next_def load_le_no_overrun)

lemma map_desc_addr_total: "wf_proc s \<Longrightarrow> \<exists>p. map_desc_addr s a = ret p"
  using map_guest_addr_total [of "p_memory s" a]
  by (auto simp: map_desc_addr_def map_handler_def wf_proc_def split: option.splits MapHandler.splits)

lemma guard_bounds:
  fixes l :: u32
  assumes "n < ETH_PACKET_SIZE" and "unat l < 2 ^ 32 - ETH_PACKET_SIZE"
  shows "unat (of_nat n + l) = n + unat l"
  using assms by (simp add: unat_word_ariths unat_of_nat ETH_PACKET_SIZE_def)

lemma in_bounds_ret [simp]: "in_bounds (ret out) \<longleftrightarrow> length out < ETH_PACKET_SIZE"
  by (simp add: in_bounds_def)

lemma in_bounds_bindE:
  "returns f \<Longrightarrow> f \<noteq> fail Overrun \<Longrightarrow> (\<And>a. f = ret a \<Longrightarrow> in_bounds (g a)) \<Longrightarrow> in_bounds (bindE f g)"
  by (cases f rule: exec_cases) (auto simp: returns_def in_bounds_def)

lemma gather_in_bounds:
  assumes wf: "wf_proc s" and sc: "sound_chain (p_mem s) desc I" and "i \<in> I" and "length buf < ETH_PACKET_SIZE"
  shows "in_bounds (gather s desc i buf)"
  using assms(3,4)
proof (induction "ETH_PACKET_SIZE - length buf" arbitrary: i buf rule: less_induct)
  case less
  have step: "in_bounds (gather s desc (ucast n) (buf @ bs))"
    if "desc_len (p_mem s) desc i = ret l" "memcpy_from (p_mem s) p (unat l) = ret bs"
      "length buf + unat l < ETH_PACKET_SIZE" "desc_flags (p_mem s) desc i = ret f"
      "f AND VIRTIO_DESC_F_NEXT \<noteq> 0" "desc_next (p_mem s) desc i = ret n" for l p bs f n
  proof (rule less.hyps)
    have bs: "length bs = unat l" using that(2) by (rule memcpy_from_length)
    have "0 < unat l" using sc less.prems(1) that(1) by (auto simp: sound_chain_def)
    then show "ETH_PACKET_SIZE - length (buf @ bs) < ETH_PACKET_SIZE - length buf"
      using bs that(3) by simp
    show "ucast n \<in> I" using sc less.prems(1) that(4-6) by (auto simp: sound_chain_def)
    show "length (buf @ bs) < ETH_PACKET_SIZE" using bs that(3) by simp
  qed
  have gd: "unat (of_nat (length buf) + l) = length buf + unat l"
    if "desc_len (p_mem s) desc i = ret l" for l
    using sc less.prems that by (intro guard_bounds) (auto simp: sound_chain_def)
  obtain p where p: "map_desc_addr s = (\<lambda>a. ret (p a))"
    using map_desc_addr_total [OF wf] by (metis ext)
  show ?case
    by (subst gather.simps)
      (auto simp: p bindE_assoc desc_no_overrun memcpy_from_no_overrun gd less.prems ensure_def
        intro!: in_bounds_bindE, erule (5) step, auto dest: memcpy_from_length)
qed

lemma gather_diverges:
  assumes "desc_read (p_mem s) U desc i a 0 f n" and "f AND VIRTIO_DESC_F_NEXT \<noteq> 0" and "ucast n = i"
    and "length buf < ETH_PACKET_SIZE" and "map_desc_addr s a = ret p"
  shows "gather s desc i buf = None"
proof (rule ccontr)
  assume "gather s desc i buf \<noteq> None"
  then obtain r where eq: "gather s desc i buf = Some r" by auto
  define P :: "proc \<Rightarrow> u64 \<Rightarrow> u32 \<Rightarrow> u8 list \<Rightarrow> fault + u8 list \<Rightarrow> bool" where
    "P = (\<lambda>s' desc' i' buf' r. \<not> (s' = s \<and> desc' = desc \<and> i' = i \<and> buf' = buf))"
  have "unat (word_of_nat (length buf) + (0 :: u32)) < ETH_PACKET_SIZE"
    using assms(4) by (simp add: unat_of_nat ETH_PACKET_SIZE_def)
  moreover have "memcpy_from (p_mem s) p 0 = ret []" by (simp add: memcpy_from_def)
  ultimately have "P s desc i buf r"
    using assms
    by (intro gather.raw_induct [where P = P, OF _ eq]) (auto simp: P_def desc_read_def, blast)
  then show False by (simp add: P_def)
qed

section \<open>One descriptor chain\<close>

lemma used_at_slot:
  assumes "num \<noteq> 0"
  shows "used_at used (ucast (ucast (ucast (u :: u16) mod num) :: u16)) = used_slot used num u"
proof -
  have "unat (ucast u mod num) = unat u mod unat num"
    by (simp add: unat_mod_distrib)
  moreover have "unat u mod unat num < 2 ^ 16"
    by (rule le_less_trans [OF mod_less_eq_dividend]) (use unsigned_less [of u] in simp)
  ultimately show ?thesis
    by (simp add: used_at_def used_slot_def unat_ucast_small)
qed

lemma process_desc_spec:
  assumes "wf_proc s" and v: "unat v < VHOST_CLIENT_VRING_NUM" and vr: "vr = p_vrings s ! unat v"
    and num: "vr_num vr \<noteq> 0"
    and ah: "ph_avail_handler (p_handler s) = Some AvailHandlerServer"
    and h: "avail_ring (p_mem s) (vr_avail vr) a = ret h"
    and ch: "desc_chain (map_desc_addr s) (p_mem s) U (vr_desc vr) (ucast h) cs"
    and len: "HDR_LEN \<le> length (concat cs)" "length (concat cs) < ETH_PACKET_SIZE"
    and slot: "sl = used_slot (vr_used vr) (vr_num vr) (vr_last_used_idx vr)" "region sl 8 \<subseteq> dom (p_mem s)"
  shows "\<exists>m'. process_desc v a s = ret (0, deliver (concat cs) m' s) \<and>
           (\<forall>x. x \<notin> region sl 8 \<longrightarrow> m' x = p_mem s x) \<and> dom m' = dom (p_mem s) \<and>
           load32 m' sl = ret (ucast h) \<and> load32 m' (sl + 4) = ret (of_nat (length (concat cs)))"
proof -
  define pkt where "pkt = concat cs"
  have len: "HDR_LEN \<le> length pkt" "length pkt < ETH_PACKET_SIZE" using len by (simp_all add: pkt_def)
  define len' where "len' = (of_nat (length pkt) :: u32)"
  have g: "gather s (vr_desc vr) (ucast h) [] = ret pkt"
    using gather_chain [OF ch, of "[]"] len by (simp add: pkt_def)
  have un: "unat len' = length pkt"
    unfolding len'_def using len by (intro unat_of_nat_small) (simp add: ETH_PACKET_SIZE_def)
  then have len0: "len' \<noteq> 0" using len by (auto simp: HDR_LEN_def)
  have sub: "region sl 4 \<subseteq> region sl 8" "region (sl + 4) 4 \<subseteq> region sl 8"
    using region_sub_const [of 0 4 8 sl] region_sub_const [of 4 4 8 sl] by simp_all
  obtain m1 where m1: "store32 (p_mem s) sl (ucast h) = ret m1"
    using store_le_mapped [of sl 4 "p_mem s"] slot sub by blast
  have d1: "dom m1 = dom (p_mem s)" using store_le_dom [OF m1] .
  obtain m2 where m2: "store32 m1 (sl + 4) len' = ret m2"
    using store_le_mapped [of "sl + 4" 4 m1] slot sub d1 by blast
  have fr: "m2 x = p_mem s x" if "x \<notin> region sl 8" for x
  proof -
    have "x \<notin> region sl 4" "x \<notin> region (sl + 4) 4" using that sub by blast+
    then show ?thesis using store_le_frame [OF m1, of x] store_le_frame [OF m2, of x] by simp
  qed
  have "region (sl + 4) 4 \<inter> region sl 4 = {}"
    using region_disjoint_offsets [of 4 4 0 4 sl] by simp
  then have "load32 m2 sl = load32 m1 sl" by (rule load_le_store_le_disjoint [OF m2])
  then have rd: "load32 m2 sl = ret (ucast h)" "load32 m2 (sl + 4) = ret len'"
    using load_store_le [OF m1] load_store_le [OF m2] by simp_all
  define n where "n = (ucast len' - of_nat HDR_LEN :: u64)"
  have n: "unat n = length pkt - HDR_LEN"
    using len un by (simp add: n_def unat_sub word_le_nat_alt HDR_LEN_def)
  then have "ucast n = (of_nat (length pkt - HDR_LEN) :: u32)" by (metis of_nat_unat)
  moreover have "unat n \<le> BUFFER_SIZE" using n len by (simp add: BUFFER_SIZE_def)
  moreover have "take (unat n) (drop HDR_LEN pkt) = drop HDR_LEN pkt" using n by simp
  ultimately have "process_desc v a s = ret (0, deliver pkt m2 s)"
    using v vr num ah h g m1 m2 slot(1) len0 \<open>wf_proc s\<close>
    by (simp add: process_desc_def get_vring_uint used_at_slot avail_handler_server_def deliver_def take_pkt_def
        Let_def len'_def [symmetric] n_def [symmetric])
  moreover have "dom m2 = dom (p_mem s)" using d1 store_le_dom [OF m2] by simp
  ultimately show ?thesis using fr rd by (auto simp: pkt_def len'_def)
qed

section \<open>Frames and disjointness on the rings\<close>

lemma pending_Cons:
  "pending tr m vr a (p # ps) \<longleftrightarrow>
     pkt_ready tr m vr (a mod unat (vr_num vr)) p \<and> pending tr m vr (Suc a) ps"
  by (auto simp: pending_def less_Suc_eq_0_disj nth_Cons')

lemma pending_Nil [simp]: "pending tr m vr a []"
  by (simp add: pending_def)

lemma region_avail_entry:
  fixes num :: u32
  assumes "i < unat num"
  shows "region (avail_at avail (of_nat i)) 2 \<subseteq> region avail (4 + 2 * unat num)"
proof -
  have "unat (of_nat i :: u32) = i"
  proof (rule unat_of_nat_small)
    have "unat num < 2 ^ LENGTH(32)" by (rule unsigned_less)
    with assms show "i < 2 ^ LENGTH(32)" by linarith
  qed
  then show ?thesis using assms by (simp add: avail_at_def region_sub del: of_nat_add of_nat_mult)
qed

lemma ring_num_pos: "ring_ok m vr \<Longrightarrow> 0 < unat (vr_num vr)"
  by (simp add: ring_ok_def unat_gt_0)

lemma ring_num_le: "ring_ok m vr \<Longrightarrow> unat (vr_num vr) \<le> 2 ^ 16"
  by (auto simp: ring_ok_def dest: dvd_imp_le)

lemma pkt_ready_frame:
  assumes "pkt_ready tr m vr i p" and "ring_ok m vr" and "i < unat (vr_num vr)"
    and "\<And>x. x \<notin> used_region vr \<Longrightarrow> m' x = m x"
  shows "pkt_ready tr m' vr i p"
proof -
  have "region (avail_at (vr_avail vr) (of_nat i)) 2 \<inter> used_region vr = {}"
    using assms(2,3) region_avail_entry [of i "vr_num vr" "vr_avail vr"] by (auto simp: ring_ok_def)
  then have "avail_ring m' (vr_avail vr) (of_nat i) = avail_ring m (vr_avail vr) (of_nat i)"
    unfolding avail_ring_def using assms(4) by (rule load_le_frame)
  with assms(1,4) show ?thesis by (auto simp: pkt_ready_def intro: desc_chain_frame)
qed

lemma pending_frame:
  assumes "pending tr m vr a ps" and "ring_ok m vr" and "\<And>x. x \<notin> used_region vr \<Longrightarrow> m' x = m x"
  shows "pending tr m' vr a ps"
  using assms ring_num_pos [OF assms(2)]
  by (auto simp: pending_def intro!: pkt_ready_frame [where m = m and m' = m'])

lemma used_slot_add:
  fixes num :: u32 and u :: u16
  assumes "unat num dvd 2 ^ 16"
  shows "used_slot used num (u + of_nat k) = used + of_nat (4 + 8 * ((unat u + k) mod unat num))"
proof -
  have "unat (u + of_nat k) = (unat u + k) mod 2 ^ 16"
    by (simp add: unat_word_ariths unat_of_nat mod_simps)
  then have "unat (u + of_nat k) mod unat num = (unat u + k) mod unat num"
    using assms by (simp add: mod_mod_cancel)
  then show ?thesis by (simp add: used_slot_def)
qed

lemma used_slot_sub:
  assumes "num \<noteq> 0"
  shows "region (used_slot used num u) 8 \<subseteq> region used (4 + 8 * unat num)"
proof -
  have "unat u mod unat num < unat num" using assms by (simp add: unat_gt_0)
  then show ?thesis unfolding used_slot_def by (intro region_sub) simp
qed

lemma used_slot_disjoint:
  fixes num :: u32 and u :: u16
  assumes "unat num dvd 2 ^ 16" and "0 < k" and "k < unat num" and "num \<noteq> 0"
  shows "region (used_slot used num u) 8 \<inter> region (used_slot used num (u + of_nat k)) 8 = {}"
proof -
  have ne: "(unat u + k) mod unat num \<noteq> unat u mod unat num"
    using assms(2,3) by (metis add_diff_cancel_left' mod_eq_dvd_iff_nat nat_dvd_not_less le_add1)
  have "unat num \<le> 65536" using dvd_imp_le [OF assms(1)] by simp
  moreover have "unat u mod unat num < unat num" "(unat u + k) mod unat num < unat num"
    using assms(4) by (simp_all add: unat_gt_0)
  ultimately have lt: "unat u mod unat num < 65536" "(unat u + k) mod unat num < 65536"
    by linarith+
  then have "4 + 8 * (unat u mod unat num) + 8 \<le> 2 ^ 64"
    "4 + 8 * ((unat u + k) mod unat num) + 8 \<le> 2 ^ 64" by simp_all
  moreover from ne have "4 + 8 * (unat u mod unat num) + 8 \<le> 4 + 8 * ((unat u + k) mod unat num) \<or>
      4 + 8 * ((unat u + k) mod unat num) + 8 \<le> 4 + 8 * (unat u mod unat num)"
    by linarith
  ultimately show ?thesis
    unfolding used_slot_add [OF assms(1)] unfolding used_slot_def
    by (intro region_disjoint_offsets)
qed

lemma take_pkt_simps [simp]:
  "vu_memory (take_pkt pkt u) = vu_memory u" "vu_vring_table (take_pkt pkt u) = vu_vring_table u"
  "vu_fd_list (take_pkt pkt u) = vu_fd_list u" "vu_handlers (take_pkt pkt u) = vu_handlers u"
  by (simp_all add: take_pkt_def)

lemma length_take_pkt:
  "length pkt \<le> BUFFER_SIZE \<Longrightarrow> length (vu_buffer u) = BUFFER_SIZE \<Longrightarrow>
     length (vu_buffer (take_pkt pkt u)) = BUFFER_SIZE"
  by (simp add: take_pkt_def)

lemma deliver_simps [simp]:
  "p_vrings (deliver pkt m s) = p_vrings s" "p_memory (deliver pkt m s) = p_memory s"
  "p_handler (deliver pkt m s) = p_handler s" "p_fd_list (deliver pkt m s) = p_fd_list s"
  "p_mem (deliver pkt m s) = m" "p_io (deliver pkt m s) = p_io s"
  "p_send_lock (deliver pkt m s) = p_send_lock s" "p_vu (deliver pkt m s) = take_pkt pkt (p_vu s)"
  by (simp_all add: deliver_def)

lemma wf_deliver:
  "wf_proc s \<Longrightarrow> length pkt < ETH_PACKET_SIZE \<Longrightarrow> wf_proc (deliver pkt m s)"
  by (simp add: wf_proc_def length_take_pkt BUFFER_SIZE_def)

lemma map_desc_addr_cong:
  "p_memory s = p_memory s' \<Longrightarrow> p_handler s = p_handler s' \<Longrightarrow> map_desc_addr s = map_desc_addr s'"
  by (rule ext) (simp add: map_desc_addr_def map_handler_def split: option.splits MapHandler.splits)

lemma bump_simps [simp]:
  "vr_num (bump n vr) = vr_num vr" "vr_used (bump n vr) = vr_used vr"
  "vr_avail (bump n vr) = vr_avail vr" "vr_desc (bump n vr) = vr_desc vr"
  "vr_last_avail_idx (bump n vr) = vr_last_avail_idx vr + of_nat n"
  "vr_last_used_idx (bump n vr) = vr_last_used_idx vr + of_nat n"
  "bump 0 vr = vr" "bump k (bump n vr) = bump (n + k) vr"
  by (simp_all add: bump_def add.assoc)

lemma bump_layout [simp]:
  "used_region (bump n vr) = used_region vr" "ring_ok m (bump n vr) = ring_ok m vr"
  "pending tr m (bump n vr) a ps = pending tr m vr a ps"
  by (simp_all add: used_region_def ring_ok_def pending_def pkt_ready_def)

lemma slots_Suc:
  "slots vr (Suc n) =
     region (used_slot (vr_used vr) (vr_num vr) (vr_last_used_idx vr)) 8 \<union> slots (bump 1 vr) n"
  unfolding slots_def lessThan_Suc_eq_insert_0 by (simp add: add.assoc)

lemma slots_sub: "vr_num vr \<noteq> 0 \<Longrightarrow> slots vr n \<subseteq> used_region vr"
  unfolding slots_def used_region_def using used_slot_sub by blast

lemma slot_notin_later:
  assumes "ring_ok m vr" and "Suc n \<le> unat (vr_num vr)"
  shows "region (used_slot (vr_used vr) (vr_num vr) (vr_last_used_idx vr)) 8 \<inter> slots (bump 1 vr) n = {}"
proof -
  have "region (used_slot (vr_used vr) (vr_num vr) (vr_last_used_idx vr)) 8 \<inter>
        region (used_slot (vr_used vr) (vr_num vr) (vr_last_used_idx vr + of_nat (Suc k))) 8 = {}"
    if "k < n" for k
    using assms that by (intro used_slot_disjoint) (auto simp: ring_ok_def)
  then show ?thesis by (auto simp: slots_def add.assoc)
qed

lemma avail_idx_frame:
  assumes "ring_ok m vr" and "\<And>x. x \<notin> used_region vr \<Longrightarrow> m' x = m x"
  shows "avail_idx m' (vr_avail vr) = avail_idx m (vr_avail vr)"
proof -
  have "region (vr_avail vr + 2) 2 \<subseteq> region (vr_avail vr) (4 + 2 * unat (vr_num vr))"
    by (rule region_sub_const) simp
  with assms(1) have "region (vr_avail vr + 2) 2 \<inter> used_region vr = {}" by (auto simp: ring_ok_def)
  then show ?thesis unfolding avail_idx_def using assms(2) by (rule load_le_frame)
qed

section \<open>Draining the available ring\<close>

lemma fold_take_pkt_simps [simp]:
  "vu_memory (fold take_pkt ps u) = vu_memory u"
  "vu_vring_table (fold take_pkt ps u) = vu_vring_table u"
  "vu_fd_list (fold take_pkt ps u) = vu_fd_list u" "vu_handlers (fold take_pkt ps u) = vu_handlers u"
  by (induction ps arbitrary: u) simp_all

lemma take_pkt_set_vring_table:
  "take_pkt pkt (u\<lparr>vu_vring_table := t\<rparr>) = (take_pkt pkt u)\<lparr>vu_vring_table := t\<rparr>"
  by (simp add: take_pkt_def)

lemma fold_take_pkt_set_vring_table:
  "fold take_pkt ps (u\<lparr>vu_vring_table := t\<rparr>) = (fold take_pkt ps u)\<lparr>vu_vring_table := t\<rparr>"
  by (induction ps arbitrary: u) (simp_all add: take_pkt_set_vring_table)

lemma consumed_Cons:
  assumes "unat v < length (p_vrings s)" and "vr = p_vrings s ! unat v"
  shows "consumed v (bump 1 vr) ps m'
           (set_vrings ((p_vrings s)[unat v := bump 1 vr]) (deliver (concat (snd p)) m s)) =
         consumed v vr (p # ps) m' s"
  by (simp add: consumed_def set_vrings_def deliver_def fold_take_pkt_set_vring_table)

lemma next_pos:
  fixes num :: u32 and a_idx :: u16
  assumes "unat a_idx = a mod unat num" and "num \<noteq> 0" and "unat num \<le> 2 ^ 16"
  shows "unat (ucast ((ucast a_idx + 1) mod num) :: u16) = Suc a mod unat num"
proof -
  have lt: "unat a_idx < 2 ^ 16" using unsigned_less [of a_idx] by simp
  have "unat (ucast a_idx + 1 :: u32) = Suc (unat a_idx)"
    using lt by (simp add: unat_word_ariths)
  then have eq: "unat ((ucast a_idx + 1) mod num) = Suc a mod unat num"
    using assms(1) by (simp add: unat_mod_distrib mod_Suc_eq)
  moreover have "Suc a mod unat num < unat num" using assms(2) by (simp add: unat_gt_0)
  ultimately have "unat ((ucast a_idx + 1) mod num) < 2 ^ LENGTH(16)" using assms(3) by simp
  then show ?thesis using eq unat_ucast_small by metis
qed

lemma add_of_nat_neq:
  fixes w :: "'a::len word"
  assumes "0 < n" and "n < 2 ^ LENGTH('a)"
  shows "w \<noteq> w + of_nat n"
  using assms by (metis add_cancel_right_right less_irrefl unat_0 unat_of_nat_small)

lemma process_avail_loop_spec:
  assumes "wf_proc s" and v: "unat v < VHOST_CLIENT_VRING_NUM" and "vr = p_vrings s ! unat v"
    and "ring_ok (p_mem s) vr"
    and "ph_avail_handler (p_handler s) = Some AvailHandlerServer"
    and "pending (map_desc_addr s) (p_mem s) vr a ps" and "unat a_idx = a mod unat (vr_num vr)"
    and "length ps \<le> unat (vr_num vr)" "length ps < 2 ^ 16"
    and "avail_idx (p_mem s) (vr_avail vr) = ret (vr_last_avail_idx vr + of_nat (length ps))"
  shows "\<exists>m'. process_avail_loop v (vr_avail vr) (vr_num vr) a_idx cnt s =
                ret (cnt + of_nat (length ps), consumed v vr ps m' s) \<and>
              (\<forall>x. x \<notin> slots vr (length ps) \<longrightarrow> m' x = p_mem s x) \<and> dom m' = dom (p_mem s) \<and>
              used_entries m' vr ps"
  using assms
proof (induction ps arbitrary: s vr a a_idx cnt)
  case Nil
  then have "process_avail_loop v (vr_avail vr) (vr_num vr) a_idx cnt s = ret (cnt, s)"
    by (subst process_avail_loop.simps) (simp add: get_vring_uint)
  moreover have "consumed v vr [] (p_mem s) s = s"
    using Nil.prems(3) by (simp add: consumed_def set_vrings_def)
  ultimately show ?case by (intro exI [of _ "p_mem s"]) (simp add: used_entries_def)
next
  case (Cons p ps)
  define sl where "sl = used_slot (vr_used vr) (vr_num vr) (vr_last_used_idx vr)"
  have num: "vr_num vr \<noteq> 0" using Cons.prems(4) by (simp add: ring_ok_def)
  have slU: "region sl 8 \<subseteq> used_region vr"
    unfolding sl_def used_region_def by (rule used_slot_sub [OF num])
  have rd: "pkt_ready (map_desc_addr s) (p_mem s) vr (a mod unat (vr_num vr)) p"
    and pe: "pending (map_desc_addr s) (p_mem s) vr (Suc a) ps"
    using Cons.prems(6) by (simp_all add: pending_Cons)
  have "word_of_nat (unat a_idx) = (ucast a_idx :: u32)" by (simp add: of_nat_unat)
  then have h: "avail_ring (p_mem s) (vr_avail vr) (ucast a_idx) = ret (fst p)"
    using rd Cons.prems(7) by (simp add: pkt_ready_def)
  have ch: "desc_chain (map_desc_addr s) (p_mem s) (used_region vr) (vr_desc vr) (ucast (fst p)) (snd p)"
    and len: "HDR_LEN \<le> length (concat (snd p))" "length (concat (snd p)) < ETH_PACKET_SIZE"
    using rd by (simp_all add: pkt_ready_def)
  have slD: "region sl 8 \<subseteq> dom (p_mem s)" using slU Cons.prems(4) by (auto simp: ring_ok_def)
  obtain m1 where pd: "process_desc v (ucast a_idx) s = ret (0, deliver (concat (snd p)) m1 s)"
    and fr1: "\<And>x. x \<notin> region sl 8 \<Longrightarrow> m1 x = p_mem s x" and dom1: "dom m1 = dom (p_mem s)"
    and e1: "load32 m1 sl = ret (ucast (fst p))" "load32 m1 (sl + 4) = ret (of_nat (length (concat (snd p))))"
    using process_desc_spec [OF Cons.prems(1,2,3) num Cons.prems(5) h ch len sl_def slD] by blast
  let ?s1 = "deliver (concat (snd p)) m1 s"
  let ?s2 = "set_vrings ((p_vrings s)[unat v := bump 1 vr]) ?s1"
  have wf1: "wf_proc ?s1" using Cons.prems(1) rd by (simp add: wf_deliver pkt_ready_def)
  have vl: "unat v < length (p_vrings s)" using v Cons.prems(1) by (simp add: wf_proc_def)
  have up: "upd_vring (uint v) (\<lambda>vr. vr\<lparr>vr_last_avail_idx := vr_last_avail_idx vr + 1,
      vr_last_used_idx := vr_last_used_idx vr + 1\<rparr>) ?s1 = ret ?s2"
    using wf1 v Cons.prems(3) by (simp add: upd_vring_uint bump_def)
  have frU: "m1 x = p_mem s x" if "x \<notin> used_region vr" for x using that slU fr1 by blast
  have tr: "map_desc_addr ?s2 = map_desc_addr s" by (rule map_desc_addr_cong) simp_all
  have rok: "ring_ok m1 vr" using Cons.prems(4) dom1 by (simp add: ring_ok_def)
  have ai: "avail_idx m1 (vr_avail vr) = ret (vr_last_avail_idx vr + of_nat (Suc (length ps)))"
    using avail_idx_frame [OF Cons.prems(4) frU] Cons.prems(10) by simp
  have nx: "unat (ucast ((ucast a_idx + 1) mod vr_num vr) :: u16) = Suc a mod unat (vr_num vr)"
    using next_pos [OF Cons.prems(7) num ring_num_le [OF Cons.prems(4)]] .
  obtain m' where IH: "process_avail_loop v (vr_avail vr) (vr_num vr)
        (ucast ((ucast a_idx + 1) mod vr_num vr)) (cnt + 1) ?s2 =
        ret (cnt + 1 + of_nat (length ps), consumed v (bump 1 vr) ps m' ?s2)"
    and fr2: "\<And>x. x \<notin> slots (bump 1 vr) (length ps) \<Longrightarrow> m' x = m1 x"
    and dom2: "dom m' = dom m1" and e2: "used_entries m' (bump 1 vr) ps"
    using Cons.IH [of ?s2 "bump 1 vr" "Suc a" "ucast ((ucast a_idx + 1) mod vr_num vr)" "cnt + 1"]
      wf1 v vl rok Cons.prems(5,8,9) pending_frame [OF pe Cons.prems(4) frU] tr nx ai
    by (auto simp: add.assoc)
  have ne: "vr_last_avail_idx vr \<noteq> vr_last_avail_idx vr + of_nat (Suc (length ps))"
    by (rule add_of_nat_neq) (use Cons.prems(9) in simp_all)
  have run: "process_avail_loop v (vr_avail vr) (vr_num vr) a_idx cnt s =
      ret (cnt + of_nat (length (p # ps)), consumed v vr (p # ps) m' s)"
    using Cons.prems(1,2,3,10) ne pd up IH consumed_Cons [OF vl Cons.prems(3), of ps m' p m1]
    by (subst process_avail_loop.simps) (simp add: get_vring_uint add.assoc)
  have dj: "region sl 8 \<inter> slots (bump 1 vr) (length ps) = {}"
    unfolding sl_def using slot_notin_later [OF Cons.prems(4)] Cons.prems(8) by simp
  have "load32 m' sl = load32 m1 sl" "load32 m' (sl + 4) = load32 m1 (sl + 4)"
    using load_le_frame [OF _ fr2, of sl 4] load_le_frame [OF _ fr2, of "sl + 4" 4]
      region_disjoint_sub [OF dj, of 0 4] region_disjoint_sub [OF dj, of 4 4] by simp_all
  then have "used_entries m' vr (p # ps)"
    using e1 e2 by (auto simp: used_entries_def Let_def sl_def less_Suc_eq_0_disj add.assoc)
  moreover have "m' x = p_mem s x" if "x \<notin> slots vr (length (p # ps))" for x
    using that fr1 [of x] fr2 [of x] by (simp add: slots_Suc sl_def)
  ultimately show ?case using run dom1 dom2 by blast
qed

lemma used_slot_misses_idx:
  fixes num :: u32 and u :: u16
  assumes "num \<noteq> 0" and "unat num \<le> 2 ^ 16"
  shows "region (used_slot used num u) 8 \<inter> region (used + 2) 2 = {}"
proof -
  have "unat u mod unat num < unat num" using assms(1) by (simp add: unat_gt_0)
  then have "4 + 8 * (unat u mod unat num) + 8 \<le> 2 ^ 64" using assms(2) by simp
  then show ?thesis
    unfolding used_slot_def
    using region_disjoint_offsets [of "4 + 8 * (unat u mod unat num)" 8 2 2 used] by simp
qed

lemma slots_miss_idx:
  "ring_ok m vr \<Longrightarrow> slots vr n \<inter> region (vr_used vr + 2) 2 = {}"
  using used_slot_misses_idx [of "vr_num vr" "vr_used vr"] ring_num_le [of m vr]
  by (fastforce simp: slots_def ring_ok_def)

lemma used_entries_frame:
  assumes "used_entries m vr ps" and "\<And>x. x \<notin> U \<Longrightarrow> m' x = m x"
    and "slots vr (length ps) \<inter> U = {}"
  shows "used_entries m' vr ps"
  unfolding used_entries_def Let_def
proof (intro allI impI)
  fix k assume k: "k < length ps"
  let ?sl = "used_slot (vr_used vr) (vr_num vr) (vr_last_used_idx vr + of_nat k)"
  have dj: "region ?sl 8 \<inter> U = {}" using assms(3) k by (auto simp: slots_def)
  have "load32 m' ?sl = load32 m ?sl" "load32 m' (?sl + 4) = load32 m (?sl + 4)"
    using load_le_frame [OF _ assms(2), of ?sl 4] load_le_frame [OF _ assms(2), of "?sl + 4" 4]
      region_disjoint_sub [OF dj, of 0 4] region_disjoint_sub [OF dj, of 4 4] by simp_all
  with assms(1) k show "load32 m' ?sl = ret (ucast (fst (ps ! k))) \<and>
      load32 m' (?sl + 4) = ret (of_nat (length (concat (snd (ps ! k)))))"
    by (simp add: used_entries_def Let_def)
qed

lemma first_pos:
  fixes num :: u32 and u :: u16
  shows "num \<noteq> 0 \<Longrightarrow> unat (ucast (ucast u mod num) :: u16) = unat u mod unat num"
proof -
  have "unat u mod unat num < 2 ^ 16"
    by (rule le_less_trans [OF mod_less_eq_dividend]) (use unsigned_less [of u] in simp)
  then show ?thesis by (simp add: unat_ucast_small unat_mod_distrib)
qed

lemma consumed_simps [simp]:
  "p_mem (consumed v vr ps m s) = m"
  "p_vrings (consumed v vr ps m s) = (p_vrings s)[unat v := bump (length ps) vr]"
  "(consumed v vr ps m s)\<lparr>p_mem := m'\<rparr> = consumed v vr ps m' s"
  by (simp_all add: consumed_def set_vrings_def)

lemma wf_fold_take_pkt:
  "length (vu_buffer u) = BUFFER_SIZE \<Longrightarrow> (\<And>p. p \<in> set ps \<Longrightarrow> length p \<le> BUFFER_SIZE) \<Longrightarrow>
     length (vu_buffer (fold take_pkt ps u)) = BUFFER_SIZE"
  by (induction ps arbitrary: u) (simp_all add: length_take_pkt)

lemma pending_len:
  "pending tr m vr a ps \<Longrightarrow> p \<in> set ps \<Longrightarrow> length (concat (snd p)) < ETH_PACKET_SIZE"
  by (induction ps arbitrary: a) (auto simp: pending_Cons pkt_ready_def)

lemma wf_consumed:
  assumes "wf_proc s" and "pending tr m vr a ps"
  shows "wf_proc (consumed v vr ps m' s)"
proof -
  have "length p \<le> BUFFER_SIZE" if "p \<in> set (pkts ps)" for p
    using pending_len [OF assms(2)] that by (fastforce simp: BUFFER_SIZE_def)
  then have "length (vu_buffer (fold take_pkt (pkts ps) (p_vu s))) = BUFFER_SIZE"
    using assms(1) by (intro wf_fold_take_pkt) (simp_all add: wf_proc_def)
  then show ?thesis using assms(1) by (simp add: consumed_def wf_proc_def set_vrings_def)
qed

lemma process_avail_vring_spec:
  assumes "wf_proc s" and v: "unat v < VHOST_CLIENT_VRING_NUM" and "vr = p_vrings s ! unat v"
    and ok: "ring_ok (p_mem s) vr"
    and "ph_avail_handler (p_handler s) = Some AvailHandlerServer"
    and pe: "pending (map_desc_addr s) (p_mem s) vr (unat (vr_last_avail_idx vr)) ps"
    and n: "length ps \<le> unat (vr_num vr)" "length ps < 2 ^ 16"
    and "avail_idx (p_mem s) (vr_avail vr) = ret (vr_last_avail_idx vr + of_nat (length ps))"
  shows "\<exists>m'. process_avail_vring v s = ret (of_nat (length ps), consumed v vr ps m' s) \<and>
              wf_proc (consumed v vr ps m' s) \<and>
              (\<forall>x. x \<notin> used_region vr \<longrightarrow> m' x = p_mem s x) \<and> dom m' = dom (p_mem s) \<and> used_entries m' vr ps \<and>
              used_idx m' (vr_used vr) = ret (vr_last_used_idx vr + of_nat (length ps))"
proof -
  let ?a = "ucast (ucast (vr_last_avail_idx vr) mod vr_num vr) :: u16"
  have num: "vr_num vr \<noteq> 0" using ok by (simp add: ring_ok_def)
  obtain m1 where run: "process_avail_loop v (vr_avail vr) (vr_num vr) ?a 0 s =
        ret (of_nat (length ps), consumed v vr ps m1 s)"
    and fr1: "\<And>x. x \<notin> slots vr (length ps) \<Longrightarrow> m1 x = p_mem s x"
    and dom1: "dom m1 = dom (p_mem s)" and e1: "used_entries m1 vr ps"
    using process_avail_loop_spec [OF assms(1-6) first_pos [OF num] n assms(9), of 0] by auto
  have idx_sub: "region (vr_used vr + 2) 2 \<subseteq> used_region vr"
    unfolding used_region_def by (rule region_sub_const) simp
  then have "region (vr_used vr + 2) 2 \<subseteq> dom m1" using ok dom1 by (auto simp: ring_ok_def)
  then obtain m2 where m2: "store16 m1 (vr_used vr + 2) (vr_last_used_idx vr + of_nat (length ps)) = ret m2"
    using store_le_mapped by blast
  have wf: "wf_proc (consumed v vr ps m s)" for m using wf_consumed [OF assms(1) pe] .
  have "process_avail_vring v s = ret (of_nat (length ps), consumed v vr ps m2 s)"
    using assms(1,2,3) num run m2 wf
    by (simp add: process_avail_vring_def get_vring_uint wf_proc_def)
  moreover have "used_entries m2 vr ps"
    using used_entries_frame [OF e1 store_le_frame [OF m2] slots_miss_idx [OF ok]] .
  moreover have "m2 x = p_mem s x" if "x \<notin> used_region vr" for x
    using subsetD [OF idx_sub, of x] subsetD [OF slots_sub [OF num, of "length ps"], of x] that
      fr1 [of x] store_le_frame [OF m2, of x] by fastforce
  moreover have "used_idx m2 (vr_used vr) = ret (vr_last_used_idx vr + of_nat (length ps))"
    unfolding used_idx_def using load_store_le [OF m2] by simp
  moreover have "dom m2 = dom (p_mem s)" using store_le_dom [OF m2] dom1 by simp
  ultimately show ?thesis using wf by blast
qed

text \<open>
  C2. \<open>process_avail_vring\<close> takes exactly the packets that the guest has queued, in order: when the
  available ring holds \<open>n\<close> chains from the server's counter up to \<^verbatim>\<open>avail->idx\<close>, the call
  returns \<open>n\<close>, each frame went through the packet buffer in turn, both counters advanced by \<open>n\<close>
  modulo \<open>2\<^sup>1\<^sup>6\<close>, the used ring reports head and length of every chain and its index is the new
  counter, and no byte outside the used ring has changed.
\<close>

theorem process_avail_vring_drains:
  assumes "wf_proc s" and v: "unat v < VHOST_CLIENT_VRING_NUM" and "vr = p_vrings s ! unat v"
    and ok: "ring_ok (p_mem s) vr"
    and "ph_avail_handler (p_handler s) = Some AvailHandlerServer"
    and pe: "pending (map_desc_addr s) (p_mem s) vr (unat (vr_last_avail_idx vr)) ps"
    and n: "length ps \<le> unat (vr_num vr)" "length ps < 2 ^ 16"
    and "avail_idx (p_mem s) (vr_avail vr) = ret (vr_last_avail_idx vr + of_nat (length ps))"
  shows "\<exists>m'. process_avail_vring v s = ret (of_nat (length ps), consumed v vr ps m' s) \<and>
              wf_proc (consumed v vr ps m' s) \<and>
              (\<forall>x. x \<notin> used_region vr \<longrightarrow> m' x = p_mem s x) \<and> used_entries m' vr ps \<and>
              used_idx m' (vr_used vr) = ret (vr_last_used_idx vr + of_nat (length ps))"
  using process_avail_vring_spec [OF assms] by blast

section \<open>The sample ring\<close>

lemma sample_ring_ok: "ring_ok sample_mem sample_vring"
  by (simp add: ring_ok_def used_region_def sample_vring_def region_numeral dom_def sample_mem_def region_Suc)

lemma sample_desc0: "desc_read sample_mem (used_region sample_vring) 0x10000 0 0x300 10 1 1"
  by (simp add: desc_read_def used_region_def sample_vring_def desc_addr_def desc_len_def desc_flags_def desc_next_def desc_at_def load_le_def
  sample_mem_def sample_byte_def memory_eval region_Suc)

lemma sample_desc1: "desc_read sample_mem (used_region sample_vring) 0x10000 1 0x310 4 0 0"
  by (simp add: desc_read_def used_region_def sample_vring_def desc_addr_def desc_len_def desc_flags_def desc_next_def desc_at_def load_le_def
  sample_mem_def sample_byte_def memory_eval region_Suc)

lemma sample_map: "a < 0x400 \<Longrightarrow> map_desc_addr sample_proc a = ret (0x10000 + a)"
  by (simp add: map_desc_addr_def map_handler_def map_guest_addr_def sample_memory_def map_guest_addr_from.simps)

lemma sample_chain:
  "desc_chain (map_desc_addr sample_proc) sample_mem (used_region sample_vring) 0x10000 0
     [replicate 10 0, [0xDE, 0xAD, 0xBE, 0xEF]]"
proof -
  have 1: "desc_chain (map_desc_addr sample_proc) sample_mem (used_region sample_vring) 0x10000 1
     [[0xDE, 0xAD, 0xBE, 0xEF]]"
    by (rule last_desc [OF sample_desc1, where p = "0x10310"])
      (simp_all add: VIRTIO_DESC_F_NEXT_def sample_map memcpy_from_def memory_eval sample_mem_def sample_byte_def
         used_region_def sample_vring_def region_Suc)
  show ?thesis
    by (rule next_desc [OF sample_desc0, where p = "0x10300"])
      (use 1 in \<open>simp_all add: VIRTIO_DESC_F_NEXT_def sample_map memcpy_from_def memory_eval sample_mem_def sample_byte_def
         used_region_def sample_vring_def region_Suc replicate_eval\<close>)
qed

lemma sample_pending:
  "pending (map_desc_addr sample_proc) sample_mem sample_vring 0 sample_pkts"
  using sample_chain
  by (simp add: sample_pkts_def pending_Cons pkt_ready_def sample_vring_def HDR_LEN_def ETH_PACKET_SIZE_def
    avail_ring_def avail_at_def load_le_def memory_eval sample_mem_def sample_byte_def)

theorem process_avail_vring_drains_witness:
  "\<exists>m'. process_avail_vring 1 sample_proc = ret (1, consumed 1 sample_vring sample_pkts m' sample_proc) \<and>
     used_idx m' 0x10200 = ret 1"
  using process_avail_vring_drains [OF sample_wf, of 1 sample_vring sample_pkts] sample_ring_ok sample_pending
  by (auto simp: VHOST_CLIENT_VRING_NUM_def sample_vring_def sample_pkts_def avail_idx_def load_le_def
    memory_eval sample_mem_def sample_byte_def)

section \<open>The copy loop\<close>

text \<open>
  C3. Copying a descriptor chain ends and stays inside the packet buffer of
  \<^verbatim>\<open>process_desc\<close>, when no descriptor of the chain is empty or longer than
  \<open>2\<^sup>3\<^sup>2 - ETH_PACKET_SIZE\<close>: the loop returns, it never copies past the buffer, and the packet it
  returns is shorter than \<open>ETH_PACKET_SIZE\<close>.
\<close>

theorem gather_safe:
  assumes "wf_proc s" and "sound_chain (p_mem s) desc I" and "i \<in> I"
  shows "returns (gather s desc i []) \<and> gather s desc i [] \<noteq> fail Overrun \<and>
         (\<forall>out. gather s desc i [] = ret out \<longrightarrow> length out < ETH_PACKET_SIZE)"
  using gather_in_bounds [OF assms, of "[]"] by (simp add: in_bounds_def ETH_PACKET_SIZE_def)

theorem gather_safe_witness:
  "sound_chain sample_mem 0x10000 {0, 1} \<and> returns (gather sample_proc 0x10000 0 [])"
proof -
  have "sound_chain sample_mem 0x10000 {0, 1}"
    using sample_desc0 sample_desc1
    by (simp add: sound_chain_def desc_read_def ETH_PACKET_SIZE_def VIRTIO_DESC_F_NEXT_def)
  then show ?thesis using gather_safe [OF sample_wf, of "0x10000" "{0, 1}" 0] by simp
qed

text \<open>
  C36. The guard of the copy loop adds two 32-bit integers.  A descriptor whose length wraps the sum
  round passes it, and the copy runs past the end of \<^verbatim>\<open>buf\<close>.
\<close>

theorem gather_overruns:
  assumes "desc_read (p_mem s) U desc i addr l f n" and "map_desc_addr s addr = ret p"
    and "length buf < ETH_PACKET_SIZE" and "2 ^ 32 \<le> length buf + unat l"
    and "length buf + unat l < 2 ^ 32 + ETH_PACKET_SIZE"
  shows "gather s desc i buf = fail Overrun"
proof -
  have "unat (of_nat (length buf) + l) = length buf + unat l - 2 ^ 32"
    using assms(3-5) by (simp add: unat_word_ariths unat_of_nat ETH_PACKET_SIZE_def mod_if)
  then have "unat (of_nat (length buf) + l) < ETH_PACKET_SIZE" using assms(4,5) by simp
  moreover have "\<not> length buf + unat l \<le> ETH_PACKET_SIZE" using assms(4) by (simp add: ETH_PACKET_SIZE_def)
  ultimately show ?thesis using assms(1,2) by (subst gather.simps) (simp add: desc_read_def)
qed

theorem gather_overruns_witness:
  "gather sample_wrapping 0x10000 1 (replicate 10 0) = fail Overrun"
proof -
  have "desc_read (p_mem sample_wrapping) {} 0x10000 1 0x310 0xFFFFFFF8 0 0"
    by (simp add: desc_read_def sample_wrapping_def desc_addr_def desc_len_def desc_flags_def desc_next_def
        desc_at_def load_le_def sample_mem_def sample_byte_def memory_eval)
  moreover have "map_desc_addr sample_wrapping 0x310 = ret 0x10310"
    using sample_map [of "0x310"] map_desc_addr_cong [of sample_wrapping sample_proc]
    by (simp add: sample_wrapping_def)
  ultimately show ?thesis
    by (rule gather_overruns) (simp_all add: ETH_PACKET_SIZE_def)
qed

text \<open>
  C37. The copy loop does not end on a descriptor of length zero that is its own successor.
\<close>

theorem gather_never_returns:
  assumes "desc_read (p_mem s) U desc i addr 0 f n" and "f AND VIRTIO_DESC_F_NEXT \<noteq> 0" and "ucast n = i"
    and "map_desc_addr s addr = ret p"
  shows "gather s desc i [] = None"
  using gather_diverges [OF assms(1-3) _ assms(4)] by (simp add: ETH_PACKET_SIZE_def)

theorem gather_never_returns_witness: "gather sample_cyclic 0x10000 0 [] = None"
proof -
  have d: "desc_read (p_mem sample_cyclic) {} 0x10000 0 0x300 0 1 0"
    by (simp add: desc_read_def sample_cyclic_def desc_addr_def desc_len_def desc_flags_def desc_next_def
        desc_at_def load_le_def sample_mem_def sample_byte_def memory_eval)
  have "map_desc_addr sample_cyclic 0x300 = ret 0x10300"
    using sample_map [of "0x300"] map_desc_addr_cong [of sample_cyclic sample_proc]
    by (simp add: sample_cyclic_def)
  then show ?thesis by (intro gather_never_returns [OF d]) (simp_all add: VIRTIO_DESC_F_NEXT_def)
qed

end
