(* ===== verification/Delivery.thy ===== *)
theory Delivery
  imports Vring
begin

text \<open>
  Delivering a packet to the guest, from \<^verbatim>\<open>src/vhost_user.c\<close>: \<open>put_vring\<close>, \<open>put_rx_vring\<close> and
  the notification \<open>kick\<close>.  The two functions are shown to leave the header and the data in the
  guest's buffer, to close and publish the descriptor, and to change no other byte.
\<close>

section \<open>Delivering a packet to the guest\<close>

text \<open>Setting every field of \<^verbatim>\<open>struct virtio_net_hdr\<close> to zero, in the order of the code.\<close>

definition clear_net_hdr :: "mem \<Rightarrow> u64 \<Rightarrow> mem exec" where
  "clear_net_hdr m hdr =
     bindE (store8 m hdr 0) (\<lambda>m.
     bindE (store8 m (hdr + 1) 0) (\<lambda>m.
     bindE (store16 m (hdr + 2) 0) (\<lambda>m.
     bindE (store16 m (hdr + 4) 0) (\<lambda>m.
     bindE (store16 m (hdr + 6) 0) (\<lambda>m.
       store16 m (hdr + 8) 0)))))"

text \<open>The statements that \<open>put_vring\<close> and \<open>put_rx_vring\<close> share: header and data to the buffer,
  then the descriptor is closed and put on the available ring.\<close>

definition put_buffer :: "mem \<Rightarrow> u64 \<Rightarrow> u64 \<Rightarrow> u16 \<Rightarrow> u8 list \<Rightarrow> mem exec" where
  "put_buffer m dest desc a_idx buf =
     bindE (clear_net_hdr m dest) (\<lambda>m.
     bindE (memcpy_to m (dest + of_nat HDR_LEN) buf) (\<lambda>m.
     bindE (store32 m (desc_at desc (ucast a_idx) + 8) (of_nat (HDR_LEN + length buf))) (\<lambda>m.
     bindE (store16 m (desc_at desc (ucast a_idx) + 12) 0) (\<lambda>m.
       store16 m (desc_at desc (ucast a_idx) + 14) VRING_IDX_NONE))))"

definition push_avail :: "mem \<Rightarrow> u64 \<Rightarrow> u32 \<Rightarrow> u16 \<Rightarrow> mem exec" where
  "push_avail m avail num a_idx =
     bindE (avail_idx m avail) (\<lambda>ai.
     bindE (ensure (num \<noteq> 0) DivZero) (\<lambda>_.
     bindE (store16 m (avail_at avail (ucast ai mod num)) a_idx) (\<lambda>m.
     bindE (avail_idx m avail) (\<lambda>ai. store16 m (avail + 2) (ai + 1)))))"

definition push_used :: "mem \<Rightarrow> u64 \<Rightarrow> u32 \<Rightarrow> u16 \<Rightarrow> u32 \<Rightarrow> mem exec" where
  "push_used m used num u_idx len =
     bindE (used_idx m used) (\<lambda>ui.
     bindE (store32 m (used_at used (ucast ui mod num)) (ucast u_idx)) (\<lambda>m.
     bindE (used_idx m used) (\<lambda>ui.
     bindE (store32 m (used_at used (ucast ui mod num) + 4) len) (\<lambda>m.
     bindE (used_idx m used) (\<lambda>ui. store16 m (used + 2) (ui + 1))))))"

text \<open>\<open>sizeof(struct vring_avail)\<close>, the length of the second \<^verbatim>\<open>msync\<close>.\<close>

definition AVAIL_SIZE :: u64 where
  "AVAIL_SIZE = of_nat (4 + 2 * (32 * 1024))"

definition put_vring :: "u32 \<Rightarrow> u8 list \<Rightarrow> proc \<Rightarrow> (int \<times> proc) exec" where
  "put_vring v_idx buf s =
     bindE (get_vring s (uint v_idx)) (\<lambda>vr.
       let desc = vr_desc vr; avail = vr_avail vr; num = vr_num vr; a_idx = vr_last_avail_idx vr in
     bindE (desc_len (p_mem s) desc (ucast a_idx)) (\<lambda>dlen.
       if length buf > unat dlen then ret (-1, s)
       else
       bindE (desc_next (p_mem s) desc (ucast a_idx)) (\<lambda>nx.
       bindE (upd_vring (uint v_idx) (\<lambda>vr. vr\<lparr>vr_last_avail_idx := nx\<rparr>) s) (\<lambda>s.
       bindE (bindE (desc_addr (p_mem s) desc (ucast a_idx)) (map_desc_addr s)) (\<lambda>dest.
       bindE (put_buffer (p_mem s) dest desc a_idx buf) (\<lambda>m.
       bindE (push_avail m avail num a_idx) (\<lambda>m.
         ret (0, emit [IoMsync dest (of_nat (length buf + HDR_LEN)), IoMsyncLocal AVAIL_SIZE]
                   (s\<lparr>p_mem := m\<rparr>)))))))))"

text \<open>The indices of both rings are read to be printed before the length is compared.\<close>

definition put_rx_vring :: "u32 \<Rightarrow> u8 list \<Rightarrow> proc \<Rightarrow> (int \<times> proc) exec" where
  "put_rx_vring v_idx buf s =
     bindE (get_vring s (uint v_idx)) (\<lambda>vr.
       let desc = vr_desc vr; avail = vr_avail vr; used = vr_used vr; num = vr_num vr;
           a_idx = vr_last_avail_idx vr; u_idx = vr_last_used_idx vr in
     bindE (desc_len (p_mem s) desc (ucast a_idx)) (\<lambda>dlen.
     bindE (avail_idx (p_mem s) avail) (\<lambda>_. bindE (used_idx (p_mem s) used) (\<lambda>_.
       if length buf > unat dlen then ret (-1, s)
       else
       bindE (desc_next (p_mem s) desc (ucast a_idx)) (\<lambda>anx.
       bindE (desc_next (p_mem s) desc (ucast u_idx)) (\<lambda>unx.
       bindE (upd_vring (uint v_idx)
               (\<lambda>vr. vr\<lparr>vr_last_avail_idx := anx, vr_last_used_idx := unx\<rparr>) s) (\<lambda>s.
       bindE (bindE (desc_addr (p_mem s) desc (ucast a_idx)) (map_desc_addr s)) (\<lambda>dest.
       bindE (put_buffer (p_mem s) dest desc a_idx buf) (\<lambda>m.
       bindE (push_avail m avail num a_idx) (\<lambda>m.
       bindE (push_used m used num u_idx (of_nat (HDR_LEN + length buf))) (\<lambda>m.
         ret (0, emit [IoMsync dest (of_nat (length buf + HDR_LEN)), IoMsyncLocal AVAIL_SIZE]
                   (s\<lparr>p_mem := m\<rparr>)))))))))))))"

definition kick :: "u32 \<Rightarrow> proc \<Rightarrow> (int \<times> proc) exec" where
  "kick v_idx s =
     bindE (get_vring s (uint v_idx)) (\<lambda>vr.
       let one = le_bytes 8 (1 :: u64) in
       ret (0, emit [IoWrite (vr_kickfd vr) one, IoFsync (vr_kickfd vr),
                     IoWrite (vr_callfd vr) one, IoFsync (vr_callfd vr)] s))"

text \<open>The layout a delivery needs: the buffer at \<open>dest\<close>, the head descriptor and the available
  ring are mapped and do not overlap.\<close>

definition head :: "Vring \<Rightarrow> u64" where
  "head vr = desc_at (vr_desc vr) (ucast (vr_last_avail_idx vr))"

definition avail_region :: "Vring \<Rightarrow> u64 set" where
  "avail_region vr = region (vr_avail vr) (4 + 2 * unat (vr_num vr))"

definition put_ok :: "mem \<Rightarrow> Vring \<Rightarrow> u64 \<Rightarrow> nat \<Rightarrow> bool" where
  "put_ok m vr dest n \<longleftrightarrow>
     vr_num vr \<noteq> 0 \<and> n \<le> 2 ^ 32 \<and>
     region dest n \<subseteq> dom m \<and> region (head vr) 16 \<subseteq> dom m \<and> avail_region vr \<subseteq> dom m \<and>
     region dest n \<inter> region (head vr) 16 = {} \<and> region dest n \<inter> avail_region vr = {} \<and>
     region (head vr) 16 \<inter> avail_region vr = {}"

text \<open>What a delivery of \<open>buf\<close> leaves in memory: a zero header and the data in the guest's buffer,
  a closed descriptor of that length, and the descriptor published on the available ring.\<close>

definition delivered :: "mem \<Rightarrow> Vring \<Rightarrow> u64 \<Rightarrow> u16 \<Rightarrow> u8 list \<Rightarrow> bool" where
  "delivered m vr dest ai buf \<longleftrightarrow>
     (let a = ucast (vr_last_avail_idx vr) in
      memcpy_from m dest (HDR_LEN + length buf) = ret (replicate HDR_LEN 0 @ buf) \<and>
      desc_len m (vr_desc vr) a = ret (of_nat (HDR_LEN + length buf)) \<and>
      desc_flags m (vr_desc vr) a = ret 0 \<and> desc_next m (vr_desc vr) a = ret VRING_IDX_NONE \<and>
      avail_ring m (vr_avail vr) (ucast ai mod vr_num vr) = ret (vr_last_avail_idx vr) \<and>
      avail_idx m (vr_avail vr) = ret (ai + 1))"

section \<open>The steps of a delivery\<close>

lemma clear_net_hdr_ret:
  "clear_net_hdr m hdr = ret m' \<longleftrightarrow> memcpy_to m hdr (replicate HDR_LEN 0) = ret m'"
proof -
  have z: "memcpy_to m hdr (replicate (n + k) 0) = ret m' \<longleftrightarrow>
      (\<exists>m1. memcpy_to m hdr (replicate n 0) = ret m1 \<and> memcpy_to m1 (hdr + of_nat n) (replicate k 0) = ret m')" for n k m'
    by (simp add: replicate_add memcpy_to_append)
  show ?thesis
    unfolding clear_net_hdr_def HDR_LEN_def store_le_def le_bytes_0 bindE_eq_ret
    using z [of 8 2] z [of 6 2] z [of 4 2] z [of 2 2] z [of 1 1] by (auto simp: replicate_eval)
qed

lemma put_buffer_spec:
  assumes dst: "region dest (HDR_LEN + length buf) \<subseteq> dom m" and len: "HDR_LEN + length buf \<le> 2 ^ 32"
    and d: "d = desc_at desc (ucast a_idx)" "region d 16 \<subseteq> dom m"
    and dj: "region dest (HDR_LEN + length buf) \<inter> region d 16 = {}"
  obtains m' where "put_buffer m dest desc a_idx buf = ret m'" and "dom m' = dom m"
    and "memcpy_from m' dest (HDR_LEN + length buf) = ret (replicate HDR_LEN 0 @ buf)"
    and "desc_len m' desc (ucast a_idx) = ret (of_nat (HDR_LEN + length buf))"
    and "desc_flags m' desc (ucast a_idx) = ret 0" and "desc_next m' desc (ucast a_idx) = ret VRING_IDX_NONE"
    and "desc_addr m' desc (ucast a_idx) = desc_addr m desc (ucast a_idx)"
    and "\<And>x. x \<notin> region dest (HDR_LEN + length buf) \<Longrightarrow> x \<notin> region d 16 \<Longrightarrow> m' x = m x"
proof -
  let ?w = "of_nat (HDR_LEN + length buf) :: u32"
  obtain m1 where m1: "memcpy_to m dest (replicate HDR_LEN 0 @ buf) = ret m1"
    using memcpy_to_mapped [of dest "replicate HDR_LEN 0 @ buf" m] dst by auto
  then obtain m0 where m0: "clear_net_hdr m dest = ret m0" "memcpy_to m0 (dest + of_nat HDR_LEN) buf = ret m1"
    by (auto simp: memcpy_to_append clear_net_hdr_ret)
  have d1: "dom m1 = dom m" using memcpy_to_dom [OF m1] .
  have sub: "region (d + 8) 4 \<subseteq> region d 16" "region (d + 12) 2 \<subseteq> region d 16"
    "region (d + 14) 2 \<subseteq> region d 16" "region d 8 \<subseteq> region d 16"
    using region_sub_const [of 8 4 16 d] region_sub_const [of 12 2 16 d] region_sub_const [of 14 2 16 d]
      region_sub_const [of 0 8 16 d] by simp_all
  have off: "region (d + 8) 4 \<inter> region (d + 12) 2 = {}" "region (d + 8) 4 \<inter> region (d + 14) 2 = {}"
    "region (d + 12) 2 \<inter> region (d + 14) 2 = {}" "region d 8 \<inter> region (d + 8) 4 = {}"
    "region d 8 \<inter> region (d + 12) 2 = {}" "region d 8 \<inter> region (d + 14) 2 = {}"
    using region_disjoint_offsets [of 8 4 12 2 d] region_disjoint_offsets [of 8 4 14 2 d]
      region_disjoint_offsets [of 12 2 14 2 d] region_disjoint_offsets [of 0 8 8 4 d]
      region_disjoint_offsets [of 0 8 12 2 d] region_disjoint_offsets [of 0 8 14 2 d] by simp_all
  obtain m2 where m2: "store32 m1 (d + 8) ?w = ret m2" "dom m2 = dom m" "load32 m2 (d + 8) = ret ?w"
    "\<And>x. x \<notin> region (d + 8) 4 \<Longrightarrow> m2 x = m1 x"
    by (rule store_le_step [OF sub(1) d(2) d1, of ?w]) simp_all
  obtain m3 where m3: "store16 m2 (d + 12) 0 = ret m3" "dom m3 = dom m" "load16 m3 (d + 12) = ret 0"
    "\<And>x. x \<notin> region (d + 12) 2 \<Longrightarrow> m3 x = m2 x"
    by (rule store_le_step [OF sub(2) d(2) m2(2), of "0 :: u16"]) simp_all
  obtain m4 where m4: "store16 m3 (d + 14) VRING_IDX_NONE = ret m4" "dom m4 = dom m"
    "load16 m4 (d + 14) = ret VRING_IDX_NONE" "\<And>x. x \<notin> region (d + 14) 2 \<Longrightarrow> m4 x = m3 x"
    by (rule store_le_step [OF sub(3) d(2) m3(2), of VRING_IDX_NONE]) simp_all
  have fr: "m4 x = m1 x" if "x \<notin> region d 16" for x
    using m2(4) [of x] m3(4) [of x] m4(4) [of x] subsetD [OF sub(1), of x] subsetD [OF sub(2), of x]
      subsetD [OF sub(3), of x] that by fastforce
  show thesis
  proof (rule that [of m4])
    show "put_buffer m dest desc a_idx buf = ret m4"
      using m0 m2(1) m3(1) m4(1) by (simp add: put_buffer_def d(1) del: of_nat_add)
    show "dom m4 = dom m" using d1 m2(2) m3(2) m4(2) by simp
    have "memcpy_from m1 dest (HDR_LEN + length buf) = ret (replicate HDR_LEN 0 @ buf)"
      using memcpy_roundtrip [OF m1] len by simp
    then show "memcpy_from m4 dest (HDR_LEN + length buf) = ret (replicate HDR_LEN 0 @ buf)"
      using dj fr by (rule memcpy_from_frame)
    show "desc_len m4 desc (ucast a_idx) = ret ?w"
      using m2(3)
      by (simp add: desc_len_def d(1) [symmetric] load_after_store [OF m3(1) off(1)] load_after_store [OF m4(1) off(2)])
    show "desc_flags m4 desc (ucast a_idx) = ret 0"
      using m3(3)
      by (simp add: desc_flags_def d(1) [symmetric] load_after_store [OF m4(1) off(3)])
    show "desc_next m4 desc (ucast a_idx) = ret VRING_IDX_NONE"
      using m4(3) by (simp add: desc_next_def d(1) [symmetric])
    have "region d 8 \<inter> region dest (HDR_LEN + length buf) = {}" using dj sub(4) by blast
    then have "load64 m1 d = load64 m d"
      using memcpy_to_frame [OF m1] by (intro load_le_frame [where U = "region dest (HDR_LEN + length buf)"]) simp_all
    then show "desc_addr m4 desc (ucast a_idx) = desc_addr m desc (ucast a_idx)"
      by (simp add: desc_addr_def d(1) [symmetric] load_after_store [OF m2(1) off(4)] load_after_store [OF m3(1) off(5)] load_after_store [OF m4(1) off(6)])
    show "m4 x = m x" if "x \<notin> region dest (HDR_LEN + length buf)" "x \<notin> region d 16" for x
      using that fr [of x] memcpy_to_frame [OF m1, of x] by simp
  qed
qed

lemma ring_pos_lt:
  fixes num :: u32 and i :: u16
  assumes "num \<noteq> 0"
  shows "unat (ucast i mod num) < unat num" and "unat (ucast i mod num) < 2 ^ 16"
proof -
  have eq: "unat (ucast i mod num) = unat i mod unat num" by (simp add: unat_mod_distrib)
  show "unat (ucast i mod num) < unat num" unfolding eq using assms by (simp add: unat_gt_0)
  show "unat (ucast i mod num) < 2 ^ 16"
    unfolding eq by (rule le_less_trans [OF mod_less_eq_dividend]) (use unsigned_less [of i] in simp)
qed

lemma push_avail_spec:
  assumes ar: "region avail (4 + 2 * unat num) \<subseteq> dom m" and num: "num \<noteq> 0"
    and ai: "avail_idx m avail = ret ai"
  obtains m' where "push_avail m avail num a_idx = ret m'" and "dom m' = dom m"
    and "avail_ring m' avail (ucast ai mod num) = ret a_idx" and "avail_idx m' avail = ret (ai + 1)"
    and "\<And>x. x \<notin> region avail (4 + 2 * unat num) \<Longrightarrow> m' x = m x"
proof -
  let ?p = "avail_at avail (ucast ai mod num)"
  have lt: "unat (ucast ai mod num) < unat num" "unat (ucast ai mod num) < 65536"
    using ring_pos_lt [OF num, of ai] by simp_all
  have sub: "region ?p 2 \<subseteq> region avail (4 + 2 * unat num)" "region (avail + 2) 2 \<subseteq> region avail (4 + 2 * unat num)"
    using lt(1) region_sub [of "4 + 2 * unat (ucast ai mod num)" 2 "4 + 2 * unat num" avail]
      region_sub_const [of 2 2 "4 + 2 * unat num" avail] by (simp_all add: avail_at_def)
  have dj: "region (avail + 2) 2 \<inter> region ?p 2 = {}"
    using lt(2) region_disjoint_offsets [of 2 2 "4 + 2 * unat (ucast ai mod num)" 2 avail]
    by (simp add: avail_at_def)
  obtain m1 where m1: "store16 m ?p a_idx = ret m1" "dom m1 = dom m" "load16 m1 ?p = ret a_idx"
    "\<And>x. x \<notin> region ?p 2 \<Longrightarrow> m1 x = m x"
    by (rule store_le_step [OF sub(1) ar refl, of a_idx]) simp_all
  have ai1: "avail_idx m1 avail = ret ai"
    using ai
      by (simp add: avail_idx_def load_after_store [OF m1(1) dj])
  obtain m2 where m2: "store16 m1 (avail + 2) (ai + 1) = ret m2" "dom m2 = dom m"
    "load16 m2 (avail + 2) = ret (ai + 1)" "\<And>x. x \<notin> region (avail + 2) 2 \<Longrightarrow> m2 x = m1 x"
    by (rule store_le_step [OF sub(2) ar m1(2), of "ai + 1"]) simp_all
  show thesis
  proof (rule that [of m2])
    show "push_avail m avail num a_idx = ret m2"
      using ai ai1 num m1(1) m2(1) by (simp add: push_avail_def)
    have "region ?p 2 \<inter> region (avail + 2) 2 = {}" using dj by blast
    then show "avail_ring m2 avail (ucast ai mod num) = ret a_idx"
      using m1(3)
      by (simp add: avail_ring_def load_after_store [OF m2(1)])
    show "m2 x = m x" if "x \<notin> region avail (4 + 2 * unat num)" for x
      using subsetD [OF sub(1), of x] subsetD [OF sub(2), of x] that m1(4) [of x] m2(4) [of x] by fastforce
  qed (use m1 m2 in \<open>simp_all add: avail_idx_def\<close>)
qed

lemma push_used_spec:
  assumes ar: "region used (4 + 8 * unat num) \<subseteq> dom m" and num: "num \<noteq> 0"
    and ui: "used_idx m used = ret ui"
  obtains m' where "push_used m used num u_idx len = ret m'" and "dom m' = dom m"
    and "load32 m' (used_at used (ucast ui mod num)) = ret (ucast u_idx)"
    and "load32 m' (used_at used (ucast ui mod num) + 4) = ret len" and "used_idx m' used = ret (ui + 1)"
    and "\<And>x. x \<notin> region used (4 + 8 * unat num) \<Longrightarrow> m' x = m x"
proof -
  let ?p = "used_at used (ucast ui mod num)"
  have lt: "unat (ucast ui mod num) < unat num" "unat (ucast ui mod num) < 65536"
    using ring_pos_lt [OF num, of ui] by simp_all
  have sub8: "region ?p 8 \<subseteq> region used (4 + 8 * unat num)"
    using lt(1) region_sub [of "4 + 8 * unat (ucast ui mod num)" 8 "4 + 8 * unat num" used]
    by (simp add: used_at_def)
  have sub: "region ?p 4 \<subseteq> region ?p 8" "region (?p + 4) 4 \<subseteq> region ?p 8"
    "region (used + 2) 2 \<subseteq> region used (4 + 8 * unat num)"
    using region_sub_const [of 0 4 8 ?p] region_sub_const [of 4 4 8 ?p]
      region_sub_const [of 2 2 "4 + 8 * unat num" used] by simp_all
  have dj8: "region ?p 8 \<inter> region (used + 2) 2 = {}"
    using lt(2) region_disjoint_offsets [of "4 + 8 * unat (ucast ui mod num)" 8 2 2 used]
    by (simp add: used_at_def)
  have dj: "region (used + 2) 2 \<inter> region ?p 4 = {}" "region (used + 2) 2 \<inter> region (?p + 4) 4 = {}"
    "region ?p 4 \<inter> region (?p + 4) 4 = {}"
    using dj8 sub region_disjoint_offsets [of 0 4 4 4 ?p] by auto
  have sub8': "region ?p 8 \<subseteq> dom m" using sub8 ar by blast
  obtain m1 where m1: "store32 m ?p (ucast u_idx) = ret m1" "dom m1 = dom m" "load32 m1 ?p = ret (ucast u_idx)"
    "\<And>x. x \<notin> region ?p 4 \<Longrightarrow> m1 x = m x"
    by (rule store_le_step [OF sub(1) sub8' refl, of "ucast u_idx :: u32"]) simp_all
  have ui1: "used_idx m1 used = ret ui"
    using ui
      by (simp add: used_idx_def load_after_store [OF m1(1) dj(1)])
  obtain m2 where m2: "store32 m1 (?p + 4) len = ret m2" "dom m2 = dom m" "load32 m2 (?p + 4) = ret len"
    "\<And>x. x \<notin> region (?p + 4) 4 \<Longrightarrow> m2 x = m1 x"
    by (rule store_le_step [OF sub(2) sub8' m1(2), of len]) simp_all
  have ui2: "used_idx m2 used = ret ui"
    using ui1
      by (simp add: used_idx_def load_after_store [OF m2(1) dj(2)])
  obtain m3 where m3: "store16 m2 (used + 2) (ui + 1) = ret m3" "dom m3 = dom m"
    "load16 m3 (used + 2) = ret (ui + 1)" "\<And>x. x \<notin> region (used + 2) 2 \<Longrightarrow> m3 x = m2 x"
    by (rule store_le_step [OF sub(3) ar m2(2), of "ui + 1"]) simp_all
  show thesis
  proof (rule that [of m3])
    show "push_used m used num u_idx len = ret m3"
      using ui ui1 ui2 m1(1) m2(1) m3(1) by (simp add: push_used_def)
    have "region ?p 4 \<inter> region (used + 2) 2 = {}" "region (?p + 4) 4 \<inter> region (used + 2) 2 = {}"
      using dj by blast+
    then show "load32 m3 ?p = ret (ucast u_idx)" "load32 m3 (?p + 4) = ret len"
      using m1(3) m2(3)
      by (simp_all add: load_after_store [OF m2(1) dj(3)] load_after_store [OF m3(1)])
    show "m3 x = m x" if "x \<notin> region used (4 + 8 * unat num)" for x
      using subsetD [OF sub(1), of x] subsetD [OF sub(2), of x] subsetD [OF sub(3), of x]
        subsetD [OF sub8, of x] that m1(4) [of x] m2(4) [of x] m3(4) [of x] by fastforce
  qed (use m1 m2 m3 in \<open>simp_all add: used_idx_def\<close>)
qed

lemma region_field:
  "region (d + 8) 4 \<subseteq> region d 16" "region (d + 12) 2 \<subseteq> region d 16" "region (d + 14) 2 \<subseteq> region d 16"
  using region_sub_const [of 8 4 16 d] region_sub_const [of 12 2 16 d] region_sub_const [of 14 2 16 d] by simp_all

lemma put_common:
  assumes ok: "put_ok m vr dest (HDR_LEN + length buf)" and ai: "avail_idx m (vr_avail vr) = ret ai"
  obtains m1 m2 where "put_buffer m dest (vr_desc vr) (vr_last_avail_idx vr) buf = ret m1"
    and "push_avail m1 (vr_avail vr) (vr_num vr) (vr_last_avail_idx vr) = ret m2"
    and "dom m2 = dom m" and "delivered m2 vr dest ai buf"
    and "\<And>x. x \<notin> region dest (HDR_LEN + length buf) \<union> region (head vr) 16 \<union> avail_region vr \<Longrightarrow> m2 x = m x"
proof -
  let ?a = "ucast (vr_last_avail_idx vr) :: u32"
  obtain m1 where pb: "put_buffer m dest (vr_desc vr) (vr_last_avail_idx vr) buf = ret m1" and d1: "dom m1 = dom m"
    and rd: "memcpy_from m1 dest (HDR_LEN + length buf) = ret (replicate HDR_LEN 0 @ buf)"
      "desc_len m1 (vr_desc vr) ?a = ret (of_nat (HDR_LEN + length buf))"
      "desc_flags m1 (vr_desc vr) ?a = ret 0" "desc_next m1 (vr_desc vr) ?a = ret VRING_IDX_NONE"
    and f1: "\<And>x. x \<notin> region dest (HDR_LEN + length buf) \<Longrightarrow> x \<notin> region (head vr) 16 \<Longrightarrow> m1 x = m x"
    by (rule put_buffer_spec [OF _ _ head_def [of vr], of dest buf m]) (use ok in \<open>simp_all add: put_ok_def\<close>)
  let ?U = "region dest (HDR_LEN + length buf) \<union> region (head vr) 16"
  have ard: "avail_region vr \<subseteq> dom m1" using ok d1 by (simp add: put_ok_def)
  have "region (vr_avail vr + 2) 2 \<subseteq> avail_region vr"
    unfolding avail_region_def by (rule region_sub_const) simp
  then have "region (vr_avail vr + 2) 2 \<inter> ?U = {}" using ok by (auto simp: put_ok_def)
  then have "load16 m1 (vr_avail vr + 2) = load16 m (vr_avail vr + 2)"
    by (rule load_le_frame) (simp add: f1)
  then have ai1: "avail_idx m1 (vr_avail vr) = ret ai" using ai by (simp add: avail_idx_def)
  obtain m2 where pa: "push_avail m1 (vr_avail vr) (vr_num vr) (vr_last_avail_idx vr) = ret m2"
    and d2: "dom m2 = dom m1"
    and ra: "avail_ring m2 (vr_avail vr) (ucast ai mod vr_num vr) = ret (vr_last_avail_idx vr)"
      "avail_idx m2 (vr_avail vr) = ret (ai + 1)"
    and f2: "\<And>x. x \<notin> avail_region vr \<Longrightarrow> m2 x = m1 x"
    by (rule push_avail_spec [OF ard [unfolded avail_region_def] _ ai1, of "vr_last_avail_idx vr"])
      (use ok in \<open>simp_all add: put_ok_def avail_region_def\<close>)
  have dj: "region dest (HDR_LEN + length buf) \<inter> avail_region vr = {}"
    "region (head vr + 8) 4 \<inter> avail_region vr = {}" "region (head vr + 12) 2 \<inter> avail_region vr = {}"
    "region (head vr + 14) 2 \<inter> avail_region vr = {}"
    using ok region_field [of "head vr"] by (auto simp: put_ok_def)
  note fr = load_le_frame [where m = m1 and m' = m2, OF _ f2]
  have "delivered m2 vr dest ai buf"
    using memcpy_from_frame [OF rd(1) dj(1) f2] rd(2,3,4) ra
    by (simp add: delivered_def Let_def desc_len_def desc_flags_def desc_next_def head_def [symmetric]
        fr [OF dj(2)] fr [OF dj(3)] fr [OF dj(4)])
  moreover have "m2 x = m x"
    if "x \<notin> region dest (HDR_LEN + length buf) \<union> region (head vr) 16 \<union> avail_region vr" for x
    using that f1 [of x] f2 [of x] by simp
  ultimately show thesis using that pb pa d1 d2 by simp
qed


section \<open>Whole deliveries\<close>

lemma put_vring_spec:
  assumes wf: "wf_proc s" and v: "unat v < VHOST_CLIENT_VRING_NUM" and vr: "vr = p_vrings s ! unat v"
    and dr: "desc_read (p_mem s) {} (vr_desc vr) (ucast (vr_last_avail_idx vr)) addr dlen f nx"
    and fits: "length buf \<le> unat dlen" and tr: "map_desc_addr s addr = ret dest"
    and ok: "put_ok (p_mem s) vr dest (HDR_LEN + length buf)"
    and ai: "avail_idx (p_mem s) (vr_avail vr) = ret ai"
  shows "\<exists>m'. put_vring v buf s =
           ret (0, emit [IoMsync dest (of_nat (length buf + HDR_LEN)), IoMsyncLocal AVAIL_SIZE]
             (set_vrings ((p_vrings s)[unat v := vr\<lparr>vr_last_avail_idx := nx\<rparr>]) (s\<lparr>p_mem := m'\<rparr>))) \<and>
         delivered m' vr dest ai buf \<and>
         (\<forall>x. x \<notin> region dest (HDR_LEN + length buf) \<union> region (head vr) 16 \<union> avail_region vr \<longrightarrow>
              m' x = p_mem s x)"
proof -
  obtain m1 m2 where m: "put_buffer (p_mem s) dest (vr_desc vr) (vr_last_avail_idx vr) buf = ret m1"
    "push_avail m1 (vr_avail vr) (vr_num vr) (vr_last_avail_idx vr) = ret m2"
    "delivered m2 vr dest ai buf"
    "\<And>x. x \<notin> region dest (HDR_LEN + length buf) \<union> region (head vr) 16 \<union> avail_region vr \<Longrightarrow> m2 x = p_mem s x"
    using put_common [OF ok ai] by metis
  let ?s1 = "set_vrings ((p_vrings s)[unat v := vr\<lparr>vr_last_avail_idx := nx\<rparr>]) s"
  have "map_desc_addr ?s1 = map_desc_addr s" by (rule map_desc_addr_cong) simp_all
  then have "put_vring v buf s =
      ret (0, emit [IoMsync dest (of_nat (length buf + HDR_LEN)), IoMsyncLocal AVAIL_SIZE] (?s1\<lparr>p_mem := m2\<rparr>))"
    using wf v vr dr fits tr m(1,2)
    by (simp add: put_vring_def get_vring_uint upd_vring_uint desc_read_def)
  moreover have "?s1\<lparr>p_mem := m2\<rparr> =
      set_vrings ((p_vrings s)[unat v := vr\<lparr>vr_last_avail_idx := nx\<rparr>]) (s\<lparr>p_mem := m2\<rparr>)"
    by (simp add: set_vrings_def)
  ultimately show ?thesis using m(3,4) by auto
qed

text \<open>
  C4. A packet that fits the head descriptor is delivered: \<open>put_vring\<close> returns 0, the guest's
  buffer holds a zero header and the packet, the descriptor is closed with their length and is the
  newest entry of the available ring, the server's head moves to the old successor, and no other
  byte of memory changes.
\<close>

theorem put_vring_delivers:
  assumes wf: "wf_proc s" and v: "unat v < VHOST_CLIENT_VRING_NUM" and vr: "vr = p_vrings s ! unat v"
    and dr: "desc_read (p_mem s) {} (vr_desc vr) (ucast (vr_last_avail_idx vr)) addr dlen f nx"
    and fits: "length buf \<le> unat dlen" and tr: "map_desc_addr s addr = ret dest"
    and ok: "put_ok (p_mem s) vr dest (HDR_LEN + length buf)"
    and ai: "avail_idx (p_mem s) (vr_avail vr) = ret ai"
  shows "\<exists>m'. put_vring v buf s =
           ret (0, emit [IoMsync dest (of_nat (length buf + HDR_LEN)), IoMsyncLocal AVAIL_SIZE]
             (set_vrings ((p_vrings s)[unat v := vr\<lparr>vr_last_avail_idx := nx\<rparr>]) (s\<lparr>p_mem := m'\<rparr>))) \<and>
         delivered m' vr dest ai buf \<and>
         (\<forall>x. x \<notin> region dest (HDR_LEN + length buf) \<union> region (head vr) 16 \<union> avail_region vr \<longrightarrow>
              m' x = p_mem s x)"
  using assms by (rule put_vring_spec)

text \<open>
  A packet longer than the head descriptor is refused with -1 and changes nothing.
\<close>

theorem put_vring_rejects:
  assumes "wf_proc s" and "unat v < VHOST_CLIENT_VRING_NUM" and "vr = p_vrings s ! unat v"
    and "desc_len (p_mem s) (vr_desc vr) (ucast (vr_last_avail_idx vr)) = ret dlen" and "unat dlen < length buf"
    and "avail_idx (p_mem s) (vr_avail vr) = ret ai" and "used_idx (p_mem s) (vr_used vr) = ret ui"
  shows "put_vring v buf s = ret (-1, s) \<and> put_rx_vring v buf s = ret (-1, s)"
  using assms by (simp add: put_vring_def put_rx_vring_def get_vring_uint)

lemma delivered_frame:
  assumes "delivered m vr dest ai buf" and fr: "\<And>x. x \<notin> U \<Longrightarrow> m' x = m x" and "vr_num vr \<noteq> 0"
    and "region dest (HDR_LEN + length buf) \<inter> U = {}" "region (head vr) 16 \<inter> U = {}" "avail_region vr \<inter> U = {}"
  shows "delivered m' vr dest ai buf"
proof -
  let ?p = "avail_at (vr_avail vr) (ucast ai mod vr_num vr)"
  have "region (vr_avail vr + 2) 2 \<subseteq> avail_region vr" "region ?p 2 \<subseteq> avail_region vr"
    using region_sub_const [of 2 2 "4 + 2 * unat (vr_num vr)" "vr_avail vr"] ring_pos_lt(1) [OF assms(3), of ai]
      region_sub [of "4 + 2 * unat (ucast ai mod vr_num vr)" 2 "4 + 2 * unat (vr_num vr)" "vr_avail vr"]
    by (simp_all add: avail_at_def avail_region_def)
  then have "region (head vr + 8) 4 \<inter> U = {}" "region (head vr + 12) 2 \<inter> U = {}"
    "region (head vr + 14) 2 \<inter> U = {}" "region (vr_avail vr + 2) 2 \<inter> U = {}" "region ?p 2 \<inter> U = {}"
    using assms(5,6) region_field [of "head vr"] by blast+
  note dj = this [THEN load_le_frame [where m = m and m' = m', OF _ fr]]
  have "memcpy_from m' dest (HDR_LEN + length buf) = memcpy_from m dest (HDR_LEN + length buf)"
    using assms(4) fr by (intro memcpy_from_cong) blast
  then show ?thesis
    using assms(1)
    by (simp add: delivered_def Let_def desc_len_def desc_flags_def desc_next_def avail_idx_def avail_ring_def
        head_def [symmetric] dj)
qed

lemma put_rx_vring_spec:
  assumes wf: "wf_proc s" and v: "unat v < VHOST_CLIENT_VRING_NUM" and vr: "vr = p_vrings s ! unat v"
    and dr: "desc_read (p_mem s) {} (vr_desc vr) (ucast (vr_last_avail_idx vr)) addr dlen f nx"
    and un: "desc_next (p_mem s) (vr_desc vr) (ucast (vr_last_used_idx vr)) = ret unx"
    and fits: "length buf \<le> unat dlen" and tr: "map_desc_addr s addr = ret dest"
    and ok: "put_ok (p_mem s) vr dest (HDR_LEN + length buf)" and us: "used_region vr \<subseteq> dom (p_mem s)"
    and dj: "region dest (HDR_LEN + length buf) \<inter> used_region vr = {}"
      "region (head vr) 16 \<inter> used_region vr = {}" "avail_region vr \<inter> used_region vr = {}"
    and ai: "avail_idx (p_mem s) (vr_avail vr) = ret ai" and ui: "used_idx (p_mem s) (vr_used vr) = ret ui"
  shows "\<exists>m'. put_rx_vring v buf s =
           ret (0, emit [IoMsync dest (of_nat (length buf + HDR_LEN)), IoMsyncLocal AVAIL_SIZE]
             (set_vrings ((p_vrings s)[unat v := vr\<lparr>vr_last_avail_idx := nx, vr_last_used_idx := unx\<rparr>])
               (s\<lparr>p_mem := m'\<rparr>))) \<and>
         delivered m' vr dest ai buf \<and>
         load32 m' (used_at (vr_used vr) (ucast ui mod vr_num vr)) = ret (ucast (vr_last_used_idx vr)) \<and>
         load32 m' (used_at (vr_used vr) (ucast ui mod vr_num vr) + 4) = ret (of_nat (HDR_LEN + length buf)) \<and>
         used_idx m' (vr_used vr) = ret (ui + 1) \<and>
         (\<forall>x. x \<notin> region dest (HDR_LEN + length buf) \<union> region (head vr) 16 \<union> avail_region vr \<union> used_region vr \<longrightarrow>
              m' x = p_mem s x)"
proof -
  let ?U = "region dest (HDR_LEN + length buf) \<union> region (head vr) 16 \<union> avail_region vr"
  let ?vr' = "vr\<lparr>vr_last_avail_idx := nx, vr_last_used_idx := unx\<rparr>"
  have num: "vr_num vr \<noteq> 0" using ok by (simp add: put_ok_def)
  obtain m1 m2 where m: "put_buffer (p_mem s) dest (vr_desc vr) (vr_last_avail_idx vr) buf = ret m1"
    "push_avail m1 (vr_avail vr) (vr_num vr) (vr_last_avail_idx vr) = ret m2"
    "dom m2 = dom (p_mem s)" "delivered m2 vr dest ai buf" "\<And>x. x \<notin> ?U \<Longrightarrow> m2 x = p_mem s x"
    using put_common [OF ok ai] by metis
  have "region (vr_used vr + 2) 2 \<subseteq> used_region vr"
    unfolding used_region_def by (rule region_sub_const) simp
  then have "region (vr_used vr + 2) 2 \<inter> ?U = {}" using dj by blast
  then have "load16 m2 (vr_used vr + 2) = load16 (p_mem s) (vr_used vr + 2)" using m(5) by (rule load_le_frame)
  then have ui2: "used_idx m2 (vr_used vr) = ret ui" using ui by (simp add: used_idx_def)
  have us2: "region (vr_used vr) (4 + 8 * unat (vr_num vr)) \<subseteq> dom m2" using us m(3) by (simp add: used_region_def)
  obtain m3 where m3: "push_used m2 (vr_used vr) (vr_num vr) (vr_last_used_idx vr) (of_nat (HDR_LEN + length buf)) = ret m3"
    "load32 m3 (used_at (vr_used vr) (ucast ui mod vr_num vr)) = ret (ucast (vr_last_used_idx vr))"
    "load32 m3 (used_at (vr_used vr) (ucast ui mod vr_num vr) + 4) = ret (of_nat (HDR_LEN + length buf))"
    "used_idx m3 (vr_used vr) = ret (ui + 1)" "\<And>x. x \<notin> used_region vr \<Longrightarrow> m3 x = m2 x"
    using push_used_spec [OF us2 num ui2] unfolding used_region_def by metis
  have del: "delivered m3 vr dest ai buf" using delivered_frame [OF m(4) m3(5) num dj] .
  let ?s1 = "set_vrings ((p_vrings s)[unat v := ?vr']) s"
  have "map_desc_addr ?s1 = map_desc_addr s" by (rule map_desc_addr_cong) simp_all
  then have "put_rx_vring v buf s =
      ret (0, emit [IoMsync dest (of_nat (length buf + HDR_LEN)), IoMsyncLocal AVAIL_SIZE] (?s1\<lparr>p_mem := m3\<rparr>))"
    using wf v vr dr un fits tr ai ui m(1,2) m3(1)
    by (simp add: put_rx_vring_def get_vring_uint upd_vring_uint desc_read_def)
  moreover have "?s1\<lparr>p_mem := m3\<rparr> = set_vrings ((p_vrings s)[unat v := ?vr']) (s\<lparr>p_mem := m3\<rparr>)"
    by (simp add: set_vrings_def)
  moreover have "m3 x = p_mem s x" if "x \<notin> ?U \<union> used_region vr" for x
    using that m(5) [of x] m3(5) [of x] by simp
  ultimately show ?thesis using del m3(2-4) by (intro exI [of _ m3]) simp
qed

section \<open>The sample ring\<close>

lemmas sample_eval =
  sample_rx_def sample_mem_def sample_byte_def memory_eval region_Suc load_le_def desc_addr_def desc_len_def
  desc_flags_def desc_next_def desc_at_def avail_idx_def used_idx_def

lemma sample_rx_desc: "desc_read sample_mem {} 0x10040 0 0x380 0x40 2 1"
  by (simp add: desc_read_def sample_eval)

lemma sample_rx_simps:
  "vr_desc sample_rx = 0x10040" "vr_avail sample_rx = 0x10140" "vr_used sample_rx = 0x10240"
  "vr_num sample_rx = 2" "vr_last_avail_idx sample_rx = 0" "vr_last_used_idx sample_rx = 0"
  "avail_idx sample_mem 0x10140 = ret 0" "used_idx sample_mem 0x10240 = ret 0"
  by (simp_all add: sample_eval)

lemma sample_buffer:
  assumes "n \<le> 0x80"
  shows "put_ok sample_mem sample_rx 0x10380 n" "region 0x10380 n \<inter> used_region sample_rx = {}"
  using assms sample_region [of "0x380" n] sample_region [of "0x40" 16] sample_region [of "0x140" 8]
    sample_disjoint [of "0x380" n "0x40" 16] sample_disjoint [of "0x380" n "0x140" 8] sample_disjoint [of "0x40" 16 "0x140" 8]
    sample_disjoint [of "0x380" n "0x240" 20]
  by (simp_all add: put_ok_def head_def desc_at_def avail_region_def used_region_def sample_rx_simps)

lemma sample_put_ok: "put_ok sample_mem sample_rx 0x10380 14"
  by (rule sample_buffer) simp

lemma sample_used:
  "used_region sample_rx \<subseteq> dom sample_mem" "region 0x10380 14 \<inter> used_region sample_rx = {}"
  "region (head sample_rx) 16 \<inter> used_region sample_rx = {}"
  "avail_region sample_rx \<inter> used_region sample_rx = {}"
  "desc_next sample_mem 0x10040 0 = ret 1"
  by (simp_all add: used_region_def head_def avail_region_def sample_eval dom_def)

theorem put_vring_delivers_witness:
  "\<exists>m' s'. put_vring 0 [1, 2, 3, 4] sample_proc = ret (0, s') \<and> delivered m' sample_rx 0x10380 0 [1, 2, 3, 4]"
  using put_vring_delivers [OF sample_wf, of 0 sample_rx "0x380" "0x40" 2 1 "[1, 2, 3, 4]" "0x10380" 0] sample_put_ok
    sample_rx_desc sample_map [of "0x380"]
  by (auto simp: VHOST_CLIENT_VRING_NUM_def HDR_LEN_def sample_rx_simps sample_used)

theorem put_vring_rejects_witness:
  "put_vring 0 (replicate 65 0) sample_proc = ret (-1, sample_proc)"
  using put_vring_rejects [OF sample_wf, of 0 sample_rx "0x40" "replicate 65 0"] sample_rx_desc
  by (simp add: VHOST_CLIENT_VRING_NUM_def sample_rx_simps desc_read_def)

end
