(* ===== verification/Server.thy ===== *)
theory Server
  imports Delivery "HOL-Library.Sublist"
begin

text \<open>
  The control path of the server, from \<^verbatim>\<open>src/vhost_user.c\<close>: the message handlers and their
  dispatch table, the handlers of the descriptor list, one pass of the event loop, the loop-back of
  packets and the start of the program.

  Every system call of the program is answered by a component of \<open>os\<close>, as a function of the calls
  made before it: \<open>os\<close> stands for the kernel and the other side of the socket.  \<open>os_msg\<close> is
  the content of the uninitialised local \<^verbatim>\<open>VHostUserLocalMsg msg\<close> of \<open>receive_sock_server\<close>,
  \<open>os_stray\<close> the answer of \<^verbatim>\<open>FD_ISSET\<close> for a number that no \<^verbatim>\<open>fd_set\<close> holds (such as the -1 of a
  free node), and \<open>os_unset_sock\<close> the uninitialised local \<^verbatim>\<open>sock\<close> of
  \<open>vhost_user_open_socket\<close>.  Output to the terminal is not modelled.
\<close>

section \<open>The environment\<close>

record os =
  os_mmap :: mmap_fn
  os_recvmsg :: "io_event list \<Rightarrow> int \<Rightarrow> recv_answer"
  os_accept :: "io_event list \<Rightarrow> int \<Rightarrow> int"
  os_read :: "io_event list \<Rightarrow> int \<Rightarrow> int"
  os_select :: "io_event list \<Rightarrow> int \<Rightarrow> int set \<Rightarrow> int set \<Rightarrow> int \<times> int set \<times> int set"
  os_socket :: "io_event list \<Rightarrow> int"
  os_bind :: "io_event list \<Rightarrow> int \<Rightarrow> int"
  os_listen :: "io_event list \<Rightarrow> int \<Rightarrow> int"
  os_fcntl :: "io_event list \<Rightarrow> int \<Rightarrow> int"
  os_msg :: "io_event list \<Rightarrow> VHostUserLocalMsg"
  os_stray :: "int \<Rightarrow> int set \<Rightarrow> bool"
  os_unset_sock :: int

type_synonym msg_handler =
  "os \<Rightarrow> VHostUserLocalMsg \<Rightarrow> proc \<Rightarrow> (int \<times> VHostUserLocalMsg \<times> proc) exec"

section \<open>Message handlers\<close>

definition get_features :: msg_handler where
  "get_features os msg s = ret (1, msg, s)"

definition set_features :: msg_handler where
  "set_features os msg s = ret (0, msg, s)"

definition set_owner :: msg_handler where
  "set_owner os msg s = ret (0, msg, s)"

definition reset_owner :: msg_handler where
  "reset_owner os msg s = ret (0, msg, s)"

definition set_mem_table_msg :: msg_handler where
  "set_mem_table_msg os msg s =
     bindE (set_mem_table (os_mmap os) msg (p_memory s, p_mem s)) (\<lambda>(r, M, m).
       ret (r, msg, s\<lparr>p_mem := m, p_vu := (p_vu s)\<lparr>vu_memory := M\<rparr>\<rparr>))"

definition set_log_base :: msg_handler where
  "set_log_base os msg s = ret (0, msg, s)"

definition set_log_fd :: msg_handler where
  "set_log_fd os msg s = ret (0, msg, s)"

text \<open>\<^verbatim>\<open>int idx\<close> takes an unsigned field of the message, and the assertion bounds it from above only.\<close>

definition check_idx :: "int \<Rightarrow> unit exec" where
  "check_idx idx = ensure (idx < int VHOST_CLIENT_VRING_NUM) AssertFail"

definition set_vring_num :: msg_handler where
  "set_vring_num os msg s =
     (let st = msg_state (lm_request msg); idx = int_of_u32 (vs_index st) in
      bindE (check_idx idx) (\<lambda>_.
      bindE (upd_vring idx (\<lambda>vr. vr\<lparr>vr_num := vs_num st\<rparr>) s) (\<lambda>s. ret (0, msg, s))))"

definition set_vring_addr :: msg_handler where
  "set_vring_addr os msg s =
     (let ad = msg_addr (lm_request msg); idx = int_of_u32 (va_index ad) in
      bindE (check_idx idx) (\<lambda>_.
      bindE (map_user_addr (p_memory s) (va_desc_user_addr ad)) (\<lambda>d.
      bindE (upd_vring idx (\<lambda>vr. vr\<lparr>vr_desc := d\<rparr>) s) (\<lambda>s.
      bindE (map_user_addr (p_memory s) (va_avail_user_addr ad)) (\<lambda>a.
      bindE (upd_vring idx (\<lambda>vr. vr\<lparr>vr_avail := a\<rparr>) s) (\<lambda>s.
      bindE (map_user_addr (p_memory s) (va_used_user_addr ad)) (\<lambda>u.
      bindE (upd_vring idx (\<lambda>vr. vr\<lparr>vr_used := u\<rparr>) s) (\<lambda>s.
      bindE (used_idx (p_mem s) u) (\<lambda>i.
      bindE (upd_vring idx (\<lambda>vr. vr\<lparr>vr_last_used_idx := i\<rparr>) s) (\<lambda>s.
        ret (0, msg, s\<lparr>p_send_lock := 1\<rparr>)))))))))))"

definition set_vring_base :: msg_handler where
  "set_vring_base os msg s =
     (let st = msg_state (lm_request msg); idx = int_of_u32 (vs_index st) in
      bindE (check_idx idx) (\<lambda>_.
      bindE (upd_vring idx (\<lambda>vr. vr\<lparr>vr_last_avail_idx := ucast (vs_num st)\<rparr>) s) (\<lambda>s. ret (0, msg, s))))"

text \<open>\<open>MEMB_SIZE(VHostUserMsg, state)\<close>.\<close>

definition STATE_SIZE :: u32 where
  "STATE_SIZE = 8"

definition get_vring_base :: msg_handler where
  "get_vring_base os msg s =
     (let st = msg_state (lm_request msg); idx = int_of_u32 (vs_index st) in
      bindE (check_idx idx) (\<lambda>_.
      bindE (get_vring s idx) (\<lambda>vr.
        let rq = set_state (st\<lparr>vs_num := ucast (vr_last_avail_idx vr)\<rparr>) (lm_request msg) in
        ret (1, msg\<lparr>lm_request := rq\<lparr>msg_size := STATE_SIZE\<rparr>\<rparr>, s))))"

definition VHOST_USER_VRING_IDX_MASK :: u64 where
  "VHOST_USER_VRING_IDX_MASK = 0xff"

definition VHOST_USER_VRING_NOFD_MASK :: u64 where
  "VHOST_USER_VRING_NOFD_MASK = 0x100"

definition set_vring_kick :: msg_handler where
  "set_vring_kick os msg s =
     (let w = msg_u64 (lm_request msg);
          idx = uint (w AND VHOST_USER_VRING_IDX_MASK);
          validfd = (w AND VHOST_USER_VRING_NOFD_MASK) = 0 in
      bindE (check_idx idx) (\<lambda>_.
      if validfd
      then bindE (ensure (lm_fd_num msg = 1) AssertFail) (\<lambda>_.
           bindE (upd_vring idx (\<lambda>vr. vr\<lparr>vr_kickfd := lm_fd msg 0\<rparr>) s) (\<lambda>s.
             let s = (if idx = int VHOST_CLIENT_VRING_IDX_TX
                      then set_fd_list (snd (add_fd_list (p_fd_list s) FD_READ (lm_fd msg 0) VhostUserContext
                                               (Some KickServer))) s
                      else s)
             in ret (0, msg, s\<lparr>p_vu := (p_vu s)\<lparr>vu_is_polling := 0\<rparr>\<rparr>)))
      else ret (0, msg, s\<lparr>p_vu := (p_vu s)\<lparr>vu_is_polling := 1\<rparr>\<rparr>)))"

definition set_vring_call :: msg_handler where
  "set_vring_call os msg s =
     (let w = msg_u64 (lm_request msg);
          idx = uint (w AND VHOST_USER_VRING_IDX_MASK);
          validfd = (w AND VHOST_USER_VRING_NOFD_MASK) = 0 in
      if validfd
      then bindE (upd_vring idx (\<lambda>vr. vr\<lparr>vr_callfd := lm_fd msg 0\<rparr>) s) (\<lambda>s. ret (0, msg, s))
      else ret (0, msg, s))"

definition set_user_echo :: msg_handler where
  "set_user_echo os msg s = ret (0, msg, s)"

definition set_vring_err :: msg_handler where
  "set_vring_err os msg s = ret (0, msg, s)"

text \<open>The array has \<open>VHOST_USER_MAX\<close> elements and sixteen initialisers; the last one is null.\<close>

definition msg_handlers :: "msg_handler option list" where
  "msg_handlers =
     [None, Some get_features, Some set_features, Some set_owner, Some reset_owner,
      Some set_mem_table_msg, Some set_log_base, Some set_log_fd, Some set_vring_num,
      Some set_vring_addr, Some set_vring_base, Some get_vring_base, Some set_vring_kick,
      Some set_vring_call, Some set_vring_err, Some set_user_echo, None]"

definition in_msg_server :: msg_handler where
  "in_msg_server os msg s =
     (let rq = msg_request (lm_request msg) in
      bindE (ensure (request_code VHOST_USER_NONE < rq \<and> rq < request_code VHOST_USER_MAX) AssertFail) (\<lambda>_.
        case msg_handlers ! unat rq of
          Some h \<Rightarrow> h os msg s
        | None \<Rightarrow> ret (0, msg, s)))"

section \<open>Descriptor handlers\<close>

definition receive_sock_server :: "os \<Rightarrow> FdNode \<Rightarrow> proc \<Rightarrow> proc exec" where
  "receive_sock_server os node s =
     (let sock = node_fd node;
          msg = (os_msg os (p_io s))\<lparr>lm_fd_num := of_nat MAX_NREGIONS\<rparr>;
          (r, msg) = vhost_user_receive (os_recvmsg os (p_io s) sock) msg;
          s = emit [IoRecvmsg sock] s;
          s = (if r < 0 then s
               else if r = 0
                    then emit [IoClose sock] (set_fd_list (snd (del_fd_list (p_fd_list s) FD_READ sock)) s)
                    else s)
      in case ah_in_handler (vu_handlers (p_vu s)) of
           Some InMsgServer \<Rightarrow> bindE (in_msg_server os msg s) (\<lambda>(r, msg, s). ret s)
         | None \<Rightarrow> ret s)"

definition accept_sock_server :: "os \<Rightarrow> FdNode \<Rightarrow> proc \<Rightarrow> proc exec" where
  "accept_sock_server os node s =
     (let sock = os_accept os (p_io s) (vu_sock (p_vu s));
          s = emit [IoAccept (vu_sock (p_vu s))] s
      in ret (set_fd_list (snd (add_fd_list (p_fd_list s) FD_READ sock VhostUserContext
                                  (Some ReceiveSockServer))) s))"

definition kick_server :: "os \<Rightarrow> FdNode \<Rightarrow> proc \<Rightarrow> proc exec" where
  "kick_server os node s =
     (let kickfd = node_fd node; r = os_read os (p_io s) kickfd; s = emit [IoRead kickfd] s in
      if r < 0 then ret s
      else if r = 0 then ret (set_fd_list (snd (del_fd_list (p_fd_list s) FD_READ kickfd)) s)
      else bindE (poll_avail_vring (of_nat VHOST_CLIENT_VRING_IDX_TX) s) (\<lambda>(c, s). ret s))"

definition run_handler :: "os \<Rightarrow> FdNode \<Rightarrow> proc \<Rightarrow> proc exec" where
  "run_handler os node s =
     (case node_handler node of
        None \<Rightarrow> ret s
      | Some AcceptSockServer \<Rightarrow> accept_sock_server os node s
      | Some ReceiveSockServer \<Rightarrow> receive_sock_server os node s
      | Some KickServer \<Rightarrow> kick_server os node s)"

section \<open>The event loop\<close>

definition fd_isset :: "os \<Rightarrow> int \<Rightarrow> int set \<Rightarrow> bool" where
  "fd_isset os fd S = (if 0 \<le> fd \<and> fd < FD_SETSIZE then fd \<in> S else os_stray os fd S)"

text \<open>The loop of \<open>process_fd_set\<close>: the handlers change the list while it is walked.\<close>

fun process_fds :: "os \<Rightarrow> FdType \<Rightarrow> int set \<Rightarrow> nat list \<Rightarrow> proc \<Rightarrow> proc exec" where
  "process_fds os t S [] s = ret s"
| "process_fds os t S (i # is) s =
     (let node = fds_of (p_fd_list s) t ! i in
      bindE (if fd_isset os (node_fd node) S then run_handler os node s else ret s)
        (process_fds os t S is))"

definition process_fd_set :: "os \<Rightarrow> FdType \<Rightarrow> int set \<Rightarrow> proc \<Rightarrow> proc exec" where
  "process_fd_set os t S s = process_fds os t S [0..<FD_LIST_SIZE] s"

definition traverse_fd_list :: "os \<Rightarrow> proc \<Rightarrow> proc exec" where
  "traverse_fd_list os s =
     bindE (fd_set_from_fd_list ((p_fd_list s)\<lparr>fl_fdmax := -1\<rparr>) FD_READ) (\<lambda>(R, fl).
     bindE (fd_set_from_fd_list fl FD_WRITE) (\<lambda>(W, fl).
       let s = set_fd_list fl s;
           (r, R', W') = os_select os (p_io s) (fl_fdmax fl + 1) R W;
           s = emit [IoSelect (fl_fdmax fl + 1) R W] s
       in if r = -1 \<or> r = 0 then ret s
          else bindE (process_fd_set os FD_READ R' s) (process_fd_set os FD_WRITE W')))"

definition vhost_user_poll_handler :: "proc \<Rightarrow> proc exec" where
  "vhost_user_poll_handler s =
     bindE (get_vring s (int VHOST_CLIENT_VRING_IDX_RX)) (\<lambda>rx.
       if vr_desc rx \<noteq> 0
       then bindE (poll_avail_vring (of_nat VHOST_CLIENT_VRING_IDX_TX) s) (\<lambda>(c, s).
              let n = unat (vu_buffer_size (p_vu s)) in
              if n \<noteq> 0
              then bindE (ensure (n \<le> length (vu_buffer (p_vu s))) Overrun) (\<lambda>_.
                   bindE (put_vring (of_nat VHOST_CLIENT_VRING_IDX_RX) (take n (vu_buffer (p_vu s))) s) (\<lambda>(r, s).
                   bindE (kick (of_nat VHOST_CLIENT_VRING_IDX_RX) s) (\<lambda>(r, s).
                     ret (s\<lparr>p_vu := (p_vu s)\<lparr>vu_buffer_size := 0\<rparr>\<rparr>))))
              else ret s)
       else ret s)"

definition loop_server :: "os \<Rightarrow> proc \<Rightarrow> proc exec" where
  "loop_server os s =
     bindE (traverse_fd_list os s) (\<lambda>s.
       case ah_poll_handler (vu_handlers (p_vu s)) of
         Some VhostUserPollHandler \<Rightarrow> vhost_user_poll_handler s
       | None \<Rightarrow> ret s)"

section \<open>Start of the program\<close>

definition FD_LIST_SELECT_5 :: u32 where
  "FD_LIST_SELECT_5 = 200"

definition vhost_user_open_socket :: "os \<Rightarrow> proc \<Rightarrow> (int \<times> proc) exec" where
  "vhost_user_open_socket os s =
     (let s = emit [IoUnlink (vu_path (p_vu s))] s;
          fd = os_socket os (p_io s);
          s = emit [IoSocket] (s\<lparr>p_vu := (p_vu s)\<lparr>vu_sock := fd\<rparr>\<rparr>) in
      if fd = -1 then ret (-1, s)
      else
      let r = os_bind os (p_io s) fd; s = emit [IoBind fd (vu_path (p_vu s))] s in
      if r = -1 then ret (-1, s)
      else
      let r = os_listen os (p_io s) fd; s = emit [IoListen fd] s in
      if r = -1 then ret (-1, s)
      else
      let fl = init_fd_list (p_fd_list s) FD_LIST_SELECT_5;
          s = set_fd_list (snd (add_fd_list fl FD_READ fd VhostUserContext (Some AcceptSockServer))) s in
      bindE (ensure (os_fcntl os (p_io s) (os_unset_sock os) = 0) AssertFail) (\<lambda>_.
        ret (os_unset_sock os, s)))"

text \<open>\<open>eagain\<close>: whether \<^verbatim>\<open>errno\<close> is \<^verbatim>\<open>EAGAIN\<close>.\<close>

definition vhost_user_accept :: "os \<Rightarrow> bool \<Rightarrow> int \<Rightarrow> proc \<Rightarrow> (int \<times> proc) exec" where
  "vhost_user_accept os eagain sock s =
     (let newsock = os_accept os (p_io s) sock; s = emit [IoAccept sock] s in
      if newsock = 1 then bindE (ensure eagain AssertFail) (\<lambda>_. ret (newsock, s))
      else bindE (ensure (os_fcntl os (p_io s) newsock = 0) AssertFail) (\<lambda>_. ret (newsock, s)))"

definition fresh_vring :: Vring where
  "fresh_vring =
     \<lparr>vr_kickfd = -1, vr_callfd = -1, vr_desc = 0, vr_avail = 0, vr_used = 0, vr_num = 0,
      vr_last_avail_idx = 0, vr_last_used_idx = 0\<rparr>"

definition vhost_user_handlers :: AppHandlers where
  "vhost_user_handlers =
     \<lparr>ah_context = VhostUserContext, ah_in_handler = Some InMsgServer,
      ah_poll_handler = Some VhostUserPollHandler\<rparr>"

text \<open>The assignments of \<open>main\<close> to the structure it allocated, whose other contents are \<open>u\<close>.\<close>

definition main_init :: "VHostUser \<Rightarrow> VHostUser" where
  "main_init u =
     u\<lparr>vu_vring_table :=
         \<lparr>vt_handler = \<lparr>ph_context = VhostUserContext, ph_avail_handler = Some AvailHandlerServer,
                        ph_map_handler = Some MapHandlerServer\<rparr>,
          vt_vring = replicate VHOST_CLIENT_VRING_NUM fresh_vring\<rparr>,
       vu_memory := (vu_memory u)\<lparr>mt_nregions := 0\<rparr>,
       vu_buffer_size := 0, vu_is_polling := 0, vu_handlers := vhost_user_handlers,
       vu_path := ''/home/amakkar/qemu.sock''\<rparr>"

text \<open>\<open>main\<close> up to \<open>n\<close> passes of its endless loop.\<close>

fun serve :: "os \<Rightarrow> nat \<Rightarrow> proc \<Rightarrow> proc exec" where
  "serve os 0 s = ret s"
| "serve os (Suc n) s = bindE (loop_server os s) (serve os n)"

definition main_server :: "os \<Rightarrow> nat \<Rightarrow> proc \<Rightarrow> proc exec" where
  "main_server os n s =
     bindE (vhost_user_open_socket os (s\<lparr>p_vu := main_init (p_vu s), p_send_lock := 0\<rparr>))
       (\<lambda>(r, s). serve os n s)"

section \<open>Sample messages and a sample environment\<close>

definition sample_msg :: "VHostUserRequest \<Rightarrow> u8 list \<Rightarrow> VHostUserLocalMsg" where
  "sample_msg rq p =
     \<lparr>lm_request = \<lparr>msg_request = request_code rq, msg_flags = 1, msg_size = 8,
                    msg_payload = poke 0 p (replicate PAYLOAD_SIZE 0)\<rparr>,
      lm_fd_num = 0, lm_fds = replicate (4 * MAX_NREGIONS) 0\<rparr>"

definition sample_os :: os where
  "sample_os =
     \<lparr>os_mmap = (\<lambda>fd sz m. None),
      os_recvmsg = (\<lambda>io fd. \<lparr>rv_ret = 0, rv_data = [], rv_trunc = False, rv_cmsg = None\<rparr>),
      os_accept = (\<lambda>io fd. 4), os_read = (\<lambda>io fd. 8), os_select = (\<lambda>io n R W. (0, {}, {})),
      os_socket = (\<lambda>io. 3), os_bind = (\<lambda>io fd. 0), os_listen = (\<lambda>io fd. 0), os_fcntl = (\<lambda>io fd. 0),
      os_msg = (\<lambda>io. sample_msg VHOST_USER_NONE []), os_stray = (\<lambda>fd S. False), os_unset_sock = 0\<rparr>"

definition sample_addr_msg :: VHostUserLocalMsg where
  "sample_addr_msg =
     sample_msg VHOST_USER_SET_VRING_ADDR
       (le_bytes 4 (1 :: u32) @ le_bytes 4 (0 :: u32) @ le_bytes 8 (0x7000 :: u64) @ le_bytes 8 (0x7200 :: u64) @
        le_bytes 8 (0x7100 :: u64) @ le_bytes 8 (0 :: u64))"

text \<open>Arrays have their lengths, the packet in the buffer fits it, the handlers are those that
  \<open>main\<close> installed and the send lock is a flag.\<close>

definition server_inv :: "proc \<Rightarrow> bool" where
  "server_inv s \<longleftrightarrow>
     wf_proc s \<and> unat (vu_buffer_size (p_vu s)) \<le> BUFFER_SIZE \<and>
     vu_handlers (p_vu s) = vhost_user_handlers \<and> p_send_lock s \<in> {0, 1}"

section \<open>Invariants of the event loop\<close>

lemma process_avail_loop_invariant:
  assumes desc: "\<And>v a s r s'. process_desc v a s = ret (r, s') \<Longrightarrow> I s \<Longrightarrow> I s'"
    and upd: "\<And>v f s s'. upd_vring v f s = ret s' \<Longrightarrow> I s \<Longrightarrow> I s'"
    and run: "process_avail_loop v avail num a cnt s = ret (c, s')" and "I s"
  shows "I s'"
proof -
  define P :: "u32 \<Rightarrow> u64 \<Rightarrow> u32 \<Rightarrow> u16 \<Rightarrow> u32 \<Rightarrow> proc \<Rightarrow> fault + u32 \<times> proc \<Rightarrow> bool" where
    "P = (\<lambda>v avail num a cnt s r. \<forall>c s'. Some r = ret (c, s') \<longrightarrow> I s \<longrightarrow> I s')"
  have "P v avail num a cnt s (Inr (c, s'))"
  proof (rule process_avail_loop.raw_induct [where P = P])
    show "process_avail_loop v avail num a cnt s = Some (Inr (c, s'))" using run by (simp add: ret_def)
  next
    fix g v avail num and a :: u16 and cnt s r
    assume IH: "\<And>v avail num a cnt s r. g v avail num a cnt s = Some r \<Longrightarrow> P v avail num a cnt s r"
      and eq: "bindE (get_vring s (uint v)) (\<lambda>vr.
           bindE (avail_idx (p_mem s) avail) (\<lambda>ai.
             if vr_last_avail_idx vr = ai then ret (cnt, s)
             else bindE (process_desc v (ucast a) s) (\<lambda>r.
                  bindE (upd_vring (uint v)
                          (\<lambda>vr. vr\<lparr>vr_last_avail_idx := vr_last_avail_idx vr + 1,
                                   vr_last_used_idx := vr_last_used_idx vr + 1\<rparr>) (snd r)) (\<lambda>s.
                    g v avail num (ucast ((ucast a + 1) mod num)) (cnt + 1) s)))) = Some r"
    have IH': "I s'" if "g v avail num a cnt s = ret (c, s')" "I s" for v avail num a cnt s c s'
      using IH [of v avail num a cnt s "Inr (c, s')"] that by (simp add: P_def ret_def)
    show "P v avail num a cnt s r"
      unfolding P_def eq [symmetric] by (auto split: if_splits elim!: IH' upd desc)
  qed
  with \<open>I s\<close> show ?thesis by (simp add: P_def ret_def)
qed

lemmas msg_handler_defs =
  get_features_def set_features_def set_owner_def reset_owner_def set_log_base_def set_log_fd_def
  set_vring_num_def set_vring_addr_def set_vring_base_def get_vring_base_def set_vring_kick_def
  set_vring_call_def set_user_echo_def set_vring_err_def Let_def

text \<open>
  A property of the process that survives the primitive changes of the program: system calls,
  writes to memory, changes of a ring, of the descriptor list, of the memory table, of the packet
  buffer and of the flags.  Every operation composed of them keeps it, up to whole passes of the
  event loop.
\<close>

locale proc_invariant =
  fixes I :: "proc \<Rightarrow> bool"
  assumes I_emit: "I s \<Longrightarrow> I (emit es s)"
    and I_mem: "I s \<Longrightarrow> I (s\<lparr>p_mem := m\<rparr>)"
    and I_upd: "upd_vring i f s = ret s' \<Longrightarrow> I s \<Longrightarrow> I s'"
    and I_avail: "avail_handler_server buf n s = ret s' \<Longrightarrow> I s \<Longrightarrow> I s'"
    and I_add: "I s \<Longrightarrow> fl = p_fd_list s \<Longrightarrow> I (set_fd_list (snd (add_fd_list fl t fd c h)) s)"
    and I_del: "I s \<Longrightarrow> fl = p_fd_list s \<Longrightarrow> I (set_fd_list (snd (del_fd_list fl t fd)) s)"
    and I_select: "I s \<Longrightarrow> fd_set_from_fd_list ((p_fd_list s)\<lparr>fl_fdmax := -1\<rparr>) FD_READ = ret (R, fl) \<Longrightarrow>
          fd_set_from_fd_list fl FD_WRITE = ret (W, fl') \<Longrightarrow> I (set_fd_list fl' s)"
    and I_table: "set_mem_table_msg os msg s = ret (r, msg', s') \<Longrightarrow> I s \<Longrightarrow> I s'"
    and I_size: "I s \<Longrightarrow> I (s\<lparr>p_vu := (p_vu s)\<lparr>vu_buffer_size := 0\<rparr>\<rparr>)"
    and I_polling: "I s \<Longrightarrow> I (s\<lparr>p_vu := (p_vu s)\<lparr>vu_is_polling := k\<rparr>\<rparr>)"
    and I_lock: "I s \<Longrightarrow> I (s\<lparr>p_send_lock := 1\<rparr>)"
begin

lemma process_desc_inv: "process_desc v a s = ret (r, s') \<Longrightarrow> I s \<Longrightarrow> I s'"
  by (auto simp: process_desc_def Let_def split: if_splits option.splits AvailHandler.splits
      intro!: I_mem elim!: I_avail)

lemma process_avail_vring_inv: "process_avail_vring v s = ret (c, s') \<Longrightarrow> I s \<Longrightarrow> I s'"
  using process_avail_loop_invariant [OF process_desc_inv I_upd]
  by (fastforce simp: process_avail_vring_def intro: I_mem)

lemma poll_avail_vring_inv: "poll_avail_vring v s = ret (c, s') \<Longrightarrow> I s \<Longrightarrow> I s'"
  by (auto simp: poll_avail_vring_def split: if_splits dest: process_avail_vring_inv)

lemma put_vring_inv: "put_vring v buf s = ret (r, s') \<Longrightarrow> I s \<Longrightarrow> I s'"
  by (auto simp: put_vring_def Let_def split: if_splits intro!: I_emit I_mem elim!: I_upd)

lemma put_rx_vring_inv: "put_rx_vring v buf s = ret (r, s') \<Longrightarrow> I s \<Longrightarrow> I s'"
  by (auto simp: put_rx_vring_def Let_def split: if_splits intro!: I_emit I_mem elim!: I_upd)

lemma kick_inv: "kick v s = ret (r, s') \<Longrightarrow> I s \<Longrightarrow> I s'"
  by (auto simp: kick_def Let_def intro!: I_emit)

lemma poll_handler_inv: "vhost_user_poll_handler s = ret s' \<Longrightarrow> I s \<Longrightarrow> I s'"
  by (auto simp: vhost_user_poll_handler_def Let_def split: if_splits
      intro!: I_size elim!: poll_avail_vring_inv put_vring_inv kick_inv)

lemma msg_handlers_inv:
  assumes "Some h \<in> set msg_handlers" and "h os msg s = ret (r, msg', s')" and "I s"
  shows "I s'"
proof -
  have "set_vring_addr os msg s = ret (r, msg', s') \<Longrightarrow> ?thesis"
    using assms(3) by (auto simp: msg_handler_defs intro!: I_lock elim!: I_upd)
  moreover have "set_vring_kick os msg s = ret (r, msg', s') \<Longrightarrow> ?thesis"
    using assms(3)
    by (auto simp: msg_handler_defs split: if_splits intro!: I_polling I_add elim!: I_upd)
  moreover have "set_vring_call os msg s = ret (r, msg', s') \<Longrightarrow> ?thesis"
    using assms(3) by (auto simp: msg_handler_defs split: if_splits elim!: I_upd)
  moreover have "h os msg s = ret (r, msg', s') \<Longrightarrow> ?thesis"
    if "h \<in> {get_features, set_features, set_owner, reset_owner, set_log_base, set_log_fd, set_vring_num,
             set_vring_base, get_vring_base, set_user_echo, set_vring_err}" for h
    using that assms(3) by (auto simp: msg_handler_defs elim!: I_upd)
  ultimately show ?thesis using assms I_table by (auto simp: msg_handlers_def)
qed

lemma in_msg_server_inv:
  assumes "in_msg_server os msg s = ret (r, msg', s')" and "I s"
  shows "I s'"
proof -
  have lt: "unat (msg_request (lm_request msg)) < length msg_handlers"
    if "msg_request (lm_request msg) < 17"
    using that by (simp add: msg_handlers_def word_less_nat_alt)
  show ?thesis
    using assms nth_mem [OF lt] msg_handlers_inv [OF _ _ assms(2)]
    by (auto simp: in_msg_server_def Let_def split: option.splits)
qed

lemma run_handler_inv:
  assumes "run_handler os node s = ret s'" and "I s"
  shows "I s'"
proof -
  have "receive_sock_server os node s = ret s' \<Longrightarrow> ?thesis"
    using assms(2) unfolding receive_sock_server_def Let_def
    by (auto split: prod.splits option.splits InMsgHandler.splits if_splits
        intro!: I_emit I_del elim!: in_msg_server_inv)
  moreover have "accept_sock_server os node s = ret s' \<Longrightarrow> ?thesis"
    using assms(2) by (auto simp: accept_sock_server_def Let_def intro!: I_emit I_add)
  moreover have "kick_server os node s = ret s' \<Longrightarrow> ?thesis"
    using assms(2)
    by (auto simp: kick_server_def Let_def split: if_splits intro!: I_emit I_del elim!: poll_avail_vring_inv)
  ultimately show ?thesis
    using assms by (auto simp: run_handler_def split: option.splits FdHandler.splits)
qed

lemma process_fds_inv: "process_fds os t S is s = ret s' \<Longrightarrow> I s \<Longrightarrow> I s'"
  by (induction "is" arbitrary: s) (auto simp: Let_def split: if_splits dest: run_handler_inv)

lemma traverse_fd_list_inv: "traverse_fd_list os s = ret s' \<Longrightarrow> I s \<Longrightarrow> I s'"
  unfolding traverse_fd_list_def process_fd_set_def Let_def
  by (auto split: prod.splits if_splits intro!: I_emit intro: I_select elim!: process_fds_inv)

lemma loop_server_inv: "loop_server os s = ret s' \<Longrightarrow> I s \<Longrightarrow> I s'"
  by (auto simp: loop_server_def split: option.splits PollHandler.splits elim!: traverse_fd_list_inv poll_handler_inv)

lemma serve_inv: "serve os n s = ret s' \<Longrightarrow> I s \<Longrightarrow> I s'"
  by (induction n arbitrary: s) (auto dest: loop_server_inv)

end

section \<open>The type invariant\<close>

lemma server_inv_fd_list: "server_inv s \<Longrightarrow> wf_fd_list fl \<Longrightarrow> server_inv (set_fd_list fl s)"
  by (simp add: server_inv_def wf_set_fd_list set_fd_list_def wf_proc_def)

lemma server_inv_avail:
  assumes "avail_handler_server buf n s = ret s'" and "server_inv s"
  shows "server_inv s'"
proof -
  have "unat n \<le> BUFFER_SIZE" using assms(1) by (auto simp: avail_handler_server_def)
  moreover from this have "unat (ucast n :: u32) = unat n"
    by (intro unat_ucast_small) (simp add: BUFFER_SIZE_def ETH_PACKET_SIZE_def HDR_LEN_def)
  ultimately show ?thesis
    using assms by (auto simp: avail_handler_server_def server_inv_def wf_proc_def)
qed

lemma server_inv_table:
  assumes "set_mem_table_msg os msg s = ret (r, msg', s')" and "server_inv s"
  shows "server_inv s'"
proof -
  have "wf_memory (p_memory s)" using assms(2) by (simp add: server_inv_def wf_proc_def)
  then show ?thesis
    using assms by (auto simp: set_mem_table_msg_def server_inv_def wf_proc_def elim!: set_mem_table_wf)
qed

lemma fd_set_wf: "fd_set_from_fd_list fl t = ret (S, fl') \<Longrightarrow> wf_fd_list fl \<Longrightarrow> wf_fd_list fl'"
  by (auto simp: fd_set_from_fd_list_def wf_fd_list_def)

lemma server_inv_select:
  assumes "server_inv s" and "fd_set_from_fd_list ((p_fd_list s)\<lparr>fl_fdmax := -1\<rparr>) FD_READ = ret (R, fl)"
    and "fd_set_from_fd_list fl FD_WRITE = ret (W, fl')"
  shows "server_inv (set_fd_list fl' s)"
proof -
  have "wf_fd_list ((p_fd_list s)\<lparr>fl_fdmax := -1\<rparr>)"
    using assms(1) by (simp add: server_inv_def wf_proc_def wf_fd_list_def)
  then show ?thesis using server_inv_fd_list [OF assms(1)] fd_set_wf assms(2,3) by blast
qed

interpretation types: proc_invariant server_inv
proof
  show "server_inv s'" if "upd_vring i f s = ret s'" "server_inv s" for i f s s'
    using that by (auto simp: server_inv_def upd_vring_def)
  show "server_inv (set_fd_list (snd (add_fd_list fl t fd c h)) s)" if "server_inv s" "fl = p_fd_list s" for s fl t fd c h
    using that by (intro server_inv_fd_list) (simp_all add: add_fd_list_wf server_inv_def wf_proc_def)
  show "server_inv (set_fd_list (snd (del_fd_list fl t fd)) s)" if "server_inv s" "fl = p_fd_list s" for s fl t fd
    using that by (intro server_inv_fd_list) (simp_all add: del_fd_list_wf server_inv_def wf_proc_def)
qed (fact server_inv_avail server_inv_table server_inv_select | simp add: server_inv_def wf_proc_def)+

text \<open>The send lock stays open once a ring has been set up, and the record of system calls only
  grows.\<close>

interpretation lock: proc_invariant "\<lambda>s. p_send_lock s = 1"
  by unfold_locales (auto simp: upd_vring_def avail_handler_server_def set_mem_table_msg_def)

interpretation trace: proc_invariant "\<lambda>s. prefix io (p_io s)" for io
  by unfold_locales
    (auto simp: upd_vring_def avail_handler_server_def set_mem_table_msg_def intro: prefix_order.trans prefixI)

lemma open_socket_types: "vhost_user_open_socket os s = ret (r, s') \<Longrightarrow> server_inv s \<Longrightarrow> server_inv s'"
  by (auto simp: vhost_user_open_socket_def Let_def server_inv_def wf_proc_def add_fd_list_wf set_fd_list_def split: if_splits)

text \<open>
  C9. Whatever the kernel and the other side of the socket answer, every state the server reaches
  satisfies the type invariant.
\<close>

theorem main_server_inv:
  assumes "main_server os n s = ret s'"
    and "length (mt_regions (p_memory s)) = MAX_NREGIONS" and "length (vu_buffer (p_vu s)) = BUFFER_SIZE"
    and "wf_fd_list (p_fd_list s)"
  shows "server_inv s'"
proof -
  have "server_inv (s\<lparr>p_vu := main_init (p_vu s), p_send_lock := 0\<rparr>)"
    using assms(2-4) by (simp add: server_inv_def main_init_def wf_proc_def wf_memory_def)
  with assms(1) show ?thesis by (auto simp: main_server_def dest: open_socket_types types.serve_inv)
qed

section \<open>What the handlers do\<close>

lemma handler_of_request:
  "msg_handlers ! 10 = Some set_vring_base"
  "msg_handlers ! 11 = Some get_vring_base"
  "msg_handlers ! 8 = Some set_vring_num"
  "msg_handlers ! 9 = Some set_vring_addr"
  "msg_handlers ! 5 = Some set_mem_table_msg"
  "msg_handlers ! 12 = Some set_vring_kick"
  "msg_handlers ! 13 = Some set_vring_call"
  by (simp_all add: msg_handlers_def)

lemma in_msg_server_dispatch:
  assumes "msg_request (lm_request msg) = request_code rq" and "rq \<noteq> VHOST_USER_NONE" and "rq \<noteq> VHOST_USER_MAX"
  shows "in_msg_server os msg s =
           (case msg_handlers ! unat (request_code rq) of Some h \<Rightarrow> h os msg s | None \<Rightarrow> ret (0, msg, s))"
proof -
  have "request_code VHOST_USER_NONE < request_code rq \<and> request_code rq < request_code VHOST_USER_MAX"
    using assms(2,3) by (cases rq) simp_all
  then show ?thesis using assms(1) by (simp add: in_msg_server_def Let_def)
qed

lemma vring_idx:
  fixes i :: u32
  assumes "unat i < VHOST_CLIENT_VRING_NUM"
  shows "int_of_u32 i = uint i" and "check_idx (uint i) = ret ()"
proof -
  have "unat i < 2 ^ 31" using assms by (simp add: VHOST_CLIENT_VRING_NUM_def)
  then show "int_of_u32 i = uint i" by (simp add: int_of_u32_small)
  have "int (unat i) < int VHOST_CLIENT_VRING_NUM" using assms by (simp only: of_nat_less_iff)
  then have "uint i < int VHOST_CLIENT_VRING_NUM" by simp
  then show "check_idx (uint i) = ret ()" by (simp add: check_idx_def ensure_def)
qed

lemma msg_state_size [simp]: "msg_state (m\<lparr>msg_size := k\<rparr>) = msg_state m"
  by (simp add: msg_state_def)

lemma state_with_num: "st\<lparr>vs_num := n\<rparr> = \<lparr>vs_index = vs_index st, vs_num = n\<rparr>"
  by (cases st) simp

text \<open>
  \<open>SET_VRING_BASE\<close> followed by \<open>GET_VRING_BASE\<close> for one ring answers with the base that was
  set, as a 16-bit counter, and asks for a reply of the size of a ring state.
\<close>

theorem vring_base_roundtrip:
  assumes wf: "wf_proc s" and i: "unat i < VHOST_CLIENT_VRING_NUM"
    and rq: "msg_request (lm_request m1) = request_code VHOST_USER_SET_VRING_BASE"
      "msg_request (lm_request m2) = request_code VHOST_USER_GET_VRING_BASE"
    and st: "msg_state (lm_request m1) = \<lparr>vs_index = i, vs_num = n\<rparr>" "vs_index (msg_state (lm_request m2)) = i"
    and wm: "wf_local_msg m2"
  shows "\<exists>s' m'. in_msg_server os m1 s = ret (0, m1, s') \<and> in_msg_server os m2 s' = ret (1, m', s') \<and>
           msg_state (lm_request m') = \<lparr>vs_index = i, vs_num = n mod 2 ^ 16\<rparr> \<and> msg_size (lm_request m') = STATE_SIZE"
proof -
  let ?s' = "set_vrings ((p_vrings s)[unat i := (p_vrings s ! unat i)\<lparr>vr_last_avail_idx := ucast n\<rparr>]) s"
  have wf': "wf_proc ?s'" using wf by simp
  have lt: "unat i < length (p_vrings s)" using wf i by (simp add: wf_proc_def)
  have "ucast (ucast n :: u16) = n mod 2 ^ 16" 
    by (simp add: word_unat_eq_iff unat_mod_distrib unsigned_ucast_eq take_bit_eq_mod)
  with wf i st wm lt wf' show ?thesis
    by (simp add: in_msg_server_dispatch [OF rq(1)] in_msg_server_dispatch [OF rq(2)] handler_of_request set_vring_base_def get_vring_base_def
        vring_idx upd_vring_uint get_vring_uint wf_local_msg_def msg_state_set_state state_with_num)
qed

text \<open>
  C38. The ring index of a message is stored in an \<^verbatim>\<open>int\<close> that is only compared from above: an index
  with the top bit set passes the assertion and addresses the ring array at a negative index.
\<close>

theorem vring_index_unchecked:
  assumes "2 ^ 31 \<le> unat (vs_index (msg_state (lm_request msg)))"
  shows "set_vring_num os msg s = fail (BadIndex (uint (vs_index (msg_state (lm_request msg))) - 2 ^ 32)) \<and>
         set_vring_base os msg s = fail (BadIndex (uint (vs_index (msg_state (lm_request msg))) - 2 ^ 32)) \<and>
         get_vring_base os msg s = fail (BadIndex (uint (vs_index (msg_state (lm_request msg))) - 2 ^ 32))"
proof -
  have "uint (vs_index (msg_state (lm_request msg))) < 2 ^ 32"
    using uint_lt2p [of "vs_index (msg_state (lm_request msg))"] by simp
  then show ?thesis
    using int_of_u32_big [OF assms]
    by (simp add: set_vring_num_def set_vring_base_def get_vring_base_def Let_def check_idx_def ensure_def
        upd_vring_def get_vring_def)
qed


lemma sample_msg_simps:
  "wf_local_msg (sample_msg rq p) \<longleftrightarrow> length (poke 0 p (replicate PAYLOAD_SIZE (0 :: u8))) = PAYLOAD_SIZE"
  "msg_request (lm_request (sample_msg rq p)) = request_code rq"
  "length p \<ge> 8 \<Longrightarrow> length p \<le> PAYLOAD_SIZE \<Longrightarrow>
     msg_state (lm_request (sample_msg rq p)) = \<lparr>vs_index = of_le (take 4 p), vs_num = of_le (take 4 (drop 4 p))\<rparr>"
  by (simp_all add: sample_msg_def wf_local_msg_def wf_msg_def msg_state_def poke_def peek_def)

theorem vring_base_roundtrip_witness:
  "\<exists>s' m'. in_msg_server sample_os (sample_msg VHOST_USER_SET_VRING_BASE [1, 0, 0, 0, 5, 0, 1, 0]) sample_proc =
              ret (0, sample_msg VHOST_USER_SET_VRING_BASE [1, 0, 0, 0, 5, 0, 1, 0], s') \<and>
           in_msg_server sample_os (sample_msg VHOST_USER_GET_VRING_BASE [1, 0, 0, 0, 0, 0, 0, 0]) s' = ret (1, m', s') \<and>
           vs_num (msg_state (lm_request m')) = 5"
  using vring_base_roundtrip [OF sample_wf, of 1 "sample_msg VHOST_USER_SET_VRING_BASE [1, 0, 0, 0, 5, 0, 1, 0]"
      "sample_msg VHOST_USER_GET_VRING_BASE [1, 0, 0, 0, 0, 0, 0, 0]" "0x10005" sample_os]
  by (auto simp: sample_msg_simps size_defs VHOST_CLIENT_VRING_NUM_def)

theorem vring_index_unchecked_witness:
  "set_vring_num sample_os (sample_msg VHOST_USER_SET_VRING_NUM [255, 255, 255, 255, 0, 1, 0, 0]) sample_proc =
     fail (BadIndex (-1))"
  using vring_index_unchecked [of "sample_msg VHOST_USER_SET_VRING_NUM [255, 255, 255, 255, 0, 1, 0, 0]" sample_os sample_proc]
  by (simp add: sample_msg_simps size_defs)

lemma set_vrings_twice [simp]: "set_vrings vs' (set_vrings vs s) = set_vrings vs' s"
  by (simp add: set_vrings_def)

text \<open>
  \<open>SET_VRING_ADDR\<close> sets the three ring addresses to the translations of the user addresses of the
  message, starts the used counter at \<^verbatim>\<open>used->idx\<close> and opens the send lock.
\<close>

theorem set_vring_addr_maps:
  assumes wf: "wf_proc s" and ad: "ad = msg_addr (lm_request msg)" and i: "unat (va_index ad) < VHOST_CLIENT_VRING_NUM"
    and tr: "map_user_addr (p_memory s) (va_desc_user_addr ad) = ret d"
      "map_user_addr (p_memory s) (va_avail_user_addr ad) = ret a"
      "map_user_addr (p_memory s) (va_used_user_addr ad) = ret u"
    and k: "used_idx (p_mem s) u = ret k"
  shows "set_vring_addr os msg s =
           ret (0, msg, (set_vrings ((p_vrings s)[unat (va_index ad) :=
             (p_vrings s ! unat (va_index ad))\<lparr>vr_desc := d, vr_avail := a, vr_used := u, vr_last_used_idx := k\<rparr>]) s)
             \<lparr>p_send_lock := 1\<rparr>)"
proof -
  have "unat (va_index ad) < length (p_vrings s)" using wf i by (simp add: wf_proc_def)
  then show ?thesis
    using wf i tr k by (simp add: set_vring_addr_def Let_def ad [symmetric] vring_idx upd_vring_uint)
qed

lemma sample_addr: "msg_addr (lm_request sample_addr_msg) =
    \<lparr>va_index = 1, va_flags = 0, va_desc_user_addr = 0x7000, va_used_user_addr = 0x7200,
     va_avail_user_addr = 0x7100, va_log_guest_addr = 0\<rparr>"
  by (simp add: sample_addr_msg_def msg_addr_def sample_msg_def Let_def poke_def peek_def size_defs replicate_eval)

theorem set_vring_addr_maps_witness:
  "set_vring_addr sample_os sample_addr_msg sample_proc =
     ret (0, sample_addr_msg, (set_vrings [sample_rx, sample_vring] sample_proc)\<lparr>p_send_lock := 1\<rparr>)"
  using set_vring_addr_maps [OF sample_wf refl, of sample_addr_msg "0x10000" "0x10100" "0x10200" 0 sample_os]
  by (simp add: sample_addr VHOST_CLIENT_VRING_NUM_def map_user_addr_def map_user_addr_from.simps sample_memory_def
      used_idx_def load_le_def memory_eval sample_mem_def sample_byte_def sample_vring_def)

text \<open>
  C39. When the other side closes the connection, the server goes on to dispatch the message structure
  that nothing has been received into; if its request field is zero the process aborts.
\<close>

theorem disconnect_aborts:
  assumes "os_recvmsg os (p_io s) (node_fd node) = \<lparr>rv_ret = 0, rv_data = [], rv_trunc = t, rv_cmsg = c\<rparr>"
    and "vu_handlers (p_vu s) = vhost_user_handlers"
    and "msg_request (lm_request (os_msg os (p_io s))) = request_code VHOST_USER_NONE"
  shows "receive_sock_server os node s = fail AssertFail"
  using assms
  by (simp add: receive_sock_server_def vhost_user_receive_def Let_def vhost_user_handlers_def in_msg_server_def
      ensure_def poke_def)

theorem disconnect_aborts_witness:
  "receive_sock_server sample_os \<lparr>node_fd = 4, node_context = VhostUserContext, node_handler = Some ReceiveSockServer\<rparr>
     sample_proc = fail AssertFail"
  by (rule disconnect_aborts [where t = False and c = None]) (simp_all add: sample_os_def sample_proc_def vhost_user_handlers_def sample_msg_def)

theorem main_server_inv_witness:
  "\<exists>s'. main_server sample_os 1 sample_proc = ret s' \<and> server_inv s'"
proof -
  have "\<exists>s'. main_server sample_os 1 sample_proc = ret s'"
    by (simp add: main_server_def vhost_user_open_socket_def sample_os_def sample_proc_def Let_def main_init_def loop_server_def
        traverse_fd_list_def init_fd_list_def add_fd_list_def fds_of_def set_fds_def fd_set_from_fd_list_def FD_LIST_SIZE_def empty_node_def
        replicate_eval set_fd_list_def FD_SETSIZE_def vhost_user_handlers_def vhost_user_poll_handler_def get_vring_def
        VHOST_CLIENT_VRING_IDX_RX_def VHOST_CLIENT_VRING_NUM_def fresh_vring_def)
  moreover have "length (mt_regions (p_memory sample_proc)) = MAX_NREGIONS"
    "length (vu_buffer (p_vu sample_proc)) = BUFFER_SIZE" "wf_fd_list (p_fd_list sample_proc)"
    using sample_wf by (simp_all add: wf_proc_def wf_memory_def)
  ultimately show ?thesis using main_server_inv by blast
qed

end
