(* ===== verification/Hex.thy ===== *)
theory Hex
  imports Prelude
begin

text \<open>
  The two conversions of the C library by which the transport exchanges connection data:
  \<^verbatim>\<open>sprintf\<close> with \<^verbatim>\<open>%0<n>x\<close>, and the hexadecimal conversion of \<^verbatim>\<open>sscanf\<close>.  A field is printed with
  at least \<open>n\<close> digits and with more when the value needs them; it is read like \<^verbatim>\<open>strtoul\<close> does:
  white space, a sign, a prefix and digits, saturating at the largest 64-bit value.
\<close>

section \<open>Printing\<close>

definition hex_digit :: "nat \<Rightarrow> char" where
  "hex_digit d = ''0123456789abcdef'' ! (d mod 16)"

fun hex_of :: "nat \<Rightarrow> string" where
  "hex_of n = (if n < 16 then [hex_digit n] else hex_of (n div 16) @ [hex_digit n])"

declare hex_of.simps [simp del]

definition hexpad :: "nat \<Rightarrow> nat \<Rightarrow> string" where
  "hexpad w n = replicate (w - length (hex_of n)) CHR ''0'' @ hex_of n"

section \<open>Reading\<close>

definition hex_value :: "char \<Rightarrow> nat option" where
  "hex_value c =
     (let k = (of_char c :: nat) in
      if 48 \<le> k \<and> k \<le> 57 then Some (k - 48)
      else if 97 \<le> k \<and> k \<le> 102 then Some (k - 87)
      else if 65 \<le> k \<and> k \<le> 70 then Some (k - 55)
      else None)"

fun scan_digits :: "string \<Rightarrow> nat \<Rightarrow> nat \<times> string" where
  "scan_digits [] acc = (acc, [])"
| "scan_digits (c # cs) acc =
     (case hex_value c of
        Some d \<Rightarrow> scan_digits cs (16 * acc + d)
      | None \<Rightarrow> (acc, c # cs))"

definition is_space :: "char \<Rightarrow> bool" where
  "is_space c \<longleftrightarrow> c = CHR '' '' \<or> (9 \<le> (of_char c :: nat) \<and> (of_char c :: nat) \<le> 13)"

definition scan_sign :: "string \<Rightarrow> bool \<times> string" where
  "scan_sign cs =
     (case cs of
        [] \<Rightarrow> (False, [])
      | c # ds \<Rightarrow> if c = CHR ''-'' then (True, ds) else if c = CHR ''+'' then (False, ds) else (False, cs))"

definition scan_prefix :: "string \<Rightarrow> string" where
  "scan_prefix cs =
     (case cs of
        a # b # c # ds \<Rightarrow>
          if a = CHR ''0'' \<and> (b = CHR ''x'' \<or> b = CHR ''X'') \<and> hex_value c \<noteq> None then c # ds else cs
      | _ \<Rightarrow> cs)"

definition ULONG_MAX :: nat where
  "ULONG_MAX = 2 ^ 64 - 1"

text \<open>One conversion: the value as a 64-bit word and the rest of the input, or a failed match.\<close>

definition scan_hex :: "string \<Rightarrow> (u64 \<times> string) option" where
  "scan_hex cs =
     (let (neg, cs) = scan_sign (dropWhile is_space cs); cs = scan_prefix cs in
      case cs of
        [] \<Rightarrow> None
      | c # ds \<Rightarrow>
          if hex_value c = None then None
          else let (n, rest) = scan_digits cs 0;
                   w = (if ULONG_MAX < n then - 1 else if neg then - of_nat n else of_nat n) :: u64
               in Some (w, rest))"

text \<open>A literal colon of the format.\<close>

definition scan_colon :: "string \<Rightarrow> string option" where
  "scan_colon cs = (case cs of [] \<Rightarrow> None | c # ds \<Rightarrow> if c = CHR '':'' then Some ds else None)"

section \<open>Printed values read back\<close>

lemma upt_sixteen: "[0..<16] = [0, 1, 2, 3, 4, 5, 6, 7, 8, 9, 10, 11, 12, 13, 14, 15 :: nat]"
  by (simp add: upt_rec)

lemma hex_value_digit: "hex_value (hex_digit d) = Some (d mod 16)"
proof -
  have "list_all (\<lambda>d. hex_value (hex_digit d) = Some d) [0..<16]"
    unfolding upt_sixteen by (simp add: hex_value_def hex_digit_def)
  then have "hex_value (hex_digit (d mod 16)) = Some (d mod 16)" by (simp add: list_all_iff)
  then show ?thesis by (simp add: hex_digit_def)
qed

lemma hex_of_nonempty [simp]: "hex_of n \<noteq> []"
  by (subst hex_of.simps) simp

lemma hex_of_digits: "c \<in> set (hex_of n) \<Longrightarrow> hex_value c \<noteq> None"
proof (induction n rule: hex_of.induct)
  case (1 n)
  then show ?case by (subst (asm) (2) hex_of.simps) (auto simp: hex_value_digit split: if_splits)
qed

lemma scan_hex_of:
  "scan_digits (hex_of n @ rest) acc = scan_digits rest (acc * 16 ^ length (hex_of n) + n)"
proof (induction n arbitrary: acc rest rule: hex_of.induct)
  case (1 n)
  show ?case
  proof (cases "n < 16")
    case True
    then show ?thesis by (simp add: hex_of.simps [of n] hex_value_digit algebra_simps)
  next
    case False
    then have "hex_of n = hex_of (n div 16) @ [hex_digit n]" by (simp add: hex_of.simps [of n])
    then show ?thesis using 1 [OF False] by (simp add: hex_value_digit algebra_simps)
  qed
qed

lemma scan_zeros: "scan_digits (replicate k CHR ''0'' @ xs) 0 = scan_digits xs 0"
  by (induction k) (simp_all add: hex_value_def)

definition ends_number :: "string \<Rightarrow> bool" where
  "ends_number rest \<longleftrightarrow> rest = [] \<or> (\<exists>ds. rest = CHR '':'' # ds)"

lemma scan_hexpad: "ends_number rest \<Longrightarrow> scan_digits (hexpad w n @ rest) 0 = (n, rest)"
  by (auto simp: ends_number_def hexpad_def scan_zeros scan_hex_of hex_value_def)

lemma hexpad_nonempty [simp]: "hexpad w n \<noteq> []"
  by (simp add: hexpad_def)

lemma hexpad_digits: "c \<in> set (hexpad w n) \<Longrightarrow> hex_value c \<noteq> None"
  using hex_of_digits by (auto simp: hexpad_def hex_value_def)

lemma length_hex_of: "0 < w \<Longrightarrow> n < 16 ^ w \<Longrightarrow> length (hex_of n) \<le> w"
proof (induction n arbitrary: w rule: hex_of.induct)
  case (1 n)
  show ?case
  proof (cases "n < 16")
    case True
    then show ?thesis using 1 by (simp add: hex_of.simps [of n])
  next
    case False
    then obtain v where v: "w = Suc v" "0 < v" using "1.prems" by (cases w; cases "w - 1") auto
    then have "n div 16 < 16 ^ v" using "1.prems"(2) by (simp add: less_mult_imp_div_less mult.commute)
    then show ?thesis using "1.IH" [OF False v(2)] v(1) False by (simp add: hex_of.simps [of n])
  qed
qed

lemma length_hexpad: "0 < w \<Longrightarrow> n < 16 ^ w \<Longrightarrow> length (hexpad w n) = w"
  using length_hex_of by (simp add: hexpad_def)

lemma scan_prefix_number:
  assumes "xs \<noteq> []" and "\<And>c. c \<in> set xs \<Longrightarrow> hex_value c \<noteq> None" and "ends_number rest"
  shows "scan_prefix (xs @ rest) = xs @ rest"
proof -
  have x: "hex_value CHR ''x'' = None" "hex_value CHR ''X'' = None" "hex_value CHR '':'' = None"
    by (simp_all add: hex_value_def)
  obtain a as where xs: "xs = a # as" using assms(1) by (cases xs) auto
  show ?thesis
  proof (cases as)
    case Nil
    then show ?thesis using xs assms(3) by (auto simp: scan_prefix_def ends_number_def split: list.splits)
  next
    case (Cons b bs)
    then have "b \<noteq> CHR ''x''" "b \<noteq> CHR ''X''" using xs assms(2) [of b] x by auto
    then show ?thesis using xs Cons by (auto simp: scan_prefix_def split: list.splits)
  qed
qed

lemma scan_hex_hexpad:
  assumes "ends_number rest" and "n \<le> ULONG_MAX"
  shows "scan_hex (hexpad w n @ rest) = Some (of_nat n, rest)"
proof -
  obtain c cs where xs: "hexpad w n = c # cs" by (cases "hexpad w n") auto
  have c: "hex_value c \<noteq> None" using hexpad_digits [of c w n] xs by simp
  have "hex_value CHR ''-'' = None" "hex_value CHR ''+'' = None" "hex_value CHR '' '' = None"
    by (simp_all add: hex_value_def)
  then have sg: "c \<noteq> CHR ''-''" "c \<noteq> CHR ''+''" "c \<noteq> CHR '' ''" using c by auto
  moreover have "\<not> (9 \<le> (of_char c :: nat) \<and> (of_char c :: nat) \<le> 13)"
    using c by (auto simp: hex_value_def Let_def)
  ultimately have "dropWhile is_space (c # cs @ rest) = c # cs @ rest" "scan_sign (c # cs @ rest) = (False, c # cs @ rest)"
    by (auto simp: is_space_def scan_sign_def)
  moreover have "scan_prefix (c # cs @ rest) = c # cs @ rest"
    using scan_prefix_number [of "hexpad w n" rest] hexpad_digits assms(1) xs by fastforce
  moreover have "scan_digits (c # cs @ rest) 0 = (n, rest)" using scan_hexpad [OF assms(1), of w n] xs by simp
  ultimately show ?thesis using xs c assms(2) by (simp add: scan_hex_def Let_def)
qed

lemma length_hex_of_ge: "16 ^ w \<le> n \<Longrightarrow> w < length (hex_of n)"
proof (induction n arbitrary: w rule: hex_of.induct)
  case (1 n)
  show ?case
  proof (cases w)
    case 0
    then show ?thesis by simp
  next
    case (Suc v)
    have "(16 :: nat) * 1 \<le> 16 * 16 ^ v" by (intro mult_le_mono2) simp
    also have "\<dots> \<le> n" using "1.prems" Suc by simp
    finally have n: "\<not> n < 16" by simp
    have "16 ^ v \<le> n div 16" using "1.prems" Suc by (simp add: less_eq_div_iff_mult_less_eq mult.commute)
    then show ?thesis using "1.IH" [OF n] Suc n by (simp add: hex_of.simps [of n])
  qed
qed

lemma length_hexpad_ge: "w \<le> length (hexpad w n)" "16 ^ w \<le> n \<Longrightarrow> w < length (hexpad w n)"
  using length_hex_of_ge [of w n] by (simp_all add: hexpad_def)

end
