(* ===== verification/Transport.thy ===== *)
theory Transport
  imports Server Hex
begin

text \<open>
  The RDMA transport, from \<^verbatim>\<open>src/vhost_user_transport.c\<close> and the two transport threads of
  \<^verbatim>\<open>src/vhost_user.c\<close>: the exchange of connection data over TCP, the state changes of the
  queue pair, the set-up of the InfiniBand context and the sending and receiving of packets.

  The verbs library, TCP and the memory allocator are not part of the repository: each call is
  answered by a component of \<open>net_env\<close>, and the calls that change the queue pair or post work are
  recorded in \<open>t_calls\<close> with their arguments.  A failing call that the code checks with
  \<^verbatim>\<open>TEST_NZ\<close>, \<^verbatim>\<open>TEST_Z\<close> or \<^verbatim>\<open>TEST_N\<close> ends the process: \<open>ExitFailure\<close> with the text that is printed.
\<close>

section \<open>Data\<close>

record ib_connection =
  ic_lid :: u32
  ic_qpn :: u32
  ic_psn :: u32
  ic_rkey :: u32
  ic_vaddr :: u64

text \<open>The pointer \<^verbatim>\<open>data.remote_connection\<close>: null, an allocated object, or an object that was freed.\<close>

datatype remote_ptr = NullPtr | LivePtr ib_connection | FreedPtr

record app_data =
  ad_port :: int
  ad_ib_port :: int
  ad_size :: u32
  ad_tx_depth :: int
  ad_sockfd :: int
  ad_servername :: "string option"
  ad_local_connection :: ib_connection
  ad_remote_connection :: remote_ptr

datatype qp_state = IBV_QPS_RESET | IBV_QPS_INIT | IBV_QPS_RTR | IBV_QPS_RTS

text \<open>The fields of \<^verbatim>\<open>struct ibv_qp_attr\<close> that the code sets, and the flags that select them.\<close>

record ibv_qp_attr =
  qa_qp_state :: qp_state
  qa_path_mtu :: nat
  qa_dest_qp_num :: u32
  qa_rq_psn :: u32
  qa_sq_psn :: u32
  qa_max_rd_atomic :: nat
  qa_max_dest_rd_atomic :: nat
  qa_min_rnr_timer :: nat
  qa_dlid :: u16
  qa_sl :: nat
  qa_port_num :: u8
  qa_pkey_index :: nat
  qa_access_remote_write :: bool
  qa_timeout :: nat
  qa_retry_cnt :: nat
  qa_rnr_retry :: nat

datatype qp_flag =
    IBV_QP_STATE | IBV_QP_ACCESS_FLAGS | IBV_QP_PKEY_INDEX | IBV_QP_PORT | IBV_QP_AV | IBV_QP_PATH_MTU
  | IBV_QP_TIMEOUT | IBV_QP_RETRY_CNT | IBV_QP_RNR_RETRY | IBV_QP_RQ_PSN | IBV_QP_MAX_QP_RD_ATOMIC
  | IBV_QP_MIN_RNR_TIMER | IBV_QP_SQ_PSN | IBV_QP_MAX_DEST_RD_ATOMIC | IBV_QP_DEST_QPN

record send_wr =
  wr_id :: nat
  wr_sge_addr :: u64
  wr_sge_length :: u32
  wr_sge_lkey :: u32
  wr_remote_addr :: u64
  wr_rkey :: u32

text \<open>\<open>ac_bytes\<close> is the content of the working buffer at address \<open>ac_buf\<close>.\<close>

record app_context =
  ac_qp_num :: u32
  ac_lkey :: u32
  ac_rkey :: u32
  ac_buf :: u64
  ac_bytes :: "u8 list"
  ac_size :: u32
  ac_tx_depth :: int

datatype verbs_call =
    ModifyQp ibv_qp_attr "qp_flag set"
  | PostSend send_wr
  | TcpWrite int "char list"
  | TcpRead int

record transport =
  t_ctx :: "app_context option"
  t_data :: app_data
  t_calls :: "verbs_call list"

record net_env =
  ne_modify_qp :: "verbs_call list \<Rightarrow> ibv_qp_attr \<Rightarrow> qp_flag set \<Rightarrow> int"
  ne_post_send :: "verbs_call list \<Rightarrow> send_wr \<Rightarrow> int"
  ne_write :: "verbs_call list \<Rightarrow> int \<Rightarrow> char list \<Rightarrow> int"
  ne_read :: "verbs_call list \<Rightarrow> int \<Rightarrow> int \<times> char list"
  ne_malloc :: bool
  ne_query_port :: "u8 \<Rightarrow> int \<times> u16"
  ne_lrand48 :: u64
  ne_memalign :: "int \<times> u64"
  ne_devices :: "nat option"
  ne_first_device :: bool
  ne_open_device :: bool
  ne_alloc_pd :: bool
  ne_reg_mr :: "(u32 \<times> u32) option"
  ne_comp_channel :: bool
  ne_recv_cq :: bool
  ne_send_cq :: bool
  ne_create_qp :: "u32 option"
  ne_asprintf :: int
  ne_getaddrinfo :: "int \<times> (int \<times> int) list"
  ne_bind :: int
  ne_listen :: int
  ne_accept :: int

definition die_if :: "bool \<Rightarrow> string \<Rightarrow> unit exec" where
  "die_if b reason = ensure (\<not> b) (ExitFailure reason)"

definition remote_of :: "app_data \<Rightarrow> ib_connection exec" where
  "remote_of d =
     (case ad_remote_connection d of
        NullPtr \<Rightarrow> fail (Segv 0)
      | LivePtr c \<Rightarrow> ret c
      | FreedPtr \<Rightarrow> fail DoubleFree)"

section \<open>State changes of the queue pair\<close>

definition zero_attr :: ibv_qp_attr where
  "zero_attr =
     \<lparr>qa_qp_state = IBV_QPS_RESET, qa_path_mtu = 0, qa_dest_qp_num = 0, qa_rq_psn = 0, qa_sq_psn = 0,
      qa_max_rd_atomic = 0, qa_max_dest_rd_atomic = 0, qa_min_rnr_timer = 0, qa_dlid = 0, qa_sl = 0,
      qa_port_num = 0, qa_pkey_index = 0, qa_access_remote_write = False, qa_timeout = 0,
      qa_retry_cnt = 0, qa_rnr_retry = 0\<rparr>"

definition modify_qp :: "net_env \<Rightarrow> ibv_qp_attr \<Rightarrow> qp_flag set \<Rightarrow> string \<Rightarrow> transport \<Rightarrow> transport exec" where
  "modify_qp ne attr flags reason t =
     bindE (die_if (ne_modify_qp ne (t_calls t) attr flags \<noteq> 0) reason) (\<lambda>_.
       ret (t\<lparr>t_calls := t_calls t @ [ModifyQp attr flags]\<rparr>))"

definition qp_change_state_init :: "net_env \<Rightarrow> transport \<Rightarrow> transport exec" where
  "qp_change_state_init ne t =
     modify_qp ne
       (zero_attr\<lparr>qa_qp_state := IBV_QPS_INIT, qa_pkey_index := 0, qa_port_num := word_of_int (ad_ib_port (t_data t)),
                  qa_access_remote_write := True\<rparr>)
       {IBV_QP_STATE, IBV_QP_PKEY_INDEX, IBV_QP_PORT, IBV_QP_ACCESS_FLAGS}
       ''could not modify QP to INIT'' t"

text \<open>\<^verbatim>\<open>IBV_MTU_2048\<close> is 4; \<^verbatim>\<open>sl\<close> is the global 1; \<^verbatim>\<open>dlid\<close> is a 16-bit field.\<close>

definition qp_change_state_rtr :: "net_env \<Rightarrow> transport \<Rightarrow> transport exec" where
  "qp_change_state_rtr ne t =
     bindE (remote_of (t_data t)) (\<lambda>rc.
       modify_qp ne
         (zero_attr\<lparr>qa_qp_state := IBV_QPS_RTR, qa_path_mtu := 4, qa_dest_qp_num := ic_qpn rc,
                    qa_rq_psn := ic_psn rc, qa_max_dest_rd_atomic := 1, qa_min_rnr_timer := 12,
                    qa_dlid := ucast (ic_lid rc), qa_sl := 1, qa_port_num := word_of_int (ad_ib_port (t_data t))\<rparr>)
         {IBV_QP_STATE, IBV_QP_AV, IBV_QP_PATH_MTU, IBV_QP_DEST_QPN, IBV_QP_RQ_PSN,
          IBV_QP_MAX_DEST_RD_ATOMIC, IBV_QP_MIN_RNR_TIMER}
         ''Could not modify QP to RTR state'' t)"

definition qp_change_state_rts :: "net_env \<Rightarrow> transport \<Rightarrow> transport exec" where
  "qp_change_state_rts ne t =
     bindE (qp_change_state_rtr ne t) (\<lambda>t.
       modify_qp ne
         (zero_attr\<lparr>qa_qp_state := IBV_QPS_RTS, qa_timeout := 14, qa_retry_cnt := 7, qa_rnr_retry := 7,
                    qa_sq_psn := ic_psn (ad_local_connection (t_data t)), qa_max_rd_atomic := 1\<rparr>)
         {IBV_QP_STATE, IBV_QP_TIMEOUT, IBV_QP_RETRY_CNT, IBV_QP_RNR_RETRY, IBV_QP_SQ_PSN,
          IBV_QP_MAX_QP_RD_ATOMIC}
         ''Could not modify QP to RTS state'' t)"

section \<open>Exchange of the connection data\<close>

definition conn_string :: "ib_connection \<Rightarrow> string" where
  "conn_string c =
     hexpad 4 (unat (ic_lid c)) @ '':'' @ hexpad 6 (unat (ic_qpn c)) @ '':'' @ hexpad 6 (unat (ic_psn c)) @ '':'' @
     hexpad 8 (unat (ic_rkey c)) @ '':'' @ hexpad 16 (unat (ic_vaddr c))"

text \<open>\<open>sizeof("0000:000000:000000:00000000:0000000000000000")\<close>.\<close>

definition CONN_SIZE :: nat where
  "CONN_SIZE = 45"

text \<open>The fields \<^verbatim>\<open>sscanf\<close> stored before it stopped.  It reads a string, which ends at the first null
  character.\<close>

fun scan_fields :: "nat \<Rightarrow> string \<Rightarrow> u64 list" where
  "scan_fields 0 cs = []"
| "scan_fields (Suc k) cs =
     (case scan_hex cs of
        None \<Rightarrow> []
      | Some (w, rest) \<Rightarrow>
          w # (case scan_colon rest of None \<Rightarrow> [] | Some ds \<Rightarrow> scan_fields k ds))"

definition store_conn :: "u64 list \<Rightarrow> ib_connection \<Rightarrow> ib_connection" where
  "store_conn ws c =
     \<lparr>ic_lid = (if 0 < length ws then ucast (ws ! 0) else ic_lid c),
      ic_qpn = (if 1 < length ws then ucast (ws ! 1) else ic_qpn c),
      ic_psn = (if 2 < length ws then ucast (ws ! 2) else ic_psn c),
      ic_rkey = (if 3 < length ws then ucast (ws ! 3) else ic_rkey c),
      ic_vaddr = (if 4 < length ws then ws ! 4 else ic_vaddr c)\<rparr>"

text \<open>\<open>junk\<close> is the content of the memory that \<^verbatim>\<open>malloc\<close> returns.  The test before the first
  \<^verbatim>\<open>free\<close> is for a null pointer, so that call never releases anything.\<close>

definition tcp_exch_ib_connection_info ::
  "net_env \<Rightarrow> ib_connection \<Rightarrow> transport \<Rightarrow> (int \<times> transport) exec" where
  "tcp_exch_ib_connection_info ne junk t =
     (let d = t_data t; msg = conn_string (ad_local_connection d) @ [CHR 0x00] in
      bindE (ensure (length msg \<le> CONN_SIZE) Overrun) (\<lambda>_.
      let msg = msg @ replicate (CONN_SIZE - length msg) CHR 0x00;
          w = ne_write ne (t_calls t) (ad_sockfd d) msg;
          t = t\<lparr>t_calls := t_calls t @ [TcpWrite (ad_sockfd d) msg]\<rparr> in
      if w \<noteq> int CONN_SIZE then ret (-1, t)
      else
      let (r, bytes) = ne_read ne (t_calls t) (ad_sockfd d);
          t = t\<lparr>t_calls := t_calls t @ [TcpRead (ad_sockfd d)]\<rparr> in
      if r \<noteq> int CONN_SIZE then ret (-1, t)
      else
      bindE (die_if (\<not> ne_malloc ne) ''Could not allocate mem for remote connection'') (\<lambda>_.
      bindE (ensure (CHR 0x00 \<in> set bytes) Overrun) (\<lambda>_.
        let ws = scan_fields 5 (takeWhile (\<lambda>c. c \<noteq> CHR 0x00) bytes);
            p = (if length ws \<noteq> 5 then FreedPtr else LivePtr (store_conn ws junk))
        in ret (0, t\<lparr>t_data := d\<lparr>ad_remote_connection := p\<rparr>\<rparr>)))))"

section \<open>Sockets\<close>

text \<open>Every address of the list is connected in turn; the last socket is returned.\<close>

fun connect_all :: "(int \<times> int) list \<Rightarrow> int \<Rightarrow> int exec" where
  "connect_all [] sockfd = ret sockfd"
| "connect_all ((s, c) # as) sockfd =
     bindE (die_if (s < 0) ''Could not create cleint socket'') (\<lambda>_.
     bindE (die_if (c < 0) ''could not connect to server'') (\<lambda>_. connect_all as s))"

definition tcp_client_connect :: "net_env \<Rightarrow> int exec" where
  "tcp_client_connect ne =
     bindE (die_if (ne_asprintf ne < 0) ''Error writing port-number to port-string'') (\<lambda>_.
     bindE (die_if (fst (ne_getaddrinfo ne) < 0) ''getaddrinfo threw error'') (\<lambda>_.
       connect_all (snd (ne_getaddrinfo ne)) (-1)))"

definition tcp_server_listen :: "net_env \<Rightarrow> int exec" where
  "tcp_server_listen ne =
     bindE (die_if (ne_asprintf ne < 0) ''Error writing port-number to port-string'') (\<lambda>_.
     bindE (die_if (fst (ne_getaddrinfo ne) < 0) ''getaddrinfo failed'') (\<lambda>_.
       case snd (ne_getaddrinfo ne) of
         [] \<Rightarrow> fail (Segv 0)
       | (sockfd, _) # _ \<Rightarrow>
           bindE (die_if (sockfd < 0) ''could not create server socket'') (\<lambda>_.
           bindE (die_if (ne_bind ne < 0) ''could not bind addr to socket'') (\<lambda>_.
           bindE (die_if (ne_listen ne < 0) ''failed to listen on sockfd'') (\<lambda>_.
           bindE (die_if (ne_accept ne < 0) ''failed to setup accept'') (\<lambda>_.
             ret (ne_accept ne)))))))"

section \<open>Context\<close>

definition init_context :: "net_env \<Rightarrow> transport \<Rightarrow> transport exec" where
  "init_context ne t =
     (let d = t_data t; n = ad_size d * 2 in
      bindE (die_if (fst (ne_memalign ne) \<noteq> 0) ''could not allocate working buffer ctx->buf'') (\<lambda>_.
      bindE (die_if (ne_devices ne = None) ''No IB Device available'') (\<lambda>_.
      bindE (die_if (\<not> ne_first_device ne) ''IB device list could not be assigned'') (\<lambda>_.
      bindE (die_if (\<not> ne_open_device ne) ''ibv_open_device_failed'') (\<lambda>_.
      bindE (die_if (\<not> ne_alloc_pd ne) ''ibv_alloc_pd failed'') (\<lambda>_.
      bindE (die_if (ne_reg_mr ne = None) ''ibv_reg_mr failed'') (\<lambda>_.
      bindE (die_if (\<not> ne_comp_channel ne) ''could not create completion channel'') (\<lambda>_.
      bindE (die_if (\<not> ne_recv_cq ne) ''could not create receive q'') (\<lambda>_.
      bindE (die_if (\<not> ne_send_cq ne) ''could not create send q'') (\<lambda>_.
      bindE (die_if (ne_create_qp ne = None) ''could not create qp'') (\<lambda>_.
        let ctx = \<lparr>ac_qp_num = the (ne_create_qp ne), ac_lkey = fst (the (ne_reg_mr ne)),
                   ac_rkey = snd (the (ne_reg_mr ne)), ac_buf = snd (ne_memalign ne),
                   ac_bytes = replicate (unat n) 0, ac_size = ad_size d, ac_tx_depth = ad_tx_depth d\<rparr>
        in qp_change_state_init ne (t\<lparr>t_ctx := Some ctx\<rparr>))))))))))))"

text \<open>Access to the object at \<^verbatim>\<open>transport_ctx\<close>, which is null before \<open>init_context\<close>.\<close>

definition ctx_of :: "transport \<Rightarrow> app_context exec" where
  "ctx_of t = (case t_ctx t of None \<Rightarrow> fail (Segv 0) | Some c \<Rightarrow> ret c)"

definition set_local_ib_connection :: "net_env \<Rightarrow> transport \<Rightarrow> transport exec" where
  "set_local_ib_connection ne t =
     bindE (ctx_of t) (\<lambda>ctx.
     let d = t_data t; (r, lid) = ne_query_port ne (word_of_int (ad_ib_port d)) in
     bindE (die_if (r \<noteq> 0) ''could not get port attributes, ibv_query_port'') (\<lambda>_.
       ret (t\<lparr>t_data := d\<lparr>ad_local_connection :=
         \<lparr>ic_lid = ucast lid, ic_qpn = ac_qp_num ctx, ic_psn = ucast (ne_lrand48 ne AND 0xffffff),
          ic_rkey = ac_rkey ctx, ic_vaddr = ac_buf ctx + ucast (ac_size ctx)\<rparr>\<rparr>\<rparr>)))"

section \<open>Packets\<close>

definition RDMA_WRID :: nat where
  "RDMA_WRID = 3"

definition rdma_write :: "net_env \<Rightarrow> transport \<Rightarrow> transport exec" where
  "rdma_write ne t =
     bindE (ctx_of t) (\<lambda>ctx.
     bindE (remote_of (t_data t)) (\<lambda>rc.
       let wr = \<lparr>wr_id = RDMA_WRID, wr_sge_addr = ac_buf ctx, wr_sge_length = ac_size ctx,
                 wr_sge_lkey = ac_lkey ctx, wr_remote_addr = ic_vaddr rc, wr_rkey = ic_rkey rc\<rparr> in
       bindE (die_if (ne_post_send ne (t_calls t) wr \<noteq> 0) ''ibv_post_send_failed.'') (\<lambda>_.
         ret (t\<lparr>t_calls := t_calls t @ [PostSend wr]\<rparr>))))"

definition rdma_transfer :: "net_env \<Rightarrow> u8 list \<Rightarrow> transport \<Rightarrow> transport exec" where
  "rdma_transfer ne buf t =
     bindE (ctx_of t) (\<lambda>ctx.
     bindE (ensure (length buf \<le> length (ac_bytes ctx)) Overrun) (\<lambda>_.
       rdma_write ne (t\<lparr>t_ctx := Some (ctx\<lparr>ac_bytes := poke 0 buf (ac_bytes ctx)\<rparr>)\<rparr>)))"

definition send_packet :: "u8 list \<Rightarrow> proc \<Rightarrow> (int \<times> proc) exec" where
  "send_packet p s =
     bindE (get_vring s (int VHOST_CLIENT_VRING_IDX_RX)) (\<lambda>vr.
       if vr_desc vr \<noteq> 0
       then bindE (put_rx_vring (of_nat VHOST_CLIENT_VRING_IDX_RX) p s) (\<lambda>(r, s).
              if r \<noteq> 0 then ret (-1, s) else kick (of_nat VHOST_CLIENT_VRING_IDX_RX) s)
       else ret (0, s))"

definition rdma_read_send :: "u8 list \<Rightarrow> proc \<Rightarrow> proc exec" where
  "rdma_read_send buf s = bindE (send_packet buf s) (\<lambda>(r, s). ret s)"

section \<open>The transport threads\<close>

definition start_data :: "string option \<Rightarrow> app_data \<Rightarrow> app_data" where
  "start_data server d =
     d\<lparr>ad_port := 18515, ad_ib_port := 1, ad_size := 65536, ad_tx_depth := 100,
       ad_servername := server, ad_remote_connection := NullPtr\<rparr>"

definition handle_rdma_transport :: "net_env \<Rightarrow> ib_connection \<Rightarrow> transport \<Rightarrow> transport exec" where
  "handle_rdma_transport ne junk t =
     bindE (init_context ne (t\<lparr>t_data := start_data None (t_data t)\<rparr>)) (\<lambda>t.
     bindE (set_local_ib_connection ne t) (\<lambda>t.
     bindE (tcp_server_listen ne) (\<lambda>fd.
     bindE (die_if (fd < 0) ''TCP server listen (TCP) failed'') (\<lambda>_.
     bindE (tcp_exch_ib_connection_info ne junk (t\<lparr>t_data := (t_data t)\<lparr>ad_sockfd := fd\<rparr>\<rparr>)) (\<lambda>(r, t).
     bindE (die_if (r \<noteq> 0) ''could not exchange connection, tcp_exch_ib_connection'') (\<lambda>_.
       qp_change_state_rts ne t))))))"

text \<open>The receiving thread up to its loop.\<close>

definition handle_rdma_transport_receive ::
  "net_env \<Rightarrow> string \<Rightarrow> ib_connection \<Rightarrow> transport \<Rightarrow> transport exec" where
  "handle_rdma_transport_receive ne server junk t =
     bindE (init_context ne (t\<lparr>t_data := start_data (Some server) (t_data t)\<rparr>)) (\<lambda>t.
     bindE (set_local_ib_connection ne t) (\<lambda>t.
     bindE (tcp_client_connect ne) (\<lambda>fd.
     bindE (die_if (fd < 0) ''TCP server listen (TCP) failed'') (\<lambda>_.
     bindE (tcp_exch_ib_connection_info ne junk (t\<lparr>t_data := (t_data t)\<lparr>ad_sockfd := fd\<rparr>\<rparr>)) (\<lambda>(r, t).
     bindE (die_if (r \<noteq> 0) ''could not exchange connection, tcp_exch_ib_connection'') (\<lambda>_.
       qp_change_state_rtr ne t))))))"

definition arp_request :: "u8 list" where
  "arp_request =
     [0xff, 0xff, 0xff, 0xff, 0xff, 0xff, 0x01, 0x02, 0x03, 0x04, 0x05, 0x06, 0x08, 0x06,
      0x00, 0x01, 0x08, 0x00, 0x06, 0x04, 0x00, 0x01, 0xec, 0xf4, 0xbb, 0x1e, 0x47, 0x6b,
      0x0a, 0x0a, 0x0a, 0x01, 0x00, 0x00, 0x00, 0x00, 0x00, 0x00, 0x0a, 0x0a, 0x0a, 0x02] @ replicate 18 0"

text \<open>One pass of the loop of the receiving thread.\<close>

definition receive_pass :: "proc \<Rightarrow> proc exec" where
  "receive_pass s = (if p_send_lock s \<noteq> 0 then rdma_read_send arp_request s else ret s)"

section \<open>Specification\<close>

text \<open>
  The state of the queue pair after a sequence of calls, the attributes that the verbs interface
  requires for each transition, and the documented behaviour of the calls.
\<close>

definition conn_fits :: "ib_connection \<Rightarrow> bool" where
  "conn_fits c \<longleftrightarrow> unat (ic_lid c) < 2 ^ 16 \<and> unat (ic_qpn c) < 2 ^ 24 \<and> unat (ic_psn c) < 2 ^ 24"

definition qp_state_after :: "verbs_call list \<Rightarrow> qp_state" where
  "qp_state_after calls =
     fold (\<lambda>c st. case c of ModifyQp attr flags \<Rightarrow> qa_qp_state attr | _ \<Rightarrow> st) calls IBV_QPS_RESET"

fun required_flags :: "qp_state \<Rightarrow> qp_state \<Rightarrow> qp_flag set option" where
  "required_flags IBV_QPS_RESET IBV_QPS_INIT =
     Some {IBV_QP_STATE, IBV_QP_PKEY_INDEX, IBV_QP_PORT, IBV_QP_ACCESS_FLAGS}"
| "required_flags IBV_QPS_INIT IBV_QPS_RTR =
     Some {IBV_QP_STATE, IBV_QP_AV, IBV_QP_PATH_MTU, IBV_QP_DEST_QPN, IBV_QP_RQ_PSN,
           IBV_QP_MAX_DEST_RD_ATOMIC, IBV_QP_MIN_RNR_TIMER}"
| "required_flags IBV_QPS_RTR IBV_QPS_RTS =
     Some {IBV_QP_STATE, IBV_QP_SQ_PSN, IBV_QP_MAX_QP_RD_ATOMIC, IBV_QP_RETRY_CNT, IBV_QP_RNR_RETRY, IBV_QP_TIMEOUT}"
| "required_flags _ _ = None"

definition verbs_documented :: "net_env \<Rightarrow> bool" where
  "verbs_documented ne \<longleftrightarrow>
     (\<forall>calls attr flags R. required_flags (qp_state_after calls) (qa_qp_state attr) = Some R \<longrightarrow> R \<subseteq> flags \<longrightarrow>
        ne_modify_qp ne calls attr flags = 0)"

definition post_send_documented :: "net_env \<Rightarrow> bool" where
  "post_send_documented ne \<longleftrightarrow>
     (\<forall>calls wr. qp_state_after calls = IBV_QPS_RTS \<longrightarrow> ne_post_send ne calls wr = 0)"

definition devices_ok :: "net_env \<Rightarrow> bool" where
  "devices_ok ne \<longleftrightarrow>
     fst (ne_memalign ne) = 0 \<and> ne_devices ne \<noteq> None \<and> ne_first_device ne \<and> ne_open_device ne \<and> ne_alloc_pd ne \<and>
     ne_reg_mr ne \<noteq> None \<and> ne_comp_channel ne \<and> ne_recv_cq ne \<and> ne_send_cq ne \<and>
     (\<exists>n. ne_create_qp ne = Some n \<and> unat n < 2 ^ 24) \<and> (\<forall>p. fst (ne_query_port ne p) = 0)"

definition peer_sends :: "net_env \<Rightarrow> ib_connection \<Rightarrow> bool" where
  "peer_sends ne c \<longleftrightarrow>
     (\<forall>calls fd msg. ne_write ne calls fd msg = int (length msg)) \<and> ne_malloc ne \<and>
     (\<forall>calls fd. ne_read ne calls fd = (int CONN_SIZE, conn_string c @ [CHR 0x00]))"

text \<open>What both threads have done when their socket is connected.\<close>

definition connected :: "net_env \<Rightarrow> app_data \<Rightarrow> ib_connection \<Rightarrow> transport \<Rightarrow> bool" where
  "connected ne d c t \<longleftrightarrow>
     ad_remote_connection (t_data t) = LivePtr c \<and> qp_state_after (t_calls t) = IBV_QPS_INIT \<and>
     ad_ib_port (t_data t) = ad_ib_port d \<and> (\<exists>ctx. t_ctx t = Some ctx \<and> ac_size ctx = ad_size d \<and>
       length (ac_bytes ctx) = unat (ad_size d * 2) \<and>
       ic_vaddr (ad_local_connection (t_data t)) = ac_buf ctx + ucast (ac_size ctx))"

definition sample_conn :: ib_connection where
  "sample_conn = \<lparr>ic_lid = 7, ic_qpn = 0x1234, ic_psn = 0xABCD, ic_rkey = 0xCAFE, ic_vaddr = 0x30010000\<rparr>"

definition sample_transport :: transport where
  "sample_transport =
     \<lparr>t_ctx = None,
      t_data = \<lparr>ad_port = 0, ad_ib_port = 0, ad_size = 0, ad_tx_depth = 0, ad_sockfd = 0, ad_servername = None,
                ad_local_connection = sample_conn, ad_remote_connection = NullPtr\<rparr>,
      t_calls = []\<rparr>"

text \<open>An environment in which every call succeeds and the peer sends \<open>bytes\<close>.\<close>

definition sample_net :: "char list \<Rightarrow> net_env" where
  "sample_net bytes =
     \<lparr>ne_modify_qp = (\<lambda>calls attr flags. 0), ne_post_send = (\<lambda>calls wr. 0),
      ne_write = (\<lambda>calls fd msg. int (length msg)), ne_read = (\<lambda>calls fd. (int CONN_SIZE, bytes)),
      ne_malloc = True, ne_query_port = (\<lambda>p. (0, 3)), ne_lrand48 = 0x123456789, ne_memalign = (0, 0x20000000),
      ne_devices = Some 1, ne_first_device = True, ne_open_device = True, ne_alloc_pd = True,
      ne_reg_mr = Some (1, 2), ne_comp_channel = True, ne_recv_cq = True, ne_send_cq = True,
      ne_create_qp = Some 0x1111, ne_asprintf = 5, ne_getaddrinfo = (0, [(9, 0)]), ne_bind = 0, ne_listen = 0,
      ne_accept = 10\<rparr>"

definition sample_connected :: transport where
  "sample_connected =
     sample_transport\<lparr>t_ctx := Some \<lparr>ac_qp_num = 0x1111, ac_lkey = 1, ac_rkey = 2, ac_buf = 0x20000000,
         ac_bytes = replicate 16 0, ac_size = 8, ac_tx_depth = 100\<rparr>,
       t_data := (t_data sample_transport)\<lparr>ad_size := 8, ad_remote_connection := LivePtr sample_conn,
         ad_local_connection := sample_conn\<lparr>ic_vaddr := 0x20000008\<rparr>\<rparr>,
       t_calls := [ModifyQp (zero_attr\<lparr>qa_qp_state := IBV_QPS_RTS\<rparr>) {}]\<rparr>"

section \<open>Connecting\<close>

lemma unat_bounds:
  "unat (w :: u32) < 16 ^ 8" "unat (v :: u64) < 16 ^ 16" "unat w \<le> ULONG_MAX" "unat v \<le> ULONG_MAX"
proof -
  have w: "unat w < 2 ^ 32" "unat v < 2 ^ 64" using unsigned_less [of w] unsigned_less [of v] by simp_all
  then show "unat w < 16 ^ 8" "unat v < 16 ^ 16" "unat w \<le> ULONG_MAX" "unat v \<le> ULONG_MAX"
    by (simp_all add: ULONG_MAX_def)
qed

lemma length_conn_string: "conn_fits c \<Longrightarrow> length (conn_string c) = 44"
  using unat_bounds(1) [of "ic_rkey c"] unat_bounds(2) [of "ic_vaddr c"]
  by (simp add: conn_string_def conn_fits_def length_hexpad)

lemma ends_colon [simp]: "ends_number (CHR '':'' # cs)" "ends_number []"
  by (simp_all add: ends_number_def)

lemma ucast_up_down: "ucast (ucast (w :: u32) :: u64) = w"
proof -
  have "unat (ucast w :: u64) < 2 ^ LENGTH(32)" using unat_bounds(1) [of w] by simp
  then show ?thesis using unat_ucast_small [of "ucast w :: u64", where 'b = 32] by (simp add: word_unat_eq_iff)
qed

lemma scan_hex_last: "n \<le> ULONG_MAX \<Longrightarrow> scan_hex (hexpad w n) = Some (of_nat n, [])"
  using scan_hex_hexpad [of "[]" n w] by simp

lemma scan_conn_string:
  "scan_fields 5 (conn_string c) =
     [ucast (ic_lid c), ucast (ic_qpn c), ucast (ic_psn c), ucast (ic_rkey c), ic_vaddr c]"
  by (simp add: conn_string_def numeral_eq_Suc scan_hex_hexpad scan_hex_last unat_bounds scan_colon_def)

lemma store_conn_string: "store_conn (scan_fields 5 (conn_string c)) junk = c"
  by (simp add: store_conn_def scan_conn_string ucast_up_down)

lemma nul_notin_hexpad: "CHR 0x00 \<notin> set (hexpad w n)"
  using hexpad_digits [of "CHR 0x00" w n] by (auto simp: hex_value_def)

lemma nul_notin_conn_string: "CHR 0x00 \<notin> set (conn_string c)"
  by (simp add: conn_string_def nul_notin_hexpad)

lemma takeWhile_conn_string: "takeWhile (\<lambda>c. c \<noteq> CHR 0x00) (conn_string c @ [CHR 0x00]) = conn_string c"
  using nul_notin_conn_string [of c] by (subst takeWhile_append2) auto

lemma exchange_spec:
  assumes fits: "conn_fits (ad_local_connection (t_data t))"
    and w: "\<And>calls fd msg. ne_write ne calls fd msg = int (length msg)"
    and r: "\<And>calls fd. ne_read ne calls fd = (int CONN_SIZE, conn_string c @ [CHR 0x00])" and m: "ne_malloc ne"
  shows "tcp_exch_ib_connection_info ne junk t =
           ret (0, t\<lparr>t_data := (t_data t)\<lparr>ad_remote_connection := LivePtr c\<rparr>,
                     t_calls := t_calls t @ [TcpWrite (ad_sockfd (t_data t)) (conn_string (ad_local_connection (t_data t)) @ [CHR 0x00]),
                                             TcpRead (ad_sockfd (t_data t))]\<rparr>)"
  using length_conn_string [OF fits]
  by (simp add: tcp_exch_ib_connection_info_def Let_def w r m CONN_SIZE_def die_if_def takeWhile_conn_string
      store_conn_string [unfolded scan_conn_string] scan_conn_string)

lemma modify_qp_step:
  assumes "verbs_documented ne" and "required_flags (qp_state_after (t_calls t)) (qa_qp_state attr) = Some R" and "R \<subseteq> flags"
  shows "modify_qp ne attr flags reason t = ret (t\<lparr>t_calls := t_calls t @ [ModifyQp attr flags]\<rparr>)"
  using assms by (simp add: modify_qp_def die_if_def verbs_documented_def)

lemma qp_state_after_simps [simp]:
  "qp_state_after [] = IBV_QPS_RESET" "qp_state_after (cs @ [ModifyQp attr flags]) = qa_qp_state attr"
  "qp_state_after (cs @ [TcpWrite fd msg, TcpRead fd']) = qp_state_after cs"
  by (simp_all add: qp_state_after_def)

lemma psn_bound: "unat (ucast (r AND 0xffffff :: u64) :: u32) < 2 ^ 24"
proof -
  have "r AND 0xffffff \<le> (0xffffff :: u64)" by (rule word_and_le1)
  then have "unat (r AND 0xffffff) < 2 ^ 24" by (simp add: word_le_nat_alt)
  then show ?thesis using unat_ucast_small [of "r AND 0xffffff", where 'b = 32] by simp
qed

lemma local_connection_fits:
  "unat (ac_qp_num ctx) < 2 ^ 24 \<Longrightarrow>
     conn_fits \<lparr>ic_lid = ucast (lid :: u16), ic_qpn = ac_qp_num ctx, ic_psn = ucast (r AND 0xffffff :: u64),
                ic_rkey = k, ic_vaddr = v\<rparr>"
  using psn_bound [of r] unsigned_less [of lid] by (simp add: conn_fits_def)

lemma setup_spec:
  assumes ok: "devices_ok ne" "verbs_documented ne" "peer_sends ne c" and t: "t_calls t = []"
  shows "\<exists>t1 t2 t3. init_context ne t = ret t1 \<and> set_local_ib_connection ne t1 = ret t2 \<and>
           tcp_exch_ib_connection_info ne junk (t2\<lparr>t_data := (t_data t2)\<lparr>ad_sockfd := fd\<rparr>\<rparr>) = ret (0, t3) \<and>
           connected ne (t_data t) c t3"
proof -
  obtain n lk rk where qp: "ne_create_qp ne = Some n" "unat n < 2 ^ 24" and mr: "ne_reg_mr ne = Some (lk, rk)"
    using ok(1) by (auto simp: devices_ok_def)
  define ctx where "ctx = \<lparr>ac_qp_num = n, ac_lkey = lk, ac_rkey = rk, ac_buf = snd (ne_memalign ne),
      ac_bytes = replicate (unat (ad_size (t_data t) * 2)) (0 :: u8), ac_size = ad_size (t_data t),
      ac_tx_depth = ad_tx_depth (t_data t)\<rparr>"
  define attr where "attr = zero_attr\<lparr>qa_qp_state := IBV_QPS_INIT, qa_pkey_index := 0,
      qa_port_num := word_of_int (ad_ib_port (t_data t)), qa_access_remote_write := True\<rparr>"
  define t1 where "t1 = t\<lparr>t_ctx := Some ctx,
      t_calls := [ModifyQp attr {IBV_QP_STATE, IBV_QP_PKEY_INDEX, IBV_QP_PORT, IBV_QP_ACCESS_FLAGS}]\<rparr>"
  have st: "required_flags (qp_state_after (t_calls (t\<lparr>t_ctx := Some ctx\<rparr>))) (qa_qp_state attr) =
      Some {IBV_QP_STATE, IBV_QP_PKEY_INDEX, IBV_QP_PORT, IBV_QP_ACCESS_FLAGS}"
    using t by (simp add: attr_def)
  have i: "init_context ne t = ret t1"
    using ok(1) qp mr modify_qp_step [OF ok(2) st subset_refl] t
    by (simp add: init_context_def devices_ok_def die_if_def Let_def qp_change_state_init_def ctx_def attr_def t1_def)
  obtain lid where q: "ne_query_port ne (word_of_int (ad_ib_port (t_data t))) = (0, lid)"
    using ok(1) by (metis devices_ok_def prod.collapse)
  define lc where "lc = \<lparr>ic_lid = ucast lid, ic_qpn = n,
      ic_psn = ucast (ne_lrand48 ne AND 0xffffff), ic_rkey = rk, ic_vaddr = ac_buf ctx + ucast (ac_size ctx)\<rparr>"
  define t2 where "t2 = t1\<lparr>t_data := (t_data t)\<lparr>ad_local_connection := lc\<rparr>\<rparr>"
  have s: "set_local_ib_connection ne t1 = ret t2"
    by (simp add: set_local_ib_connection_def ctx_of_def t1_def die_if_def t2_def lc_def ctx_def Let_def q)
  have "conn_fits lc" using local_connection_fits [of ctx] qp(2) by (simp add: lc_def ctx_def)
  then have "tcp_exch_ib_connection_info ne junk (t2\<lparr>t_data := (t_data t2)\<lparr>ad_sockfd := fd\<rparr>\<rparr>) =
      ret (0, t2\<lparr>t_data := (t_data t2)\<lparr>ad_sockfd := fd, ad_remote_connection := LivePtr c\<rparr>,
        t_calls := t_calls t2 @ [TcpWrite fd (conn_string lc @ [CHR 0x00]), TcpRead fd]\<rparr>)"
    using ok(3) by (subst exchange_spec) (simp_all add: peer_sends_def t2_def)
  then show ?thesis using i s by (simp add: connected_def t2_def t1_def lc_def ctx_def attr_def qp_state_after_def)
qed

lemma qp_rtr_spec:
  assumes "verbs_documented ne" and "connected ne d c t"
  obtains attr flags where "qp_change_state_rtr ne t = ret (t\<lparr>t_calls := t_calls t @ [ModifyQp attr flags]\<rparr>)"
    and "qa_qp_state attr = IBV_QPS_RTR" and "qa_dest_qp_num attr = ic_qpn c" and "qa_rq_psn attr = ic_psn c"
    and "qa_dlid attr = ucast (ic_lid c)"
  using assms that by (simp add: qp_change_state_rtr_def remote_of_def connected_def modify_qp_step)

lemma qp_rts_spec:
  assumes "verbs_documented ne" and "connected ne d c t"
  shows "\<exists>t'. qp_change_state_rts ne t = ret t' \<and> qp_state_after (t_calls t') = IBV_QPS_RTS \<and>
           t_data t' = t_data t \<and> t_ctx t' = t_ctx t"
proof -
  obtain attr flags where r: "qp_change_state_rtr ne t = ret (t\<lparr>t_calls := t_calls t @ [ModifyQp attr flags]\<rparr>)"
    and a: "qa_qp_state attr = IBV_QPS_RTR" using qp_rtr_spec [OF assms] by metis
  then show ?thesis using assms(1) by (simp add: qp_change_state_rts_def modify_qp_step insert_commute qp_state_after_def)
qed

text \<open>
  C21. Where the InfiniBand calls succeed as documented and the peer sends its connection data, the
  transport thread connects: it walks the queue pair from reset to ready-to-send, every transition
  with the attributes the verbs interface requires, and knows the peer's data.
\<close>

theorem transport_thread_connects:
  assumes "devices_ok ne" and "verbs_documented ne" and "peer_sends ne c" and "t_calls t = []"
    and "tcp_server_listen ne = ret fd" and "0 \<le> fd"
  shows "\<exists>t'. handle_rdma_transport ne junk t = ret t' \<and> qp_state_after (t_calls t') = IBV_QPS_RTS \<and>
           ad_remote_connection (t_data t') = LivePtr c"
proof -
  let ?t = "t\<lparr>t_data := start_data None (t_data t)\<rparr>"
  obtain t1 t2 t3 where s: "init_context ne ?t = ret t1" "set_local_ib_connection ne t1 = ret t2"
    "tcp_exch_ib_connection_info ne junk (t2\<lparr>t_data := (t_data t2)\<lparr>ad_sockfd := fd\<rparr>\<rparr>) = ret (0, t3)"
    and c: "connected ne (t_data ?t) c t3"
    using setup_spec [OF assms(1-3), of ?t junk fd] assms(4) by auto
  then show ?thesis
    using qp_rts_spec [OF assms(2) c] assms(5,6) by (auto simp: handle_rdma_transport_def die_if_def connected_def)
qed

text \<open>
  Under the same conditions the receiving thread reaches its loop with the queue pair
  ready to receive and the peer's connection data stored.
\<close>

theorem receive_thread_connects:
  assumes "devices_ok ne" and "verbs_documented ne" and "peer_sends ne c" and "t_calls t = []"
    and "tcp_client_connect ne = ret fd" and "0 \<le> fd"
  shows "\<exists>t'. handle_rdma_transport_receive ne server junk t = ret t' \<and> qp_state_after (t_calls t') = IBV_QPS_RTR \<and>
           ad_remote_connection (t_data t') = LivePtr c"
proof -
  let ?t = "t\<lparr>t_data := start_data (Some server) (t_data t)\<rparr>"
  obtain t1 t2 t3 where s: "init_context ne ?t = ret t1" "set_local_ib_connection ne t1 = ret t2"
    "tcp_exch_ib_connection_info ne junk (t2\<lparr>t_data := (t_data t2)\<lparr>ad_sockfd := fd\<rparr>\<rparr>) = ret (0, t3)"
    and c: "connected ne (t_data ?t) c t3"
    using setup_spec [OF assms(1-3), of ?t junk fd] assms(4) by auto
  obtain attr flags where "qp_change_state_rtr ne t3 = ret (t3\<lparr>t_calls := t_calls t3 @ [ModifyQp attr flags]\<rparr>)"
    "qa_qp_state attr = IBV_QPS_RTR" using qp_rtr_spec [OF assms(2) c] by metis
  then show ?thesis
    using s c assms(5,6) by (auto simp: handle_rdma_transport_receive_def die_if_def connected_def)
qed

text \<open>
  C22. The text exchange of connection data loses nothing: what a peer prints is what this side
  stores, for every identifier in the ranges InfiniBand gives it.
\<close>

theorem exchange_roundtrip:
  assumes "conn_fits (ad_local_connection (t_data t))" and "peer_sends ne c"
  shows "\<exists>t'. tcp_exch_ib_connection_info ne junk t = ret (0, t') \<and> ad_remote_connection (t_data t') = LivePtr c"
  using assms exchange_spec [of t ne c junk] by (auto simp: peer_sends_def)

text \<open>
  When the peer's message does not hold five numbers, the exchange frees the object but
  reports success, and the next state change reads the freed object.
\<close>

theorem exchange_use_after_free:
  assumes "conn_fits (ad_local_connection (t_data t))"
    and "\<forall>calls fd msg. ne_write ne calls fd msg = int (length msg)" and "ne_malloc ne"
    and "\<forall>calls fd. ne_read ne calls fd = (int CONN_SIZE, bytes)" and "CHR 0x00 \<in> set bytes"
    and "length (scan_fields 5 (takeWhile (\<lambda>c. c \<noteq> CHR 0x00) bytes)) \<noteq> 5"
  shows "\<exists>t'. tcp_exch_ib_connection_info ne junk t = ret (0, t') \<and> qp_change_state_rtr ne t' = fail DoubleFree"
  using assms length_conn_string [OF assms(1)]
  by (simp add: tcp_exch_ib_connection_info_def Let_def CONN_SIZE_def die_if_def qp_change_state_rtr_def remote_of_def)

text \<open>
  A queue pair number of more than 24 bits prints more characters than the buffer of the
  exchange has room for, whatever the other fields are.
\<close>

theorem exchange_overruns:
  assumes "2 ^ 24 \<le> unat (ic_qpn (ad_local_connection (t_data t)))"
  shows "tcp_exch_ib_connection_info ne junk t = fail Overrun"
proof -
  let ?c = "ad_local_connection (t_data t)"
  have "4 \<le> length (hexpad 4 (unat (ic_lid ?c)))" "6 < length (hexpad 6 (unat (ic_qpn ?c)))"
    "6 \<le> length (hexpad 6 (unat (ic_psn ?c)))" "8 \<le> length (hexpad 8 (unat (ic_rkey ?c)))"
    "16 \<le> length (hexpad 16 (unat (ic_vaddr ?c)))"
    using length_hexpad_ge assms by simp_all
  then have "45 < length (conn_string ?c @ [CHR 0x00])" by (simp add: conn_string_def)
  then show ?thesis by (simp add: tcp_exch_ib_connection_info_def Let_def CONN_SIZE_def)
qed

text \<open>
  A transfer of a packet copies it into the working buffer and posts one write whose target is
  exactly the second half of the peer's buffer, where the peer allocated twice the configured size
  and announced its middle.
\<close>

theorem rdma_write_in_bounds:
  assumes "t_ctx t = Some ctx" and "length (ac_bytes ctx) = unat (ac_size ctx * 2)" and "2 * unat (ac_size ctx) < 2 ^ 32"
    and "ad_remote_connection (t_data t) = LivePtr c" and "ic_vaddr c = peer_buf + ucast (ac_size ctx)"
    and "qp_state_after (t_calls t) = IBV_QPS_RTS" and "post_send_documented ne"
    and "length buf \<le> 2 * unat (ac_size ctx)"
  shows "\<exists>t' wr. rdma_transfer ne buf t = ret t' \<and> t_calls t' = t_calls t @ [PostSend wr] \<and>
           t_ctx t' = Some (ctx\<lparr>ac_bytes := buf @ drop (length buf) (ac_bytes ctx)\<rparr>) \<and>
           wr_sge_addr wr = ac_buf ctx \<and> wr_rkey wr = ic_rkey c \<and> unat (wr_remote_addr wr - peer_buf) = unat (ac_size ctx) \<and>
           unat (wr_remote_addr wr - peer_buf) + unat (wr_sge_length wr) = 2 * unat (ac_size ctx)"
  using assms
  by (auto simp: rdma_transfer_def rdma_write_def ctx_of_def remote_of_def die_if_def Let_def unat_word_ariths
      post_send_documented_def poke_def)

lemma sample_net_ok:
  "devices_ok (sample_net bytes)" "verbs_documented (sample_net bytes)"
  "peer_sends (sample_net (conn_string sample_conn @ [CHR 0x00])) sample_conn"
  "tcp_server_listen (sample_net bytes) = ret 10" "tcp_client_connect (sample_net bytes) = ret 9"
  "conn_fits sample_conn" "t_calls sample_transport = []" "ad_local_connection (t_data sample_transport) = sample_conn"
  by (simp_all add: sample_net_def devices_ok_def verbs_documented_def peer_sends_def tcp_server_listen_def
      tcp_client_connect_def die_if_def sample_conn_def conn_fits_def sample_transport_def)

theorem transport_thread_connects_witness:
  "\<exists>t'. handle_rdma_transport (sample_net (conn_string sample_conn @ [CHR 0x00])) sample_conn sample_transport = ret t' \<and>
     qp_state_after (t_calls t') = IBV_QPS_RTS"
  using transport_thread_connects [OF sample_net_ok(1-3,7,4), of sample_conn] by auto

theorem receive_thread_connects_witness:
  "\<exists>t'. handle_rdma_transport_receive (sample_net (conn_string sample_conn @ [CHR 0x00])) ''peer'' sample_conn sample_transport =
       ret t' \<and> qp_state_after (t_calls t') = IBV_QPS_RTR"
  using receive_thread_connects [OF sample_net_ok(1-3,7,5), of "''peer''" sample_conn] by auto

theorem exchange_roundtrip_witness:
  "\<exists>t'. tcp_exch_ib_connection_info (sample_net (conn_string sample_conn @ [CHR 0x00])) sample_conn sample_transport =
       ret (0, t') \<and> ad_remote_connection (t_data t') = LivePtr sample_conn"
  using exchange_roundtrip [OF _ sample_net_ok(3), of sample_transport] sample_net_ok(6,8) by simp

theorem exchange_use_after_free_witness:
  "\<exists>t'. tcp_exch_ib_connection_info (sample_net (replicate 45 CHR 0x00)) sample_conn sample_transport = ret (0, t') \<and>
     qp_change_state_rtr (sample_net (replicate 45 CHR 0x00)) t' = fail DoubleFree"
  using exchange_use_after_free [of sample_transport "sample_net (replicate 45 CHR 0x00)" "replicate 45 CHR 0x00" sample_conn]
    sample_net_ok(6,8)
  by (simp add: sample_net_def takeWhile_replicate numeral_eq_Suc scan_hex_def scan_sign_def scan_prefix_def)

theorem exchange_overruns_witness:
  "tcp_exch_ib_connection_info (sample_net []) sample_conn
     (sample_transport\<lparr>t_data := (t_data sample_transport)\<lparr>ad_local_connection := sample_conn\<lparr>ic_qpn := 0x1000000\<rparr>\<rparr>\<rparr>) = fail Overrun"
  by (rule exchange_overruns) simp

theorem rdma_write_in_bounds_witness:
  "\<exists>t' wr. rdma_transfer (sample_net []) [1, 2, 3] sample_connected = ret t' \<and>
     t_calls t' = t_calls sample_connected @ [PostSend wr] \<and>
     unat (wr_remote_addr wr - 0x3000FFF8) + unat (wr_sge_length wr) = 16"
  using rdma_write_in_bounds [of sample_connected "the (t_ctx sample_connected)" sample_conn "0x3000FFF8" "sample_net []" "[1, 2, 3]"]
  by (auto simp: sample_net_def sample_conn_def sample_connected_def qp_state_after_def post_send_documented_def sample_transport_def)

section \<open>Packets to the guest\<close>

lemma ucast_16_32_eq: "((ucast a :: u32) = ucast b) = (a = b)" for a b :: u16
proof -
  have "unat (ucast x :: u32) = unat x" for x :: u16
  proof -
    have "unat x < 65536" using unsigned_less [of x] by simp
    then show ?thesis by (simp add: unsigned_ucast_eq take_bit_nat_eq_self)
  qed
  then show ?thesis by (metis word_unat_eq_iff)
qed

text \<open>
  C5. A packet sent to the guest lands in the head buffer of the receive ring, the descriptor \<open>last_avail_idx\<close>, behind
  a cleared header.  The used ring gets one entry with the length of header and packet, its index advances by one,
  the guest is notified through both descriptors, and nothing outside the buffer and the ring is written.  The id of
  the used entry is \<open>last_used_idx\<close>, so it names the buffer that was filled exactly if the two heads of the ring
  agree; both heads move to the successors of their descriptors, and heads that agree still agree afterwards.
\<close>

theorem send_packet_delivers:
  assumes wf: "wf_proc s" and vr: "vr = p_vrings s ! 0" and nz: "vr_desc vr \<noteq> 0"
    and dr: "desc_read (p_mem s) {} (vr_desc vr) (ucast (vr_last_avail_idx vr)) addr dlen f nx"
    and un: "desc_next (p_mem s) (vr_desc vr) (ucast (vr_last_used_idx vr)) = ret unx"
    and fits: "length p \<le> unat dlen" and tr: "map_desc_addr s addr = ret dest"
    and ok: "put_ok (p_mem s) vr dest (HDR_LEN + length p)" and us: "used_region vr \<subseteq> dom (p_mem s)"
    and dj: "region dest (HDR_LEN + length p) \<inter> used_region vr = {}"
      "region (head vr) 16 \<inter> used_region vr = {}" "avail_region vr \<inter> used_region vr = {}"
    and ai: "avail_idx (p_mem s) (vr_avail vr) = ret ai" and ui: "used_idx (p_mem s) (vr_used vr) = ret ui"
  shows "\<exists>s'. send_packet p s = ret (0, s') \<and> delivered (p_mem s') vr dest ai p \<and>
           load32 (p_mem s') (used_at (vr_used vr) (ucast ui mod vr_num vr)) = ret (ucast (vr_last_used_idx vr)) \<and>
           load32 (p_mem s') (used_at (vr_used vr) (ucast ui mod vr_num vr) + 4) = ret (of_nat (HDR_LEN + length p)) \<and>
           (load32 (p_mem s') (used_at (vr_used vr) (ucast ui mod vr_num vr)) = ret (ucast (vr_last_avail_idx vr))) =
             (vr_last_used_idx vr = vr_last_avail_idx vr) \<and>
           used_idx (p_mem s') (vr_used vr) = ret (ui + 1) \<and>
           p_vrings s' ! 0 = vr\<lparr>vr_last_avail_idx := nx, vr_last_used_idx := unx\<rparr> \<and>
           (vr_last_used_idx vr = vr_last_avail_idx vr \<longrightarrow> unx = nx) \<and>
           (\<forall>x. x \<notin> region dest (HDR_LEN + length p) \<union> region (head vr) 16 \<union> avail_region vr \<union> used_region vr \<longrightarrow>
                p_mem s' x = p_mem s x) \<and>
           p_io s' = p_io s @ [IoMsync dest (of_nat (length p + HDR_LEN)), IoMsyncLocal AVAIL_SIZE,
             IoWrite (vr_kickfd vr) (le_bytes 8 (1 :: u64)), IoFsync (vr_kickfd vr),
             IoWrite (vr_callfd vr) (le_bytes 8 (1 :: u64)), IoFsync (vr_callfd vr)]"
proof -
  have v: "unat (0 :: u32) < VHOST_CLIENT_VRING_NUM" and len: "0 < length (p_vrings s)"
    using wf by (simp_all add: VHOST_CLIENT_VRING_NUM_def wf_proc_def)
  from vr have vr0: "vr = p_vrings s ! unat (0 :: u32)" by simp
  note put = put_rx_vring_spec [OF wf v vr0 dr un fits tr ok us dj ai ui]
  have "vr_last_used_idx vr = vr_last_avail_idx vr \<longrightarrow> unx = nx" using dr un by (auto simp: desc_read_def)
  with put len vr nz show ?thesis
    by (auto simp: send_packet_def get_vring_def kick_def VHOST_CLIENT_VRING_IDX_RX_def Let_def set_vrings_def ucast_16_32_eq)
qed

theorem send_packet_delivers_witness:
  "\<exists>s'. send_packet [1, 2, 3, 4] sample_proc = ret (0, s') \<and> delivered (p_mem s') sample_rx 0x10380 0 [1, 2, 3, 4] \<and>
     used_idx (p_mem s') 0x10240 = ret 1"
  using send_packet_delivers [OF sample_wf, of sample_rx "0x380" "0x40" 2 1 1 "[1, 2, 3, 4]" "0x10380" 0 0]
    sample_put_ok sample_rx_desc sample_map [of "0x380"]
  by (auto simp: HDR_LEN_def sample_rx_simps sample_used)

section \<open>The receiving thread\<close>

context proc_invariant
begin

lemma receive_pass_inv: "receive_pass s = ret s' \<Longrightarrow> I s \<Longrightarrow> I s'"
  by (auto simp: receive_pass_def rdma_read_send_def send_packet_def split: if_splits elim!: put_rx_vring_inv kick_inv)

end

text \<open>A pass of the receiving thread keeps the types of the state of the server and an open send lock, and only adds to
  the record of system calls, when no other thread runs during it.\<close>

lemma receive_pass_keeps:
  assumes "receive_pass s = ret s'" and "server_inv s"
  shows "server_inv s'" "p_send_lock s = 1 \<Longrightarrow> p_send_lock s' = 1" "prefix (p_io s) (p_io s')"
  using types.receive_pass_inv [OF assms] lock.receive_pass_inv [OF assms(1)] trace.receive_pass_inv [OF assms(1), of "p_io s"] by simp_all

end
