(* ===== verification/Ranges.thy ===== *)
theory Ranges
  imports Prelude
begin

text \<open>
  Ranges of 64-bit addresses, from \<^verbatim>\<open>src/qemu_vhost_user/include/qemu/range.h\<close>.  The header computes
  with first and last bytes on 64-bit words; the lemmas relate each function to the set of addresses
  it stands for, for ranges that neither are empty nor wrap around.
\<close>

section \<open>Definitions\<close>

record Range =
  rg_begin :: u64
  rg_end :: u64

definition range_extend :: "Range \<Rightarrow> Range \<Rightarrow> Range" where
  "range_extend rg extend_by =
     (if rg_begin extend_by = 0 \<and> rg_end extend_by = 0 then rg
      else if rg_begin rg = 0 \<and> rg_end rg = 0 then extend_by
      else
        let rg = (if rg_begin rg > rg_begin extend_by then rg\<lparr>rg_begin := rg_begin extend_by\<rparr> else rg)
        in if rg_end rg - 1 < rg_end extend_by - 1 then rg\<lparr>rg_end := rg_end extend_by\<rparr> else rg)"

definition range_get_last :: "u64 \<Rightarrow> u64 \<Rightarrow> u64" where
  "range_get_last offset len = offset + len - 1"

definition range_covers_byte :: "u64 \<Rightarrow> u64 \<Rightarrow> u64 \<Rightarrow> bool" where
  "range_covers_byte offset len byte \<longleftrightarrow> offset \<le> byte \<and> byte \<le> range_get_last offset len"

definition ranges_overlap :: "u64 \<Rightarrow> u64 \<Rightarrow> u64 \<Rightarrow> u64 \<Rightarrow> bool" where
  "ranges_overlap first1 len1 first2 len2 =
     (let last1 = range_get_last first1 len1; last2 = range_get_last first2 len2
      in \<not> (last2 < first1 \<or> last1 < first2))"

text \<open>The addresses of an offset with a length, and the ranges that have at least
  one byte and end below \<open>2\<^sup>6\<^sup>4\<close>.\<close>

definition span :: "u64 \<Rightarrow> u64 \<Rightarrow> u64 set" where
  "span a n = {a .. range_get_last a n}"

definition fits :: "u64 \<Rightarrow> u64 \<Rightarrow> bool" where
  "fits a n \<longleftrightarrow> 0 < unat n \<and> unat a + unat n < 2 ^ 64"

section \<open>Lemmas\<close>

lemma unat_last: "fits a n \<Longrightarrow> unat (range_get_last a n) = unat a + unat n - 1"
  by (simp add: fits_def range_get_last_def unat_sub_if' unat_word_ariths)

lemma mem_span: "fits a n \<Longrightarrow> x \<in> span a n \<longleftrightarrow> unat a \<le> unat x \<and> unat x < unat a + unat n"
  using unat_last [of a n] by (auto simp: span_def word_le_nat_alt fits_def)

lemma mem_span_offset: "fits a n \<Longrightarrow> x \<in> span a n \<longleftrightarrow> unat (x - a) < unat n"
  using mem_span [of a n x] unsigned_less [of x] by (auto simp: unat_sub_if' fits_def)

lemma span_ends: "fits a n \<Longrightarrow> a \<in> span a n \<and> range_get_last a n \<in> span a n"
  using unat_last [of a n] by (auto simp: mem_span fits_def)

lemma covers_iff: "range_covers_byte a n x \<longleftrightarrow> x \<in> span a n"
  by (simp add: range_covers_byte_def span_def)

lemma overlap_iff:
  assumes "fits a n" and "fits b m"
  shows "ranges_overlap a n b m \<longleftrightarrow> span a n \<inter> span b m \<noteq> {}"
proof
  assume o: "ranges_overlap a n b m"
  show "span a n \<inter> span b m \<noteq> {}"
  proof (cases "a \<le> b")
    case True
    then have "b \<in> span a n \<inter> span b m"
      using o span_ends [OF assms(2)] by (auto simp: ranges_overlap_def span_def)
    then show ?thesis by blast
  next
    case False
    then have "a \<in> span a n \<inter> span b m"
      using o span_ends [OF assms(1)] by (auto simp: ranges_overlap_def span_def)
    then show ?thesis by blast
  qed
next
  assume "span a n \<inter> span b m \<noteq> {}"
  then obtain x where "x \<in> span a n" "x \<in> span b m" by blast
  then have "a \<le> x" "x \<le> range_get_last a n" "b \<le> x" "x \<le> range_get_last b m" by (simp_all add: span_def)
  then show "ranges_overlap a n b m" by (auto simp: ranges_overlap_def)
qed

lemma range_extend_nonempty:
  assumes "rg_begin r \<le> rg_end r - 1" and "rg_begin e \<le> rg_end e - 1"
    and "\<not> (rg_begin r = 0 \<and> rg_end r = 0)" and "\<not> (rg_begin e = 0 \<and> rg_end e = 0)"
  shows "rg_begin (range_extend r e) = min (rg_begin r) (rg_begin e)"
    and "rg_end (range_extend r e) - 1 = max (rg_end r - 1) (rg_end e - 1)"
  using assms by (auto simp: range_extend_def Let_def min_def max_def)

lemma range_extend_empty:
  "rg_begin e = 0 \<Longrightarrow> rg_end e = 0 \<Longrightarrow> range_extend r e = r"
  "rg_begin r = 0 \<Longrightarrow> rg_end r = 0 \<Longrightarrow> range_extend r e = e"
  by (simp_all add: range_extend_def)

end
