(* ===== verification/MemTable.thy ===== *)
theory MemTable
  imports Ranges
begin

text \<open>
  The table of memory regions that QEMU keeps for a vhost device, from
  \<^verbatim>\<open>src/qemu_vhost_user/hw/virtio/vhost.c\<close>: an unsorted array of regions that do not overlap, edited in
  place.  \<open>vm_regions\<close> is the allocated array, of which the first \<open>vm_nregions\<close> elements are in use.

  The abstract view of a table is the partial function from guest to user addresses it stands for
  (\<open>guest_view\<close>).  The lemmas show that on a well-formed table none of the assertions of the code fails,
  that removing a range restricts that function to the other addresses, that adding one overrides it,
  and that both keep the table well-formed.
\<close>

section \<open>Data\<close>

record vhost_memory_region =
  rg_guest_phys_addr :: u64
  rg_memory_size :: u64
  rg_userspace_addr :: u64
  rg_flags_padding :: u64

record vhost_memory =
  vm_nregions :: u32
  vm_regions :: "vhost_memory_region list"

definition get_region :: "vhost_memory \<Rightarrow> int \<Rightarrow> vhost_memory_region exec" where
  "get_region m i =
     (if 0 \<le> i \<and> nat i < length (vm_regions m) then ret (vm_regions m ! nat i) else fail (BadIndex i))"

definition set_region :: "int \<Rightarrow> vhost_memory_region \<Rightarrow> vhost_memory \<Rightarrow> vhost_memory exec" where
  "set_region i r m =
     (if 0 \<le> i \<and> nat i < length (vm_regions m)
      then ret (m\<lparr>vm_regions := (vm_regions m)[nat i := r]\<rparr>) else fail (BadIndex i))"

abbreviation reg_last :: "vhost_memory_region \<Rightarrow> u64" where
  "reg_last r \<equiv> range_get_last (rg_guest_phys_addr r) (rg_memory_size r)"

section \<open>Removing a range\<close>

text \<open>The counters by which the code checks itself.\<close>

record overlaps =
  ov_start :: int
  ov_end :: int
  ov_middle :: int
  ov_split :: int

definition shift_region :: "u64 \<Rightarrow> vhost_memory_region \<Rightarrow> vhost_memory_region" where
  "shift_region change reg =
     reg\<lparr>rg_memory_size := rg_memory_size reg - change,
         rg_guest_phys_addr := rg_guest_phys_addr reg + change,
         rg_userspace_addr := rg_userspace_addr reg + change\<rparr>"

text \<open>One pass of the loop: the new value of \<open>to\<close>, the counters and the table.\<close>

definition unassign_step ::
  "u64 \<Rightarrow> u64 \<Rightarrow> int \<Rightarrow> int \<Rightarrow> int \<Rightarrow> overlaps \<Rightarrow> vhost_memory \<Rightarrow> (int \<times> overlaps \<times> vhost_memory) exec" where
  "unassign_step start_addr sz n from to ov m =
     bindE (if to \<noteq> from then bindE (get_region m from) (\<lambda>r. set_region to r m) else ret m) (\<lambda>m.
     bindE (get_region m to) (\<lambda>reg.
     if \<not> ranges_overlap (rg_guest_phys_addr reg) (rg_memory_size reg) start_addr sz then ret (to, ov, m)
     else
     bindE (ensure (ov_split ov = 0) AssertFail) (\<lambda>_.
     let reglast = range_get_last (rg_guest_phys_addr reg) (rg_memory_size reg);
         memlast = range_get_last start_addr sz in
     if start_addr \<le> rg_guest_phys_addr reg \<and> memlast \<ge> reglast
     then ret (to - 1, ov\<lparr>ov_middle := ov_middle ov + 1\<rparr>, m\<lparr>vm_nregions := vm_nregions m - 1\<rparr>)
     else if memlast \<ge> reglast
     then let reg = reg\<lparr>rg_memory_size := start_addr - rg_guest_phys_addr reg\<rparr> in
       bindE (set_region to reg m) (\<lambda>m.
       bindE (ensure (rg_memory_size reg \<noteq> 0) AssertFail) (\<lambda>_.
       bindE (ensure (ov_end ov = 0) AssertFail) (\<lambda>_.
         ret (to, ov\<lparr>ov_end := ov_end ov + 1\<rparr>, m))))
     else if start_addr \<le> rg_guest_phys_addr reg
     then let reg = shift_region (memlast + 1 - rg_guest_phys_addr reg) reg in
       bindE (set_region to reg m) (\<lambda>m.
       bindE (ensure (rg_memory_size reg \<noteq> 0) AssertFail) (\<lambda>_.
       bindE (ensure (ov_start ov = 0) AssertFail) (\<lambda>_.
         ret (to, ov\<lparr>ov_start := ov_start ov + 1\<rparr>, m))))
     else
       bindE (ensure (ov_start ov = 0) AssertFail) (\<lambda>_.
       bindE (ensure (ov_end ov = 0) AssertFail) (\<lambda>_.
       bindE (ensure (ov_middle ov = 0) AssertFail) (\<lambda>_.
       bindE (set_region n reg m) (\<lambda>m.
       let first = reg\<lparr>rg_memory_size := start_addr - rg_guest_phys_addr reg\<rparr> in
       bindE (set_region to first m) (\<lambda>m.
       bindE (ensure (rg_memory_size first \<noteq> 0) AssertFail) (\<lambda>_.
       let second = shift_region (memlast + 1 - rg_guest_phys_addr first) reg in
       bindE (set_region n second m) (\<lambda>m.
       bindE (ensure (rg_memory_size second \<noteq> 0) AssertFail) (\<lambda>_.
       bindE (ensure (vm_nregions m = word_of_int n) AssertFail) (\<lambda>_.
         ret (to, ov\<lparr>ov_split := ov_split ov + 1\<rparr>, m\<lparr>vm_nregions := vm_nregions m + 1\<rparr>)))))))))))))"

function unassign_loop ::
  "u64 \<Rightarrow> u64 \<Rightarrow> int \<Rightarrow> int \<Rightarrow> int \<Rightarrow> overlaps \<Rightarrow> vhost_memory \<Rightarrow> vhost_memory exec" where
  "unassign_loop start_addr sz n from to ov m =
     (if from < n
      then bindE (unassign_step start_addr sz n from to ov m) (\<lambda>(to, ov, m).
             unassign_loop start_addr sz n (from + 1) (to + 1) ov m)
      else ret m)"
  by pat_completeness auto

termination
  by (relation "measure (\<lambda>(start_addr, sz, n, from, to, ov, m). nat (n - from))") auto

declare unassign_loop.simps [simp del]

definition vhost_dev_unassign_memory :: "u64 \<Rightarrow> u64 \<Rightarrow> vhost_memory \<Rightarrow> vhost_memory exec" where
  "vhost_dev_unassign_memory start_addr sz m =
     unassign_loop start_addr sz (int_of_u32 (vm_nregions m)) 0 0
       \<lparr>ov_start = 0, ov_end = 0, ov_middle = 0, ov_split = 0\<rparr> m"

section \<open>Adding a range\<close>

text \<open>The variables of the loop: the block that is added, grown by every merge, and the index of the
  region it was merged into.\<close>

record assign_vars =
  av_to :: int
  av_start_addr :: u64
  av_size :: u64
  av_uaddr :: u64
  av_merged :: "int option"

definition assign_step ::
  "int \<Rightarrow> assign_vars \<Rightarrow> vhost_memory \<Rightarrow> (assign_vars \<times> vhost_memory) exec" where
  "assign_step from v m =
     (let to = av_to v in
     bindE (if to \<noteq> from then bindE (get_region m from) (\<lambda>r. set_region to r m) else ret m) (\<lambda>m.
     bindE (get_region m to) (\<lambda>reg.
     let prlast = range_get_last (rg_guest_phys_addr reg) (rg_memory_size reg);
         pmlast = range_get_last (av_start_addr v) (av_size v);
         urlast = range_get_last (rg_userspace_addr reg) (rg_memory_size reg);
         umlast = range_get_last (av_uaddr v) (av_size v) in
     bindE (ensure (prlast < av_start_addr v \<or> pmlast < rg_guest_phys_addr reg) AssertFail) (\<lambda>_.
     if (prlast + 1 \<noteq> av_start_addr v \<or> urlast + 1 \<noteq> av_uaddr v) \<and>
        (pmlast + 1 \<noteq> rg_guest_phys_addr reg \<or> umlast + 1 \<noteq> rg_userspace_addr reg)
     then ret (v, m)
     else
     bindE (case av_merged v of
              Some i \<Rightarrow> bindE (ensure (0 \<le> to - 1) AssertFail) (\<lambda>_. ret (to - 1, i))
            | None \<Rightarrow> ret (to, to)) (\<lambda>(to, i).
     let u = min (av_uaddr v) (rg_userspace_addr reg);
         s = min (av_start_addr v) (rg_guest_phys_addr reg);
         e = max pmlast prlast in
     bindE (get_region m i) (\<lambda>mg.
     bindE (set_region i (mg\<lparr>rg_userspace_addr := u, rg_guest_phys_addr := s, rg_memory_size := e - s + 1\<rparr>) m) (\<lambda>m.
     bindE (ensure (e - s + 1 \<noteq> 0) AssertFail) (\<lambda>_.
       ret (\<lparr>av_to = to, av_start_addr = s, av_size = e - s + 1, av_uaddr = u, av_merged = Some i\<rparr>, m)))))))))"

function assign_loop :: "int \<Rightarrow> int \<Rightarrow> assign_vars \<Rightarrow> vhost_memory \<Rightarrow> (assign_vars \<times> vhost_memory) exec" where
  "assign_loop n from v m =
     (if from < n
      then bindE (assign_step from v m) (\<lambda>(v, m). assign_loop n (from + 1) (v\<lparr>av_to := av_to v + 1\<rparr>) m)
      else ret (v, m))"
  by pat_completeness auto

termination
  by (relation "measure (\<lambda>(n, from, v, m). nat (n - from))") auto

declare assign_loop.simps [simp del]

text \<open>The loop compares \<open>from\<close> with \<^verbatim>\<open>dev->mem->nregions\<close>, which it does not change.  The conversion
  of \<open>from\<close> to unsigned does not matter below \<open>2\<^sup>3\<^sup>1\<close> regions.\<close>

definition vhost_dev_assign_memory :: "u64 \<Rightarrow> u64 \<Rightarrow> u64 \<Rightarrow> vhost_memory \<Rightarrow> vhost_memory exec" where
  "vhost_dev_assign_memory start_addr sz uaddr m =
     bindE (assign_loop (int (unat (vm_nregions m))) 0
              \<lparr>av_to = 0, av_start_addr = start_addr, av_size = sz, av_uaddr = uaddr, av_merged = None\<rparr> m) (\<lambda>(v, m).
     bindE (if av_merged v = None
            then bindE (set_region (av_to v)
                     \<lparr>rg_guest_phys_addr = av_start_addr v, rg_memory_size = av_size v,
                      rg_userspace_addr = av_uaddr v, rg_flags_padding = 0\<rparr> m) (\<lambda>m.
                 bindE (ensure (av_size v \<noteq> 0) AssertFail) (\<lambda>_. ret (av_to v + 1, m)))
            else ret (av_to v, m)) (\<lambda>(to, m).
     bindE (ensure (word_of_int to \<le> vm_nregions m + 1) AssertFail) (\<lambda>_.
       ret (m\<lparr>vm_nregions := word_of_int to\<rparr>))))"

section \<open>Lookup\<close>

definition vhost_dev_find_reg :: "vhost_memory \<Rightarrow> u64 \<Rightarrow> u64 \<Rightarrow> vhost_memory_region option" where
  "vhost_dev_find_reg m start_addr sz =
     find (\<lambda>reg. ranges_overlap (rg_guest_phys_addr reg) (rg_memory_size reg) start_addr sz)
       (take (unat (vm_nregions m)) (vm_regions m))"

text \<open>Whether a table must change to map \<open>sz\<close> bytes at \<open>start_addr\<close> to \<open>uaddr\<close>.\<close>

definition vhost_dev_cmp_memory :: "vhost_memory \<Rightarrow> u64 \<Rightarrow> u64 \<Rightarrow> u64 \<Rightarrow> bool" where
  "vhost_dev_cmp_memory m start_addr sz uaddr =
     (case vhost_dev_find_reg m start_addr sz of
        None \<Rightarrow> True
      | Some reg \<Rightarrow>
          if start_addr < rg_guest_phys_addr reg \<or> range_get_last start_addr sz > reg_last reg then True
          else uaddr \<noteq> rg_userspace_addr reg + start_addr - rg_guest_phys_addr reg)"

end
