(* ===== verification/QemuEnv.thy ===== *)
theory QemuEnv
  imports Message MemTable
begin

text \<open>
  The world around the vhost code of QEMU, and the event notifiers of
  \<^verbatim>\<open>src/qemu_vhost_user/util/event_notifier-posix.c\<close>.  Calls that leave the modelled code (system calls,
  the memory map of the guest, the bus of the device, the memory listener) are recorded in a trace; their
  answers are functions of the trace up to and including the call.  \<open>errno\<close> and the contents of
  uninitialised stack variables are answers too.

  \<open>vhost_arg\<close> is the object the pointer argument of \<^verbatim>\<open>vhost_call\<close> points to, with its bytes in
  memory.
\<close>

section \<open>Arguments of requests\<close>

datatype vhost_arg =
    ArgNull
  | ArgU64 u64
  | ArgInt u32
  | ArgState vhost_vring_state
  | ArgAddr vhost_vring_addr
  | ArgFile vhost_vring_file
  | ArgMem vhost_memory
  | ArgLog "u64 list"

definition state_bytes :: "vhost_vring_state \<Rightarrow> u8 list" where
  "state_bytes st = le_bytes 4 (vs_index st) @ le_bytes 4 (vs_num st)"

definition file_bytes :: "vhost_vring_file \<Rightarrow> u8 list" where
  "file_bytes f = le_bytes 4 (vf_index f) @ le_bytes 4 (word_of_int (vf_fd f) :: u32)"

definition addr_bytes :: "vhost_vring_addr \<Rightarrow> u8 list" where
  "addr_bytes a =
     le_bytes 4 (va_index a) @ le_bytes 4 (va_flags a) @ le_bytes 8 (va_desc_user_addr a) @
     le_bytes 8 (va_used_user_addr a) @ le_bytes 8 (va_avail_user_addr a) @ le_bytes 8 (va_log_guest_addr a)"

definition region_bytes :: "vhost_memory_region \<Rightarrow> u8 list" where
  "region_bytes r =
     le_bytes 8 (rg_guest_phys_addr r) @ le_bytes 8 (rg_memory_size r) @ le_bytes 8 (rg_userspace_addr r) @
     le_bytes 8 (rg_flags_padding r)"

fun arg_bytes :: "vhost_arg \<Rightarrow> u8 list" where
  "arg_bytes ArgNull = []"
| "arg_bytes (ArgU64 w) = le_bytes 8 w"
| "arg_bytes (ArgInt w) = le_bytes 4 w"
| "arg_bytes (ArgState st) = state_bytes st"
| "arg_bytes (ArgAddr a) = addr_bytes a"
| "arg_bytes (ArgFile f) = file_bytes f"
| "arg_bytes (ArgMem m) = le_bytes 4 (vm_nregions m) @ le_bytes 4 (0 :: u32) @ concat (map region_bytes (vm_regions m))"
| "arg_bytes (ArgLog cs) = concat (map (le_bytes 8) cs)"

text \<open>Reading \<open>n\<close> bytes from the argument.\<close>

definition read_arg :: "vhost_arg \<Rightarrow> nat \<Rightarrow> u8 list exec" where
  "read_arg arg n =
     (if arg = ArgNull then fail (Segv 0)
      else if n \<le> length (arg_bytes arg) then ret (take n (arg_bytes arg)) else fail Overrun)"

section \<open>Calls and their answers\<close>

datatype qio =
    QSendmsg int "u8 list" "int list"
  | QIoctl int u64 vhost_arg
  | QSocket
  | QSndTimeo int
  | QRcvTimeo int
  | QConnect int string
  | QOpen string
  | QClose int
  | QEventfd
  | QPipe
  | QSetNonblock int
  | QRead int
  | QWrite int
  | QFdHandler int bool
  | QMap u64 u64 bool
  | QUnmap u64 u64 bool u64
  | QMalloc u64
  | QHostNotifier int bool
  | QGuestNotifiers int bool
  | QQueryNotifiers
  | QMemRef nat
  | QMemUnref nat
  | QListener bool
  | QNotifyVector u16
  | QPoll bool
  | QPurge
  | QTimer int
  | QTapProbe int nat
  | QTapHdrLen int nat
  | QTapOffload int bool bool bool bool bool
  | QTapEnable int bool
  | QBh nat bool
  | QTxTimer nat "int option"
  | QRxFilterChanged

record qenv =
  qe_errno :: "qio list \<Rightarrow> int"
  qe_sendmsg :: "qio list \<Rightarrow> int"
  qe_ioctl :: "qio list \<Rightarrow> int \<times> vhost_arg"
  qe_socket :: "qio list \<Rightarrow> int"
  qe_setsockopt :: "qio list \<Rightarrow> int"
  qe_connect :: "qio list \<Rightarrow> int"
  qe_open :: "qio list \<Rightarrow> int"
  qe_close :: "qio list \<Rightarrow> int"
  qe_eventfd :: "qio list \<Rightarrow> int"
  qe_pipe :: "qio list \<Rightarrow> (int \<times> int) option"
  qe_setfl :: "qio list \<Rightarrow> int"
  qe_read :: "qio list \<Rightarrow> int"
  qe_write :: "qio list \<Rightarrow> int"
  qe_map :: "qio list \<Rightarrow> u64 \<times> u64"
  qe_malloc :: "qio list \<Rightarrow> u64"
  qe_host_notifier :: "qio list \<Rightarrow> int"
  qe_guest_notifiers :: "qio list \<Rightarrow> int"
  qe_query_notifiers :: "qio list \<Rightarrow> bool"
  qe_fd_handler :: "qio list \<Rightarrow> int"
  qe_junk :: "qio list \<Rightarrow> u8 list"
  qe_junk_region :: "qio list \<Rightarrow> vhost_memory_region"
  qe_clock :: "qio list \<Rightarrow> int"

text \<open>Error numbers of Linux that the code returns or compares with.\<close>

definition EINTR :: int where
  "EINTR = 4"

definition EAGAIN :: int where
  "EAGAIN = 11"

definition ENOMEM :: int where
  "ENOMEM = 12"

definition EBUSY :: int where
  "EBUSY = 16"

definition ENOSYS :: int where
  "ENOSYS = 38"

definition EBADFD :: int where
  "EBADFD = 77"

section \<open>Event notifiers\<close>

record EventNotifier =
  en_rfd :: int
  en_wfd :: int

definition event_notifier_init_fd :: "int \<Rightarrow> EventNotifier" where
  "event_notifier_init_fd fd = \<lparr>en_rfd = fd, en_wfd = fd\<rparr>"

definition event_notifier_get_fd :: "EventNotifier \<Rightarrow> int" where
  "event_notifier_get_fd e = en_rfd e"

text \<open>The \<^verbatim>\<open>write\<close> is repeated while it is interrupted.\<close>

partial_function (option) write_retry :: "qenv \<Rightarrow> int \<Rightarrow> qio list \<Rightarrow> (int \<times> qio list) exec" where
  "write_retry env fd io =
     (let io = io @ [QWrite fd]; r = qe_write env io in
      if r < 0 \<and> qe_errno env io = EINTR then write_retry env fd io else ret (r, io))"

definition event_notifier_set :: "qenv \<Rightarrow> EventNotifier \<Rightarrow> qio list \<Rightarrow> (int \<times> qio list) exec" where
  "event_notifier_set env e io =
     bindE (write_retry env (en_wfd e) io) (\<lambda>(r, io).
       ret (if r < 0 \<and> qe_errno env io \<noteq> EAGAIN then - qe_errno env io else 0, io))"

text \<open>The file is read until it is empty, in pieces of 512 bytes.\<close>

partial_function (option) drain :: "qenv \<Rightarrow> int \<Rightarrow> bool \<Rightarrow> qio list \<Rightarrow> (bool \<times> qio list) exec" where
  "drain env fd value io =
     (let io = io @ [QRead fd]; len = qe_read env io; value = (value \<or> len > 0) in
      if len = -1 \<and> qe_errno env io = EINTR \<or> len = 512 then drain env fd value io else ret (value, io))"

definition event_notifier_test_and_clear :: "qenv \<Rightarrow> EventNotifier \<Rightarrow> qio list \<Rightarrow> (bool \<times> qio list) exec" where
  "event_notifier_test_and_clear env e io = drain env (en_rfd e) False io"

definition event_notifier_cleanup :: "EventNotifier \<Rightarrow> qio list \<Rightarrow> qio list" where
  "event_notifier_cleanup e io = io @ (if en_rfd e \<noteq> en_wfd e then [QClose (en_rfd e)] else []) @ [QClose (en_wfd e)]"

text \<open>The notifier is left as it is on failure.  Without \<^verbatim>\<open>eventfd\<close> in the kernel the two ends of a pipe are
  used.\<close>

definition pipe_ends :: "qenv \<Rightarrow> qio list \<Rightarrow> (int + EventNotifier) \<times> qio list" where
  "pipe_ends env io =
     (let io = io @ [QPipe] in
      case qe_pipe env io of
        None \<Rightarrow> (Inl (- qe_errno env io), io)
      | Some (fd0, fd1) \<Rightarrow>
          let io = io @ [QSetNonblock fd0]; e = - qe_errno env io in
          if qe_setfl env io < 0 then (Inl e, io @ [QClose fd0, QClose fd1])
          else let io = io @ [QSetNonblock fd1]; e = - qe_errno env io in
          if qe_setfl env io < 0 then (Inl e, io @ [QClose fd0, QClose fd1])
          else (Inr \<lparr>en_rfd = fd0, en_wfd = fd1\<rparr>, io))"

definition event_notifier_init ::
  "qenv \<Rightarrow> bool \<Rightarrow> EventNotifier \<Rightarrow> qio list \<Rightarrow> (int \<times> EventNotifier \<times> qio list) exec" where
  "event_notifier_init env active e io =
     (let io = io @ [QEventfd]; fd = qe_eventfd env io;
          (r, io) = (if fd \<ge> 0 then (Inr \<lparr>en_rfd = fd, en_wfd = fd\<rparr>, io)
                     else if qe_errno env io \<noteq> ENOSYS then (Inl (- qe_errno env io), io)
                     else pipe_ends env io) in
      case r of
        Inl err \<Rightarrow> ret (err, e, io)
      | Inr e \<Rightarrow>
          if active then bindE (event_notifier_set env e io) (\<lambda>(_, io). ret (0, e, io)) else ret (0, e, io))"

text \<open>\<open>handler\<close> says whether a handler is installed or removed.\<close>

definition event_notifier_set_handler :: "qenv \<Rightarrow> EventNotifier \<Rightarrow> bool \<Rightarrow> qio list \<Rightarrow> int \<times> qio list" where
  "event_notifier_set_handler env e handler io =
     (let io = io @ [QFdHandler (en_rfd e) handler] in (qe_fd_handler env io, io))"

end
