(* ===== verification/VirtQueue.thy ===== *)
theory VirtQueue
  imports QemuEnv
begin

text \<open>
  The virtqueues of QEMU, from \<^verbatim>\<open>src/qemu_vhost_user/hw/virtio/virtio.c\<close> and
  \<^verbatim>\<open>include/hw/virtio/virtio.h\<close>: the layout of a ring, the accessors of its fields in guest memory,
  taking descriptor chains from the available ring, returning them on the used ring, and the decision
  whether the guest is to be interrupted.

  Guest-physical memory is the RAM of the guest and, for addresses that are not RAM, the value a read
  there yields; a write there does not change RAM.  Operations on a queue take the queue and, where they
  read it, the feature word the guest acknowledged.
\<close>

section \<open>Guest-physical memory\<close>

record phys =
  ph_ram :: mem
  ph_mmio :: "u64 \<Rightarrow> nat \<Rightarrow> u64"

definition ld_phys :: "phys \<Rightarrow> u64 \<Rightarrow> nat \<Rightarrow> 'a::len word" where
  "ld_phys ph pa n = (case load_bytes (ph_ram ph) pa n of Some bs \<Rightarrow> of_le bs | None \<Rightarrow> ucast (ph_mmio ph pa n))"

definition st_phys :: "u64 \<Rightarrow> nat \<Rightarrow> 'a::len word \<Rightarrow> phys \<Rightarrow> phys" where
  "st_phys pa n w ph =
     (case store_bytes (ph_ram ph) pa (le_bytes n w) of Some m \<Rightarrow> ph\<lparr>ph_ram := m\<rparr> | None \<Rightarrow> ph)"

section \<open>Queues\<close>

record VRing =
  vri_num :: u32
  vri_align :: u32
  vri_desc :: u64
  vri_avail :: u64
  vri_used :: u64

text \<open>\<open>handle_output\<close> names the handler the device installed, if any.\<close>

record VirtQueue =
  vq_vring :: VRing
  vq_pa :: u64
  vq_last_avail_idx :: u16
  vq_signalled_used :: u16
  vq_signalled_used_valid :: bool
  vq_notification :: bool
  vq_queue_index :: u16
  vq_inuse :: int
  vq_vector :: u16
  vq_handle_output :: "nat option"
  vq_guest_notifier :: EventNotifier
  vq_host_notifier :: EventNotifier

definition VIRTQUEUE_MAX_SIZE :: nat where
  "VIRTQUEUE_MAX_SIZE = 1024"

definition VRING_DESC_F_NEXT :: u16 where
  "VRING_DESC_F_NEXT = 1"

definition VRING_DESC_F_WRITE :: u16 where
  "VRING_DESC_F_WRITE = 2"

definition VRING_DESC_F_INDIRECT :: u16 where
  "VRING_DESC_F_INDIRECT = 4"

definition VRING_USED_F_NO_NOTIFY :: u16 where
  "VRING_USED_F_NO_NOTIFY = 1"

definition VRING_AVAIL_F_NO_INTERRUPT :: u16 where
  "VRING_AVAIL_F_NO_INTERRUPT = 1"

definition VIRTIO_F_NOTIFY_ON_EMPTY :: nat where
  "VIRTIO_F_NOTIFY_ON_EMPTY = 24"

definition VIRTIO_RING_F_EVENT_IDX :: nat where
  "VIRTIO_RING_F_EVENT_IDX = 29"

definition vring_align :: "u64 \<Rightarrow> u64 \<Rightarrow> u64" where
  "vring_align addr align = (addr + align - 1) AND NOT (align - 1)"

definition virtqueue_init :: "VirtQueue \<Rightarrow> VirtQueue" where
  "virtqueue_init vq =
     (let pa = vq_pa vq; r = vq_vring vq; avail = pa + ucast (vri_num r) * 16 in
      vq\<lparr>vq_vring := r\<lparr>vri_desc := pa, vri_avail := avail,
           vri_used := vring_align (avail + (4 + 2 * ucast (vri_num r))) (ucast (vri_align r))\<rparr>\<rparr>)"

section \<open>Fields of the rings\<close>

definition vring_desc_addr :: "phys \<Rightarrow> u64 \<Rightarrow> u32 \<Rightarrow> u64" where
  "vring_desc_addr ph desc_pa i = ld_phys ph (desc_pa + 16 * ucast i) 8"

definition vring_desc_len :: "phys \<Rightarrow> u64 \<Rightarrow> u32 \<Rightarrow> u32" where
  "vring_desc_len ph desc_pa i = ld_phys ph (desc_pa + 16 * ucast i + 8) 4"

definition vring_desc_flags :: "phys \<Rightarrow> u64 \<Rightarrow> u32 \<Rightarrow> u16" where
  "vring_desc_flags ph desc_pa i = ld_phys ph (desc_pa + 16 * ucast i + 12) 2"

definition vring_desc_next :: "phys \<Rightarrow> u64 \<Rightarrow> u32 \<Rightarrow> u16" where
  "vring_desc_next ph desc_pa i = ld_phys ph (desc_pa + 16 * ucast i + 14) 2"

definition vring_avail_flags :: "phys \<Rightarrow> VirtQueue \<Rightarrow> u16" where
  "vring_avail_flags ph vq = ld_phys ph (vri_avail (vq_vring vq)) 2"

definition vring_avail_idx :: "phys \<Rightarrow> VirtQueue \<Rightarrow> u16" where
  "vring_avail_idx ph vq = ld_phys ph (vri_avail (vq_vring vq) + 2) 2"

definition vring_avail_ring :: "phys \<Rightarrow> VirtQueue \<Rightarrow> u32 \<Rightarrow> u16" where
  "vring_avail_ring ph vq i = ld_phys ph (vri_avail (vq_vring vq) + (4 + 2 * ucast i)) 2"

definition vring_used_event :: "phys \<Rightarrow> VirtQueue \<Rightarrow> u16" where
  "vring_used_event ph vq = vring_avail_ring ph vq (vri_num (vq_vring vq))"

definition vring_used_ring_id :: "VirtQueue \<Rightarrow> u32 \<Rightarrow> u32 \<Rightarrow> phys \<Rightarrow> phys" where
  "vring_used_ring_id vq i val ph = st_phys (vri_used (vq_vring vq) + (4 + 8 * ucast i)) 4 val ph"

definition vring_used_ring_len :: "VirtQueue \<Rightarrow> u32 \<Rightarrow> u32 \<Rightarrow> phys \<Rightarrow> phys" where
  "vring_used_ring_len vq i val ph = st_phys (vri_used (vq_vring vq) + (4 + 8 * ucast i + 4)) 4 val ph"

definition vring_used_idx :: "phys \<Rightarrow> VirtQueue \<Rightarrow> u16" where
  "vring_used_idx ph vq = ld_phys ph (vri_used (vq_vring vq) + 2) 2"

definition vring_used_idx_set :: "VirtQueue \<Rightarrow> u16 \<Rightarrow> phys \<Rightarrow> phys" where
  "vring_used_idx_set vq val ph = st_phys (vri_used (vq_vring vq) + 2) 2 val ph"

definition vring_used_flags_set_bit :: "VirtQueue \<Rightarrow> u16 \<Rightarrow> phys \<Rightarrow> phys" where
  "vring_used_flags_set_bit vq msk ph =
     (let pa = vri_used (vq_vring vq) in st_phys pa 2 ((ld_phys ph pa 2 :: u16) OR msk) ph)"

definition vring_used_flags_unset_bit :: "VirtQueue \<Rightarrow> u16 \<Rightarrow> phys \<Rightarrow> phys" where
  "vring_used_flags_unset_bit vq msk ph =
     (let pa = vri_used (vq_vring vq) in st_phys pa 2 ((ld_phys ph pa 2 :: u16) AND NOT msk) ph)"

definition vring_avail_event :: "VirtQueue \<Rightarrow> u16 \<Rightarrow> phys \<Rightarrow> phys" where
  "vring_avail_event vq val ph =
     (if \<not> vq_notification vq then ph
      else st_phys (vri_used (vq_vring vq) + (4 + 8 * ucast (vri_num (vq_vring vq)))) 2 val ph)"

definition virtio_queue_set_notification :: "u32 \<Rightarrow> bool \<Rightarrow> VirtQueue \<Rightarrow> phys \<Rightarrow> VirtQueue \<times> phys" where
  "virtio_queue_set_notification feat enable vq ph =
     (let vq = vq\<lparr>vq_notification := enable\<rparr> in
      (vq, if bit feat VIRTIO_RING_F_EVENT_IDX then vring_avail_event vq (vring_avail_idx ph vq) ph
           else if enable then vring_used_flags_unset_bit vq VRING_USED_F_NO_NOTIFY ph
           else vring_used_flags_set_bit vq VRING_USED_F_NO_NOTIFY ph))"

definition virtio_queue_ready :: "VirtQueue \<Rightarrow> bool" where
  "virtio_queue_ready vq \<longleftrightarrow> vri_avail (vq_vring vq) \<noteq> 0"

definition virtio_queue_empty :: "phys \<Rightarrow> VirtQueue \<Rightarrow> bool" where
  "virtio_queue_empty ph vq \<longleftrightarrow> vring_avail_idx ph vq = vq_last_avail_idx vq"

section \<open>Returning chains\<close>

record iovec =
  iov_base :: u64
  iov_len :: u64

text \<open>The arrays of an element hold the entries in use: \<^verbatim>\<open>in_num\<close> and \<^verbatim>\<open>out_num\<close> are their lengths.\<close>

record VirtQueueElement =
  el_index :: u32
  el_in_addr :: "u64 list"
  el_in_sg :: "iovec list"
  el_out_addr :: "u64 list"
  el_out_sg :: "iovec list"

text \<open>The buffers the device wrote to are released with the number of bytes it wrote to them; \<open>len - offset\<close>
  is a 32-bit difference.\<close>

fun unmap_in :: "u32 \<Rightarrow> u32 \<Rightarrow> iovec list \<Rightarrow> qio list" where
  "unmap_in len offset [] = []"
| "unmap_in len offset (sg # sgs) =
     (let sz = min (ucast (len - offset)) (iov_len sg) in
      QUnmap (iov_base sg) (iov_len sg) True sz # unmap_in len (offset + ucast sz) sgs)"

definition unmap_out :: "iovec list \<Rightarrow> qio list" where
  "unmap_out sgs = map (\<lambda>sg. QUnmap (iov_base sg) (iov_len sg) False (iov_len sg)) sgs"

definition virtqueue_fill ::
  "VirtQueue \<Rightarrow> VirtQueueElement \<Rightarrow> u32 \<Rightarrow> u32 \<Rightarrow> phys \<times> qio list \<Rightarrow> (phys \<times> qio list) exec" where
  "virtqueue_fill vq el len idx = (\<lambda>(ph, io).
     let io = io @ unmap_in len 0 (el_in_sg el) @ unmap_out (el_out_sg el) in
     if vri_num (vq_vring vq) = 0 then fail DivZero
     else let idx = (idx + ucast (vring_used_idx ph vq)) mod vri_num (vq_vring vq) in
     ret (vring_used_ring_len vq idx len (vring_used_ring_id vq idx (el_index el) ph), io))"

definition virtqueue_flush :: "u32 \<Rightarrow> VirtQueue \<Rightarrow> phys \<Rightarrow> VirtQueue \<times> phys" where
  "virtqueue_flush count vq ph =
     (let old = vring_used_idx ph vq; new = old + ucast count in
      (vq\<lparr>vq_inuse := int_of_u32 (word_of_int (vq_inuse vq) - count),
          vq_signalled_used_valid :=
            (if sint (new - vq_signalled_used vq) < uint (new - old) then False else vq_signalled_used_valid vq)\<rparr>,
       vring_used_idx_set vq new ph))"

definition virtqueue_push ::
  "VirtQueueElement \<Rightarrow> u32 \<Rightarrow> VirtQueue \<Rightarrow> phys \<times> qio list \<Rightarrow> (VirtQueue \<times> phys \<times> qio list) exec" where
  "virtqueue_push el len vq s =
     bindE (virtqueue_fill vq el len 0 s) (\<lambda>(ph, io).
       let (vq, ph) = virtqueue_flush 1 vq ph in ret (vq, ph, io))"

section \<open>Taking chains\<close>

text \<open>\<open>idx\<close> is an \<^verbatim>\<open>unsigned int\<close>; only its low 16 bits matter for the number of heads.\<close>

definition virtqueue_num_heads :: "phys \<Rightarrow> VirtQueue \<Rightarrow> u32 \<Rightarrow> u16 exec" where
  "virtqueue_num_heads ph vq idx =
     (let num_heads = vring_avail_idx ph vq - ucast idx in
      if ucast num_heads > vri_num (vq_vring vq) then fail (ExitFailure ''Guest moved used index'') else ret num_heads)"

definition virtqueue_get_head :: "phys \<Rightarrow> VirtQueue \<Rightarrow> u32 \<Rightarrow> u32 exec" where
  "virtqueue_get_head ph vq idx =
     (if vri_num (vq_vring vq) = 0 then fail DivZero
      else let head = ucast (vring_avail_ring ph vq (idx mod vri_num (vq_vring vq))) in
      if head \<ge> vri_num (vq_vring vq) then fail (ExitFailure ''Guest says index is available'') else ret head)"

definition virtqueue_next_desc :: "phys \<Rightarrow> u64 \<Rightarrow> u32 \<Rightarrow> u32 \<Rightarrow> u32 exec" where
  "virtqueue_next_desc ph desc_pa i mx =
     (if vring_desc_flags ph desc_pa i AND VRING_DESC_F_NEXT = 0 then ret mx
      else let next = ucast (vring_desc_next ph desc_pa i) in
      if next \<ge> mx then fail (ExitFailure ''Desc next'') else ret next)"

text \<open>Whether the head is an indirect descriptor, and the table, its size and the first index to walk.\<close>

definition desc_table :: "phys \<Rightarrow> VirtQueue \<Rightarrow> u32 \<Rightarrow> (bool \<times> u64 \<times> u32 \<times> u32) exec" where
  "desc_table ph vq i =
     (let desc_pa = vri_desc (vq_vring vq) in
      if vring_desc_flags ph desc_pa i AND VRING_DESC_F_INDIRECT \<noteq> 0
      then if vring_desc_len ph desc_pa i mod 16 \<noteq> 0
           then fail (ExitFailure ''Invalid size for indirect buffer table'')
           else ret (True, vring_desc_addr ph desc_pa i, vring_desc_len ph desc_pa i div 16, 0)
      else ret (False, desc_pa, vri_num (vq_vring vq), i))"

text \<open>Adding one descriptor to an element.\<close>

definition add_desc :: "phys \<Rightarrow> u64 \<Rightarrow> u32 \<Rightarrow> VirtQueueElement \<Rightarrow> VirtQueueElement exec" where
  "add_desc ph desc_pa i el =
     (let sg = \<lparr>iov_base = 0, iov_len = ucast (vring_desc_len ph desc_pa i)\<rparr> in
      if vring_desc_flags ph desc_pa i AND VRING_DESC_F_WRITE \<noteq> 0
      then if length (el_in_sg el) \<ge> VIRTQUEUE_MAX_SIZE then fail (ExitFailure ''Too many write descriptors in indirect table'')
           else ret (el\<lparr>el_in_addr := el_in_addr el @ [vring_desc_addr ph desc_pa i], el_in_sg := el_in_sg el @ [sg]\<rparr>)
      else if length (el_out_sg el) \<ge> VIRTQUEUE_MAX_SIZE then fail (ExitFailure ''Too many read descriptors in indirect table'')
           else ret (el\<lparr>el_out_addr := el_out_addr el @ [vring_desc_addr ph desc_pa i], el_out_sg := el_out_sg el @ [sg]\<rparr>))"

partial_function (option) collect_descs :: "phys \<Rightarrow> u64 \<Rightarrow> u32 \<Rightarrow> u32 \<Rightarrow> VirtQueueElement \<Rightarrow> VirtQueueElement exec" where
  "collect_descs ph desc_pa mx i el =
     bindE (add_desc ph desc_pa i el) (\<lambda>el.
     bindE (ensure (\<not> of_nat (length (el_in_sg el) + length (el_out_sg el)) > mx) (ExitFailure ''Looped descriptor'')) (\<lambda>_.
     bindE (virtqueue_next_desc ph desc_pa i mx) (\<lambda>i.
       if i \<noteq> mx then collect_descs ph desc_pa mx i el else ret el)))"

fun map_sg :: "qenv \<Rightarrow> bool \<Rightarrow> (u64 \<times> iovec) list \<Rightarrow> qio list \<Rightarrow> (iovec list \<times> qio list) exec" where
  "map_sg env is_write [] io = ret ([], io)"
| "map_sg env is_write ((addr, sg) # sgs) io =
     (let io = io @ [QMap addr (iov_len sg) is_write]; (base, len) = qe_map env io in
      if base = 0 \<or> len \<noteq> iov_len sg then fail (ExitFailure ''virtio: trying to map MMIO memory'')
      else bindE (map_sg env is_write sgs io) (\<lambda>(sgs, io). ret (sg\<lparr>iov_base := base\<rparr> # sgs, io)))"

definition virtqueue_map_sg ::
  "qenv \<Rightarrow> bool \<Rightarrow> u64 list \<Rightarrow> iovec list \<Rightarrow> qio list \<Rightarrow> (iovec list \<times> qio list) exec" where
  "virtqueue_map_sg env is_write addrs sgs io = map_sg env is_write (zip addrs sgs) io"

text \<open>The result is the number of buffers; \<open>el\<close> is the element of the caller, unchanged when the queue is
  empty.\<close>

definition virtqueue_pop ::
  "qenv \<Rightarrow> u32 \<Rightarrow> VirtQueueElement \<Rightarrow> VirtQueue \<Rightarrow> phys \<times> qio list
     \<Rightarrow> (nat \<times> VirtQueueElement \<times> VirtQueue \<times> phys \<times> qio list) exec" where
  "virtqueue_pop env feat el vq = (\<lambda>(ph, io).
     bindE (virtqueue_num_heads ph vq (ucast (vq_last_avail_idx vq))) (\<lambda>n.
     if n = 0 then ret (0, el, vq, ph, io)
     else
       bindE (virtqueue_get_head ph vq (ucast (vq_last_avail_idx vq))) (\<lambda>head.
       let vq = vq\<lparr>vq_last_avail_idx := vq_last_avail_idx vq + 1\<rparr>;
           ph = (if bit feat VIRTIO_RING_F_EVENT_IDX then vring_avail_event vq (vring_avail_idx ph vq) ph else ph) in
       bindE (desc_table ph vq head) (\<lambda>(_, desc_pa, mx, i).
       bindE (collect_descs ph desc_pa mx i
                (el\<lparr>el_in_addr := [], el_in_sg := [], el_out_addr := [], el_out_sg := []\<rparr>)) (\<lambda>el.
       bindE (virtqueue_map_sg env True (el_in_addr el) (el_in_sg el) io) (\<lambda>(insg, io).
       bindE (virtqueue_map_sg env False (el_out_addr el) (el_out_sg el) io) (\<lambda>(outsg, io).
         ret (length insg + length outsg, el\<lparr>el_in_sg := insg, el_out_sg := outsg, el_index := head\<rparr>,
              vq\<lparr>vq_inuse := vq_inuse vq + 1\<rparr>, ph, io))))))))"

section \<open>Sizes of the waiting chains\<close>

text \<open>The walk over one chain: the totals after it, and whether the limits were reached.\<close>

record totals =
  to_in :: u32
  to_out :: u32

definition add_total :: "phys \<Rightarrow> u64 \<Rightarrow> u32 \<Rightarrow> totals \<Rightarrow> totals" where
  "add_total ph desc_pa i t =
     (if vring_desc_flags ph desc_pa i AND VRING_DESC_F_WRITE \<noteq> 0 then t\<lparr>to_in := to_in t + vring_desc_len ph desc_pa i\<rparr>
      else t\<lparr>to_out := to_out t + vring_desc_len ph desc_pa i\<rparr>)"

partial_function (option) count_descs ::
  "phys \<Rightarrow> u32 \<Rightarrow> u32 \<Rightarrow> u64 \<Rightarrow> u32 \<Rightarrow> u32 \<Rightarrow> u32 \<Rightarrow> totals \<Rightarrow> (bool \<times> u32 \<times> totals) exec" where
  "count_descs ph max_in max_out desc_pa mx i num_bufs t =
     (let num_bufs = num_bufs + 1 in
      if num_bufs > mx then fail (ExitFailure ''Looped descriptor'')
      else let t = add_total ph desc_pa i t in
      if to_in t \<ge> max_in \<and> to_out t \<ge> max_out then ret (True, num_bufs, t)
      else bindE (virtqueue_next_desc ph desc_pa i mx) (\<lambda>i.
        if i \<noteq> mx then count_descs ph max_in max_out desc_pa mx i num_bufs t else ret (False, num_bufs, t)))"

partial_function (option) count_chains ::
  "phys \<Rightarrow> VirtQueue \<Rightarrow> u32 \<Rightarrow> u32 \<Rightarrow> u32 \<Rightarrow> u32 \<Rightarrow> totals \<Rightarrow> totals exec" where
  "count_chains ph vq max_in max_out idx total_bufs t =
     bindE (virtqueue_num_heads ph vq idx) (\<lambda>n.
     if n = 0 then ret t
     else
       bindE (virtqueue_get_head ph vq idx) (\<lambda>head.
       bindE (desc_table ph vq head) (\<lambda>(indirect, desc_pa, mx, i).
       bindE (ensure (\<not> (indirect \<and> total_bufs \<ge> vri_num (vq_vring vq))) (ExitFailure ''Looped descriptor'')) (\<lambda>_.
       bindE (count_descs ph max_in max_out desc_pa mx i (if indirect then 0 else total_bufs) t) (\<lambda>(done, num_bufs, t).
         if done then ret t
         else count_chains ph vq max_in max_out (idx + 1) (if indirect then total_bufs + 1 else num_bufs) t)))))"

definition virtqueue_get_avail_bytes :: "phys \<Rightarrow> VirtQueue \<Rightarrow> u32 \<Rightarrow> u32 \<Rightarrow> totals exec" where
  "virtqueue_get_avail_bytes ph vq max_in max_out =
     count_chains ph vq max_in max_out (ucast (vq_last_avail_idx vq)) 0 \<lparr>to_in = 0, to_out = 0\<rparr>"

definition virtqueue_avail_bytes :: "phys \<Rightarrow> VirtQueue \<Rightarrow> u32 \<Rightarrow> u32 \<Rightarrow> bool exec" where
  "virtqueue_avail_bytes ph vq in_bytes out_bytes =
     bindE (virtqueue_get_avail_bytes ph vq in_bytes out_bytes) (\<lambda>t. ret (in_bytes \<le> to_in t \<and> out_bytes \<le> to_out t))"

section \<open>Interrupting the guest\<close>

definition vring_need_event :: "u16 \<Rightarrow> u16 \<Rightarrow> u16 \<Rightarrow> bool" where
  "vring_need_event event new old \<longleftrightarrow> new - event - 1 < new - old"

definition vring_notify :: "u32 \<Rightarrow> phys \<Rightarrow> VirtQueue \<Rightarrow> bool \<times> VirtQueue" where
  "vring_notify feat ph vq =
     (if bit feat VIRTIO_F_NOTIFY_ON_EMPTY \<and> vq_inuse vq = 0 \<and> vring_avail_idx ph vq = vq_last_avail_idx vq
      then (True, vq)
      else if \<not> bit feat VIRTIO_RING_F_EVENT_IDX
      then (vring_avail_flags ph vq AND VRING_AVAIL_F_NO_INTERRUPT = 0, vq)
      else let v = vq_signalled_used_valid vq; old = vq_signalled_used vq; new = vring_used_idx ph vq in
        (\<not> v \<or> vring_need_event (vring_used_event ph vq) new old,
         vq\<lparr>vq_signalled_used_valid := True, vq_signalled_used := new\<rparr>))"

end
