(* ===== verification/VirtIO.thy ===== *)
theory VirtIO
  imports VirtQueue
begin

text \<open>
  Virtio devices, from \<^verbatim>\<open>src/qemu_vhost_user/hw/virtio/virtio.c\<close>: the device with its 64 queues,
  status and reset, the configuration space, the registers of a queue, interrupts, the notifiers, and saving
  and loading a device for migration with the integer codecs of \<^verbatim>\<open>savevm.c\<close>.

  What a device class or a bus implements is a parameter: a record of the functions they install.
\<close>

section \<open>Devices\<close>

record VirtIODevice =
  vd_name :: string
  vd_status :: u8
  vd_isr :: u8
  vd_queue_sel :: u16
  vd_guest_features :: u32
  vd_config_len :: u64
  vd_config :: "u8 list"
  vd_config_vector :: u16
  vd_vq :: "VirtQueue list"
  vd_device_id :: u16
  vd_vm_running :: bool

text \<open>The state a device operates on: the device, guest-physical memory and the trace of calls.\<close>

record vio =
  vi_dev :: VirtIODevice
  vi_phys :: phys
  vi_io :: "qio list"

record 'v VirtioDeviceClass =
  dc_set_status :: "(u8 \<Rightarrow> 'v vio_scheme \<Rightarrow> 'v vio_scheme exec) option"
  dc_reset :: "('v vio_scheme \<Rightarrow> 'v vio_scheme exec) option"
  dc_get_config :: "'v vio_scheme \<Rightarrow> u8 list \<Rightarrow> u8 list"
  dc_set_config :: "('v vio_scheme \<Rightarrow> 'v vio_scheme exec) option"
  dc_set_features :: "(u32 \<Rightarrow> 'v vio_scheme \<Rightarrow> 'v vio_scheme exec) option"
  dc_handle_output :: "nat \<Rightarrow> nat \<Rightarrow> 'v vio_scheme \<Rightarrow> 'v vio_scheme exec"

text \<open>\<open>load_config\<close> and \<open>load_queue\<close> return an error code and the rest of the stream.\<close>

record 'v VirtioBusClass =
  bc_notify :: bool
  bc_save_config :: "u8 list option"
  bc_save_queue :: "(nat \<Rightarrow> u8 list) option"
  bc_load_config :: "(u8 list \<Rightarrow> int \<times> u8 list) option"
  bc_load_queue :: "(nat \<Rightarrow> u8 list \<Rightarrow> int \<times> u8 list) option"
  bc_get_features :: u32
  bc_query_guest_notifiers :: bool
  bc_set_guest_notifiers :: bool
  bc_set_host_notifier :: bool
  bc_vmstate_change :: "(bool \<Rightarrow> 'v vio_scheme \<Rightarrow> 'v vio_scheme exec) option"
  bc_has_variable_vring_alignment :: bool

definition VIRTIO_PCI_QUEUE_MAX :: nat where
  "VIRTIO_PCI_QUEUE_MAX = 64"

definition VIRTIO_NO_VECTOR :: u16 where
  "VIRTIO_NO_VECTOR = 0xffff"

definition VIRTIO_PCI_VRING_ALIGN :: u32 where
  "VIRTIO_PCI_VRING_ALIGN = 4096"

definition VIRTIO_CONFIG_S_DRIVER_OK :: nat where
  "VIRTIO_CONFIG_S_DRIVER_OK = 2"

text \<open>Access to an element of the array of queues.\<close>

definition virtio_get_queue :: "VirtIODevice \<Rightarrow> int \<Rightarrow> VirtQueue exec" where
  "virtio_get_queue d n =
     (if 0 \<le> n \<and> nat n < length (vd_vq d) then ret (vd_vq d ! nat n) else fail (BadIndex n))"

definition put_queue :: "int \<Rightarrow> VirtQueue \<Rightarrow> VirtIODevice \<Rightarrow> VirtIODevice" where
  "put_queue n vq d = d\<lparr>vd_vq := (vd_vq d)[nat n := vq]\<rparr>"

definition upd_queue :: "int \<Rightarrow> (VirtQueue \<Rightarrow> VirtQueue) \<Rightarrow> VirtIODevice \<Rightarrow> VirtIODevice exec" where
  "upd_queue n f d = bindE (virtio_get_queue d n) (\<lambda>vq. ret (put_queue n (f vq) d))"

section \<open>Status and interrupts\<close>

definition virtio_notify_vector :: "'v VirtioBusClass \<Rightarrow> u16 \<Rightarrow> 'v vio_scheme \<Rightarrow> 'v vio_scheme" where
  "virtio_notify_vector k vector s = (if bc_notify k then s\<lparr>vi_io := vi_io s @ [QNotifyVector vector]\<rparr> else s)"

definition virtio_update_irq :: "'v VirtioBusClass \<Rightarrow> 'v vio_scheme \<Rightarrow> 'v vio_scheme" where
  "virtio_update_irq k s = virtio_notify_vector k VIRTIO_NO_VECTOR s"

definition opt_call :: "('a \<Rightarrow> 'v vio_scheme \<Rightarrow> 'v vio_scheme exec) option \<Rightarrow> 'a \<Rightarrow> 'v vio_scheme \<Rightarrow> 'v vio_scheme exec" where
  "opt_call f x s = (case f of Some g \<Rightarrow> g x s | None \<Rightarrow> ret s)"

definition virtio_set_status :: "'v VirtioDeviceClass \<Rightarrow> u8 \<Rightarrow> 'v vio_scheme \<Rightarrow> 'v vio_scheme exec" where
  "virtio_set_status c val s =
     bindE (opt_call (dc_set_status c) val s) (\<lambda>s. ret (s\<lparr>vi_dev := (vi_dev s)\<lparr>vd_status := val\<rparr>\<rparr>))"

definition reset_queue :: "VirtQueue \<Rightarrow> VirtQueue" where
  "reset_queue vq =
     vq\<lparr>vq_vring := (vq_vring vq)\<lparr>vri_desc := 0, vri_avail := 0, vri_used := 0\<rparr>, vq_last_avail_idx := 0, vq_pa := 0,
        vq_vector := VIRTIO_NO_VECTOR, vq_signalled_used := 0, vq_signalled_used_valid := False, vq_notification := True\<rparr>"

definition virtio_reset :: "'v VirtioBusClass \<Rightarrow> 'v VirtioDeviceClass \<Rightarrow> 'v vio_scheme \<Rightarrow> 'v vio_scheme exec" where
  "virtio_reset k c s =
     bindE (virtio_set_status c 0 s) (\<lambda>s.
     bindE (case dc_reset c of Some g \<Rightarrow> g s | None \<Rightarrow> ret s) (\<lambda>s.
     let s = s\<lparr>vi_dev := (vi_dev s)\<lparr>vd_guest_features := 0, vd_queue_sel := 0, vd_status := 0, vd_isr := 0,
                                    vd_config_vector := VIRTIO_NO_VECTOR\<rparr>\<rparr>;
         s = virtio_notify_vector k (vd_config_vector (vi_dev s)) s in
     if length (vd_vq (vi_dev s)) < VIRTIO_PCI_QUEUE_MAX then fail (BadIndex (int (length (vd_vq (vi_dev s)))))
     else ret (s\<lparr>vi_dev := (vi_dev s)\<lparr>vd_vq :=
       map reset_queue (take VIRTIO_PCI_QUEUE_MAX (vd_vq (vi_dev s))) @ drop VIRTIO_PCI_QUEUE_MAX (vd_vq (vi_dev s))\<rparr>\<rparr>)))"

definition virtio_irq :: "'v VirtioBusClass \<Rightarrow> VirtQueue \<Rightarrow> 'v vio_scheme \<Rightarrow> 'v vio_scheme" where
  "virtio_irq k vq s =
     virtio_notify_vector k (vq_vector vq) (s\<lparr>vi_dev := (vi_dev s)\<lparr>vd_isr := vd_isr (vi_dev s) OR 1\<rparr>\<rparr>)"

definition virtio_notify :: "'v VirtioBusClass \<Rightarrow> int \<Rightarrow> 'v vio_scheme \<Rightarrow> 'v vio_scheme exec" where
  "virtio_notify k n s =
     bindE (virtio_get_queue (vi_dev s) n) (\<lambda>vq.
     let (nf, vq) = vring_notify (vd_guest_features (vi_dev s)) (vi_phys s) vq;
         s = s\<lparr>vi_dev := put_queue n vq (vi_dev s)\<rparr> in
     ret (if nf then virtio_irq k vq s else s))"

definition virtio_notify_config :: "'v VirtioBusClass \<Rightarrow> 'v vio_scheme \<Rightarrow> 'v vio_scheme" where
  "virtio_notify_config k s =
     (if \<not> bit (vd_status (vi_dev s)) VIRTIO_CONFIG_S_DRIVER_OK then s
      else virtio_notify_vector k (vd_config_vector (vi_dev s)) (s\<lparr>vi_dev := (vi_dev s)\<lparr>vd_isr := vd_isr (vi_dev s) OR 3\<rparr>\<rparr>))"

section \<open>Configuration space\<close>

text \<open>The three widths of an access.  \<open>addr + n\<close> is computed in 64 bits; an access outside the allocated
  buffer is a fault.\<close>

definition config_read :: "'v VirtioDeviceClass \<Rightarrow> nat \<Rightarrow> u32 \<Rightarrow> 'v vio_scheme \<Rightarrow> (u32 \<times> 'v vio_scheme) exec" where
  "config_read c n addr s =
     (if ucast addr + of_nat n > vd_config_len (vi_dev s) then ret (- 1, s)
      else let s = s\<lparr>vi_dev := (vi_dev s)\<lparr>vd_config := dc_get_config c s (vd_config (vi_dev s))\<rparr>\<rparr> in
      if unat addr + n > length (vd_config (vi_dev s)) then fail (BadIndex (int (unat addr)))
      else ret (of_le (peek (unat addr) n (vd_config (vi_dev s))), s))"

definition virtio_config_readb :: "'v VirtioDeviceClass \<Rightarrow> u32 \<Rightarrow> 'v vio_scheme \<Rightarrow> (u32 \<times> 'v vio_scheme) exec" where
  "virtio_config_readb c addr s = config_read c 1 addr s"

definition virtio_config_readw :: "'v VirtioDeviceClass \<Rightarrow> u32 \<Rightarrow> 'v vio_scheme \<Rightarrow> (u32 \<times> 'v vio_scheme) exec" where
  "virtio_config_readw c addr s = config_read c 2 addr s"

definition virtio_config_readl :: "'v VirtioDeviceClass \<Rightarrow> u32 \<Rightarrow> 'v vio_scheme \<Rightarrow> (u32 \<times> 'v vio_scheme) exec" where
  "virtio_config_readl c addr s = config_read c 4 addr s"

definition config_write :: "'v VirtioDeviceClass \<Rightarrow> nat \<Rightarrow> u32 \<Rightarrow> u32 \<Rightarrow> 'v vio_scheme \<Rightarrow> 'v vio_scheme exec" where
  "config_write c n addr data s =
     (if ucast addr + of_nat n > vd_config_len (vi_dev s) then ret s
      else if unat addr + n > length (vd_config (vi_dev s)) then fail (BadIndex (int (unat addr)))
      else let s = s\<lparr>vi_dev := (vi_dev s)\<lparr>vd_config := poke (unat addr) (le_bytes n data) (vd_config (vi_dev s))\<rparr>\<rparr> in
      case dc_set_config c of Some g \<Rightarrow> g s | None \<Rightarrow> ret s)"

definition virtio_config_writeb :: "'v VirtioDeviceClass \<Rightarrow> u32 \<Rightarrow> u32 \<Rightarrow> 'v vio_scheme \<Rightarrow> 'v vio_scheme exec" where
  "virtio_config_writeb c addr data s = config_write c 1 addr data s"

definition virtio_config_writew :: "'v VirtioDeviceClass \<Rightarrow> u32 \<Rightarrow> u32 \<Rightarrow> 'v vio_scheme \<Rightarrow> 'v vio_scheme exec" where
  "virtio_config_writew c addr data s = config_write c 2 addr data s"

definition virtio_config_writel :: "'v VirtioDeviceClass \<Rightarrow> u32 \<Rightarrow> u32 \<Rightarrow> 'v vio_scheme \<Rightarrow> 'v vio_scheme exec" where
  "virtio_config_writel c addr data s = config_write c 4 addr data s"

section \<open>Registers of a queue\<close>

definition virtio_queue_set_addr :: "int \<Rightarrow> u64 \<Rightarrow> VirtIODevice \<Rightarrow> VirtIODevice exec" where
  "virtio_queue_set_addr n addr d = upd_queue n (\<lambda>vq. virtqueue_init (vq\<lparr>vq_pa := addr\<rparr>)) d"

definition virtio_queue_get_addr :: "VirtIODevice \<Rightarrow> int \<Rightarrow> u64 exec" where
  "virtio_queue_get_addr d n = bindE (virtio_get_queue d n) (\<lambda>vq. ret (vq_pa vq))"

definition virtio_queue_set_num :: "int \<Rightarrow> int \<Rightarrow> VirtIODevice \<Rightarrow> VirtIODevice exec" where
  "virtio_queue_set_num n num d =
     bindE (virtio_get_queue d n) (\<lambda>vq.
     if (num \<noteq> 0) \<noteq> (vri_num (vq_vring vq) \<noteq> 0) \<or> num > int VIRTQUEUE_MAX_SIZE \<or> num < 0 then ret d
     else ret (put_queue n (virtqueue_init (vq\<lparr>vq_vring := (vq_vring vq)\<lparr>vri_num := word_of_int num\<rparr>\<rparr>)) d))"

definition virtio_queue_get_num :: "VirtIODevice \<Rightarrow> int \<Rightarrow> int exec" where
  "virtio_queue_get_num d n = bindE (virtio_get_queue d n) (\<lambda>vq. ret (int_of_u32 (vri_num (vq_vring vq))))"

definition virtio_queue_set_align :: "'v VirtioBusClass \<Rightarrow> int \<Rightarrow> int \<Rightarrow> VirtIODevice \<Rightarrow> VirtIODevice exec" where
  "virtio_queue_set_align k n align d =
     bindE (ensure (bc_has_variable_vring_alignment k) AssertFail) (\<lambda>_.
       upd_queue n (\<lambda>vq. virtqueue_init (vq\<lparr>vq_vring := (vq_vring vq)\<lparr>vri_align := word_of_int align\<rparr>\<rparr>)) d)"

definition virtio_queue_notify_vq :: "'v VirtioDeviceClass \<Rightarrow> int \<Rightarrow> 'v vio_scheme \<Rightarrow> 'v vio_scheme exec" where
  "virtio_queue_notify_vq c n s =
     bindE (virtio_get_queue (vi_dev s) n) (\<lambda>vq.
     if vri_desc (vq_vring vq) = 0 then ret s
     else case vq_handle_output vq of
       None \<Rightarrow> fail (Segv 0)
     | Some h \<Rightarrow> dc_handle_output c h (nat n) s)"

definition virtio_queue_notify :: "'v VirtioDeviceClass \<Rightarrow> int \<Rightarrow> 'v vio_scheme \<Rightarrow> 'v vio_scheme exec" where
  "virtio_queue_notify c n s = virtio_queue_notify_vq c n s"

definition virtio_queue_vector :: "VirtIODevice \<Rightarrow> int \<Rightarrow> u16 exec" where
  "virtio_queue_vector d n =
     (if n < int VIRTIO_PCI_QUEUE_MAX then bindE (virtio_get_queue d n) (\<lambda>vq. ret (vq_vector vq)) else ret VIRTIO_NO_VECTOR)"

definition virtio_queue_set_vector :: "int \<Rightarrow> u16 \<Rightarrow> VirtIODevice \<Rightarrow> VirtIODevice exec" where
  "virtio_queue_set_vector n vector d =
     (if n < int VIRTIO_PCI_QUEUE_MAX then upd_queue n (\<lambda>vq. vq\<lparr>vq_vector := vector\<rparr>) d else ret d)"

text \<open>The number of queues in use: the index of the first queue without descriptors, or all of them.\<close>

definition queue_count :: "VirtIODevice \<Rightarrow> nat" where
  "queue_count d = length (takeWhile (\<lambda>vq. vri_num (vq_vring vq) \<noteq> 0) (vd_vq d))"

definition virtio_add_queue :: "int \<Rightarrow> nat \<Rightarrow> VirtIODevice \<Rightarrow> (nat \<times> VirtIODevice) exec" where
  "virtio_add_queue queue_size handler d =
     (let i = queue_count d in
      if i = VIRTIO_PCI_QUEUE_MAX \<or> queue_size > int VIRTQUEUE_MAX_SIZE then fail (ExitFailure ''abort'')
      else bindE (upd_queue (int i) (\<lambda>vq. vq\<lparr>vq_vring := (vq_vring vq)\<lparr>vri_num := word_of_int queue_size, vri_align := VIRTIO_PCI_VRING_ALIGN\<rparr>,
                                       vq_handle_output := Some handler\<rparr>) d) (\<lambda>d. ret (i, d)))"

definition virtio_del_queue :: "int \<Rightarrow> VirtIODevice \<Rightarrow> VirtIODevice exec" where
  "virtio_del_queue n d =
     (if n < 0 \<or> n \<ge> int VIRTIO_PCI_QUEUE_MAX then fail (ExitFailure ''abort'')
      else upd_queue n (\<lambda>vq. vq\<lparr>vq_vring := (vq_vring vq)\<lparr>vri_num := 0\<rparr>\<rparr>) d)"

definition virtio_queue_get_desc_addr :: "VirtIODevice \<Rightarrow> int \<Rightarrow> u64 exec" where
  "virtio_queue_get_desc_addr d n = bindE (virtio_get_queue d n) (\<lambda>vq. ret (vri_desc (vq_vring vq)))"

definition virtio_queue_get_avail_addr :: "VirtIODevice \<Rightarrow> int \<Rightarrow> u64 exec" where
  "virtio_queue_get_avail_addr d n = bindE (virtio_get_queue d n) (\<lambda>vq. ret (vri_avail (vq_vring vq)))"

definition virtio_queue_get_used_addr :: "VirtIODevice \<Rightarrow> int \<Rightarrow> u64 exec" where
  "virtio_queue_get_used_addr d n = bindE (virtio_get_queue d n) (\<lambda>vq. ret (vri_used (vq_vring vq)))"

definition virtio_queue_get_ring_addr :: "VirtIODevice \<Rightarrow> int \<Rightarrow> u64 exec" where
  "virtio_queue_get_ring_addr d n = bindE (virtio_get_queue d n) (\<lambda>vq. ret (vri_desc (vq_vring vq)))"

definition virtio_queue_get_desc_size :: "VirtIODevice \<Rightarrow> int \<Rightarrow> u64 exec" where
  "virtio_queue_get_desc_size d n = bindE (virtio_get_queue d n) (\<lambda>vq. ret (16 * ucast (vri_num (vq_vring vq))))"

definition virtio_queue_get_avail_size :: "VirtIODevice \<Rightarrow> int \<Rightarrow> u64 exec" where
  "virtio_queue_get_avail_size d n = bindE (virtio_get_queue d n) (\<lambda>vq. ret (4 + 8 * ucast (vri_num (vq_vring vq))))"

definition virtio_queue_get_used_size :: "VirtIODevice \<Rightarrow> int \<Rightarrow> u64 exec" where
  "virtio_queue_get_used_size d n = bindE (virtio_get_queue d n) (\<lambda>vq. ret (4 + 8 * ucast (vri_num (vq_vring vq))))"

definition virtio_queue_get_ring_size :: "VirtIODevice \<Rightarrow> int \<Rightarrow> u64 exec" where
  "virtio_queue_get_ring_size d n =
     bindE (virtio_get_queue d n) (\<lambda>vq. bindE (virtio_queue_get_used_size d n) (\<lambda>sz.
       ret (vri_used (vq_vring vq) - vri_desc (vq_vring vq) + sz)))"

definition virtio_queue_get_last_avail_idx :: "VirtIODevice \<Rightarrow> int \<Rightarrow> u16 exec" where
  "virtio_queue_get_last_avail_idx d n = bindE (virtio_get_queue d n) (\<lambda>vq. ret (vq_last_avail_idx vq))"

definition virtio_queue_set_last_avail_idx :: "int \<Rightarrow> u16 \<Rightarrow> VirtIODevice \<Rightarrow> VirtIODevice exec" where
  "virtio_queue_set_last_avail_idx n idx d = upd_queue n (\<lambda>vq. vq\<lparr>vq_last_avail_idx := idx\<rparr>) d"

definition virtio_queue_invalidate_signalled_used :: "int \<Rightarrow> VirtIODevice \<Rightarrow> VirtIODevice exec" where
  "virtio_queue_invalidate_signalled_used n d = upd_queue n (\<lambda>vq. vq\<lparr>vq_signalled_used_valid := False\<rparr>) d"

section \<open>Notifiers of a queue\<close>

definition virtio_queue_guest_notifier_read :: "qenv \<Rightarrow> 'v VirtioBusClass \<Rightarrow> int \<Rightarrow> 'v vio_scheme \<Rightarrow> 'v vio_scheme exec" where
  "virtio_queue_guest_notifier_read env k n s =
     bindE (virtio_get_queue (vi_dev s) n) (\<lambda>vq.
     bindE (event_notifier_test_and_clear env (vq_guest_notifier vq) (vi_io s)) (\<lambda>(v, io).
       ret (if v then virtio_irq k vq (s\<lparr>vi_io := io\<rparr>) else s\<lparr>vi_io := io\<rparr>)))"

definition virtio_queue_set_guest_notifier_fd_handler ::
  "qenv \<Rightarrow> 'v VirtioBusClass \<Rightarrow> int \<Rightarrow> bool \<Rightarrow> bool \<Rightarrow> 'v vio_scheme \<Rightarrow> 'v vio_scheme exec" where
  "virtio_queue_set_guest_notifier_fd_handler env k n assign with_irqfd s =
     bindE (virtio_get_queue (vi_dev s) n) (\<lambda>vq.
     let (_, io) = event_notifier_set_handler env (vq_guest_notifier vq) (assign \<and> \<not> with_irqfd) (vi_io s);
         s = s\<lparr>vi_io := io\<rparr> in
     if assign then ret s else virtio_queue_guest_notifier_read env k n s)"

definition virtio_queue_host_notifier_read :: "qenv \<Rightarrow> 'v VirtioDeviceClass \<Rightarrow> int \<Rightarrow> 'v vio_scheme \<Rightarrow> 'v vio_scheme exec" where
  "virtio_queue_host_notifier_read env c n s =
     bindE (virtio_get_queue (vi_dev s) n) (\<lambda>vq.
     bindE (event_notifier_test_and_clear env (vq_host_notifier vq) (vi_io s)) (\<lambda>(v, io).
       if v then virtio_queue_notify_vq c n (s\<lparr>vi_io := io\<rparr>) else ret (s\<lparr>vi_io := io\<rparr>)))"

definition virtio_queue_set_host_notifier_fd_handler ::
  "qenv \<Rightarrow> 'v VirtioDeviceClass \<Rightarrow> int \<Rightarrow> bool \<Rightarrow> bool \<Rightarrow> 'v vio_scheme \<Rightarrow> 'v vio_scheme exec" where
  "virtio_queue_set_host_notifier_fd_handler env c n assign set_handler s =
     bindE (virtio_get_queue (vi_dev s) n) (\<lambda>vq.
     let (_, io) = event_notifier_set_handler env (vq_host_notifier vq) (assign \<and> set_handler) (vi_io s);
         s = s\<lparr>vi_io := io\<rparr> in
     if assign then ret s else virtio_queue_host_notifier_read env c n s)"

section \<open>Creation and state changes\<close>

definition fresh_queue :: "nat \<Rightarrow> VirtQueue" where
  "fresh_queue i =
     \<lparr>vq_vring = \<lparr>vri_num = 0, vri_align = 0, vri_desc = 0, vri_avail = 0, vri_used = 0\<rparr>, vq_pa = 0, vq_last_avail_idx = 0,
      vq_signalled_used = 0, vq_signalled_used_valid = False, vq_notification = False, vq_queue_index = of_nat i,
      vq_inuse = 0, vq_vector = VIRTIO_NO_VECTOR, vq_handle_output = None,
      vq_guest_notifier = \<lparr>en_rfd = 0, en_wfd = 0\<rparr>, vq_host_notifier = \<lparr>en_rfd = 0, en_wfd = 0\<rparr>\<rparr>"

definition virtio_init :: "bool \<Rightarrow> string \<Rightarrow> u16 \<Rightarrow> u64 \<Rightarrow> VirtIODevice \<Rightarrow> VirtIODevice" where
  "virtio_init running name device_id config_size d =
     d\<lparr>vd_device_id := device_id, vd_status := 0, vd_isr := 0, vd_queue_sel := 0, vd_config_vector := VIRTIO_NO_VECTOR,
       vd_vq := map fresh_queue [0 ..< VIRTIO_PCI_QUEUE_MAX], vd_vm_running := running, vd_name := name,
       vd_config_len := config_size, vd_config := replicate (unat config_size) 0\<rparr>"

definition virtio_vmstate_change :: "'v VirtioBusClass \<Rightarrow> 'v VirtioDeviceClass \<Rightarrow> bool \<Rightarrow> 'v vio_scheme \<Rightarrow> 'v vio_scheme exec" where
  "virtio_vmstate_change k c running s =
     (let backend_run = (running \<and> bit (vd_status (vi_dev s)) VIRTIO_CONFIG_S_DRIVER_OK);
          s = s\<lparr>vi_dev := (vi_dev s)\<lparr>vd_vm_running := running\<rparr>\<rparr> in
      bindE (if backend_run then virtio_set_status c (vd_status (vi_dev s)) s else ret s) (\<lambda>s.
      bindE (opt_call (bc_vmstate_change k) backend_run s) (\<lambda>s.
      if \<not> backend_run then virtio_set_status c (vd_status (vi_dev s)) s else ret s)))"

definition virtio_set_features :: "'v VirtioBusClass \<Rightarrow> 'v VirtioDeviceClass \<Rightarrow> u32 \<Rightarrow> 'v vio_scheme \<Rightarrow> (int \<times> 'v vio_scheme) exec" where
  "virtio_set_features k c val s =
     (let bad = (val AND NOT (bc_get_features k) \<noteq> 0); val = val AND bc_get_features k in
      bindE (opt_call (dc_set_features c) val s) (\<lambda>s.
        ret (if bad then -1 else 0, s\<lparr>vi_dev := (vi_dev s)\<lparr>vd_guest_features := val\<rparr>\<rparr>)))"

section \<open>Saving and loading\<close>

text \<open>Integers are stored big endian.  A read past the end of the stream yields zero bytes.\<close>

definition put_be :: "nat \<Rightarrow> 'a::len word \<Rightarrow> u8 list" where
  "put_be n w = rev (le_bytes n w)"

definition get_be :: "nat \<Rightarrow> u8 list \<Rightarrow> 'a::len word \<times> u8 list" where
  "get_be n f = (of_le (rev (take n f @ replicate (n - length f) 0)), drop n f)"

text \<open>\<^verbatim>\<open>qemu_get_buffer\<close> copies at most \<open>len\<close> bytes, an \<^verbatim>\<open>int\<close>, to the buffer.\<close>

definition qemu_get_buffer :: "u8 list \<Rightarrow> int \<Rightarrow> u8 list \<Rightarrow> (u8 list \<times> u8 list) exec" where
  "qemu_get_buffer buf len f =
     (let bs = take (nat len) f in
      if length bs > length buf then fail Overrun else ret (poke 0 bs buf, drop (nat len) f))"

definition save_queue :: "'v VirtioBusClass \<Rightarrow> nat \<Rightarrow> VirtQueue \<Rightarrow> u8 list" where
  "save_queue k i vq =
     put_be 4 (vri_num (vq_vring vq)) @
     (if bc_has_variable_vring_alignment k then put_be 4 (vri_align (vq_vring vq)) else []) @
     put_be 8 (vq_pa vq) @ put_be 2 (vq_last_avail_idx vq) @
     (case bc_save_queue k of Some g \<Rightarrow> g i | None \<Rightarrow> [])"

fun save_queues :: "'v VirtioBusClass \<Rightarrow> nat \<Rightarrow> VirtQueue list \<Rightarrow> u8 list" where
  "save_queues k i [] = []"
| "save_queues k i (vq # vqs) = (if vri_num (vq_vring vq) = 0 then [] else save_queue k i vq @ save_queues k (Suc i) vqs)"

definition virtio_save :: "'v VirtioBusClass \<Rightarrow> VirtIODevice \<Rightarrow> u8 list" where
  "virtio_save k d =
     (case bc_save_config k of Some bs \<Rightarrow> bs | None \<Rightarrow> []) @
     put_be 1 (vd_status d) @ put_be 1 (vd_isr d) @ put_be 2 (vd_queue_sel d) @ put_be 4 (vd_guest_features d) @
     put_be 4 (ucast (vd_config_len d) :: u32) @ take (unat (vd_config_len d)) (vd_config d) @
     put_be 4 (of_nat (queue_count d) :: u32) @ save_queues k 0 (vd_vq d)"

text \<open>One queue: an error code, the device and the rest of the stream.\<close>

definition load_queue :: "'v VirtioBusClass \<Rightarrow> phys \<Rightarrow> nat \<Rightarrow> VirtIODevice \<Rightarrow> u8 list \<Rightarrow> (int \<times> VirtIODevice \<times> u8 list) exec" where
  "load_queue k ph i d f =
     bindE (virtio_get_queue d (int i)) (\<lambda>vq.
     let (num, f) = get_be 4 f;
         (align, f) = (if bc_has_variable_vring_alignment k then get_be 4 f else (vri_align (vq_vring vq), f));
         (pa, f) = get_be 8 f;
         (last, f) = get_be 2 f;
         vq = vq\<lparr>vq_vring := (vq_vring vq)\<lparr>vri_num := num, vri_align := align\<rparr>, vq_pa := pa, vq_last_avail_idx := last,
                 vq_signalled_used_valid := False, vq_notification := True\<rparr>;
         vq = (if pa \<noteq> 0 then virtqueue_init vq else vq);
         d = put_queue (int i) vq d in
     if pa \<noteq> 0 \<and> ucast (vring_avail_idx ph vq - last) > num then ret (-1, d, f)
     else if pa = 0 \<and> last \<noteq> 0 then ret (-1, d, f)
     else case bc_load_queue k of
       Some g \<Rightarrow> (case g i f of (r, f) \<Rightarrow> ret (r, d, f))
     | None \<Rightarrow> ret (0, d, f))"

text \<open>The loop over \<open>n\<close> queues from index \<open>i\<close>.\<close>

fun load_queues :: "'v VirtioBusClass \<Rightarrow> phys \<Rightarrow> nat \<Rightarrow> nat \<Rightarrow> VirtIODevice \<Rightarrow> u8 list \<Rightarrow> (int \<times> VirtIODevice \<times> u8 list) exec" where
  "load_queues k ph 0 i d f = ret (0, d, f)"
| "load_queues k ph (Suc n) i d f =
     bindE (load_queue k ph i d f) (\<lambda>(r, d, f). if r \<noteq> 0 then ret (r, d, f) else load_queues k ph n (Suc i) d f)"

definition load_header :: "u8 list \<Rightarrow> VirtIODevice \<Rightarrow> u32 \<times> VirtIODevice \<times> u8 list" where
  "load_header f d =
     (let (st, f) = get_be 1 f; (isr, f) = get_be 1 f; (sel, f) = get_be 2 f; (features, f) = get_be 4 f in
      (features, d\<lparr>vd_status := st, vd_isr := isr, vd_queue_sel := sel\<rparr>, f))"

text \<open>The result is an error code, the device and the rest of the stream.\<close>

definition virtio_load :: "'v VirtioBusClass \<Rightarrow> 'v VirtioDeviceClass \<Rightarrow> u8 list \<Rightarrow> 'v vio_scheme \<Rightarrow> (int \<times> 'v vio_scheme \<times> u8 list) exec" where
  "virtio_load k c f s =
     (let (r, f) = (case bc_load_config k of Some g \<Rightarrow> g f | None \<Rightarrow> (0, f)) in
      if r \<noteq> 0 then ret (r, s, f)
      else let (features, d, f) = load_header f (vi_dev s) in
      bindE (virtio_set_features k c features (s\<lparr>vi_dev := d\<rparr>)) (\<lambda>(r, s).
      if r < 0 then ret (-1, s, f)
      else let (len, f) = get_be 4 f; s = s\<lparr>vi_dev := (vi_dev s)\<lparr>vd_config_len := ucast (len :: u32)\<rparr>\<rparr> in
      bindE (qemu_get_buffer (vd_config (vi_dev s)) (int_of_u32 len) f) (\<lambda>(cfg, f).
      let s = s\<lparr>vi_dev := (vi_dev s)\<lparr>vd_config := cfg\<rparr>\<rparr>; (num, f) = get_be 4 f in
      bindE (load_queues k (vi_phys s) (nat (int_of_u32 num)) 0 (vi_dev s) f) (\<lambda>(r, d, f).
      let s = s\<lparr>vi_dev := d\<rparr> in
      if r \<noteq> 0 then ret (r, s, f) else ret (0, virtio_notify_vector k VIRTIO_NO_VECTOR s, f)))))"

end
