(* ===== verification/RamBlocks.thy ===== *)
theory RamBlocks
  imports Ranges
begin

text \<open>
  The blocks of guest memory, from \<^verbatim>\<open>src/qemu_vhost_user/exec.c\<close> and
  \<^verbatim>\<open>include/exec/memory-internal.h\<close>: the list of RAM blocks with its most recently used entry, the
  search for a free offset, allocation and release, the translations between RAM addresses and host
  pointers, and the bitmap of dirty pages.  The process does not run under Xen (\<^verbatim>\<open>xen_enabled()\<close> is
  false), and target pages have 4096 bytes.  The answers of the kernel to an allocation are a record
  parameter.

  The lemmas show that allocation and release keep the blocks disjoint and within the bitmap, that the
  most recently used entry never changes what a lookup finds, and that host pointers translate back to
  the RAM address they came from.
\<close>

section \<open>Data\<close>

record RAMBlock =
  rb_mr :: nat
  rb_host :: u64
  rb_offset :: u64
  rb_length :: u64
  rb_flags :: u32
  rb_idstr :: string
  rb_fd :: int

datatype advice = MERGEABLE | DONTDUMP | HUGEPAGE | DONTFORK

text \<open>Calls to the kernel: creating and opening the backing file, mapping it shared or private, touching
  its pages, anonymous allocation by the accelerator, advice on a mapping, and releasing memory.\<close>

datatype ram_call =
    RMkstemp string | ROpen string | RUnlink string | RFtruncate int u64 | RMmap u64 bool int | RClose int | RTouch u64
  | RPhysAlloc u64 | RMadvise u64 u64 advice | RKvmSetup u64 u64 | RMunmap u64 u64 | RAnonFree u64 u64

text \<open>The list with the calls made for it.\<close>

record RAMList =
  rl_phys_dirty :: "u8 list"
  rl_mru_block :: "RAMBlock option"
  rl_blocks :: "RAMBlock list"
  rl_version :: u32
  rl_calls :: "ram_call list"

definition TARGET_PAGE_BITS :: nat where
  "TARGET_PAGE_BITS = 12"

definition TARGET_PAGE_MASK :: u64 where
  "TARGET_PAGE_MASK = NOT (0x1000 - 1)"

definition TARGET_PAGE_ALIGN :: "u64 \<Rightarrow> u64" where
  "TARGET_PAGE_ALIGN addr = (addr + 0x1000 - 1) AND TARGET_PAGE_MASK"

definition RAM_ADDR_MAX :: u64 where
  "RAM_ADDR_MAX = - 1"

definition RAM_PREALLOC_MASK :: u32 where
  "RAM_PREALLOC_MASK = 1"

section \<open>Dirty pages\<close>

definition page_of :: "u64 \<Rightarrow> nat" where
  "page_of addr = unat (drop_bit TARGET_PAGE_BITS addr)"

definition cpu_physical_memory_get_dirty_flags :: "u64 \<Rightarrow> RAMList \<Rightarrow> u8 exec" where
  "cpu_physical_memory_get_dirty_flags addr rl =
     (if page_of addr < length (rl_phys_dirty rl) then ret (rl_phys_dirty rl ! page_of addr)
      else fail (BadIndex (int (page_of addr))))"

definition cpu_physical_memory_is_dirty :: "u64 \<Rightarrow> RAMList \<Rightarrow> bool exec" where
  "cpu_physical_memory_is_dirty addr rl =
     bindE (cpu_physical_memory_get_dirty_flags addr rl) (\<lambda>f. ret (f = 0xff))"

definition upd_dirty :: "nat \<Rightarrow> (u8 \<Rightarrow> u8) \<Rightarrow> u8 list \<Rightarrow> u8 list exec" where
  "upd_dirty p f pd = (if p < length pd then ret (pd[p := f (pd ! p)]) else fail (BadIndex (int p)))"

fun upd_dirty_pages :: "nat list \<Rightarrow> (u8 \<Rightarrow> u8) \<Rightarrow> u8 list \<Rightarrow> u8 list exec" where
  "upd_dirty_pages [] f pd = ret pd"
| "upd_dirty_pages (p # ps) f pd = bindE (upd_dirty p f pd) (upd_dirty_pages ps f)"

text \<open>The pages that a loop from \<open>start\<close>, rounded down, to \<open>start + length\<close>, rounded up, visits: both ends are
  multiples of the page size.\<close>

definition pages_of :: "u64 \<Rightarrow> u64 \<Rightarrow> nat list" where
  "pages_of start len = [page_of (start AND TARGET_PAGE_MASK) ..< page_of (TARGET_PAGE_ALIGN (start + len))]"

fun or_flags :: "nat list \<Rightarrow> u8 \<Rightarrow> u8 list \<Rightarrow> u8 exec" where
  "or_flags [] flags pd = ret 0"
| "or_flags (p # ps) flags pd =
     (if p < length pd then bindE (or_flags ps flags pd) (\<lambda>r. ret ((pd ! p AND flags) OR r))
      else fail (BadIndex (int p)))"

definition cpu_physical_memory_get_dirty :: "u64 \<Rightarrow> u64 \<Rightarrow> u8 \<Rightarrow> RAMList \<Rightarrow> u8 exec" where
  "cpu_physical_memory_get_dirty start len dirty_flags rl = or_flags (pages_of start len) dirty_flags (rl_phys_dirty rl)"

definition cpu_physical_memory_set_dirty_range :: "u64 \<Rightarrow> u64 \<Rightarrow> u8 \<Rightarrow> RAMList \<Rightarrow> RAMList exec" where
  "cpu_physical_memory_set_dirty_range start len dirty_flags rl =
     bindE (upd_dirty_pages (pages_of start len) (\<lambda>f. f OR dirty_flags) (rl_phys_dirty rl)) (\<lambda>pd.
       ret (rl\<lparr>rl_phys_dirty := pd\<rparr>))"

definition cpu_physical_memory_mask_dirty_range :: "u64 \<Rightarrow> u64 \<Rightarrow> u8 \<Rightarrow> RAMList \<Rightarrow> RAMList exec" where
  "cpu_physical_memory_mask_dirty_range start len dirty_flags rl =
     bindE (upd_dirty_pages (pages_of start len) (\<lambda>f. f AND NOT dirty_flags) (rl_phys_dirty rl)) (\<lambda>pd.
       ret (rl\<lparr>rl_phys_dirty := pd\<rparr>))"

section \<open>Offsets\<close>

definition next_offset :: "u64 \<Rightarrow> RAMBlock list \<Rightarrow> u64" where
  "next_offset e blocks =
     fold (\<lambda>b next. if rb_offset b \<ge> e then min next (rb_offset b) else next) blocks RAM_ADDR_MAX"

definition try_gap :: "RAMBlock list \<Rightarrow> u64 \<Rightarrow> RAMBlock \<Rightarrow> u64 \<times> u64 \<Rightarrow> u64 \<times> u64" where
  "try_gap blocks sz block = (\<lambda>(offset, mingap).
     let e = rb_offset block + rb_length block; next = next_offset e blocks in
     if next - e \<ge> sz \<and> next - e < mingap then (e, next - e) else (offset, mingap))"

definition find_ram_offset :: "u64 \<Rightarrow> RAMBlock list \<Rightarrow> u64 exec" where
  "find_ram_offset sz blocks =
     bindE (ensure (sz \<noteq> 0) AssertFail) (\<lambda>_.
       if blocks = [] then ret 0
       else let (offset, mingap) = fold (try_gap blocks sz) blocks (RAM_ADDR_MAX, RAM_ADDR_MAX) in
         if offset = RAM_ADDR_MAX then fail (ExitFailure ''Failed to find gap of requested size'')
         else ret offset)"

definition last_ram_offset :: "RAMBlock list \<Rightarrow> u64" where
  "last_ram_offset blocks = fold (\<lambda>b last. max last (rb_offset b + rb_length b)) blocks 0"

section \<open>Allocation and release\<close>

datatype statfs_answer = StatOk u64 u64 | StatIntr | StatFail

text \<open>The configuration and the answers of the kernel: the memory path and its options (with their
  defaults filled in), the machine options, the accelerator, the name of the memory region, the answers to
  \<^verbatim>\<open>statfs\<close>, the descriptor of the backing file, the mapping (\<open>-1\<close> is \<^verbatim>\<open>MAP_FAILED\<close>), whether the signal
  handler can be set and the pages be touched, and the anonymous mapping (0 on failure).\<close>

record alloc_env =
  ae_path :: "string option"
  ae_prealloc :: bool
  ae_share :: bool
  ae_unlink :: bool
  ae_mem_merge :: bool
  ae_dump_core :: bool
  ae_kvm :: bool
  ae_sync_mmu :: bool
  ae_anon :: bool
  ae_name :: string
  ae_statfs :: "nat \<Rightarrow> statfs_answer"
  ae_open :: int
  ae_mmap :: u64
  ae_sigaction :: bool
  ae_sigrestore :: bool
  ae_touch :: bool
  ae_phys_mem_alloc :: u64

definition HUGETLBFS_MAGIC :: u64 where
  "HUGETLBFS_MAGIC = 0x958458f6"

definition MIN_HUGE_PAGE_SIZE :: u64 where
  "MIN_HUGE_PAGE_SIZE = 2 * 1024 * 1024"

text \<open>\<open>k\<close> counts the calls of \<^verbatim>\<open>statfs\<close>.\<close>

partial_function (option) gethugepagesize :: "(nat \<Rightarrow> statfs_answer) \<Rightarrow> nat \<Rightarrow> u64 exec" where
  "gethugepagesize st k =
     (case st k of
        StatIntr \<Rightarrow> gethugepagesize st (Suc k)
      | StatFail \<Rightarrow> ret 0
      | StatOk ty bsize \<Rightarrow> ret (if ty \<noteq> HUGETLBFS_MAGIC then 0 else bsize))"

definition ram_filename :: "string \<Rightarrow> string \<Rightarrow> bool \<Rightarrow> string" where
  "ram_filename path name unlink =
     path @ ''/qemu_back_mem.'' @ map (\<lambda>c. if c = CHR ''/'' then CHR ''_'' else c) name @ (if unlink then ''.XXXXXX'' else '''')"

definition open_calls :: "alloc_env \<Rightarrow> string \<Rightarrow> ram_call list" where
  "open_calls ae path =
     (let filename = ram_filename path (ae_name ae) (ae_unlink ae) in
      if ae_unlink ae then RMkstemp filename # (if ae_open ae < 0 then [] else [RUnlink filename]) else [ROpen filename])"

definition touches :: "u64 \<Rightarrow> u64 \<Rightarrow> u64 \<Rightarrow> ram_call list" where
  "touches area memory hpagesize =
     map (\<lambda>i. RTouch (area + hpagesize * of_nat i)) [0 ..< unat (memory div hpagesize - 1)]"

text \<open>The pointer, null on failure, the descriptor stored in the block, and the calls.\<close>

definition file_ram_alloc :: "alloc_env \<Rightarrow> u64 \<Rightarrow> string \<Rightarrow> (u64 \<times> int \<times> ram_call list) exec" where
  "file_ram_alloc ae memory path =
     bindE (gethugepagesize (ae_statfs ae) 0) (\<lambda>hps.
     let hpagesize = (if hps = 0 then MIN_HUGE_PAGE_SIZE else hps) in
     if memory < hpagesize then ret (0, -1, [])
     else if ae_kvm ae \<and> \<not> ae_sync_mmu ae then ret (0, -1, [])
     else let fd = ae_open ae; cs = open_calls ae path in
     if fd < 0 then ret (0, -1, cs)
     else let memory = (memory + hpagesize - 1) AND NOT (hpagesize - 1);
              cs = cs @ [RFtruncate fd memory, RMmap memory (ae_share ae) fd]; area = ae_mmap ae in
     if area = - 1 then ret (0, -1, cs @ [RClose fd])
     else if ae_prealloc ae
     then bindE (ensure (ae_sigaction ae) (ExitFailure ''file_ram_alloc: failed to install signal handler'')) (\<lambda>_.
          bindE (ensure (ae_touch ae) (ExitFailure ''file_ram_alloc: failed to preallocate pages'')) (\<lambda>_.
          bindE (ensure (ae_sigrestore ae) (ExitFailure ''file_ram_alloc: failed to reinstall signal handler'')) (\<lambda>_.
            ret (area, fd, cs @ touches area memory hpagesize))))
     else ret (area, fd, cs))"

definition alloc_host :: "alloc_env \<Rightarrow> u64 \<Rightarrow> (u64 \<times> int \<times> ram_call list) exec" where
  "alloc_host ae sz =
     bindE (case ae_path ae of
              Some path \<Rightarrow>
                bindE (ensure (ae_anon ae) (ExitFailure ''-mem-path not supported with this accelerator'')) (\<lambda>_.
                  file_ram_alloc ae sz path)
            | None \<Rightarrow> ret (0, -1, [])) (\<lambda>(p, fd, cs).
       if p = 0
       then let p = ae_phys_mem_alloc ae in
            bindE (ensure (p \<noteq> 0) (ExitFailure ''Cannot set up guest memory'')) (\<lambda>_.
              ret (p, fd, cs @ [RPhysAlloc sz] @ (if ae_mem_merge ae then [RMadvise p sz MERGEABLE] else [])))
       else ret (p, fd, cs))"

definition setup_calls :: "alloc_env \<Rightarrow> u64 \<Rightarrow> u64 \<Rightarrow> ram_call list" where
  "setup_calls ae p sz =
     (if ae_dump_core ae then [] else [RMadvise p sz DONTDUMP]) @ [RMadvise p sz HUGEPAGE, RMadvise p sz DONTFORK] @
     (if ae_kvm ae then [RKvmSetup p sz] else [])"

fun insert_block :: "RAMBlock \<Rightarrow> RAMBlock list \<Rightarrow> RAMBlock list" where
  "insert_block nb [] = [nb]"
| "insert_block nb (b # bs) = (if rb_length b < rb_length nb then nb # b # bs else b # insert_block nb bs)"

definition grow_dirty :: "nat \<Rightarrow> u8 list \<Rightarrow> u8 list" where
  "grow_dirty n pd = take n pd @ replicate (n - length pd) 0"

definition clear_dirty :: "nat \<Rightarrow> nat \<Rightarrow> u8 list \<Rightarrow> u8 list exec" where
  "clear_dirty p n pd = (if p + n \<le> length pd then ret (poke p (replicate n 0) pd) else fail Overrun)"

text \<open>\<open>host\<close> is null when the memory is to be allocated.  The bytes that \<^verbatim>\<open>g_realloc\<close> adds to the bitmap are
  overwritten before they are read.\<close>

definition qemu_ram_alloc_from_ptr :: "alloc_env \<Rightarrow> u64 \<Rightarrow> u64 \<Rightarrow> nat \<Rightarrow> RAMList \<Rightarrow> (u64 \<times> RAMList) exec" where
  "qemu_ram_alloc_from_ptr ae sz host mr rl =
     (let sz = TARGET_PAGE_ALIGN sz in
      bindE (find_ram_offset sz (rl_blocks rl)) (\<lambda>off.
      bindE (if host \<noteq> 0 then ret (host, -1, []) else alloc_host ae sz) (\<lambda>(p, fd, cs).
      let nb = \<lparr>rb_mr = mr, rb_host = p, rb_offset = off, rb_length = sz,
                rb_flags = (if host \<noteq> 0 then RAM_PREALLOC_MASK else 0), rb_idstr = '''', rb_fd = fd\<rparr>;
          blocks = insert_block nb (rl_blocks rl);
          pd = grow_dirty (page_of (last_ram_offset blocks)) (rl_phys_dirty rl) in
      bindE (clear_dirty (page_of off) (page_of sz) pd) (\<lambda>pd.
      bindE (cpu_physical_memory_set_dirty_range off sz 0xff
               (rl\<lparr>rl_blocks := blocks, rl_mru_block := None, rl_version := rl_version rl + 1, rl_phys_dirty := pd,
                  rl_calls := rl_calls rl @ cs @ setup_calls ae p sz\<rparr>)) (\<lambda>rl.
        ret (off, rl))))))"

definition qemu_ram_alloc :: "alloc_env \<Rightarrow> u64 \<Rightarrow> nat \<Rightarrow> RAMList \<Rightarrow> (u64 \<times> RAMList) exec" where
  "qemu_ram_alloc ae sz mr rl = qemu_ram_alloc_from_ptr ae sz 0 mr rl"

fun remove_block :: "u64 \<Rightarrow> RAMBlock list \<Rightarrow> RAMBlock list" where
  "remove_block addr [] = []"
| "remove_block addr (b # bs) = (if addr = rb_offset b then bs else b # remove_block addr bs)"

definition qemu_ram_free_from_ptr :: "u64 \<Rightarrow> RAMList \<Rightarrow> RAMList" where
  "qemu_ram_free_from_ptr addr rl =
     (if \<exists>b\<in>set (rl_blocks rl). addr = rb_offset b
      then rl\<lparr>rl_blocks := remove_block addr (rl_blocks rl), rl_mru_block := None, rl_version := rl_version rl + 1\<rparr>
      else rl)"

definition release_calls :: "RAMBlock \<Rightarrow> ram_call list" where
  "release_calls b =
     (if rb_flags b AND RAM_PREALLOC_MASK \<noteq> 0 then []
      else if rb_fd b \<ge> 0 then [RMunmap (rb_host b) (rb_length b), RClose (rb_fd b)]
      else [RAnonFree (rb_host b) (rb_length b)])"

definition qemu_ram_free :: "u64 \<Rightarrow> RAMList \<Rightarrow> RAMList" where
  "qemu_ram_free addr rl =
     (case find (\<lambda>b. addr = rb_offset b) (rl_blocks rl) of
        Some b \<Rightarrow> rl\<lparr>rl_blocks := remove_block addr (rl_blocks rl), rl_mru_block := None,
                     rl_version := rl_version rl + 1, rl_calls := rl_calls rl @ release_calls b\<rparr>
      | None \<Rightarrow> rl)"

section \<open>Lookup\<close>

definition in_block :: "u64 \<Rightarrow> RAMBlock \<Rightarrow> bool" where
  "in_block addr b \<longleftrightarrow> addr - rb_offset b < rb_length b"

definition qemu_get_ram_block :: "u64 \<Rightarrow> RAMList \<Rightarrow> (RAMBlock \<times> RAMList) exec" where
  "qemu_get_ram_block addr rl =
     (case (case rl_mru_block rl of
              Some b \<Rightarrow> if in_block addr b then Some b else find (in_block addr) (rl_blocks rl)
            | None \<Rightarrow> find (in_block addr) (rl_blocks rl)) of
        Some b \<Rightarrow> ret (b, rl\<lparr>rl_mru_block := Some b\<rparr>)
      | None \<Rightarrow> fail (ExitFailure ''Bad ram offset''))"

definition qemu_get_ram_ptr :: "u64 \<Rightarrow> RAMList \<Rightarrow> (u64 \<times> RAMList) exec" where
  "qemu_get_ram_ptr addr rl =
     bindE (qemu_get_ram_block addr rl) (\<lambda>(b, rl). ret (rb_host b + (addr - rb_offset b), rl))"

definition qemu_ram_ptr_length :: "u64 \<Rightarrow> u64 \<Rightarrow> RAMList \<Rightarrow> (u64 \<times> u64) exec" where
  "qemu_ram_ptr_length addr sz rl =
     (if sz = 0 then ret (0, sz)
      else case find (in_block addr) (rl_blocks rl) of
             Some b \<Rightarrow>
               ret (rb_host b + (addr - rb_offset b),
                    if addr - rb_offset b + sz > rb_length b then rb_length b - addr + rb_offset b else sz)
           | None \<Rightarrow> fail (ExitFailure ''Bad ram offset''))"

definition in_host :: "u64 \<Rightarrow> RAMBlock \<Rightarrow> bool" where
  "in_host host b \<longleftrightarrow> rb_host b \<noteq> 0 \<and> host - rb_host b < rb_length b"

text \<open>The memory region of a host pointer and its RAM address.\<close>

definition qemu_ram_addr_from_host :: "u64 \<Rightarrow> RAMList \<Rightarrow> (nat \<times> u64) option" where
  "qemu_ram_addr_from_host host rl =
     map_option (\<lambda>b. (rb_mr b, rb_offset b + (host - rb_host b)))
       (case rl_mru_block rl of
          Some b \<Rightarrow> if in_host host b then Some b else find (in_host host) (rl_blocks rl)
        | None \<Rightarrow> find (in_host host) (rl_blocks rl))"

text \<open>Names of blocks.  \<open>path\<close> is the path of the owning device, if it has one; the name buffer has 256 bytes.\<close>

definition set_name :: "string option \<Rightarrow> string \<Rightarrow> string" where
  "set_name path name =
     (let s = (case path of Some p \<Rightarrow> take 255 (p @ ''/'') | None \<Rightarrow> '''') in s @ take (255 - length s) name)"

fun rename_block :: "u64 \<Rightarrow> string \<Rightarrow> RAMBlock list \<Rightarrow> RAMBlock list" where
  "rename_block addr n [] = []"
| "rename_block addr n (b # bs) = (if rb_offset b = addr then b\<lparr>rb_idstr := n\<rparr> # bs else b # rename_block addr n bs)"

definition qemu_ram_set_idstr :: "u64 \<Rightarrow> string \<Rightarrow> string option \<Rightarrow> RAMList \<Rightarrow> RAMList exec" where
  "qemu_ram_set_idstr addr name path rl =
     (case find (\<lambda>b. rb_offset b = addr) (rl_blocks rl) of
        None \<Rightarrow> fail AssertFail
      | Some nb \<Rightarrow>
          bindE (ensure (rb_idstr nb = '''') AssertFail) (\<lambda>_.
          let n = set_name path name in
          bindE (ensure (n \<notin> set (map rb_idstr (remove1 nb (rl_blocks rl)))) (ExitFailure ''already registered'')) (\<lambda>_.
            ret (rl\<lparr>rl_blocks := rename_block addr n (rl_blocks rl)\<rparr>))))"

section \<open>Specification\<close>

definition block_span :: "RAMBlock \<Rightarrow> u64 set" where
  "block_span b = span (rb_offset b) (rb_length b)"

definition aligned :: "u64 \<Rightarrow> bool" where
  "aligned a \<longleftrightarrow> 4096 dvd unat a"

definition wf_block :: "RAMBlock \<Rightarrow> bool" where
  "wf_block b \<longleftrightarrow> fits (rb_offset b) (rb_length b) \<and> aligned (rb_offset b) \<and> aligned (rb_length b)"

definition blocks_ok :: "RAMBlock list \<Rightarrow> bool" where
  "blocks_ok bs \<longleftrightarrow>
     list_all wf_block bs \<and> sorted_wrt (\<lambda>b c. block_span b \<inter> block_span c = {}) bs \<and>
     sorted_wrt (\<lambda>b c. rb_length c \<le> rb_length b) bs"

definition mru_ok :: "RAMList \<Rightarrow> bool" where
  "mru_ok rl \<longleftrightarrow>
     (case rl_mru_block rl of None \<Rightarrow> True
      | Some b \<Rightarrow> \<exists>c\<in>set (rl_blocks rl). rb_mr c = rb_mr b \<and> rb_host c = rb_host b \<and>
                  rb_offset c = rb_offset b \<and> rb_length c = rb_length b)"

definition ram_ok :: "RAMList \<Rightarrow> bool" where
  "ram_ok rl \<longleftrightarrow>
     blocks_ok (rl_blocks rl) \<and> mru_ok rl \<and> page_of (last_ram_offset (rl_blocks rl)) \<le> length (rl_phys_dirty rl)"

definition gap_at :: "RAMBlock list \<Rightarrow> u64 \<Rightarrow> u64 \<Rightarrow> bool" where
  "gap_at bs sz off \<longleftrightarrow> (\<exists>b\<in>set bs. off = rb_offset b + rb_length b \<and> sz \<le> next_offset off bs - off)"

text \<open>What a new block of \<open>sz\<close> bytes at \<open>off\<close> adds to the list.\<close>

definition allocated :: "RAMList \<Rightarrow> u64 \<Rightarrow> u64 \<Rightarrow> nat \<Rightarrow> RAMList \<Rightarrow> bool" where
  "allocated rl off sz mr rl' \<longleftrightarrow>
     (\<exists>nb. rb_offset nb = off \<and> rb_length nb = sz \<and> rb_mr nb = mr \<and> rb_host nb \<noteq> 0 \<and>
           rl_blocks rl' = insert_block nb (rl_blocks rl)) \<and>
     fits off sz \<and> (\<forall>c\<in>set (rl_blocks rl). block_span c \<inter> span off sz = {}) \<and>
     (\<forall>a\<in>span off sz. cpu_physical_memory_is_dirty a rl' = ret True) \<and>
     (\<forall>c\<in>set (rl_blocks rl). \<forall>a\<in>block_span c. cpu_physical_memory_get_dirty_flags a rl' = cpu_physical_memory_get_dirty_flags a rl)"

definition same_memory :: "RAMBlock \<Rightarrow> RAMBlock \<Rightarrow> bool" where
  "same_memory b c \<longleftrightarrow> rb_mr c = rb_mr b \<and> rb_host c = rb_host b \<and> rb_offset c = rb_offset b \<and> rb_length c = rb_length b"

definition hosts_ok :: "RAMBlock list \<Rightarrow> bool" where
  "hosts_ok bs \<longleftrightarrow>
     (\<forall>b\<in>set bs. rb_host b \<noteq> 0 \<and> fits (rb_host b) (rb_length b)) \<and>
     (\<forall>b\<in>set bs. \<forall>c\<in>set bs. b \<noteq> c \<longrightarrow> span (rb_host b) (rb_length b) \<inter> span (rb_host c) (rb_length c) = {})"

text \<open>A list with one block of two pages, and an environment in which anonymous memory is available.\<close>

definition sample_block :: RAMBlock where
  "sample_block =
     \<lparr>rb_mr = 0, rb_host = 0x7f0000000000, rb_offset = 0, rb_length = 0x2000, rb_flags = 0, rb_idstr = ''pc.ram'', rb_fd = 11\<rparr>"

definition sample_ram :: RAMList where
  "sample_ram = \<lparr>rl_phys_dirty = [0, 8], rl_mru_block = None, rl_blocks = [sample_block], rl_version = 1, rl_calls = []\<rparr>"

definition sample_alloc :: alloc_env where
  "sample_alloc =
     \<lparr>ae_path = Some ''/dev/hugepages'', ae_prealloc = True, ae_share = True, ae_unlink = False, ae_mem_merge = True,
      ae_dump_core = True, ae_kvm = False, ae_sync_mmu = False, ae_anon = True, ae_name = ''pc.ram'',
      ae_statfs = (\<lambda>k. if k = 0 then StatIntr else StatOk HUGETLBFS_MAGIC 0x1000), ae_open = 12,
      ae_mmap = 0x7e0000000000, ae_sigaction = True, ae_sigrestore = True, ae_touch = True, ae_phys_mem_alloc = 0\<rparr>"

section \<open>Lemmas\<close>

lemma next_offset_fold:
  "e \<le> acc \<Longrightarrow>
     (let n = fold (\<lambda>b next. if rb_offset b \<ge> e then min next (rb_offset b) else next) bs acc in
      e \<le> n \<and> n \<le> acc \<and> (\<forall>b\<in>set bs. e \<le> rb_offset b \<longrightarrow> n \<le> rb_offset b))"
proof (induction bs arbitrary: acc)
  case Nil
  then show ?case by simp
next
  case (Cons b bs)
  let ?acc = "if rb_offset b \<ge> e then min acc (rb_offset b) else acc"
  have "e \<le> ?acc" "?acc \<le> acc" "e \<le> rb_offset b \<longrightarrow> ?acc \<le> rb_offset b" using Cons.prems by auto
  with Cons.IH [of ?acc] show ?case by (auto simp: Let_def intro: order_trans)
qed

lemma next_offset_spec:
  "e \<le> next_offset e bs" "b \<in> set bs \<Longrightarrow> e \<le> rb_offset b \<Longrightarrow> next_offset e bs \<le> rb_offset b"
  using next_offset_fold [of e RAM_ADDR_MAX bs] by (auto simp: next_offset_def Let_def RAM_ADDR_MAX_def)

lemma try_gap_fold:
  assumes "set cs \<subseteq> set bs" and "fst acc = RAM_ADDR_MAX \<or> gap_at bs sz (fst acc)"
  shows "fst (fold (try_gap bs sz) cs acc) = RAM_ADDR_MAX \<or> gap_at bs sz (fst (fold (try_gap bs sz) cs acc))"
  using assms
proof (induction cs arbitrary: acc)
  case Nil
  then show ?case by simp
next
  case (Cons c cs)
  have "fst (try_gap bs sz c acc) = RAM_ADDR_MAX \<or> gap_at bs sz (fst (try_gap bs sz c acc))"
    using Cons.prems by (auto simp: try_gap_def Let_def gap_at_def split: prod.splits)
  then show ?case using Cons.IH Cons.prems(1) by simp
qed

lemma gap_free:
  assumes ok: "blocks_ok bs" and gap: "gap_at bs sz off" and sz: "sz \<noteq> 0"
  shows "fits off sz" and "c \<in> set bs \<Longrightarrow> block_span c \<inter> span off sz = {}" and "aligned off"
proof -
  obtain b where b: "b \<in> set bs" "off = rb_offset b + rb_length b" and le: "sz \<le> next_offset off bs - off"
    using gap by (auto simp: gap_at_def)
  have wb: "wf_block c" if "c \<in> set bs" for c using ok that by (auto simp: blocks_ok_def list_all_iff)
  have ub: "unat off = unat (rb_offset b) + unat (rb_length b)"
    using wb [OF b(1)] unfolding b(2) wf_block_def fits_def by (simp add: unat_word_ariths)
  have nx: "unat off + unat sz \<le> unat (next_offset off bs)"
    using le next_offset_spec(1) [of off bs] by (simp add: word_le_nat_alt unat_sub_if')
  have "unat (next_offset off bs) < 2 ^ 64" using unsigned_less [of "next_offset off bs"] by simp
  then have "unat off + unat sz < 2 ^ 64" using nx by linarith
  then show f: "fits off sz" using sz by (simp add: fits_def unat_gt_0)
  show "aligned off" using wb [OF b(1)] ub by (simp add: aligned_def wf_block_def)
  show "block_span c \<inter> span off sz = {}" if c: "c \<in> set bs"
  proof (cases "off \<le> rb_offset c")
    case True
    then have "unat off + unat sz \<le> unat (rb_offset c)"
      using next_offset_spec(2) [OF c True] nx by (simp add: word_le_nat_alt)
    then show ?thesis using wb [OF c] f by (auto simp: block_span_def wf_block_def mem_span)
  next
    case False
    have "unat (rb_offset c) + unat (rb_length c) \<le> unat off"
    proof (cases "c = b")
      case True
      then show ?thesis using ub by simp
    next
      case ne: False
      have dj: "block_span b \<inter> block_span c = {}"
        using ok b(1) c ne by (auto simp: blocks_ok_def in_set_conv_nth sorted_wrt_iff_nth_less dest: linorder_neqE_nat)
          (metis Int_commute linorder_neqE_nat disjoint_iff)+
      have "unat (rb_offset c) < unat (rb_offset b) + unat (rb_length b)" using False ub by (simp add: word_le_nat_alt)
      moreover have "rb_offset c \<notin> block_span b" "rb_offset b \<notin> block_span c"
        using dj span_ends wb [OF b(1)] wb [OF c] by (auto simp: block_span_def wf_block_def)
      ultimately show ?thesis
        using wb [OF b(1)] wb [OF c] ub by (auto simp: block_span_def wf_block_def mem_span fits_def)
    qed
    then show ?thesis using wb [OF c] f by (auto simp: block_span_def wf_block_def mem_span)
  qed
qed

lemma upd_dirty_pages_spec:
  assumes "\<forall>p\<in>set ps. p < length pd" and "distinct ps"
  shows "upd_dirty_pages ps f pd = ret (map (\<lambda>i. if i \<in> set ps then f (pd ! i) else pd ! i) [0..<length pd])"
  using assms
proof (induction ps arbitrary: pd)
  case Nil
  then show ?case by (simp add: map_nth)
next
  case (Cons p ps)
  let ?pd = "pd[p := f (pd ! p)]"
  have "upd_dirty_pages ps f ?pd = ret (map (\<lambda>i. if i \<in> set ps then f (?pd ! i) else ?pd ! i) [0..<length ?pd])"
    using Cons.prems by (intro Cons.IH) auto
  moreover have "map (\<lambda>i. if i \<in> set ps then f (?pd ! i) else ?pd ! i) [0..<length ?pd] =
      map (\<lambda>i. if i \<in> set (p # ps) then f (pd ! i) else pd ! i) [0..<length pd]"
    using Cons.prems by (auto simp: nth_list_update)
  ultimately show ?case using Cons.prems by (simp add: upd_dirty_def)
qed

lemma page_of_div: "page_of a = unat a div 4096"
  by (simp add: page_of_def TARGET_PAGE_BITS_def drop_bit_eq_div unat_div_distrib)

lemma mask_unat: "unat (a AND TARGET_PAGE_MASK) = 4096 * (unat a div 4096)"
proof -
  have m: "TARGET_PAGE_MASK = NOT (mask 12)" by (simp add: TARGET_PAGE_MASK_def mask_eq_exp_minus_1)
  have "a AND TARGET_PAGE_MASK = push_bit 12 (drop_bit 12 a)"
    unfolding m by (rule bit_word_eqI) (auto simp: bit_and_iff bit_not_iff bit_mask_iff bit_push_bit_iff bit_drop_bit_eq)
  also have "unat \<dots> = take_bit 64 (4096 * (unat a div 4096))"
    by (simp add: push_bit_eq_mult drop_bit_eq_div unat_word_ariths unat_div_distrib take_bit_eq_mod mult.commute mod_mult_right_eq mod_mult_left_eq)
  also have "\<dots> = 4096 * (unat a div 4096)"
  proof (rule take_bit_nat_eq_self)
    have "4096 * (unat a div 4096) \<le> unat a" by simp
    also have "\<dots> < 2 ^ 64" using unsigned_less [of a] by simp
    finally show "4096 * (unat a div 4096) < 2 ^ 64" .
  qed
  finally show ?thesis .
qed

lemma align_unat: "unat a + 4095 < 2 ^ 64 \<Longrightarrow> unat (TARGET_PAGE_ALIGN a) = 4096 * ((unat a + 4095) div 4096)"
  by (simp add: TARGET_PAGE_ALIGN_def mask_unat unat_word_ariths)

lemma aligned_mult: "aligned a \<Longrightarrow> unat a = 4096 * page_of a"
  by (simp add: aligned_def page_of_div)

lemma aligned_align: "aligned (TARGET_PAGE_ALIGN a)"
  by (simp add: aligned_def TARGET_PAGE_ALIGN_def mask_unat)

lemma pages_of_aligned:
  assumes "fits off sz" and "aligned off" and "aligned sz"
  shows "pages_of off sz = [page_of off ..< page_of off + page_of sz]"
proof -
  have u: "unat (off + sz) = unat off + unat sz" using assms(1) by (simp add: fits_def unat_word_ariths)
  have d: "4096 dvd unat off + unat sz" using assms(2,3) by (simp add: aligned_def)
  have "unat off + unat sz + 4095 < 2 ^ 64"
  proof -
    obtain k where k: "unat off + unat sz = 4096 * k" using d by (auto simp: dvd_def)
    then have "4096 * k < 4096 * 2 ^ 52" using assms(1) by (simp add: fits_def)
    then have "Suc k \<le> 2 ^ 52" by simp
    then show ?thesis using k by simp
  qed
  then have "unat (TARGET_PAGE_ALIGN (off + sz)) = 4096 * ((unat off + unat sz + 4095) div 4096)"
    using align_unat [of "off + sz"] u by simp
  moreover have "(unat off + unat sz + 4095) div 4096 = page_of off + page_of sz"
    using aligned_mult [OF assms(2)] aligned_mult [OF assms(3)] by simp
  ultimately show ?thesis by (simp add: pages_of_def page_of_div [of "TARGET_PAGE_ALIGN (off + sz)"]
        page_of_div [of "off AND TARGET_PAGE_MASK"] mask_unat) (simp add: page_of_div)
qed

lemma last_ram_offset_fold:
  "acc \<le> fold (\<lambda>b last. max last (rb_offset b + rb_length b)) bs acc \<and>
   (\<forall>b\<in>set bs. rb_offset b + rb_length b \<le> fold (\<lambda>b last. max last (rb_offset b + rb_length b)) bs acc)"
proof (induction bs arbitrary: acc)
  case Nil
  then show ?case by simp
next
  case (Cons b bs)
  show ?case using Cons.IH [of "max acc (rb_offset b + rb_length b)"] by auto
qed

lemma last_ram_offset_ge: "b \<in> set bs \<Longrightarrow> rb_offset b + rb_length b \<le> last_ram_offset bs"
  using last_ram_offset_fold [of 0 bs] by (auto simp: last_ram_offset_def)

lemma page_of_mono: "a \<le> b \<Longrightarrow> page_of a \<le> page_of b"
  by (simp add: page_of_div word_le_nat_alt div_le_mono)

lemma block_end:
  assumes "fits off sz" and "aligned off" and "aligned sz"
  shows "page_of (off + sz) = page_of off + page_of sz"
proof -
  have "unat (off + sz) = unat off + unat sz" using assms(1) by (simp add: fits_def unat_word_ariths)
  then show ?thesis using assms(2,3) by (simp add: page_of_div aligned_def div_add)
qed

lemma set_insert_block: "set (insert_block nb bs) = insert nb (set bs)"
  by (induction bs) auto

lemma insert_block_ok:
  assumes "blocks_ok bs" and "wf_block nb" and "\<forall>c\<in>set bs. block_span c \<inter> block_span nb = {}"
  shows "blocks_ok (insert_block nb bs)"
  using assms
proof (induction bs)
  case Nil
  then show ?case by (simp add: blocks_ok_def)
next
  case (Cons b bs)
  have "blocks_ok bs" using Cons.prems(1) by (simp add: blocks_ok_def)
  then have "blocks_ok (insert_block nb bs)" using Cons by simp
  then show ?case using Cons.prems by (auto simp: blocks_ok_def set_insert_block list_all_iff Int_commute)
qed

lemma find_ram_offset_spec:
  assumes "blocks_ok bs" and "aligned sz"
  shows "find_ram_offset sz bs = ret off \<Longrightarrow>
           fits off sz \<and> aligned off \<and> (\<forall>c\<in>set bs. block_span c \<inter> span off sz = {})"
    and "sz \<noteq> 0 \<Longrightarrow> (\<exists>off. find_ram_offset sz bs = ret off) \<or> (\<exists>msg. find_ram_offset sz bs = fail (ExitFailure msg))"
    and "sz = 0 \<Longrightarrow> find_ram_offset sz bs = fail AssertFail"
proof -
  have "fits 0 sz" if "sz \<noteq> 0" using that unsigned_less [of sz] by (simp add: fits_def unat_gt_0)
  moreover have "gap_at bs sz (fst (fold (try_gap bs sz) bs (RAM_ADDR_MAX, RAM_ADDR_MAX)))"
    if "fst (fold (try_gap bs sz) bs (RAM_ADDR_MAX, RAM_ADDR_MAX)) \<noteq> RAM_ADDR_MAX"
    using try_gap_fold [of bs bs "(RAM_ADDR_MAX, RAM_ADDR_MAX)" sz] that by simp
  ultimately show "find_ram_offset sz bs = ret off \<Longrightarrow>
      fits off sz \<and> aligned off \<and> (\<forall>c\<in>set bs. block_span c \<inter> span off sz = {})"
    using gap_free [OF assms(1), of sz off]
    by (cases "bs = []") (auto simp: find_ram_offset_def Let_def aligned_def split: if_splits prod.splits, blast)
  show "sz \<noteq> 0 \<Longrightarrow> (\<exists>off. find_ram_offset sz bs = ret off) \<or> (\<exists>msg. find_ram_offset sz bs = fail (ExitFailure msg))"
    by (auto simp: find_ram_offset_def Let_def split: prod.splits)
  show "sz = 0 \<Longrightarrow> find_ram_offset sz bs = fail AssertFail" by (simp add: find_ram_offset_def)
qed

lemma gethugepagesize_ends:
  assumes "st (k + d) \<noteq> StatIntr"
  shows "\<exists>h. gethugepagesize st k = ret h"
  using assms
proof (induction d arbitrary: k)
  case 0
  then show ?case by (cases "st k") (simp_all add: gethugepagesize.simps [of st k])
next
  case (Suc d)
  then show ?case by (cases "st k") (simp_all add: gethugepagesize.simps [of st k])
qed

lemma alloc_host_total:
  assumes "ae_path ae = None \<or> (\<exists>k. ae_statfs ae k \<noteq> StatIntr)"
  shows "(\<exists>p fd cs. alloc_host ae sz = ret (p, fd, cs) \<and> p \<noteq> 0) \<or> (\<exists>msg. alloc_host ae sz = fail (ExitFailure msg))"
proof (cases "ae_path ae")
  case None
  then show ?thesis by (auto simp: alloc_host_def Let_def ensure_def)
next
  case (Some path)
  then obtain k where "ae_statfs ae (0 + k) \<noteq> StatIntr" using assms by auto
  then obtain h where "gethugepagesize (ae_statfs ae) 0 = ret h" using gethugepagesize_ends by blast
  then have "(\<exists>p fd cs. file_ram_alloc ae sz path = ret (p, fd, cs)) \<or> (\<exists>msg. file_ram_alloc ae sz path = fail (ExitFailure msg))"
    by (simp add: file_ram_alloc_def Let_def ensure_def)
  then show ?thesis using Some by (auto simp: alloc_host_def Let_def ensure_def)
qed

lemma span_page:
  assumes "fits off sz" and "aligned off" and "aligned sz"
  shows "a \<in> span off sz \<longleftrightarrow> page_of off \<le> page_of a \<and> page_of a < page_of off + page_of sz"
  using assms aligned_mult [OF assms(2)] aligned_mult [OF assms(3)] mem_span [OF assms(1), of a] page_of_div [of a]
  by (auto simp: div_le_mono less_eq_div_iff_mult_less_eq div_less_iff_less_mult)

lemma alloc_dirty:
  assumes f: "fits off sz" "aligned off" "aligned sz" and n: "page_of off + page_of sz \<le> n"
  shows "\<exists>pd1 pd2. clear_dirty (page_of off) (page_of sz) (grow_dirty n pd) = ret pd1 \<and>
           upd_dirty_pages (pages_of off sz) (\<lambda>f. f OR 0xff) pd1 = ret pd2 \<and> length pd2 = n \<and>
           (\<forall>p. page_of off \<le> p \<and> p < page_of off + page_of sz \<longrightarrow> pd2 ! p = 0xff) \<and>
           (\<forall>p. p < n \<and> p < length pd \<and> \<not> (page_of off \<le> p \<and> p < page_of off + page_of sz) \<longrightarrow> pd2 ! p = pd ! p)"
proof -
  let ?g = "grow_dirty n pd" and ?a = "page_of off" and ?b = "page_of off + page_of sz"
  let ?pd1 = "poke ?a (replicate (page_of sz) 0) ?g"
  have lg: "length ?g = n" by (simp add: grow_dirty_def)
  have c: "clear_dirty ?a (page_of sz) ?g = ret ?pd1" using n lg by (simp add: clear_dirty_def)
  have l1: "length ?pd1 = n" using n lg by simp
  have m1: "(0xff :: u8) = - 1" by simp
  have or: "w OR 0xff = 0xff" for w :: u8 unfolding m1 by simp
  let ?pd2 = "map (\<lambda>i. if ?a \<le> i \<and> i < ?b then 0xff else ?pd1 ! i) [0..<n]"
  have "upd_dirty_pages (pages_of off sz) (\<lambda>f. f OR 0xff) ?pd1 = ret ?pd2"
    unfolding pages_of_aligned [OF f] using n l1
    by (subst upd_dirty_pages_spec) (auto simp: or)
  then have u: "\<exists>pd2. upd_dirty_pages (pages_of off sz) (\<lambda>f. f OR 0xff) ?pd1 = ret pd2 \<and> pd2 = ?pd2" by blast
  have "?pd1 ! p = pd ! p" if "p < n" "p < length pd" "\<not> (?a \<le> p \<and> p < ?b)" for p
    using that n lg nth_poke [of ?a "replicate (page_of sz) 0" ?g p] by (simp add: grow_dirty_def nth_append)
  then have "\<forall>p. p < n \<and> p < length pd \<and> \<not> (?a \<le> p \<and> p < ?b) \<longrightarrow> ?pd2 ! p = pd ! p" by simp
  moreover have "\<forall>p. ?a \<le> p \<and> p < ?b \<longrightarrow> ?pd2 ! p = 0xff" "length ?pd2 = n" using n by simp_all
  ultimately show ?thesis using c u by blast
qed

lemma alloc_block:
  assumes ok: "ram_ok rl" and s: "s = TARGET_PAGE_ALIGN sz" "find_ram_offset s (rl_blocks rl) = ret off"
    and h: "(if host \<noteq> 0 then ret (host, -1, []) else alloc_host ae s) = ret (p, fd, cs)" "p \<noteq> 0"
  shows "\<exists>rl'. qemu_ram_alloc_from_ptr ae sz host mr rl = ret (off, rl') \<and> ram_ok rl' \<and> allocated rl off s mr rl'"
proof -
  let ?nb = "\<lparr>rb_mr = mr, rb_host = p, rb_offset = off, rb_length = s,
      rb_flags = (if host \<noteq> 0 then RAM_PREALLOC_MASK else 0), rb_idstr = '''', rb_fd = fd\<rparr>"
  let ?bs = "insert_block ?nb (rl_blocks rl)"
  have bok: "blocks_ok (rl_blocks rl)" using ok by (simp add: ram_ok_def)
  have as: "aligned s" using s(1) aligned_align by simp
  note g = find_ram_offset_spec(1) [OF bok as s(2)]
  have f: "fits off s" "aligned off" and dj: "\<forall>c\<in>set (rl_blocks rl). block_span c \<inter> span off s = {}" using g by blast+
  have "off + s \<le> last_ram_offset ?bs" using last_ram_offset_ge [of ?nb ?bs] by (simp add: set_insert_block)
  then have n: "page_of off + page_of s \<le> page_of (last_ram_offset ?bs)"
    using page_of_mono block_end [OF f as] by metis
  obtain pd1 pd2 where pd: "clear_dirty (page_of off) (page_of s) (grow_dirty (page_of (last_ram_offset ?bs)) (rl_phys_dirty rl)) = ret pd1"
    "upd_dirty_pages (pages_of off s) (\<lambda>f. f OR 0xff) pd1 = ret pd2" "length pd2 = page_of (last_ram_offset ?bs)"
    "\<forall>q. page_of off \<le> q \<and> q < page_of off + page_of s \<longrightarrow> pd2 ! q = 0xff"
    "\<forall>q. q < page_of (last_ram_offset ?bs) \<and> q < length (rl_phys_dirty rl) \<and> \<not> (page_of off \<le> q \<and> q < page_of off + page_of s) \<longrightarrow>
      pd2 ! q = rl_phys_dirty rl ! q"
    using alloc_dirty [OF f as n] by blast
  let ?rl = "rl\<lparr>rl_blocks := ?bs, rl_mru_block := None, rl_version := rl_version rl + 1, rl_phys_dirty := pd2,
      rl_calls := rl_calls rl @ cs @ setup_calls ae p s\<rparr>"
  have run: "qemu_ram_alloc_from_ptr ae sz host mr rl = ret (off, ?rl)"
    unfolding qemu_ram_alloc_from_ptr_def Let_def s(1) [symmetric] s(2) bindE_ret h(1) prod.case pd(1)
      cpu_physical_memory_set_dirty_range_def by (simp add: pd(2))
  have "blocks_ok ?bs" using bok f as dj by (intro insert_block_ok) (simp_all add: wf_block_def block_span_def)
  then have "ram_ok ?rl" using pd(3) by (simp add: ram_ok_def mru_ok_def)
  moreover have new: "cpu_physical_memory_is_dirty a ?rl = ret True" if "a \<in> span off s" for a
    using that span_page [OF f as, of a] pd(3,4) n
    by (simp add: cpu_physical_memory_is_dirty_def cpu_physical_memory_get_dirty_flags_def)
  moreover have "cpu_physical_memory_get_dirty_flags a ?rl = cpu_physical_memory_get_dirty_flags a rl"
    if c: "c \<in> set (rl_blocks rl)" and a: "a \<in> block_span c" for a c
  proof -
    have wc: "wf_block c" using bok c by (auto simp: blocks_ok_def list_all_iff)
    then have pa: "page_of a < page_of (rb_offset c) + page_of (rb_length c)"
      using a span_page [of "rb_offset c" "rb_length c" a] by (simp add: wf_block_def block_span_def)
    have e: "page_of (rb_offset c + rb_length c) = page_of (rb_offset c) + page_of (rb_length c)"
      using wc block_end by (simp add: wf_block_def)
    have "page_of a < page_of (last_ram_offset ?bs)" "page_of a < page_of (last_ram_offset (rl_blocks rl))"
      using pa e page_of_mono [OF last_ram_offset_ge [of c ?bs]] page_of_mono [OF last_ram_offset_ge [OF c]] c
      by (simp_all add: set_insert_block)
    moreover have "\<not> (page_of off \<le> page_of a \<and> page_of a < page_of off + page_of s)"
      using dj c a span_page [OF f as, of a] by blast
    ultimately show ?thesis using pd(3,5) ok by (simp add: cpu_physical_memory_get_dirty_flags_def ram_ok_def)
  qed
  ultimately show ?thesis using run f dj h(2) unfolding allocated_def
    by (intro exI [of _ ?rl] conjI exI [of _ ?nb]) auto
qed

text \<open>
  C40. Allocating guest memory never corrupts the block list: it either ends the process with a message
  (no gap or no memory; or the assertion on an empty size), or returns and inserts one block at an offset where no
  block was, keeps all blocks disjoint and sorted and the bitmap large enough, marks every page of the
  new block dirty and leaves the flags of the others alone.
\<close>

theorem ram_alloc_safe:
  assumes "ram_ok rl" and "ae_path ae = None \<or> (\<exists>k. ae_statfs ae k \<noteq> StatIntr)"
  shows "(\<exists>off rl'. qemu_ram_alloc_from_ptr ae sz host mr rl = ret (off, rl') \<and> ram_ok rl' \<and>
            allocated rl off (TARGET_PAGE_ALIGN sz) mr rl') \<or>
         (\<exists>msg. qemu_ram_alloc_from_ptr ae sz host mr rl = fail (ExitFailure msg)) \<or>
         TARGET_PAGE_ALIGN sz = 0 \<and> qemu_ram_alloc_from_ptr ae sz host mr rl = fail AssertFail"
proof -
  let ?s = "TARGET_PAGE_ALIGN sz"
  have bok: "blocks_ok (rl_blocks rl)" using assms(1) by (simp add: ram_ok_def)
  note g = find_ram_offset_spec [OF bok aligned_align, of sz]
  show ?thesis
  proof (cases "?s = 0")
    case True
    then show ?thesis using g(3) by (simp add: qemu_ram_alloc_from_ptr_def Let_def)
  next
    case False
    then consider (ok) off where "find_ram_offset ?s (rl_blocks rl) = ret off"
      | (full) msg where "find_ram_offset ?s (rl_blocks rl) = fail (ExitFailure msg)" using g(2) by blast
    then show ?thesis
    proof cases
      case ok
      consider (p) p fd cs where "(if host \<noteq> 0 then ret (host, -1, []) else alloc_host ae ?s) = ret (p, fd, cs)" "p \<noteq> 0"
        | (no) msg where "(if host \<noteq> 0 then ret (host, -1, []) else alloc_host ae ?s) = fail (ExitFailure msg)"
        using alloc_host_total [OF assms(2), of ?s] by (cases "host = 0") auto
      then show ?thesis
      proof cases
        case p
        then show ?thesis using alloc_block [OF assms(1) refl ok] by blast
      next
        case no
        then show ?thesis using ok by (simp add: qemu_ram_alloc_from_ptr_def Let_def)
      qed
    next
      case full
      then show ?thesis by (simp add: qemu_ram_alloc_from_ptr_def Let_def)
    qed
  qed
qed

lemma remove_block_sub: "set (remove_block addr bs) \<subseteq> set bs"
  by (induction bs) auto

lemma remove_block_ok: "blocks_ok bs \<Longrightarrow> blocks_ok (remove_block addr bs)"
proof (induction bs)
  case (Cons b bs)
  then show ?case using remove_block_sub [of addr bs] by (auto simp: blocks_ok_def list_all_iff)
qed simp

lemma last_ram_offset_le:
  assumes "\<forall>b\<in>set bs. rb_offset b + rb_length b \<le> w"
  shows "last_ram_offset bs \<le> w"
proof -
  have "fold (\<lambda>b last. max last (rb_offset b + rb_length b)) bs acc \<le> w" if "acc \<le> w" for acc
    using assms that by (induction bs arbitrary: acc) auto
  then show ?thesis by (simp add: last_ram_offset_def)
qed

lemma last_ram_offset_mono: "set bs \<subseteq> set cs \<Longrightarrow> last_ram_offset bs \<le> last_ram_offset cs"
  using last_ram_offset_ge by (intro last_ram_offset_le) blast

lemma ram_free_ok: "ram_ok rl \<Longrightarrow> ram_ok (qemu_ram_free_from_ptr addr rl)"
  using last_ram_offset_mono [OF remove_block_sub, of addr "rl_blocks rl"]
    page_of_mono [of "last_ram_offset (remove_block addr (rl_blocks rl))" "last_ram_offset (rl_blocks rl)"]
  by (auto simp: qemu_ram_free_from_ptr_def ram_ok_def mru_ok_def remove_block_ok)

lemma in_block_span: "wf_block b \<Longrightarrow> in_block a b \<longleftrightarrow> a \<in> block_span b"
  by (simp add: in_block_def block_span_def wf_block_def mem_span_offset word_less_nat_alt)

lemma block_unique:
  assumes "blocks_ok bs" and "b \<in> set bs" and "c \<in> set bs" and "in_block a b" and "in_block a c"
  shows "b = c"
proof (rule ccontr)
  assume ne: "b \<noteq> c"
  have "wf_block b" "wf_block c" using assms(1-3) by (auto simp: blocks_ok_def list_all_iff)
  then have a: "a \<in> block_span b \<inter> block_span c" using assms(4,5) in_block_span by blast
  obtain i j where ij: "i < length bs" "j < length bs" "b = bs ! i" "c = bs ! j" using assms(2,3) by (auto simp: in_set_conv_nth)
  then have "i < j \<or> j < i" using ne by (metis linorder_neqE_nat)
  then show False using assms(1) ij a by (auto simp: blocks_ok_def sorted_wrt_iff_nth_less)
qed

lemma find_block:
  assumes "blocks_ok bs" and "b \<in> set bs" and "in_block a b"
  shows "find (in_block a) bs = Some b"
proof (cases "find (in_block a) bs")
  case None
  then show ?thesis using assms(2,3) by (auto simp: find_None_iff)
next
  case (Some c)
  then have "c \<in> set bs" "in_block a c" by (auto simp: find_Some_iff)
  then show ?thesis using block_unique [OF assms(1,2) _ assms(3)] Some by blast
qed

lemma get_ram_block_spec:
  assumes ok: "ram_ok rl"
  shows "(\<exists>b c. qemu_get_ram_block a rl = ret (c, rl\<lparr>rl_mru_block := Some c\<rparr>) \<and> find (in_block a) (rl_blocks rl) = Some b \<and>
            same_memory b c \<and> b \<in> set (rl_blocks rl) \<and> in_block a b) \<or>
         (find (in_block a) (rl_blocks rl) = None \<and> qemu_get_ram_block a rl = fail (ExitFailure ''Bad ram offset''))"
proof -
  have bok: "blocks_ok (rl_blocks rl)" using ok by (simp add: ram_ok_def)
  have hit: "\<exists>b. find (in_block a) (rl_blocks rl) = Some b \<and> same_memory b c \<and> b \<in> set (rl_blocks rl) \<and> in_block a b"
    if m: "rl_mru_block rl = Some c" "in_block a c" for c
  proof -
    obtain b where b: "b \<in> set (rl_blocks rl)" "same_memory b c"
      using ok m(1) by (auto simp: ram_ok_def mru_ok_def same_memory_def)
    then have "in_block a b" using m(2) by (simp add: in_block_def same_memory_def)
    then show ?thesis using find_block [OF bok b(1)] b by blast
  qed
  have "b \<in> set (rl_blocks rl) \<and> in_block a b" if "find (in_block a) (rl_blocks rl) = Some b" for b
    using that by (auto simp: find_Some_iff)
  then show ?thesis
    using hit by (cases "rl_mru_block rl"; cases "find (in_block a) (rl_blocks rl)")
      (auto simp: qemu_get_ram_block_def same_memory_def split: if_splits)
qed

text \<open>
  The most recently used entry is only a cache: a lookup returns the same host pointer as a search of
  the list, or stops the process when no block contains the address, and keeps the list and the invariant.
\<close>

theorem get_ram_ptr_cache_free:
  assumes "ram_ok rl"
  shows "(case find (in_block a) (rl_blocks rl) of
            Some b \<Rightarrow> \<exists>rl'. qemu_get_ram_ptr a rl = ret (rb_host b + (a - rb_offset b), rl') \<and> ram_ok rl' \<and>
                       rl_blocks rl' = rl_blocks rl \<and> rl_phys_dirty rl' = rl_phys_dirty rl
          | None \<Rightarrow> qemu_get_ram_ptr a rl = fail (ExitFailure ''Bad ram offset''))"
  using get_ram_block_spec [OF assms, of a] assms
  by (auto simp: qemu_get_ram_ptr_def same_memory_def ram_ok_def mru_ok_def)

lemma host_unique:
  assumes "hosts_ok bs" and "b \<in> set bs" and "c \<in> set bs" and "in_host p b" and "in_host p c"
  shows "b = c"
proof (rule ccontr)
  assume "b \<noteq> c"
  moreover have "p \<in> span (rb_host b) (rb_length b)" "p \<in> span (rb_host c) (rb_length c)"
    using assms by (auto simp: hosts_ok_def in_host_def mem_span_offset word_less_nat_alt)
  ultimately show False using assms(1-3) by (auto simp: hosts_ok_def)
qed

lemma addr_from_host_spec:
  assumes ok: "mru_ok rl" "hosts_ok (rl_blocks rl)" and b: "b \<in> set (rl_blocks rl)" "in_host p b"
  shows "qemu_ram_addr_from_host p rl = Some (rb_mr b, rb_offset b + (p - rb_host b))"
proof -
  have found: "find (in_host p) (rl_blocks rl) = Some b"
  proof (cases "find (in_host p) (rl_blocks rl)")
    case None
    then show ?thesis using b by (auto simp: find_None_iff)
  next
    case (Some c)
    then have "c \<in> set (rl_blocks rl)" "in_host p c" by (auto simp: find_Some_iff)
    then show ?thesis using host_unique [OF ok(2) b(1) _ b(2)] Some by blast
  qed
  have hit: "same_memory b c" if m: "rl_mru_block rl = Some c" "in_host p c" for c
  proof -
    obtain d where d: "d \<in> set (rl_blocks rl)" "same_memory d c" using ok(1) m(1) by (auto simp: mru_ok_def same_memory_def)
    then have "in_host p d" using m(2) by (simp add: in_host_def same_memory_def)
    then have "d = b" using host_unique [OF ok(2) d(1) b(1)] b(2) by blast
    then show ?thesis using d(2) by simp
  qed
  show ?thesis
    using found hit by (cases "rl_mru_block rl") (auto simp: qemu_ram_addr_from_host_def same_memory_def)
qed

text \<open>
  A host pointer obtained for a RAM address translates back to that address and to the region of the
  block that contains it, whatever the cache holds at that time.
\<close>

theorem host_pointer_roundtrip:
  assumes "ram_ok rl" and "hosts_ok (rl_blocks rl)" and "qemu_get_ram_ptr a rl = ret (p, rl')"
    and "mru_ok rl2" and "rl_blocks rl2 = rl_blocks rl"
  shows "\<exists>b\<in>set (rl_blocks rl). a \<in> block_span b \<and> qemu_ram_addr_from_host p rl2 = Some (rb_mr b, a)"
proof -
  obtain b c where c: "qemu_get_ram_block a rl = ret (c, rl\<lparr>rl_mru_block := Some c\<rparr>)" "same_memory b c"
    "b \<in> set (rl_blocks rl)" "in_block a b"
    using get_ram_block_spec [OF assms(1), of a] assms(3) by (auto simp: qemu_get_ram_ptr_def)
  then have p: "p = rb_host b + (a - rb_offset b)"
    using assms(3) by (auto simp: qemu_get_ram_ptr_def same_memory_def)
  have "in_host p b" using c assms(2) p by (auto simp: in_host_def in_block_def hosts_ok_def)
  moreover have "wf_block b" using assms(1) c(3) by (auto simp: ram_ok_def blocks_ok_def list_all_iff)
  ultimately show ?thesis
    using addr_from_host_spec [of rl2 b p] assms(2,4,5) c(3,4) p in_block_span by (auto intro!: bexI [of _ b])
qed

lemma sample_ram_ok: "ram_ok sample_ram" "hosts_ok (rl_blocks sample_ram)"
  by (simp_all add: ram_ok_def sample_ram_def blocks_ok_def wf_block_def fits_def aligned_def sample_block_def mru_ok_def
      last_ram_offset_def page_of_div hosts_ok_def dvd_eq_mod_eq_0)

lemma sample_offset: "find_ram_offset 0x1000 [sample_block] = ret 0x2000"
  by (simp add: find_ram_offset_def try_gap_def next_offset_def sample_block_def RAM_ADDR_MAX_def)

lemma sample_align: "TARGET_PAGE_ALIGN 0x1000 = 0x1000"
  by (simp add: TARGET_PAGE_ALIGN_def TARGET_PAGE_MASK_def)

theorem ram_alloc_safe_witness:
  "\<exists>off rl'. qemu_ram_alloc_from_ptr sample_alloc 0x1000 0 1 sample_ram = ret (off, rl') \<and> ram_ok rl' \<and>
     allocated sample_ram off 0x1000 1 rl'"
proof -
  have st: "ae_statfs sample_alloc 1 \<noteq> StatIntr" by (simp add: sample_alloc_def)
  have h: "gethugepagesize (ae_statfs sample_alloc) 0 = ret 0x1000"
    by (simp add: gethugepagesize.simps [of _ 0] gethugepagesize.simps [of _ "Suc 0"] sample_alloc_def)
  obtain cs where "alloc_host sample_alloc 0x1000 = ret (0x7e0000000000, 12, cs)"
    using h by (auto simp: alloc_host_def file_ram_alloc_def Let_def ensure_def sample_alloc_def)
  then have "\<exists>rl'. qemu_ram_alloc_from_ptr sample_alloc 0x1000 0 1 sample_ram = ret (0x2000, rl')"
    using alloc_block [OF sample_ram_ok(1), of "0x1000" "0x1000" "0x2000" 0 sample_alloc "0x7e0000000000" 12 cs 1] sample_align
      sample_offset by (auto simp: sample_ram_def)
  then show ?thesis using ram_alloc_safe [OF sample_ram_ok(1) disjI2 [OF exI [of _ 1]], OF st, of "0x1000" 0 1]
    by (auto simp: sample_align)
qed

theorem get_ram_ptr_cache_free_witness: "\<exists>rl'. qemu_get_ram_ptr 0x1800 sample_ram = ret (0x7f0000001800, rl') \<and> ram_ok rl'"
  using get_ram_ptr_cache_free [OF sample_ram_ok(1), of "0x1800"] by (auto simp: sample_ram_def sample_block_def in_block_def)

theorem host_pointer_roundtrip_witness:
  "\<exists>p rl'. qemu_get_ram_ptr 0x1800 sample_ram = ret (p, rl') \<and> qemu_ram_addr_from_host p sample_ram = Some (0, 0x1800)"
proof -
  have "qemu_get_ram_ptr 0x1800 sample_ram = ret (0x7f0000001800, sample_ram\<lparr>rl_mru_block := Some sample_block\<rparr>)"
    by (simp add: qemu_get_ram_ptr_def qemu_get_ram_block_def sample_ram_def sample_block_def in_block_def)
  then show ?thesis
    using host_pointer_roundtrip [OF sample_ram_ok, of "0x1800" "0x7f0000001800" _ sample_ram] sample_ram_ok(1)
    by (auto simp: ram_ok_def sample_ram_def sample_block_def)
qed

end
