(* ===== verification/VhostBackend.thy ===== *)
theory VhostBackend
  imports VirtIO RamBlocks
begin

text \<open>
  The back ends of a vhost device in QEMU, from \<^verbatim>\<open>src/qemu_vhost_user/hw/virtio/vhost-backend.c\<close>: the
  kernel back end, which passes every request to \<^verbatim>\<open>ioctl\<close>, and the vhost-user back end, which translates
  it to a protocol message and sends it with its descriptors over a socket.  The structures are those of
  \<^verbatim>\<open>include/hw/virtio/vhost.h\<close>, and the request codes those of \<^verbatim>\<open>linux-headers/linux/vhost.h\<close>.

  Replies are never read: the code that would read them is disabled with \<^verbatim>\<open>#if 0\<close>.
\<close>

section \<open>State\<close>

record vhost_virtqueue =
  hq_desc :: u64
  hq_avail :: u64
  hq_used :: u64
  hq_num :: int
  hq_used_phys :: u64
  hq_used_size :: u32
  hq_ring :: u64
  hq_ring_phys :: u64
  hq_ring_size :: u32
  hq_masked_notifier :: EventNotifier

text \<open>A region of the memory map: its identity, the RAM block it owns and its flags, or an alias of another
  region at an offset.\<close>

record region_info =
  ri_id :: nat
  ri_ram_addr :: u64
  ri_terminates :: bool
  ri_ram :: bool
  ri_dirty_log_mask :: u8

datatype MemoryRegion = Region region_info | Alias region_info MemoryRegion u64

fun mr_info :: "MemoryRegion \<Rightarrow> region_info" where
  "mr_info (Region i) = i"
| "mr_info (Alias i mr off) = i"

text \<open>The size of a section is a 128-bit integer.\<close>

record MemoryRegionSection =
  se_mr :: MemoryRegion
  se_offset_within_region :: u64
  se_size :: int
  se_offset_within_address_space :: u64

datatype VhostBackendType =
  VHOST_BACKEND_TYPE_NONE | VHOST_BACKEND_TYPE_KERNEL | VHOST_BACKEND_TYPE_USER | VHOST_BACKEND_TYPE_MAX

text \<open>\<open>log\<close> is the dirty log, if it is allocated; \<open>vhost_ops\<close> is known by its back-end type.\<close>

record vhost_dev =
  hd_control :: int
  hd_mem :: vhost_memory
  hd_mem_sections :: "MemoryRegionSection list"
  hd_vqs :: "vhost_virtqueue list"
  hd_nvqs :: int
  hd_vq_index :: int
  hd_features :: u64
  hd_acked_features :: u64
  hd_backend_features :: u64
  hd_started :: bool
  hd_log_enabled :: bool
  hd_log :: "u64 list option"
  hd_log_size :: u64
  hd_force :: bool
  hd_memory_changed :: bool
  hd_mem_changed_start_addr :: u64
  hd_mem_changed_end_addr :: u64
  hd_vhost_ops :: VhostBackendType

text \<open>The part of QEMU that the vhost code works on: a vhost device, the virtio device it serves, the RAM
  blocks, the sections of the flat view of system memory, whether dirty pages are logged, and the trace.\<close>

record qemu =
  q_dev :: vhost_dev
  q_vdev :: VirtIODevice
  q_ram :: RAMList
  q_view :: "MemoryRegionSection list"
  q_global_dirty_log :: bool
  q_io :: "qio list"

definition upd_dev :: "(vhost_dev \<Rightarrow> vhost_dev) \<Rightarrow> qemu \<Rightarrow> qemu" where
  "upd_dev f q = q\<lparr>q_dev := f (q_dev q)\<rparr>"

definition log_io :: "qio \<Rightarrow> qemu \<Rightarrow> qemu" where
  "log_io e q = q\<lparr>q_io := q_io q @ [e]\<rparr>"

section \<open>Request codes\<close>

text \<open>An \<^verbatim>\<open>ioctl\<close> number has a direction in bits 30 and 31, the size of the argument in bits 16 to 29, the
  type in bits 8 to 15 and a number.\<close>

definition ioc :: "u64 \<Rightarrow> u64 \<Rightarrow> u64 \<Rightarrow> u64" where
  "ioc dir nr sz = push_bit 30 dir OR push_bit 16 sz OR push_bit 8 0xAF OR nr"

definition VHOST_GET_FEATURES :: u64 where
  "VHOST_GET_FEATURES = ioc 2 0x00 8"

definition VHOST_SET_FEATURES :: u64 where
  "VHOST_SET_FEATURES = ioc 1 0x00 8"

definition VHOST_SET_OWNER :: u64 where
  "VHOST_SET_OWNER = ioc 0 0x01 0"

definition VHOST_RESET_OWNER :: u64 where
  "VHOST_RESET_OWNER = ioc 0 0x02 0"

definition VHOST_SET_MEM_TABLE :: u64 where
  "VHOST_SET_MEM_TABLE = ioc 1 0x03 8"

definition VHOST_SET_LOG_BASE :: u64 where
  "VHOST_SET_LOG_BASE = ioc 1 0x04 8"

definition VHOST_SET_LOG_FD :: u64 where
  "VHOST_SET_LOG_FD = ioc 1 0x07 4"

definition VHOST_SET_VRING_NUM :: u64 where
  "VHOST_SET_VRING_NUM = ioc 1 0x10 8"

definition VHOST_SET_VRING_ADDR :: u64 where
  "VHOST_SET_VRING_ADDR = ioc 1 0x11 40"

definition VHOST_SET_VRING_BASE :: u64 where
  "VHOST_SET_VRING_BASE = ioc 1 0x12 8"

definition VHOST_GET_VRING_BASE :: u64 where
  "VHOST_GET_VRING_BASE = ioc 3 0x12 8"

definition VHOST_SET_VRING_KICK :: u64 where
  "VHOST_SET_VRING_KICK = ioc 1 0x20 8"

definition VHOST_SET_VRING_CALL :: u64 where
  "VHOST_SET_VRING_CALL = ioc 1 0x21 8"

definition VHOST_SET_VRING_ERR :: u64 where
  "VHOST_SET_VRING_ERR = ioc 1 0x22 8"

definition VHOST_NET_SET_BACKEND :: u64 where
  "VHOST_NET_SET_BACKEND = ioc 1 0x30 8"

lemmas ioctl_defs =
  VHOST_GET_FEATURES_def VHOST_SET_FEATURES_def VHOST_SET_OWNER_def VHOST_RESET_OWNER_def VHOST_SET_MEM_TABLE_def
  VHOST_SET_LOG_BASE_def VHOST_SET_LOG_FD_def VHOST_SET_VRING_NUM_def VHOST_SET_VRING_ADDR_def VHOST_SET_VRING_BASE_def
  VHOST_GET_VRING_BASE_def VHOST_SET_VRING_KICK_def VHOST_SET_VRING_CALL_def VHOST_SET_VRING_ERR_def
  VHOST_NET_SET_BACKEND_def ioc_def

definition ioctl_to_vhost_user_request :: "u64 list" where
  "ioctl_to_vhost_user_request =
     [- 1, VHOST_GET_FEATURES, VHOST_SET_FEATURES, VHOST_SET_OWNER, VHOST_RESET_OWNER, VHOST_SET_MEM_TABLE,
      VHOST_SET_LOG_BASE, VHOST_SET_LOG_FD, VHOST_SET_VRING_NUM, VHOST_SET_VRING_ADDR, VHOST_SET_VRING_BASE,
      VHOST_GET_VRING_BASE, VHOST_SET_VRING_KICK, VHOST_SET_VRING_CALL, VHOST_SET_VRING_ERR, VHOST_NET_SET_BACKEND, - 1]"

fun index_of :: "'a \<Rightarrow> 'a list \<Rightarrow> nat" where
  "index_of x [] = 0"
| "index_of x (y # ys) = (if y = x then 0 else Suc (index_of x ys))"

definition vhost_user_request_translate :: "u64 \<Rightarrow> u32" where
  "vhost_user_request_translate request =
     (let idx = index_of request ioctl_to_vhost_user_request in
      if idx = 17 then request_code VHOST_USER_NONE else of_nat idx)"

section \<open>The vhost-user back end\<close>

definition VHOST_USER_VERSION :: u32 where
  "VHOST_USER_VERSION = 1"

definition VHOST_USER_HDR_SIZE :: nat where
  "VHOST_USER_HDR_SIZE = 12"

text \<open>A message on the stack: its payload holds what the stack held before.\<close>

definition fresh_msg :: "qenv \<Rightarrow> u32 \<Rightarrow> qio list \<Rightarrow> VHostUserMsg" where
  "fresh_msg env request io =
     \<lparr>msg_request = request, msg_flags = VHOST_USER_VERSION, msg_size = 0, msg_payload = qe_junk env io\<rparr>"

text \<open>Sending is repeated while it is interrupted.\<close>

partial_function (option) sendmsg_retry :: "qenv \<Rightarrow> qio \<Rightarrow> qemu \<Rightarrow> (int \<times> qemu) exec" where
  "sendmsg_retry env e q =
     (let q = log_io e q; r = qe_sendmsg env (q_io q) in
      if r < 0 \<and> qe_errno env (q_io q) = EINTR then sendmsg_retry env e q else ret (r, q))"

text \<open>The bytes sent are the header and \<open>size\<close> bytes of the payload.\<close>

definition vhost_user_send_fds :: "qenv \<Rightarrow> int \<Rightarrow> VHostUserMsg \<Rightarrow> int list \<Rightarrow> qemu \<Rightarrow> (int \<times> qemu) exec" where
  "vhost_user_send_fds env fd m fds q =
     bindE (sendmsg_retry env (QSendmsg fd (take (VHOST_USER_HDR_SIZE + unat (msg_size m)) (bytes_of_msg m)) fds) q) (\<lambda>(r, q).
       ret (if r < 0 then r else 0, q))"

definition vhost_user_echo :: "qenv \<Rightarrow> qemu \<Rightarrow> (int \<times> qemu) exec" where
  "vhost_user_echo env q =
     (let fd = hd_control (q_dev q) in
      if fd < 0 then ret (-1, q)
      else bindE (vhost_user_send_fds env fd (fresh_msg env (request_code VHOST_USER_ECHO) (q_io q)) [] q) (\<lambda>(r, q).
        ret (if r < 0 then -1 else 0, q)))"

definition vhost_user_cleanup :: "qenv \<Rightarrow> qemu \<Rightarrow> (int \<times> qemu) exec" where
  "vhost_user_cleanup env q =
     bindE (ensure (hd_vhost_ops (q_dev q) = VHOST_BACKEND_TYPE_USER) AssertFail) (\<lambda>_.
     let (r, q) = (if hd_control (q_dev q) \<ge> 0
                   then let q = log_io (QClose (hd_control (q_dev q))) q in (qe_close env (q_io q), q)
                   else (0, q)) in
     ret (r, upd_dev (\<lambda>d. d\<lparr>hd_control := -1\<rparr>) q))"

text \<open>The memory table of a message: one region for each RAM block that has a descriptor.  The arrays of the
  message and of the descriptors have eight elements.\<close>

definition put_region :: "nat \<Rightarrow> RAMBlock \<Rightarrow> VHostUserMsg \<Rightarrow> VHostUserMsg" where
  "put_region i b m =
     m\<lparr>msg_payload := poke (8 + 24 * i)
         (le_bytes 8 (rb_offset b) @ le_bytes 8 (rb_length b) @ le_bytes 8 (rb_host b)) (msg_payload m)\<rparr>"

fun put_regions :: "RAMBlock list \<Rightarrow> nat \<Rightarrow> VHostUserMsg \<Rightarrow> int list \<Rightarrow> (VHostUserMsg \<times> int list) exec" where
  "put_regions [] n m fds = ret (m, fds)"
| "put_regions (b # bs) n m fds =
     (if rb_fd b > 0
      then if n < MAX_NREGIONS then put_regions bs (Suc n) (put_region n b m) (fds @ [rb_fd b])
           else fail (BadIndex (int n))
      else put_regions bs n m fds)"

text \<open>Filling a message for a request.  A result without message means that the request fails.\<close>

definition fill_msg :: "u64 \<Rightarrow> vhost_arg \<Rightarrow> RAMList \<Rightarrow> VHostUserMsg \<Rightarrow> (VHostUserMsg \<times> int list) option exec" where
  "fill_msg request arg rl m =
     (if request = VHOST_GET_FEATURES \<or> request = VHOST_GET_VRING_BASE then ret (Some (m, []))
      else if request = VHOST_SET_FEATURES \<or> request = VHOST_SET_LOG_BASE
      then bindE (read_arg arg 8) (\<lambda>bs. ret (Some (m\<lparr>msg_payload := poke 0 bs (msg_payload m), msg_size := 8\<rparr>, [])))
      else if request = VHOST_SET_OWNER \<or> request = VHOST_RESET_OWNER then ret (Some (m, []))
      else if request = VHOST_SET_MEM_TABLE
      then bindE (put_regions (rl_blocks rl) 0 m []) (\<lambda>(m, fds).
             let m = m\<lparr>msg_payload := poke 0 (le_bytes 4 (of_nat (length fds) :: u32)) (msg_payload m)\<rparr> in
             if fds = [] then ret None
             else ret (Some (m\<lparr>msg_size := 4 + 4 + of_nat (length fds) * 24\<rparr>, fds)))
      else if request = VHOST_SET_LOG_FD
      then bindE (read_arg arg 4) (\<lambda>bs. ret (Some (m\<lparr>msg_payload := poke 0 bs (msg_payload m), msg_size := 4\<rparr>, [])))
      else if request = VHOST_SET_VRING_NUM \<or> request = VHOST_SET_VRING_BASE
      then bindE (read_arg arg 8) (\<lambda>bs. ret (Some (m\<lparr>msg_payload := poke 0 bs (msg_payload m), msg_size := 8\<rparr>, [])))
      else if request = VHOST_SET_VRING_ADDR
      then bindE (read_arg arg 40) (\<lambda>bs. ret (Some (m\<lparr>msg_payload := poke 0 bs (msg_payload m), msg_size := 40\<rparr>, [])))
      else if request = VHOST_SET_VRING_KICK \<or> request = VHOST_SET_VRING_CALL \<or> request = VHOST_SET_VRING_ERR \<or>
              request = VHOST_NET_SET_BACKEND
      then bindE (read_arg arg 8) (\<lambda>bs.
             let m = m\<lparr>msg_payload := poke 0 bs (msg_payload m), msg_size := 8\<rparr> in
             ret (Some (m, if vf_fd (msg_file m) > 0 then [vf_fd (msg_file m)] else [])))
      else ret None)"

text \<open>The argument is only read.  A failed send closes the connection, and the request succeeds.\<close>

definition vhost_user_call :: "qenv \<Rightarrow> u64 \<Rightarrow> vhost_arg \<Rightarrow> qemu \<Rightarrow> (int \<times> qemu) exec" where
  "vhost_user_call env request arg q =
     bindE (ensure (hd_vhost_ops (q_dev q) = VHOST_BACKEND_TYPE_USER) AssertFail) (\<lambda>_.
     let fd = hd_control (q_dev q) in
     if fd < 0 then ret (-1, q)
     else bindE (fill_msg request arg (q_ram q) (fresh_msg env (vhost_user_request_translate request) (q_io q))) (\<lambda>r.
       case r of
         None \<Rightarrow> ret (-1, q)
       | Some (m, fds) \<Rightarrow>
           bindE (vhost_user_send_fds env fd m fds q) (\<lambda>(result, q).
           if result < 0 then bindE (vhost_user_cleanup env q) (\<lambda>(_, q). ret (0, q)) else ret (result, q))))"

definition vhost_user_status :: "qenv \<Rightarrow> qemu \<Rightarrow> (int \<times> qemu) exec" where
  "vhost_user_status env q =
     bindE (vhost_user_echo env q) (\<lambda>(_, q). ret (if hd_control (q_dev q) \<ge> 0 then 1 else 0, q))"

text \<open>\<^verbatim>\<open>sun_path\<close> has 108 bytes, with the terminating zero.\<close>

definition vhost_user_init :: "qenv \<Rightarrow> string \<Rightarrow> qemu \<Rightarrow> (int \<times> qemu) exec" where
  "vhost_user_init env devpath q =
     bindE (ensure (hd_vhost_ops (q_dev q) = VHOST_BACKEND_TYPE_USER) AssertFail) (\<lambda>_.
     let q = log_io QSocket q; fd = qe_socket env (q_io q) in
     if fd = -1 then ret (-1, q)
     else let q = log_io (QSndTimeo fd) q in
     if qe_setsockopt env (q_io q) = -1 then ret (-1, log_io (QClose fd) q)
     else let q = log_io (QRcvTimeo fd) q in
     if qe_setsockopt env (q_io q) = -1 then ret (-1, log_io (QClose fd) q)
     else bindE (ensure (length devpath < 108) Overrun) (\<lambda>_.
     let q = log_io (QConnect fd devpath) q in
     if qe_connect env (q_io q) = -1 then ret (-1, log_io (QClose fd) q)
     else bindE (if hd_control (q_dev q) \<ge> 0 then vhost_user_cleanup env q else ret (0, q)) (\<lambda>(_, q).
     let q = upd_dev (\<lambda>d. d\<lparr>hd_control := fd\<rparr>) q in
     bindE (vhost_user_echo env q) (\<lambda>(r, q).
     if r < 0 then ret (-1, log_io (QClose fd) (upd_dev (\<lambda>d. d\<lparr>hd_control := -1\<rparr>) q)) else ret (fd, q)))))"

section \<open>The kernel back end\<close>

text \<open>\<^verbatim>\<open>ioctl\<close> may write to its argument.\<close>

definition vhost_kernel_call :: "qenv \<Rightarrow> u64 \<Rightarrow> vhost_arg \<Rightarrow> qemu \<Rightarrow> (int \<times> vhost_arg \<times> qemu) exec" where
  "vhost_kernel_call env request arg q =
     bindE (ensure (hd_vhost_ops (q_dev q) = VHOST_BACKEND_TYPE_KERNEL) AssertFail) (\<lambda>_.
     let q = log_io (QIoctl (hd_control (q_dev q)) request arg) q; (r, arg) = qe_ioctl env (q_io q) in
     ret (r, arg, q))"

definition vhost_kernel_init :: "qenv \<Rightarrow> string \<Rightarrow> qemu \<Rightarrow> (int \<times> qemu) exec" where
  "vhost_kernel_init env devpath q =
     bindE (ensure (hd_vhost_ops (q_dev q) = VHOST_BACKEND_TYPE_KERNEL) AssertFail) (\<lambda>_.
     let q = log_io (QOpen devpath) q; fd = qe_open env (q_io q) in
     ret (fd, upd_dev (\<lambda>d. d\<lparr>hd_control := fd\<rparr>) q))"

definition vhost_kernel_cleanup :: "qenv \<Rightarrow> qemu \<Rightarrow> (int \<times> qemu) exec" where
  "vhost_kernel_cleanup env q =
     bindE (ensure (hd_vhost_ops (q_dev q) = VHOST_BACKEND_TYPE_KERNEL) AssertFail) (\<lambda>_.
     let q = log_io (QClose (hd_control (q_dev q))) q in ret (qe_close env (q_io q), q))"

section \<open>Dispatch\<close>

text \<open>The functions of \<^verbatim>\<open>dev->vhost_ops\<close>; without a back end the pointer is null.  The argument after the
  call is part of the result.\<close>

definition vhost_call :: "qenv \<Rightarrow> u64 \<Rightarrow> vhost_arg \<Rightarrow> qemu \<Rightarrow> (int \<times> vhost_arg \<times> qemu) exec" where
  "vhost_call env request arg q =
     (case hd_vhost_ops (q_dev q) of
        VHOST_BACKEND_TYPE_KERNEL \<Rightarrow> vhost_kernel_call env request arg q
      | VHOST_BACKEND_TYPE_USER \<Rightarrow> bindE (vhost_user_call env request arg q) (\<lambda>(r, q). ret (r, arg, q))
      | _ \<Rightarrow> fail (Segv 0))"

definition vhost_backend_init :: "qenv \<Rightarrow> string \<Rightarrow> qemu \<Rightarrow> (int \<times> qemu) exec" where
  "vhost_backend_init env devpath q =
     (case hd_vhost_ops (q_dev q) of
        VHOST_BACKEND_TYPE_KERNEL \<Rightarrow> vhost_kernel_init env devpath q
      | VHOST_BACKEND_TYPE_USER \<Rightarrow> vhost_user_init env devpath q
      | _ \<Rightarrow> fail (Segv 0))"

definition vhost_backend_cleanup :: "qenv \<Rightarrow> qemu \<Rightarrow> (int \<times> qemu) exec" where
  "vhost_backend_cleanup env q =
     (case hd_vhost_ops (q_dev q) of
        VHOST_BACKEND_TYPE_KERNEL \<Rightarrow> vhost_kernel_cleanup env q
      | VHOST_BACKEND_TYPE_USER \<Rightarrow> vhost_user_cleanup env q
      | _ \<Rightarrow> fail (Segv 0))"

definition vhost_set_backend_type :: "VhostBackendType \<Rightarrow> qemu \<Rightarrow> int \<times> qemu" where
  "vhost_set_backend_type bt q =
     (if bt = VHOST_BACKEND_TYPE_KERNEL \<or> bt = VHOST_BACKEND_TYPE_USER
      then (0, upd_dev (\<lambda>d. d\<lparr>hd_vhost_ops := bt\<rparr>) q) else (-1, q))"

end
