(* ===== verification/VhostMemory.thy ===== *)
theory VhostMemory
  imports VhostBackend
begin

text \<open>
  How a vhost device follows the memory map of the guest and the dirty pages of its back end, from
  \<^verbatim>\<open>src/qemu_vhost_user/hw/virtio/vhost.c\<close>: the memory listener with the table of
  \<^verbatim>\<open>MemTable\<close>, the dirty log and its transfer to the bitmap of the RAM list, and switching the log on and
  off during migration; and the few functions of \<^verbatim>\<open>memory.c\<close> it calls.
\<close>

section \<open>Memory regions\<close>

definition memory_region_is_ram :: "MemoryRegion \<Rightarrow> bool" where
  "memory_region_is_ram mr = ri_ram (mr_info mr)"

definition memory_region_is_logging :: "MemoryRegion \<Rightarrow> bool" where
  "memory_region_is_logging mr \<longleftrightarrow> ri_dirty_log_mask (mr_info mr) \<noteq> 0"

fun memory_region_get_ram_ptr :: "MemoryRegion \<Rightarrow> RAMList \<Rightarrow> (u64 \<times> RAMList) exec" where
  "memory_region_get_ram_ptr (Alias i mr off) rl =
     bindE (memory_region_get_ram_ptr mr rl) (\<lambda>(p, rl). ret (p + off, rl))"
| "memory_region_get_ram_ptr (Region i) rl =
     bindE (ensure (ri_terminates i) AssertFail) (\<lambda>_. qemu_get_ram_ptr (ri_ram_addr i AND TARGET_PAGE_MASK) rl)"

definition memory_region_set_dirty :: "MemoryRegion \<Rightarrow> u64 \<Rightarrow> u64 \<Rightarrow> RAMList \<Rightarrow> RAMList exec" where
  "memory_region_set_dirty mr addr sz rl =
     bindE (ensure (ri_terminates (mr_info mr)) AssertFail) (\<lambda>_.
       cpu_physical_memory_set_dirty_range (ri_ram_addr (mr_info mr) + addr) sz 0xff rl)"

definition int128_get64 :: "int \<Rightarrow> u64 exec" where
  "int128_get64 a = bindE (ensure (0 \<le> a \<and> a < 2 ^ 64) AssertFail) (\<lambda>_. ret (word_of_int a))"

section \<open>The dirty log\<close>

definition VHOST_LOG_PAGE :: u64 where
  "VHOST_LOG_PAGE = 0x1000"

definition VHOST_LOG_CHUNK :: u64 where
  "VHOST_LOG_CHUNK = VHOST_LOG_PAGE * 64"

text \<open>One plus the index of the lowest set bit, or 0.\<close>

definition ffsll :: "u64 \<Rightarrow> nat" where
  "ffsll w = (case find (bit w) [0 ..< 64] of Some b \<Rightarrow> Suc b | None \<Rightarrow> 0)"

partial_function (option) sync_bits :: "MemoryRegionSection \<Rightarrow> u64 \<Rightarrow> u64 \<Rightarrow> RAMList \<Rightarrow> RAMList exec" where
  "sync_bits section addr log rl =
     (case ffsll log of
        0 \<Rightarrow> ret rl
      | Suc b \<Rightarrow>
          let page_addr = addr + of_nat b * VHOST_LOG_PAGE;
              section_offset = page_addr - se_offset_within_address_space section;
              mr_offset = section_offset + se_offset_within_region section in
          bindE (memory_region_set_dirty (se_mr section) mr_offset VHOST_LOG_PAGE rl) (\<lambda>rl.
            sync_bits section addr (log AND NOT (push_bit b 1)) rl))"

text \<open>\<open>n\<close> chunks of the log from index \<open>i\<close>, which stands for the guest address \<open>addr\<close>.\<close>

fun sync_chunks :: "MemoryRegionSection \<Rightarrow> nat \<Rightarrow> nat \<Rightarrow> u64 \<Rightarrow> u64 list \<Rightarrow> RAMList \<Rightarrow> (u64 list \<times> RAMList) exec" where
  "sync_chunks section 0 i addr log rl = ret (log, rl)"
| "sync_chunks section (Suc n) i addr log rl =
     (if i < length log
      then if log ! i = 0 then sync_chunks section n (Suc i) (addr + VHOST_LOG_CHUNK) log rl
           else bindE (sync_bits section addr (log ! i) rl) (\<lambda>rl.
                  sync_chunks section n (Suc i) (addr + VHOST_LOG_CHUNK) (log[i := 0]) rl)
      else fail (BadIndex (int i)))"

definition vhost_dev_sync_region :: "MemoryRegionSection \<Rightarrow> u64 \<Rightarrow> u64 \<Rightarrow> u64 \<Rightarrow> u64 \<Rightarrow> qemu \<Rightarrow> qemu exec" where
  "vhost_dev_sync_region section mfirst mlast rfirst rlast q =
     (let start = max mfirst rfirst; en = min mlast rlast; from = start div VHOST_LOG_CHUNK; to = en div VHOST_LOG_CHUNK in
      if en < start then ret q
      else bindE (ensure (to < hd_log_size (q_dev q)) AssertFail) (\<lambda>_.
           bindE (ensure (from < hd_log_size (q_dev q)) AssertFail) (\<lambda>_.
           case hd_log (q_dev q) of
             None \<Rightarrow> fail (Segv (from * 8))
           | Some log \<Rightarrow>
               bindE (sync_chunks section (unat to + 1 - unat from) (unat from) (from * VHOST_LOG_CHUNK) log (q_ram q)) (\<lambda>(log, rl).
                 ret (upd_dev (\<lambda>d. d\<lparr>hd_log := Some log\<rparr>) (q\<lparr>q_ram := rl\<rparr>))))))"

fun sync_regions :: "MemoryRegionSection \<Rightarrow> u64 \<Rightarrow> u64 \<Rightarrow> (u64 \<times> u64) list \<Rightarrow> qemu \<Rightarrow> qemu exec" where
  "sync_regions section first lst [] q = ret q"
| "sync_regions section first lst ((a, sz) # rs) q =
     bindE (vhost_dev_sync_region section first lst a (range_get_last a sz) q) (sync_regions section first lst rs)"

text \<open>The ranges of the memory table in use, and of the used rings.\<close>

definition mem_ranges :: "vhost_dev \<Rightarrow> (u64 \<times> u64) list" where
  "mem_ranges d =
     map (\<lambda>r. (rg_guest_phys_addr r, rg_memory_size r)) (take (unat (vm_nregions (hd_mem d))) (vm_regions (hd_mem d)))"

definition used_ranges :: "vhost_dev \<Rightarrow> (u64 \<times> u64) list" where
  "used_ranges d = map (\<lambda>vq. (hq_used_phys vq, ucast (hq_used_size vq))) (take (nat (hd_nvqs d)) (hd_vqs d))"

definition vhost_sync_dirty_bitmap :: "MemoryRegionSection \<Rightarrow> u64 \<Rightarrow> u64 \<Rightarrow> qemu \<Rightarrow> qemu exec" where
  "vhost_sync_dirty_bitmap section first lst q =
     (if \<not> hd_log_enabled (q_dev q) \<or> \<not> hd_started (q_dev q) then ret q
      else bindE (int128_get64 (se_size section)) (\<lambda>sz.
        let start_addr = se_offset_within_address_space section; end_addr = range_get_last start_addr sz;
            start_addr = max first start_addr; end_addr = min lst end_addr in
        bindE (sync_regions section start_addr end_addr (mem_ranges (q_dev q)) q)
          (sync_regions section start_addr end_addr (used_ranges (q_dev q)))))"

definition vhost_log_sync :: "MemoryRegionSection \<Rightarrow> qemu \<Rightarrow> qemu exec" where
  "vhost_log_sync section q = vhost_sync_dirty_bitmap section 0 (- 1) q"

fun sync_sections :: "MemoryRegionSection list \<Rightarrow> u64 \<Rightarrow> u64 \<Rightarrow> qemu \<Rightarrow> qemu exec" where
  "sync_sections [] first lst q = ret q"
| "sync_sections (section # ss) first lst q = bindE (vhost_sync_dirty_bitmap section first lst q) (sync_sections ss first lst)"

definition vhost_log_sync_range :: "u64 \<Rightarrow> u64 \<Rightarrow> qemu \<Rightarrow> qemu exec" where
  "vhost_log_sync_range first lst q = sync_sections (hd_mem_sections (q_dev q)) first lst q"

definition vhost_get_log_size :: "vhost_dev \<Rightarrow> u64" where
  "vhost_get_log_size d =
     fold (\<lambda>(a, sz) n. max n ((a + sz - 1) div VHOST_LOG_CHUNK + 1)) (used_ranges d)
       (fold (\<lambda>(a, sz) n. max n (range_get_last a sz div VHOST_LOG_CHUNK + 1)) (mem_ranges d) 0)"

text \<open>A zeroed log of \<open>sz\<close> chunks; an allocation of no bytes is the null pointer.\<close>

definition new_log :: "u64 \<Rightarrow> u64 list option" where
  "new_log sz = (if sz = 0 then None else Some (replicate (unat sz) 0))"

definition vhost_dev_log_resize :: "qenv \<Rightarrow> u64 \<Rightarrow> qemu \<Rightarrow> qemu exec" where
  "vhost_dev_log_resize env sz q =
     (let q = log_io (QMalloc (sz * 8)) q; log_base = (if sz = 0 then 0 else qe_malloc env (q_io q)) in
      bindE (vhost_call env VHOST_SET_LOG_BASE (ArgU64 log_base) q) (\<lambda>(r, _, q).
      bindE (ensure (r \<ge> 0) AssertFail) (\<lambda>_.
      bindE (if hd_log_size (q_dev q) \<noteq> 0
             then vhost_log_sync_range 0 (hd_log_size (q_dev q) * VHOST_LOG_CHUNK - 1) q else ret q) (\<lambda>q.
        ret (upd_dev (\<lambda>d. d\<lparr>hd_log := new_log sz, hd_log_size := sz\<rparr>) q)))))"

section \<open>The memory listener\<close>

fun verify_rings :: "qenv \<Rightarrow> vhost_virtqueue list \<Rightarrow> u64 \<Rightarrow> u64 \<Rightarrow> qemu \<Rightarrow> int \<times> qemu" where
  "verify_rings env [] start_addr sz q = (0, q)"
| "verify_rings env (vq # vqs) start_addr sz q =
     (if \<not> ranges_overlap start_addr sz (hq_ring_phys vq) (ucast (hq_ring_size vq)) then verify_rings env vqs start_addr sz q
      else let q = log_io (QMap (hq_ring_phys vq) (ucast (hq_ring_size vq)) True) q; (p, l) = qe_map env (q_io q) in
      if p = 0 \<or> l \<noteq> ucast (hq_ring_size vq) then (- ENOMEM, q)
      else if p \<noteq> hq_ring vq then (- EBUSY, q)
      else verify_rings env vqs start_addr sz (log_io (QUnmap p l False 0) q))"

definition vhost_verify_ring_mappings :: "qenv \<Rightarrow> u64 \<Rightarrow> u64 \<Rightarrow> qemu \<Rightarrow> int \<times> qemu" where
  "vhost_verify_ring_mappings env start_addr sz q =
     verify_rings env (take (nat (hd_nvqs (q_dev q))) (hd_vqs (q_dev q))) start_addr sz q"

text \<open>Room for one more region than the table has; what a new element holds is not known.\<close>

definition realloc_mem :: "vhost_memory_region \<Rightarrow> vhost_memory \<Rightarrow> vhost_memory" where
  "realloc_mem junk m =
     (let n = unat (vm_nregions m + 1) in
      m\<lparr>vm_regions := take n (vm_regions m) @ replicate (n - length (vm_regions m)) junk\<rparr>)"

definition vhost_set_memory :: "qenv \<Rightarrow> MemoryRegionSection \<Rightarrow> bool \<Rightarrow> qemu \<Rightarrow> qemu exec" where
  "vhost_set_memory env section add q =
     (let start_addr = se_offset_within_address_space section in
      bindE (int128_get64 (se_size section)) (\<lambda>sz.
      let add = (add \<and> \<not> memory_region_is_logging (se_mr section));
          q = upd_dev (\<lambda>d. d\<lparr>hd_mem := realloc_mem (qe_junk_region env (q_io q)) (hd_mem d)\<rparr>) q in
      bindE (ensure (sz \<noteq> 0) AssertFail) (\<lambda>_.
      bindE (memory_region_get_ram_ptr (se_mr section) (q_ram q)) (\<lambda>(p, rl).
      let ram = p + se_offset_within_region section; q = q\<lparr>q_ram := rl\<rparr>; m = hd_mem (q_dev q) in
      if add \<and> \<not> vhost_dev_cmp_memory m start_addr sz ram then ret q
      else if \<not> add \<and> vhost_dev_find_reg m start_addr sz = None then ret q
      else
        bindE (vhost_dev_unassign_memory start_addr sz m) (\<lambda>m.
        bindE (if add then vhost_dev_assign_memory start_addr sz ram m else vhost_dev_unassign_memory start_addr sz m) (\<lambda>m.
          ret (upd_dev (\<lambda>d. d\<lparr>hd_mem := m,
                 hd_mem_changed_start_addr := min (hd_mem_changed_start_addr d) start_addr,
                 hd_mem_changed_end_addr := max (hd_mem_changed_end_addr d) (start_addr + sz - 1),
                 hd_memory_changed := True\<rparr>) q)))))))"

definition vhost_section :: "MemoryRegionSection \<Rightarrow> bool" where
  "vhost_section section = memory_region_is_ram (se_mr section)"

definition vhost_begin :: "qemu \<Rightarrow> qemu" where
  "vhost_begin q = upd_dev (\<lambda>d. d\<lparr>hd_mem_changed_end_addr := 0, hd_mem_changed_start_addr := - 1\<rparr>) q"

definition VHOST_LOG_BUFFER :: u64 where
  "VHOST_LOG_BUFFER = 0x1000 div 8"

definition commit_table :: "qenv \<Rightarrow> qemu \<Rightarrow> qemu exec" where
  "commit_table env q =
     bindE (vhost_call env VHOST_SET_MEM_TABLE (ArgMem (hd_mem (q_dev q))) q) (\<lambda>(r, _, q).
     bindE (ensure (r \<ge> 0) AssertFail) (\<lambda>_. ret q))"

definition vhost_commit :: "qenv \<Rightarrow> qemu \<Rightarrow> qemu exec" where
  "vhost_commit env q =
     (let d = q_dev q in
      if \<not> hd_memory_changed d then ret q
      else if \<not> hd_started d then ret q
      else if hd_mem_changed_start_addr d > hd_mem_changed_end_addr d then ret q
      else let (r, q) = vhost_verify_ring_mappings env (hd_mem_changed_start_addr d)
                          (hd_mem_changed_end_addr d - hd_mem_changed_start_addr d + 1) q in
        bindE (ensure (r \<ge> 0) AssertFail) (\<lambda>_.
        if \<not> hd_log_enabled (q_dev q)
        then bindE (commit_table env q) (\<lambda>q. ret (upd_dev (\<lambda>d. d\<lparr>hd_memory_changed := False\<rparr>) q))
        else let log_size = vhost_get_log_size (q_dev q) in
          bindE (if hd_log_size (q_dev q) < log_size then vhost_dev_log_resize env (log_size + VHOST_LOG_BUFFER) q else ret q) (\<lambda>q.
          bindE (commit_table env q) (\<lambda>q.
          bindE (if hd_log_size (q_dev q) > log_size + VHOST_LOG_BUFFER then vhost_dev_log_resize env log_size q else ret q) (\<lambda>q.
            ret (upd_dev (\<lambda>d. d\<lparr>hd_memory_changed := False\<rparr>) q))))))"

definition vhost_region_add :: "qenv \<Rightarrow> MemoryRegionSection \<Rightarrow> qemu \<Rightarrow> qemu exec" where
  "vhost_region_add env section q =
     (if \<not> vhost_section section then ret q
      else vhost_set_memory env section True
        (log_io (QMemRef (ri_id (mr_info (se_mr section))))
          (upd_dev (\<lambda>d. d\<lparr>hd_mem_sections := hd_mem_sections d @ [section]\<rparr>) q)))"

fun del_section :: "u64 \<Rightarrow> MemoryRegionSection list \<Rightarrow> MemoryRegionSection list" where
  "del_section off [] = []"
| "del_section off (s # ss) = (if se_offset_within_address_space s = off then ss else s # del_section off ss)"

definition vhost_region_del :: "qenv \<Rightarrow> MemoryRegionSection \<Rightarrow> qemu \<Rightarrow> qemu exec" where
  "vhost_region_del env section q =
     (if \<not> vhost_section section then ret q
      else bindE (vhost_set_memory env section False q) (\<lambda>q.
        ret (upd_dev (\<lambda>d. d\<lparr>hd_mem_sections := del_section (se_offset_within_address_space section) (hd_mem_sections d)\<rparr>)
               (log_io (QMemUnref (ri_id (mr_info (se_mr section)))) q))))"

section \<open>Migration\<close>

definition VHOST_F_LOG_ALL :: nat where
  "VHOST_F_LOG_ALL = 26"

definition vhost_virtqueue_set_addr :: "qenv \<Rightarrow> vhost_virtqueue \<Rightarrow> int \<Rightarrow> bool \<Rightarrow> qemu \<Rightarrow> (int \<times> qemu) exec" where
  "vhost_virtqueue_set_addr env vq idx enable_log q =
     (let addr = \<lparr>va_index = word_of_int idx, va_flags = (if enable_log then 1 else 0), va_desc_user_addr = hq_desc vq,
                  va_used_user_addr = hq_used vq, va_avail_user_addr = hq_avail vq, va_log_guest_addr = hq_used_phys vq\<rparr> in
      bindE (vhost_call env VHOST_SET_VRING_ADDR (ArgAddr addr) q) (\<lambda>(r, _, q).
        ret (if r < 0 then - qe_errno env (q_io q) else 0, q)))"

definition vhost_dev_set_features :: "qenv \<Rightarrow> bool \<Rightarrow> qemu \<Rightarrow> (int \<times> qemu) exec" where
  "vhost_dev_set_features env enable_log q =
     (let features = (if enable_log then hd_acked_features (q_dev q) OR push_bit VHOST_F_LOG_ALL 1
                      else hd_acked_features (q_dev q)) in
      bindE (vhost_call env VHOST_SET_FEATURES (ArgU64 features) q) (\<lambda>(r, _, q).
        ret (if r < 0 then - qe_errno env (q_io q) else 0, q)))"

definition get_hq :: "vhost_dev \<Rightarrow> int \<Rightarrow> vhost_virtqueue exec" where
  "get_hq d i = (if 0 \<le> i \<and> nat i < length (hd_vqs d) then ret (hd_vqs d ! nat i) else fail (BadIndex i))"

text \<open>Setting the addresses of the next \<open>n\<close> rings from \<open>i\<close>: the error and the ring it occurred at.\<close>

fun set_addrs :: "qenv \<Rightarrow> bool \<Rightarrow> nat \<Rightarrow> nat \<Rightarrow> qemu \<Rightarrow> (int \<times> nat \<times> qemu) exec" where
  "set_addrs env en 0 i q = ret (0, i, q)"
| "set_addrs env en (Suc n) i q =
     bindE (get_hq (q_dev q) (int i)) (\<lambda>vq.
     bindE (vhost_virtqueue_set_addr env vq (int i) en q) (\<lambda>(r, q).
       if r < 0 then ret (r, i, q) else set_addrs env en n (Suc i) q))"

text \<open>Undoing, from ring \<open>i\<close> down to the first.\<close>

fun undo_addrs :: "qenv \<Rightarrow> nat \<Rightarrow> qemu \<Rightarrow> qemu exec" where
  "undo_addrs env 0 q = ret q"
| "undo_addrs env (Suc i) q =
     bindE (get_hq (q_dev q) (int i)) (\<lambda>vq.
     bindE (vhost_virtqueue_set_addr env vq (int i) (hd_log_enabled (q_dev q)) q) (\<lambda>(t, q).
     bindE (ensure (t \<ge> 0) AssertFail) (\<lambda>_. undo_addrs env i q)))"

definition vhost_dev_set_log :: "qenv \<Rightarrow> bool \<Rightarrow> qemu \<Rightarrow> (int \<times> qemu) exec" where
  "vhost_dev_set_log env enable_log q =
     bindE (vhost_dev_set_features env enable_log q) (\<lambda>(r, q).
     if r < 0 then ret (r, q)
     else bindE (set_addrs env enable_log (nat (hd_nvqs (q_dev q))) 0 q) (\<lambda>(r, i, q).
       if r < 0
       then bindE (undo_addrs env (Suc i) q) (\<lambda>q.
            bindE (vhost_dev_set_features env (hd_log_enabled (q_dev q)) q) (\<lambda>(t, q).
            bindE (ensure (t \<ge> 0) AssertFail) (\<lambda>_. ret (r, q))))
       else ret (0, q)))"

definition vhost_migration_log :: "qenv \<Rightarrow> bool \<Rightarrow> qemu \<Rightarrow> (int \<times> qemu) exec" where
  "vhost_migration_log env enable q =
     (if enable = hd_log_enabled (q_dev q) then ret (0, q)
      else if \<not> hd_started (q_dev q) then ret (0, upd_dev (\<lambda>d. d\<lparr>hd_log_enabled := enable\<rparr>) q)
      else if \<not> enable
      then bindE (vhost_dev_set_log env False q) (\<lambda>(r, q).
           if r < 0 then ret (r, q)
           else ret (0, upd_dev (\<lambda>d. d\<lparr>hd_log := None, hd_log_size := 0, hd_log_enabled := enable\<rparr>) q))
      else bindE (vhost_dev_log_resize env (vhost_get_log_size (q_dev q)) q) (\<lambda>q.
           bindE (vhost_dev_set_log env True q) (\<lambda>(r, q).
           if r < 0 then ret (r, q) else ret (0, upd_dev (\<lambda>d. d\<lparr>hd_log_enabled := enable\<rparr>) q))))"

definition vhost_log_global_start :: "qenv \<Rightarrow> qemu \<Rightarrow> qemu exec" where
  "vhost_log_global_start env q =
     bindE (vhost_migration_log env True q) (\<lambda>(r, q). if r < 0 then fail (ExitFailure ''abort'') else ret q)"

definition vhost_log_global_stop :: "qenv \<Rightarrow> qemu \<Rightarrow> qemu exec" where
  "vhost_log_global_stop env q =
     bindE (vhost_migration_log env False q) (\<lambda>(r, q). if r < 0 then fail (ExitFailure ''abort'') else ret q)"

end
