(* ===== verification/VhostDev.thy ===== *)
theory VhostDev
  imports VhostMemory
begin

text \<open>
  The life of a vhost device, from \<^verbatim>\<open>src/qemu_vhost_user/hw/virtio/vhost.c\<close>: creating and destroying it,
  starting and stopping its rings, the host notifiers, and masking of interrupts.  Rings are mapped with
  \<^verbatim>\<open>cpu_physical_memory_map\<close>, whose answer (a pointer, null on failure, and the length that is mapped) comes
  from the environment.
\<close>

section \<open>Rings\<close>

definition put_hq :: "int \<Rightarrow> (vhost_virtqueue \<Rightarrow> vhost_virtqueue) \<Rightarrow> qemu \<Rightarrow> qemu" where
  "put_hq i f q = upd_dev (\<lambda>d. d\<lparr>hd_vqs := (hd_vqs d)[nat i := f (hd_vqs d ! nat i)]\<rparr>) q"

definition map_ring :: "qenv \<Rightarrow> u64 \<Rightarrow> u64 \<Rightarrow> bool \<Rightarrow> qemu \<Rightarrow> u64 \<times> bool \<times> qemu" where
  "map_ring env a s w q =
     (let q = log_io (QMap a s w) q; (p, l) = qe_map env (q_io q) in (p, p = 0 \<or> l \<noteq> s, q))"

definition unmap_ring :: "u64 \<Rightarrow> u64 \<Rightarrow> bool \<Rightarrow> u64 \<Rightarrow> qemu \<Rightarrow> qemu" where
  "unmap_ring p s w n q = log_io (QUnmap p s w n) q"

text \<open>The addresses and sizes of the parts of a ring.\<close>

record ring_parts =
  rp_desc :: u64
  rp_desc_size :: u64
  rp_avail :: u64
  rp_avail_size :: u64
  rp_used :: u64
  rp_used_size :: u64
  rp_ring :: u64
  rp_ring_size :: u64

definition get_parts :: "VirtIODevice \<Rightarrow> int \<Rightarrow> ring_parts exec" where
  "get_parts d n =
     bindE (virtio_queue_get_desc_addr d n) (\<lambda>da. bindE (virtio_queue_get_desc_size d n) (\<lambda>ds.
     bindE (virtio_queue_get_avail_addr d n) (\<lambda>aa. bindE (virtio_queue_get_avail_size d n) (\<lambda>as.
     bindE (virtio_queue_get_used_addr d n) (\<lambda>ua. bindE (virtio_queue_get_used_size d n) (\<lambda>us.
     bindE (virtio_queue_get_ring_addr d n) (\<lambda>ra. bindE (virtio_queue_get_ring_size d n) (\<lambda>rs.
       ret \<lparr>rp_desc = da, rp_desc_size = ds, rp_avail = aa, rp_avail_size = as, rp_used = ua, rp_used_size = us,
            rp_ring = ra, rp_ring_size = rs\<rparr>))))))))"

text \<open>Mapping the four parts.  On failure the parts mapped before are released, in reverse order.\<close>

definition map_parts :: "qenv \<Rightarrow> int \<Rightarrow> ring_parts \<Rightarrow> qemu \<Rightarrow> int \<times> qemu" where
  "map_parts env i rp q =
     (let (dp, bad, q) = map_ring env (rp_desc rp) (rp_desc_size rp) False q;
          q = put_hq i (\<lambda>vq. vq\<lparr>hq_desc := dp\<rparr>) q in
      if bad then (- ENOMEM, q)
      else let (ap, bad, q) = map_ring env (rp_avail rp) (rp_avail_size rp) False q;
               q = put_hq i (\<lambda>vq. vq\<lparr>hq_avail := ap\<rparr>) q;
               undo_desc = unmap_ring dp (rp_desc_size rp) False 0 in
      if bad then (- ENOMEM, undo_desc q)
      else let (up, bad, q) = map_ring env (rp_used rp) (rp_used_size rp) True q;
               q = put_hq i (\<lambda>vq. vq\<lparr>hq_used_size := ucast (rp_used_size rp), hq_used_phys := rp_used rp, hq_used := up\<rparr>) q;
               undo_avail = undo_desc \<circ> unmap_ring ap (rp_avail_size rp) False 0 in
      if bad then (- ENOMEM, undo_avail q)
      else let (p, bad, q) = map_ring env (rp_ring rp) (rp_ring_size rp) True q;
               q = put_hq i (\<lambda>vq. vq\<lparr>hq_ring_size := ucast (rp_ring_size rp), hq_ring_phys := rp_ring rp, hq_ring := p\<rparr>) q in
      if bad then (- ENOMEM, undo_avail (unmap_ring up (rp_used_size rp) False 0 q))
      else (0, q))"

text \<open>Releasing all parts after a failure, and when the ring stops.\<close>

definition undo_parts :: "vhost_virtqueue \<Rightarrow> ring_parts \<Rightarrow> qemu \<Rightarrow> qemu" where
  "undo_parts vq rp q =
     unmap_ring (hq_desc vq) (rp_desc_size rp) False 0
      (unmap_ring (hq_avail vq) (rp_avail_size rp) False 0
       (unmap_ring (hq_used vq) (rp_used_size rp) False 0
        (unmap_ring (hq_ring vq) (rp_ring_size rp) False 0 q)))"

definition release_parts :: "vhost_virtqueue \<Rightarrow> ring_parts \<Rightarrow> qemu \<Rightarrow> qemu" where
  "release_parts vq rp q =
     unmap_ring (hq_desc vq) (rp_desc_size rp) False (rp_desc_size rp)
      (unmap_ring (hq_avail vq) (rp_avail_size rp) False (rp_avail_size rp)
       (unmap_ring (hq_used vq) (rp_used_size rp) True (rp_used_size rp)
        (unmap_ring (hq_ring vq) (rp_ring_size rp) False (rp_ring_size rp) q)))"

text \<open>\<open>i\<close> is the position of the ring in the vhost device, \<open>idx\<close> its queue of the virtio device.\<close>

definition idx_ok :: "int \<Rightarrow> vhost_dev \<Rightarrow> bool" where
  "idx_ok idx d \<longleftrightarrow> hd_vq_index d \<le> idx \<and> idx < hd_vq_index d + hd_nvqs d"

definition vhost_virtqueue_start :: "qenv \<Rightarrow> int \<Rightarrow> int \<Rightarrow> qemu \<Rightarrow> (int \<times> qemu) exec" where
  "vhost_virtqueue_start env i idx q =
     (let vhost_vq_index = idx - hd_vq_index (q_dev q) in
      bindE (ensure (idx_ok idx (q_dev q)) AssertFail) (\<lambda>_.
      bindE (get_hq (q_dev q) i) (\<lambda>_.
      bindE (virtio_queue_get_num (q_vdev q) idx) (\<lambda>num.
      let q = put_hq i (\<lambda>vq. vq\<lparr>hq_num := num\<rparr>) q in
      bindE (vhost_call env VHOST_SET_VRING_NUM (ArgState \<lparr>vs_index = word_of_int vhost_vq_index, vs_num = word_of_int num\<rparr>) q) (\<lambda>(r, _, q).
      if r \<noteq> 0 then ret (- qe_errno env (q_io q), q)
      else bindE (virtio_queue_get_last_avail_idx (q_vdev q) idx) (\<lambda>base.
      bindE (vhost_call env VHOST_SET_VRING_BASE (ArgState \<lparr>vs_index = word_of_int vhost_vq_index, vs_num = ucast base\<rparr>) q) (\<lambda>(r, _, q).
      if r \<noteq> 0 then ret (- qe_errno env (q_io q), q)
      else bindE (get_parts (q_vdev q) idx) (\<lambda>rp.
      let (r, q) = map_parts env i rp q in
      if r < 0 then ret (r, q)
      else bindE (get_hq (q_dev q) i) (\<lambda>vq.
      bindE (vhost_virtqueue_set_addr env vq vhost_vq_index (hd_log_enabled (q_dev q)) q) (\<lambda>(r, q).
      if r < 0 then ret (- qe_errno env (q_io q), undo_parts vq rp q)
      else bindE (virtio_get_queue (q_vdev q) idx) (\<lambda>vvq.
      bindE (vhost_call env VHOST_SET_VRING_KICK
               (ArgFile \<lparr>vf_index = word_of_int vhost_vq_index, vf_fd = event_notifier_get_fd (vq_host_notifier vvq)\<rparr>) q) (\<lambda>(r, _, q).
      if r \<noteq> 0 then ret (- qe_errno env (q_io q), undo_parts vq rp q)
      else bindE (event_notifier_test_and_clear env (hq_masked_notifier vq) (q_io q)) (\<lambda>(_, io).
        ret (0, q\<lparr>q_io := io\<rparr>))))))))))))))"

text \<open>The state that \<^verbatim>\<open>GET_VRING_BASE\<close> leaves in its argument.\<close>

definition state_num :: "vhost_arg \<Rightarrow> u32" where
  "state_num arg = (case arg of ArgState st \<Rightarrow> vs_num st | _ \<Rightarrow> 0)"

definition vhost_virtqueue_stop :: "qenv \<Rightarrow> int \<Rightarrow> int \<Rightarrow> qemu \<Rightarrow> qemu exec" where
  "vhost_virtqueue_stop env i idx q =
     bindE (ensure (idx_ok idx (q_dev q)) AssertFail) (\<lambda>_.
     bindE (vhost_call env VHOST_GET_VRING_BASE
              (ArgState \<lparr>vs_index = word_of_int (idx - hd_vq_index (q_dev q)), vs_num = 0\<rparr>) q) (\<lambda>(r, arg, q).
     bindE (virtio_queue_set_last_avail_idx idx (ucast (state_num arg)) (q_vdev q)) (\<lambda>vd.
     bindE (virtio_queue_invalidate_signalled_used idx vd) (\<lambda>vd.
     bindE (ensure (r \<ge> 0) AssertFail) (\<lambda>_.
     bindE (get_hq (q_dev q) i) (\<lambda>vq.
     bindE (get_parts vd idx) (\<lambda>rp.
       ret (release_parts vq rp (q\<lparr>q_vdev := vd\<rparr>)))))))))"

definition vhost_virtqueue_init :: "qenv \<Rightarrow> int \<Rightarrow> qemu \<Rightarrow> (int \<times> qemu) exec" where
  "vhost_virtqueue_init env n q =
     bindE (get_hq (q_dev q) n) (\<lambda>vq.
     bindE (event_notifier_init env False (hq_masked_notifier vq) (q_io q)) (\<lambda>(r, e, io).
     let q = put_hq n (\<lambda>vq. vq\<lparr>hq_masked_notifier := e\<rparr>) (q\<lparr>q_io := io\<rparr>) in
     if r < 0 then ret (r, q)
     else bindE (vhost_call env VHOST_SET_VRING_CALL
                   (ArgFile \<lparr>vf_index = word_of_int n, vf_fd = event_notifier_get_fd e\<rparr>) q) (\<lambda>(r, _, q).
       if r \<noteq> 0 then ret (- qe_errno env (q_io q), q\<lparr>q_io := event_notifier_cleanup e (q_io q)\<rparr>) else ret (0, q))))"

definition vhost_virtqueue_cleanup :: "int \<Rightarrow> qemu \<Rightarrow> qemu exec" where
  "vhost_virtqueue_cleanup n q =
     bindE (get_hq (q_dev q) n) (\<lambda>vq. ret (q\<lparr>q_io := event_notifier_cleanup (hq_masked_notifier vq) (q_io q)\<rparr>))"

section \<open>Creation\<close>

fun add_sections :: "qenv \<Rightarrow> MemoryRegionSection list \<Rightarrow> qemu \<Rightarrow> qemu exec" where
  "add_sections env [] q = ret q"
| "add_sections env (s # ss) q = bindE (vhost_region_add env s q) (add_sections env ss)"

text \<open>Registering the listener reports the sections that exist already.\<close>

definition memory_listener_register :: "qenv \<Rightarrow> qemu \<Rightarrow> qemu exec" where
  "memory_listener_register env q =
     (let q = log_io (QListener True) q in
      bindE (if q_global_dirty_log q then vhost_log_global_start env q else ret q) (\<lambda>q. add_sections env (q_view q) q))"

text \<open>Initialising the next \<open>n\<close> rings from \<open>i\<close>: the error and the ring it occurred at.\<close>

fun init_rings :: "qenv \<Rightarrow> nat \<Rightarrow> nat \<Rightarrow> qemu \<Rightarrow> (int \<times> nat \<times> qemu) exec" where
  "init_rings env 0 i q = ret (0, i, q)"
| "init_rings env (Suc n) i q =
     bindE (vhost_virtqueue_init env (int i) q) (\<lambda>(r, q). if r < 0 then ret (r, i, q) else init_rings env n (Suc i) q)"

fun cleanup_rings_down :: "nat \<Rightarrow> qemu \<Rightarrow> qemu exec" where
  "cleanup_rings_down 0 q = ret q"
| "cleanup_rings_down (Suc i) q = bindE (vhost_virtqueue_cleanup (int i) q) (cleanup_rings_down i)"

fun cleanup_rings :: "nat \<Rightarrow> nat \<Rightarrow> qemu \<Rightarrow> qemu exec" where
  "cleanup_rings 0 i q = ret q"
| "cleanup_rings (Suc n) i q = bindE (vhost_virtqueue_cleanup (int i) q) (cleanup_rings n (Suc i))"

definition fail_init :: "qenv \<Rightarrow> qemu \<Rightarrow> (int \<times> qemu) exec" where
  "fail_init env q =
     (let r = - qe_errno env (q_io q) in bindE (vhost_backend_cleanup env q) (\<lambda>(_, q). ret (r, q)))"

text \<open>The features the back end reports; the variable is not initialised before the call.\<close>

definition arg_u64 :: "vhost_arg \<Rightarrow> u64" where
  "arg_u64 arg = (case arg of ArgU64 w \<Rightarrow> w | _ \<Rightarrow> 0)"

definition setup_dev :: "u64 \<Rightarrow> vhost_dev \<Rightarrow> vhost_dev" where
  "setup_dev features d =
     d\<lparr>hd_features := features, hd_mem := \<lparr>vm_nregions = 0, vm_regions = []\<rparr>, hd_mem_sections := [],
       hd_log := None, hd_log_size := 0, hd_log_enabled := False, hd_started := False, hd_memory_changed := False\<rparr>"

definition vhost_dev_init ::
  "qenv \<Rightarrow> int \<Rightarrow> string \<Rightarrow> VhostBackendType \<Rightarrow> bool \<Rightarrow> qemu \<Rightarrow> (int \<times> qemu) exec" where
  "vhost_dev_init env devfd devpath bt force q =
     (let (r, q) = vhost_set_backend_type bt q in
      if r < 0 then ret (-1, q)
      else bindE (if devfd \<ge> 0 then ret (0, upd_dev (\<lambda>d. d\<lparr>hd_control := devfd\<rparr>) q)
                  else vhost_backend_init env devpath q) (\<lambda>(r, q).
      if r < 0 then ret (- qe_errno env (q_io q), q)
      else bindE (vhost_call env VHOST_SET_OWNER ArgNull q) (\<lambda>(r, _, q).
      if r < 0 then fail_init env q
      else bindE (vhost_call env VHOST_GET_FEATURES (ArgU64 (of_le (take 8 (qe_junk env (q_io q))))) q) (\<lambda>(r, arg, q).
      if r < 0 then fail_init env q
      else bindE (init_rings env (nat (hd_nvqs (q_dev q))) 0 q) (\<lambda>(r, i, q).
      if r < 0 then bindE (cleanup_rings_down i q) (fail_init env)
      else bindE (memory_listener_register env (upd_dev (setup_dev (arg_u64 arg)) q)) (\<lambda>q.
        ret (0, upd_dev (\<lambda>d. d\<lparr>hd_force := force\<rparr>) q)))))))"

definition vhost_dev_cleanup :: "qenv \<Rightarrow> qemu \<Rightarrow> qemu exec" where
  "vhost_dev_cleanup env q =
     bindE (cleanup_rings (nat (hd_nvqs (q_dev q))) 0 q) (\<lambda>q.
     bindE (vhost_backend_cleanup env (log_io (QListener False) q)) (\<lambda>(_, q). ret q))"

section \<open>Notifiers\<close>

definition vhost_dev_query :: "qenv \<Rightarrow> 'v VirtioBusClass \<Rightarrow> qemu \<Rightarrow> bool \<times> qemu" where
  "vhost_dev_query env k q =
     (if \<not> bc_query_guest_notifiers k then (True, q)
      else let q = log_io QQueryNotifiers q in (qe_query_notifiers env (q_io q) \<or> hd_force (q_dev q), q))"

text \<open>A bus without \<^verbatim>\<open>set_host_notifier\<close> has a null pointer there.\<close>

definition set_host_notifier :: "qenv \<Rightarrow> 'v VirtioBusClass \<Rightarrow> int \<Rightarrow> bool \<Rightarrow> qemu \<Rightarrow> (int \<times> qemu) exec" where
  "set_host_notifier env k n assign q =
     bindE (ensure (bc_set_host_notifier k) (Segv 0)) (\<lambda>_.
       let q = log_io (QHostNotifier n assign) q in ret (qe_host_notifier env (q_io q), q))"

fun enable_notifiers :: "qenv \<Rightarrow> 'v VirtioBusClass \<Rightarrow> nat \<Rightarrow> nat \<Rightarrow> qemu \<Rightarrow> (int \<times> nat \<times> qemu) exec" where
  "enable_notifiers env k 0 i q = ret (0, i, q)"
| "enable_notifiers env k (Suc n) i q =
     bindE (set_host_notifier env k (hd_vq_index (q_dev q) + int i) True q) (\<lambda>(r, q).
       if r < 0 then ret (r, i, q) else enable_notifiers env k n (Suc i) q)"

text \<open>The code returns the result of the last call of the undoing loop, if it made one.\<close>

fun undo_notifiers :: "qenv \<Rightarrow> 'v VirtioBusClass \<Rightarrow> nat \<Rightarrow> int \<Rightarrow> qemu \<Rightarrow> (int \<times> qemu) exec" where
  "undo_notifiers env k 0 r q = ret (r, q)"
| "undo_notifiers env k (Suc i) r q =
     bindE (set_host_notifier env k (hd_vq_index (q_dev q) + int i) False q) (\<lambda>(r, q).
     bindE (ensure (r \<ge> 0) AssertFail) (\<lambda>_. undo_notifiers env k i r q))"

definition vhost_dev_enable_notifiers :: "qenv \<Rightarrow> 'v VirtioBusClass \<Rightarrow> qemu \<Rightarrow> (int \<times> qemu) exec" where
  "vhost_dev_enable_notifiers env k q =
     (if \<not> bc_set_host_notifier k then ret (- ENOSYS, q)
      else bindE (enable_notifiers env k (nat (hd_nvqs (q_dev q))) 0 q) (\<lambda>(r, i, q).
        if r < 0 then undo_notifiers env k i r q else ret (0, q)))"

fun disable_notifiers :: "qenv \<Rightarrow> 'v VirtioBusClass \<Rightarrow> nat \<Rightarrow> nat \<Rightarrow> qemu \<Rightarrow> qemu exec" where
  "disable_notifiers env k 0 i q = ret q"
| "disable_notifiers env k (Suc n) i q =
     bindE (set_host_notifier env k (hd_vq_index (q_dev q) + int i) False q) (\<lambda>(r, q).
     bindE (ensure (r \<ge> 0) AssertFail) (\<lambda>_. disable_notifiers env k n (Suc i) q))"

definition vhost_dev_disable_notifiers :: "qenv \<Rightarrow> 'v VirtioBusClass \<Rightarrow> qemu \<Rightarrow> qemu exec" where
  "vhost_dev_disable_notifiers env k q = disable_notifiers env k (nat (hd_nvqs (q_dev q))) 0 q"

definition vhost_virtqueue_pending :: "qenv \<Rightarrow> int \<Rightarrow> qemu \<Rightarrow> (bool \<times> qemu) exec" where
  "vhost_virtqueue_pending env n q =
     bindE (ensure (hd_started (q_dev q)) AssertFail) (\<lambda>_.
     bindE (ensure (idx_ok n (q_dev q)) AssertFail) (\<lambda>_.
     bindE (get_hq (q_dev q) (n - hd_vq_index (q_dev q))) (\<lambda>vq.
     bindE (event_notifier_test_and_clear env (hq_masked_notifier vq) (q_io q)) (\<lambda>(v, io). ret (v, q\<lparr>q_io := io\<rparr>)))))"

definition vhost_virtqueue_mask :: "qenv \<Rightarrow> int \<Rightarrow> bool \<Rightarrow> qemu \<Rightarrow> qemu exec" where
  "vhost_virtqueue_mask env n msk q =
     (let index = n - hd_vq_index (q_dev q) in
      bindE (ensure (hd_started (q_dev q)) AssertFail) (\<lambda>_.
      bindE (ensure (idx_ok n (q_dev q)) AssertFail) (\<lambda>_.
      bindE (if msk then bindE (get_hq (q_dev q) index) (\<lambda>vq. ret (event_notifier_get_fd (hq_masked_notifier vq)))
             else bindE (virtio_get_queue (q_vdev q) n) (\<lambda>vvq. ret (event_notifier_get_fd (vq_guest_notifier vvq)))) (\<lambda>fd.
      bindE (vhost_call env VHOST_SET_VRING_CALL (ArgFile \<lparr>vf_index = word_of_int index, vf_fd = fd\<rparr>) q) (\<lambda>(r, _, q).
      bindE (ensure (r \<ge> 0) AssertFail) (\<lambda>_. ret q))))))"

section \<open>Start and stop\<close>

fun start_rings :: "qenv \<Rightarrow> nat \<Rightarrow> nat \<Rightarrow> qemu \<Rightarrow> (int \<times> nat \<times> qemu) exec" where
  "start_rings env 0 i q = ret (0, i, q)"
| "start_rings env (Suc n) i q =
     bindE (vhost_virtqueue_start env (int i) (hd_vq_index (q_dev q) + int i) q) (\<lambda>(r, q).
       if r < 0 then ret (r, i, q) else start_rings env n (Suc i) q)"

fun stop_rings_down :: "qenv \<Rightarrow> nat \<Rightarrow> qemu \<Rightarrow> qemu exec" where
  "stop_rings_down env 0 q = ret q"
| "stop_rings_down env (Suc i) q =
     bindE (vhost_virtqueue_stop env (int i) (hd_vq_index (q_dev q) + int i) q) (stop_rings_down env i)"

fun stop_rings :: "qenv \<Rightarrow> nat \<Rightarrow> nat \<Rightarrow> qemu \<Rightarrow> qemu exec" where
  "stop_rings env 0 i q = ret q"
| "stop_rings env (Suc n) i q =
     bindE (vhost_virtqueue_stop env (int i) (hd_vq_index (q_dev q) + int i) q) (stop_rings env n (Suc i))"

definition stopped :: "qemu \<Rightarrow> qemu" where
  "stopped q = upd_dev (\<lambda>d. d\<lparr>hd_started := False\<rparr>) q"

text \<open>The log itself, not its address, is the argument of the last request.\<close>

definition log_arg :: "u64 list option \<Rightarrow> vhost_arg" where
  "log_arg log = (case log of None \<Rightarrow> ArgNull | Some cs \<Rightarrow> ArgLog cs)"

definition vhost_dev_start :: "qenv \<Rightarrow> qemu \<Rightarrow> (int \<times> qemu) exec" where
  "vhost_dev_start env q =
     (let q = upd_dev (\<lambda>d. d\<lparr>hd_started := True\<rparr>) q in
      bindE (vhost_dev_set_features env (hd_log_enabled (q_dev q)) q) (\<lambda>(r, q).
      if r < 0 then ret (r, stopped q)
      else bindE (vhost_call env VHOST_SET_MEM_TABLE (ArgMem (hd_mem (q_dev q))) q) (\<lambda>(r, _, q).
      if r < 0 then ret (- qe_errno env (q_io q), stopped q)
      else bindE (start_rings env (nat (hd_nvqs (q_dev q))) 0 q) (\<lambda>(r, i, q).
      if r < 0 then bindE (stop_rings_down env i q) (\<lambda>q. ret (r, stopped q))
      else if hd_log_enabled (q_dev q)
      then let n = vhost_get_log_size (q_dev q);
               q = (if n = 0 then q else log_io (QMalloc (n * 8)) q);
               q = upd_dev (\<lambda>d. d\<lparr>hd_log_size := n, hd_log := new_log n\<rparr>) q in
        bindE (vhost_call env VHOST_SET_LOG_BASE (log_arg (hd_log (q_dev q))) q) (\<lambda>(r, _, q).
        if r < 0 then let r = - qe_errno env (q_io q) in bindE (stop_rings_down env i q) (\<lambda>q. ret (r, stopped q))
        else ret (0, q))
      else ret (0, q)))))"

definition vhost_dev_stop :: "qenv \<Rightarrow> qemu \<Rightarrow> qemu exec" where
  "vhost_dev_stop env q =
     bindE (stop_rings env (nat (hd_nvqs (q_dev q))) 0 q) (\<lambda>q.
     bindE (vhost_log_sync_range 0 (- 1) q) (\<lambda>q.
       ret (upd_dev (\<lambda>d. d\<lparr>hd_started := False, hd_log := None, hd_log_size := 0\<rparr>) q)))"

end
