(* ===== verification/VhostNet.thy ===== *)
theory VhostNet
  imports VhostDev
begin

text \<open>
  The network side of vhost in QEMU: the vhost-net devices of \<^verbatim>\<open>src/qemu_vhost_user/hw/net/vhost_net.c\<close>
  (with \<^verbatim>\<open>CONFIG_VHOST_NET\<close>), and the vhost-user network back end of \<^verbatim>\<open>net/vhost-user.c\<close>, which connects to
  the server, watches the connection with a timer and reconnects.

  The functions on a vhost-net device run with its \<^verbatim>\<open>struct vhost_dev\<close> as the current device of the state.
  Storage that the code allocates without initialising it is an argument.
\<close>

section \<open>Devices\<close>

datatype NetClientOptionsKind = KIND_TAP | KIND_VHOST_USER | KIND_OTHER

text \<open>What the code reads of a network client: the kind, whether the link is down, which callbacks it has, and
  for a tap device its descriptor and the properties of its header.\<close>

record NetClientState =
  nc_type :: NetClientOptionsKind
  nc_link_down :: bool
  nc_poll :: bool
  nc_link_status_changed :: bool
  nc_receive_disabled :: bool
  nc_tap_fd :: int
  nc_tap_has_vnet_hdr :: bool
  nc_tap_has_vnet_hdr_len :: bool

record vhost_net =
  vn_dev :: vhost_dev
  vn_backend :: int
  vn_nc :: NetClientState

record VhostNetOptions =
  op_backend_type :: VhostBackendType
  op_net_backend :: "NetClientState option"
  op_devpath :: string
  op_devfd :: int
  op_force :: bool

definition VIRTIO_RING_F_INDIRECT_DESC :: nat where
  "VIRTIO_RING_F_INDIRECT_DESC = 28"

definition VIRTIO_NET_F_MRG_RXBUF :: nat where
  "VIRTIO_NET_F_MRG_RXBUF = 15"

definition VHOST_NET_F_VIRTIO_NET_HDR :: nat where
  "VHOST_NET_F_VIRTIO_NET_HDR = 27"

section \<open>Features\<close>

text \<open>The code treats four feature bits one after the other.\<close>

definition clear_unless :: "u64 \<Rightarrow> nat \<Rightarrow> u32 \<Rightarrow> u32" where
  "clear_unless dev_features b features =
     (if dev_features AND push_bit b 1 = 0 then features AND NOT (push_bit b 1) else features)"

definition vhost_net_get_features :: "vhost_dev \<Rightarrow> u32 \<Rightarrow> u32" where
  "vhost_net_get_features d features =
     clear_unless (hd_features d) VIRTIO_NET_F_MRG_RXBUF
      (clear_unless (hd_features d) VIRTIO_RING_F_EVENT_IDX
       (clear_unless (hd_features d) VIRTIO_RING_F_INDIRECT_DESC
        (clear_unless (hd_features d) VIRTIO_F_NOTIFY_ON_EMPTY features)))"

definition ack_if :: "u32 \<Rightarrow> nat \<Rightarrow> u64 \<Rightarrow> u64" where
  "ack_if features b acked = (if features AND push_bit b 1 \<noteq> 0 then acked OR push_bit b 1 else acked)"

definition vhost_net_ack_features :: "u32 \<Rightarrow> vhost_dev \<Rightarrow> vhost_dev" where
  "vhost_net_ack_features features d =
     d\<lparr>hd_acked_features :=
        ack_if features VIRTIO_NET_F_MRG_RXBUF
         (ack_if features VIRTIO_RING_F_EVENT_IDX
          (ack_if features VIRTIO_RING_F_INDIRECT_DESC
           (ack_if features VIRTIO_F_NOTIFY_ON_EMPTY (hd_backend_features d))))\<rparr>"

section \<open>Creation\<close>

definition vhost_net_get_fd :: "NetClientState \<Rightarrow> int" where
  "vhost_net_get_fd nc = (case nc_type nc of KIND_TAP \<Rightarrow> nc_tap_fd nc | _ \<Rightarrow> - EBADFD)"

text \<open>\<open>fresh\<close> is the contents of the new allocation: the device, its two rings and everything else are not
  initialised.  The result is the new device or none.\<close>

definition vhost_net_init :: "qenv \<Rightarrow> vhost_dev \<Rightarrow> VhostNetOptions \<Rightarrow> qemu \<Rightarrow> (vhost_net option \<times> qemu) exec" where
  "vhost_net_init env fresh opts q =
     (case op_net_backend opts of
        None \<Rightarrow> ret (None, q)
      | Some nc \<Rightarrow>
          let kernel = (op_backend_type opts = VHOST_BACKEND_TYPE_KERNEL); r = (if kernel then vhost_net_get_fd nc else -1) in
          if kernel \<and> r < 0 then ret (None, q)
          else
            let fresh = (if kernel
                         then fresh\<lparr>hd_backend_features := (if nc_tap_has_vnet_hdr nc then 0 else push_bit VHOST_NET_F_VIRTIO_NET_HDR 1)\<rparr>
                         else fresh)\<lparr>hd_nvqs := 2\<rparr> in
            bindE (vhost_dev_init env (op_devfd opts) (op_devpath opts) (op_backend_type opts) (op_force opts) (q\<lparr>q_dev := fresh\<rparr>)) (\<lambda>(e, q).
            if e < 0 then ret (None, q)
            else
              let q = (if kernel \<and> \<not> nc_tap_has_vnet_hdr_len nc
                       then upd_dev (\<lambda>d. d\<lparr>hd_features := hd_features d AND NOT (push_bit VIRTIO_NET_F_MRG_RXBUF 1)\<rparr>) q else q) in
              if kernel \<and> NOT (hd_features (q_dev q)) AND hd_backend_features (q_dev q) \<noteq> 0
              then bindE (vhost_dev_cleanup env q) (\<lambda>q. ret (None, q))
              else let q = upd_dev (vhost_net_ack_features 0) q in
                ret (Some \<lparr>vn_dev = q_dev q, vn_backend = r, vn_nc = nc\<rparr>, q)))"

definition vhost_net_cleanup :: "qenv \<Rightarrow> vhost_net \<Rightarrow> qemu \<Rightarrow> qemu exec" where
  "vhost_net_cleanup env net q = vhost_dev_cleanup env (q\<lparr>q_dev := vn_dev net\<rparr>)"

definition vhost_net_query :: "qenv \<Rightarrow> 'v VirtioBusClass \<Rightarrow> qemu \<Rightarrow> bool \<times> qemu" where
  "vhost_net_query env k q = vhost_dev_query env k q"

definition vhost_net_virtqueue_pending :: "qenv \<Rightarrow> int \<Rightarrow> qemu \<Rightarrow> (bool \<times> qemu) exec" where
  "vhost_net_virtqueue_pending env idx q = vhost_virtqueue_pending env idx q"

definition vhost_net_virtqueue_mask :: "qenv \<Rightarrow> int \<Rightarrow> bool \<Rightarrow> qemu \<Rightarrow> qemu exec" where
  "vhost_net_virtqueue_mask env idx msk q = vhost_virtqueue_mask env idx msk q"

text \<open>Only the vhost-user back end has a status function.\<close>

definition vhost_net_link_status :: "qenv \<Rightarrow> qemu \<Rightarrow> (int \<times> qemu) exec" where
  "vhost_net_link_status env q =
     (case hd_vhost_ops (q_dev q) of
        VHOST_BACKEND_TYPE_USER \<Rightarrow> vhost_user_status env q
      | VHOST_BACKEND_TYPE_KERNEL \<Rightarrow> ret (0, q)
      | _ \<Rightarrow> fail (Segv 0))"

section \<open>Start and stop\<close>

text \<open>Attaching the next \<open>n\<close> rings from \<open>i\<close> to the tap descriptor.\<close>

fun set_backends :: "qenv \<Rightarrow> int \<Rightarrow> nat \<Rightarrow> nat \<Rightarrow> qemu \<Rightarrow> (int \<times> nat \<times> qemu) exec" where
  "set_backends env fd 0 i q = ret (0, i, q)"
| "set_backends env fd (Suc n) i q =
     bindE (vhost_call env VHOST_NET_SET_BACKEND (ArgFile \<lparr>vf_index = of_nat i, vf_fd = fd\<rparr>) q) (\<lambda>(r, _, q).
       if r < 0 then ret (- qe_errno env (q_io q), i, q) else set_backends env fd n (Suc i) q)"

fun unset_backends_down :: "qenv \<Rightarrow> nat \<Rightarrow> qemu \<Rightarrow> qemu exec" where
  "unset_backends_down env 0 q = ret q"
| "unset_backends_down env (Suc i) q =
     bindE (vhost_call env VHOST_NET_SET_BACKEND (ArgFile \<lparr>vf_index = of_nat i, vf_fd = -1\<rparr>) q) (\<lambda>(r, _, q).
     bindE (ensure (r \<ge> 0) AssertFail) (\<lambda>_. unset_backends_down env i q))"

fun unset_backends :: "qenv \<Rightarrow> nat \<Rightarrow> nat \<Rightarrow> qemu \<Rightarrow> qemu exec" where
  "unset_backends env 0 i q = ret q"
| "unset_backends env (Suc n) i q =
     bindE (vhost_call env VHOST_NET_SET_BACKEND (ArgFile \<lparr>vf_index = of_nat i, vf_fd = -1\<rparr>) q) (\<lambda>(r, _, q).
     bindE (ensure (r \<ge> 0) AssertFail) (\<lambda>_. unset_backends env n (Suc i) q))"

definition poll :: "NetClientState \<Rightarrow> bool \<Rightarrow> qemu \<Rightarrow> qemu" where
  "poll nc on q = (if nc_poll nc then log_io (QPoll on) q else q)"

definition vhost_net_start_one :: "qenv \<Rightarrow> 'v VirtioBusClass \<Rightarrow> vhost_net \<Rightarrow> int \<Rightarrow> qemu \<Rightarrow> (int \<times> qemu) exec" where
  "vhost_net_start_one env k net vq_index q =
     (if hd_started (q_dev q) then ret (0, q)
      else let q = upd_dev (\<lambda>d. d\<lparr>hd_nvqs := 2, hd_vq_index := vq_index\<rparr>) q in
      bindE (vhost_dev_enable_notifiers env k q) (\<lambda>(r, q).
      if r < 0 then ret (r, q)
      else bindE (vhost_dev_start env q) (\<lambda>(r, q).
      if r < 0 then bindE (vhost_dev_disable_notifiers env k q) (\<lambda>q. ret (r, q))
      else let q = poll (vn_nc net) False q in
      if nc_type (vn_nc net) \<noteq> KIND_TAP then ret (0, q)
      else let q = log_io (QFdHandler (vn_backend net) False) q in
      bindE (set_backends env (vn_backend net) (nat (hd_nvqs (q_dev q))) 0 q) (\<lambda>(r, i, q).
      if r < 0
      then bindE (unset_backends_down env i q) (\<lambda>q.
           bindE (vhost_dev_stop env (poll (vn_nc net) True q)) (\<lambda>q.
           bindE (vhost_dev_disable_notifiers env k q) (\<lambda>q. ret (r, q))))
      else ret (0, q)))))"

definition vhost_net_stop_one :: "qenv \<Rightarrow> 'v VirtioBusClass \<Rightarrow> vhost_net \<Rightarrow> qemu \<Rightarrow> qemu exec" where
  "vhost_net_stop_one env k net q =
     (if \<not> hd_started (q_dev q) then ret q
      else bindE (unset_backends env (nat (hd_nvqs (q_dev q))) 0 q) (\<lambda>q.
           bindE (vhost_dev_stop env (poll (vn_nc net) True q)) (\<lambda>q.
             vhost_dev_disable_notifiers env k q)))"

text \<open>Running an operation on one of several devices.\<close>

definition on_net :: "nat \<Rightarrow> (vhost_net \<Rightarrow> qemu \<Rightarrow> ('a \<times> qemu) exec) \<Rightarrow> vhost_net list \<times> qemu \<Rightarrow> ('a \<times> vhost_net list \<times> qemu) exec" where
  "on_net i f = (\<lambda>(nets, q).
     if i < length nets
     then bindE (f (nets ! i) (q\<lparr>q_dev := vn_dev (nets ! i)\<rparr>)) (\<lambda>(x, q).
            ret (x, nets[i := (nets ! i)\<lparr>vn_dev := q_dev q\<rparr>], q))
     else fail (BadIndex (int i)))"

definition stop_on :: "qenv \<Rightarrow> 'v VirtioBusClass \<Rightarrow> nat \<Rightarrow> vhost_net list \<times> qemu \<Rightarrow> (vhost_net list \<times> qemu) exec" where
  "stop_on env k i s =
     bindE (on_net i (\<lambda>net q. bindE (vhost_net_stop_one env k net q) (\<lambda>q. ret ((), q))) s) (\<lambda>(_, s). ret s)"

fun start_nets :: "qenv \<Rightarrow> 'v VirtioBusClass \<Rightarrow> nat \<Rightarrow> nat \<Rightarrow> vhost_net list \<times> qemu \<Rightarrow> (int \<times> nat \<times> vhost_net list \<times> qemu) exec" where
  "start_nets env k 0 i s = ret (0, i, s)"
| "start_nets env k (Suc n) i s =
     bindE (on_net i (\<lambda>net. vhost_net_start_one env k net (int i * 2)) s) (\<lambda>(r, s).
       if r < 0 then ret (r, i, s) else start_nets env k n (Suc i) s)"

fun stop_nets_down :: "qenv \<Rightarrow> 'v VirtioBusClass \<Rightarrow> nat \<Rightarrow> vhost_net list \<times> qemu \<Rightarrow> (vhost_net list \<times> qemu) exec" where
  "stop_nets_down env k 0 s = ret s"
| "stop_nets_down env k (Suc i) s = bindE (stop_on env k i s) (stop_nets_down env k i)"

fun stop_nets :: "qenv \<Rightarrow> 'v VirtioBusClass \<Rightarrow> nat \<Rightarrow> nat \<Rightarrow> vhost_net list \<times> qemu \<Rightarrow> (vhost_net list \<times> qemu) exec" where
  "stop_nets env k 0 i s = ret s"
| "stop_nets env k (Suc n) i s = bindE (stop_on env k i s) (stop_nets env k n (Suc i))"

definition set_guest_notifiers :: "qenv \<Rightarrow> int \<Rightarrow> bool \<Rightarrow> vhost_net list \<times> qemu \<Rightarrow> int \<times> vhost_net list \<times> qemu" where
  "set_guest_notifiers env n assign = (\<lambda>(nets, q).
     let q = log_io (QGuestNotifiers n assign) q in (qe_guest_notifiers env (q_io q), nets, q))"

definition vhost_net_start :: "qenv \<Rightarrow> 'v VirtioBusClass \<Rightarrow> nat \<Rightarrow> vhost_net list \<times> qemu \<Rightarrow> (int \<times> vhost_net list \<times> qemu) exec" where
  "vhost_net_start env k total_queues s =
     (if \<not> bc_set_guest_notifiers k then ret (- ENOSYS, s)
      else bindE (start_nets env k total_queues 0 s) (\<lambda>(r, i, s).
        if r < 0 then bindE (stop_nets_down env k i s) (\<lambda>s. ret (r, s))
        else let (r, s) = set_guest_notifiers env (int total_queues * 2) True s in
          if r < 0 then bindE (stop_nets_down env k i s) (\<lambda>s. ret (r, s)) else ret (0, s)))"

definition vhost_net_stop :: "qenv \<Rightarrow> 'v VirtioBusClass \<Rightarrow> nat \<Rightarrow> vhost_net list \<times> qemu \<Rightarrow> (vhost_net list \<times> qemu) exec" where
  "vhost_net_stop env k total_queues s =
     bindE (ensure (bc_set_guest_notifiers k) (Segv 0)) (\<lambda>_.
     let (r, s) = set_guest_notifiers env (int total_queues * 2) False s in
     bindE (ensure (r \<ge> 0) AssertFail) (\<lambda>_. stop_nets env k total_queues 0 s))"

section \<open>The vhost-user network back end\<close>

record VhostUserState =
  us_nc :: NetClientState
  us_peer :: "NetClientState option"
  us_vhost_net :: "vhost_net option"
  us_devpath :: string

definition VHOST_USER_TIMEOUT :: int where
  "VHOST_USER_TIMEOUT = 1 * 1000"

definition vhost_user_get_vhost_net :: "VhostUserState \<Rightarrow> vhost_net option exec" where
  "vhost_user_get_vhost_net s =
     bindE (ensure (nc_type (us_nc s) = KIND_VHOST_USER) AssertFail) (\<lambda>_. ret (us_vhost_net s))"

definition vhost_user_running :: "VhostUserState \<Rightarrow> bool" where
  "vhost_user_running s \<longleftrightarrow> us_vhost_net s \<noteq> None"

definition vhost_user_link_status :: "qenv \<Rightarrow> VhostUserState \<Rightarrow> qemu \<Rightarrow> (bool \<times> VhostUserState \<times> qemu) exec" where
  "vhost_user_link_status env s q =
     (if nc_link_down (us_nc s) then ret (False, s, q)
      else case us_vhost_net s of
        None \<Rightarrow> fail (Segv 0)
      | Some net \<Rightarrow>
          bindE (vhost_net_link_status env (q\<lparr>q_dev := vn_dev net\<rparr>)) (\<lambda>(r, q).
            ret (r \<noteq> 0, s\<lparr>us_vhost_net := Some (net\<lparr>vn_dev := q_dev q\<rparr>)\<rparr>, q)))"

definition vhost_user_start :: "qenv \<Rightarrow> vhost_dev \<Rightarrow> VhostUserState \<Rightarrow> qemu \<Rightarrow> (int \<times> VhostUserState \<times> qemu) exec" where
  "vhost_user_start env fresh s q =
     (if vhost_user_running s then ret (1, s, q)
      else bindE (vhost_net_init env fresh
                    \<lparr>op_backend_type = VHOST_BACKEND_TYPE_USER, op_net_backend = Some (us_nc s), op_devpath = us_devpath s,
                     op_devfd = -1, op_force = True\<rparr> q) (\<lambda>(net, q).
        let s = s\<lparr>us_vhost_net := net\<rparr> in ret (if vhost_user_running s then 0 else -1, s, q)))"

definition vhost_user_stop :: "qenv \<Rightarrow> VhostUserState \<Rightarrow> qemu \<Rightarrow> (VhostUserState \<times> qemu) exec" where
  "vhost_user_stop env s q =
     bindE (case us_vhost_net s of Some net \<Rightarrow> vhost_net_cleanup env net q | None \<Rightarrow> ret q) (\<lambda>q.
       ret (s\<lparr>us_vhost_net := None\<rparr>, q))"

definition reschedule :: "qenv \<Rightarrow> qemu \<Rightarrow> qemu" where
  "reschedule env q = log_io (QTimer (qe_clock env (q_io q) + VHOST_USER_TIMEOUT)) q"

definition check_link :: "qenv \<Rightarrow> vhost_dev \<Rightarrow> VhostUserState \<Rightarrow> qemu \<Rightarrow> (bool \<times> VhostUserState \<times> qemu) exec" where
  "check_link env fresh s q =
     (if vhost_user_running s
      then bindE (vhost_user_link_status env s q) (\<lambda>(up, s, q). ret (\<not> up, s, q))
      else bindE (vhost_user_start env fresh s q) (\<lambda>(_, s, q). ret (\<not> vhost_user_running s, s, q)))"

definition net_client_cleanup :: "qenv \<Rightarrow> VhostUserState \<Rightarrow> qemu \<Rightarrow> (VhostUserState \<times> qemu) exec" where
  "net_client_cleanup env s q = bindE (vhost_user_stop env s q) (\<lambda>(s, q). ret (s, log_io QPurge q))"

text \<open>A new client of the given kind of information, and the first attempt to connect.\<close>

definition net_vhost_user_init ::
  "qenv \<Rightarrow> vhost_dev \<Rightarrow> NetClientState option \<Rightarrow> string \<Rightarrow> qemu \<Rightarrow> (int \<times> VhostUserState \<times> qemu) exec" where
  "net_vhost_user_init env fresh peer filename q =
     (let nc = \<lparr>nc_type = KIND_VHOST_USER, nc_link_down = False, nc_poll = False, nc_link_status_changed = False,
                nc_receive_disabled = True, nc_tap_fd = -1, nc_tap_has_vnet_hdr = False, nc_tap_has_vnet_hdr_len = False\<rparr>;
          s = \<lparr>us_nc = nc, us_peer = peer, us_vhost_net = None, us_devpath = filename\<rparr> in
      bindE (vhost_user_start env fresh s q) (\<lambda>(r, s, q). ret (r, s, reschedule env q)))"

end
