(* ===== verification/QemuSample.thy ===== *)
theory QemuSample
  imports VhostNet Sample
begin

text \<open>
  A small instance of the QEMU side, on which the properties of its components are evaluated: an environment
  in which every call succeeds and guest memory is mapped at a fixed distance, a queue whose rings lie in the
  memory of \<^verbatim>\<open>Sample\<close>, and a vhost device of a guest with the two pages of RAM of \<^verbatim>\<open>RamBlocks\<close>.
\<close>

section \<open>The environment\<close>

definition sample_host :: "u64 \<Rightarrow> u64" where
  "sample_host a = 0x7f0000000000 + a"

definition sample_map_answer :: "qio list \<Rightarrow> u64 \<times> u64" where
  "sample_map_answer io = (case last io of QMap a l w \<Rightarrow> (sample_host a, l) | _ \<Rightarrow> (0, 0))"

definition sample_env :: qenv where
  "sample_env =
     \<lparr>qe_errno = (\<lambda>_. 0), qe_sendmsg = (\<lambda>_. 12), qe_ioctl = (\<lambda>_. (0, ArgNull)), qe_socket = (\<lambda>_. 20),
      qe_setsockopt = (\<lambda>_. 0), qe_connect = (\<lambda>_. 0), qe_open = (\<lambda>_. 21), qe_close = (\<lambda>_. 0), qe_eventfd = (\<lambda>_. 22),
      qe_pipe = (\<lambda>_. Some (23, 24)), qe_setfl = (\<lambda>_. 0), qe_read = (\<lambda>_. 8), qe_write = (\<lambda>_. 8), qe_map = sample_map_answer,
      qe_malloc = (\<lambda>_. 0x7e0000000000), qe_host_notifier = (\<lambda>_. 0), qe_guest_notifiers = (\<lambda>_. 0),
      qe_query_notifiers = (\<lambda>_. True), qe_fd_handler = (\<lambda>_. 0), qe_junk = (\<lambda>_. replicate 200 0xa5),
      qe_junk_region = (\<lambda>_. \<lparr>rg_guest_phys_addr = 0xa5, rg_memory_size = 0xa5, rg_userspace_addr = 0xa5, rg_flags_padding = 0xa5\<rparr>),
      qe_clock = (\<lambda>io. int (length io))\<rparr>"

section \<open>A queue\<close>

definition sample_phys :: phys where
  "sample_phys = \<lparr>ph_ram = sample_mem, ph_mmio = (\<lambda>_ _. 0)\<rparr>"

definition sample_queue :: VirtQueue where
  "sample_queue =
     (fresh_queue 0)\<lparr>vq_vring := \<lparr>vri_num = 2, vri_align = 0x1000, vri_desc = 0x10000, vri_avail = 0x10100, vri_used = 0x10200\<rparr>,
       vq_pa := 0x10000\<rparr>"

definition sample_element :: VirtQueueElement where
  "sample_element = \<lparr>el_index = 1, el_in_addr = [], el_in_sg = [], el_out_addr = [], el_out_sg = []\<rparr>"

section \<open>Devices\<close>

definition sample_bus :: "unit VirtioBusClass" where
  "sample_bus =
     \<lparr>bc_notify = True, bc_save_config = Some [1, 2], bc_save_queue = None, bc_load_config = Some (\<lambda>f. (0, drop 2 f)),
      bc_load_queue = None, bc_get_features = 0x21000000, bc_query_guest_notifiers = True, bc_set_guest_notifiers = True,
      bc_set_host_notifier = True, bc_vmstate_change = None, bc_has_variable_vring_alignment = False\<rparr>"

definition sample_class :: "unit VirtioDeviceClass" where
  "sample_class =
     \<lparr>dc_set_status = None, dc_reset = None, dc_get_config = (\<lambda>d cfg. cfg), dc_set_config = None, dc_set_features = None,
      dc_handle_output = (\<lambda>h n s. ret s)\<rparr>"

definition sample_vdev :: VirtIODevice where
  "sample_vdev =
     virtio_init True ''virtio-net'' 1 8
       \<lparr>vd_name = [], vd_status = 0, vd_isr = 0, vd_queue_sel = 0, vd_guest_features = 0, vd_config_len = 0, vd_config = [],
        vd_config_vector = 0, vd_vq = [], vd_device_id = 0, vd_vm_running = False\<rparr>"

definition sample_ring :: vhost_virtqueue where
  "sample_ring =
     \<lparr>hq_desc = 0, hq_avail = 0, hq_used = 0, hq_num = 0, hq_used_phys = 0, hq_used_size = 0, hq_ring = 0, hq_ring_phys = 0,
      hq_ring_size = 0, hq_masked_notifier = \<lparr>en_rfd = 25, en_wfd = 25\<rparr>\<rparr>"

definition sample_mr :: MemoryRegion where
  "sample_mr = Region \<lparr>ri_id = 0, ri_ram_addr = 0, ri_terminates = True, ri_ram = True, ri_dirty_log_mask = 0\<rparr>"

text \<open>The first page of RAM at \<^verbatim>\<open>0x1000\<close>, and a section inside a larger region.\<close>

definition sample_section :: MemoryRegionSection where
  "sample_section =
     \<lparr>se_mr = sample_mr, se_offset_within_region = 0, se_size = 0x1000, se_offset_within_address_space = 0x1000\<rparr>"

definition sample_guest_table :: vhost_memory where
  "sample_guest_table =
     \<lparr>vm_nregions = 1,
      vm_regions = [\<lparr>rg_guest_phys_addr = 0, rg_memory_size = 0x4000, rg_userspace_addr = 0x600000000000, rg_flags_padding = 0\<rparr>]\<rparr>"

definition sample_dev :: vhost_dev where
  "sample_dev =
     \<lparr>hd_control = 20, hd_mem = \<lparr>vm_nregions = 0, vm_regions = []\<rparr>, hd_mem_sections = [], hd_vqs = [sample_ring, sample_ring],
      hd_nvqs = 2, hd_vq_index = 0, hd_features = 0, hd_acked_features = 0, hd_backend_features = 0, hd_started = False,
      hd_log_enabled = False, hd_log = None, hd_log_size = 0, hd_force = True, hd_memory_changed = False,
      hd_mem_changed_start_addr = - 1, hd_mem_changed_end_addr = 0, hd_vhost_ops = VHOST_BACKEND_TYPE_USER\<rparr>"

definition sample_qemu :: qemu where
  "sample_qemu =
     \<lparr>q_dev = sample_dev, q_vdev = sample_vdev, q_ram = sample_ram, q_view = [sample_section], q_global_dirty_log = False, q_io = []\<rparr>"

text \<open>A device with one ring, and the device it is migrated to.\<close>

definition sample_source :: VirtIODevice where
  "sample_source =
     put_queue 0 (virtqueue_init ((fresh_queue 0)\<lparr>vq_vring := \<lparr>vri_num = 2, vri_align = 0x1000, vri_desc = 0, vri_avail = 0, vri_used = 0\<rparr>,
         vq_pa := 0x10000\<rparr>))
       (sample_vdev\<lparr>vd_status := 7, vd_guest_features := 0x20000000\<rparr>)"

definition sample_target :: vio where
  "sample_target =
     \<lparr>vi_dev = put_queue 0 ((fresh_queue 0)\<lparr>vq_vring := \<lparr>vri_num = 2, vri_align = 0x1000, vri_desc = 0, vri_avail = 0, vri_used = 0\<rparr>\<rparr>) sample_vdev,
      vi_phys = sample_phys, vi_io = []\<rparr>"

text \<open>A client whose connection broke.\<close>

definition sample_client :: NetClientState where
  "sample_client =
     \<lparr>nc_type = KIND_VHOST_USER, nc_link_down = False, nc_poll = False, nc_link_status_changed = True, nc_receive_disabled = True,
      nc_tap_fd = -1, nc_tap_has_vnet_hdr = False, nc_tap_has_vnet_hdr_len = False\<rparr>"

definition sample_lost :: VhostUserState where
  "sample_lost =
     \<lparr>us_nc = sample_client, us_peer = Some sample_client,
      us_vhost_net = Some \<lparr>vn_dev = sample_dev\<lparr>hd_control := -1\<rparr>, vn_backend = -1, vn_nc = sample_client\<rparr>,
      us_devpath = ''/tmp/vhost.sock''\<rparr>"

lemma sample_guest_map [simp]: "qe_map sample_env (io @ [QMap a l w]) = (sample_host a, l)"
  by (simp add: sample_env_def sample_map_answer_def)

end
