(* ===== verification/VirtQueueSpec.thy ===== *)
theory VirtQueueSpec
  imports QemuSample
begin

text \<open>
  The queues of QEMU do what the virtio protocol asks of a device: the parts of a ring do not overlap, taking an
  element yields exactly the buffers of one descriptor chain and ends whatever the guest wrote, returning it
  publishes one entry of the used ring and changes nothing else, and the decision whether to interrupt is exact
  also when the indices wrap around.
\<close>

section \<open>Specification\<close>

definition dev_writes :: "phys \<Rightarrow> u64 \<Rightarrow> u32 \<Rightarrow> bool" where
  "dev_writes ph pa i \<longleftrightarrow> vring_desc_flags ph pa i AND VRING_DESC_F_WRITE \<noteq> 0"

text \<open>The descriptors of a chain: all but the last name their successor in the table.\<close>

fun walk :: "phys \<Rightarrow> u64 \<Rightarrow> u32 \<Rightarrow> u32 list \<Rightarrow> bool" where
  "walk ph pa mx [] = False"
| "walk ph pa mx [i] = (vring_desc_flags ph pa i AND VRING_DESC_F_NEXT = 0)"
| "walk ph pa mx (i # j # is) =
     (vring_desc_flags ph pa i AND VRING_DESC_F_NEXT \<noteq> 0 \<and> ucast (vring_desc_next ph pa i) = j \<and> j < mx \<and> walk ph pa mx (j # is))"

definition desc_sg :: "phys \<Rightarrow> u64 \<Rightarrow> u32 \<Rightarrow> iovec" where
  "desc_sg ph pa i = \<lparr>iov_base = 0, iov_len = ucast (vring_desc_len ph pa i)\<rparr>"

definition extend_elem :: "phys \<Rightarrow> u64 \<Rightarrow> u32 list \<Rightarrow> VirtQueueElement \<Rightarrow> VirtQueueElement" where
  "extend_elem ph pa is el =
     el\<lparr>el_in_addr := el_in_addr el @ map (vring_desc_addr ph pa) (filter (dev_writes ph pa) is),
        el_in_sg := el_in_sg el @ map (desc_sg ph pa) (filter (dev_writes ph pa) is),
        el_out_addr := el_out_addr el @ map (vring_desc_addr ph pa) (filter (\<lambda>i. \<not> dev_writes ph pa i) is),
        el_out_sg := el_out_sg el @ map (desc_sg ph pa) (filter (\<lambda>i. \<not> dev_writes ph pa i) is)\<rparr>"

definition elem_count :: "VirtQueueElement \<Rightarrow> nat" where
  "elem_count el = length (el_in_sg el) + length (el_out_sg el)"

text \<open>The buffers of a chain as the host sees them.\<close>

definition host_sg :: "phys \<Rightarrow> u64 \<Rightarrow> (u64 \<Rightarrow> u64) \<Rightarrow> u32 \<Rightarrow> iovec" where
  "host_sg ph pa host i = \<lparr>iov_base = host (vring_desc_addr ph pa i), iov_len = ucast (vring_desc_len ph pa i)\<rparr>"

definition popped :: "phys \<Rightarrow> u64 \<Rightarrow> (u64 \<Rightarrow> u64) \<Rightarrow> u32 \<Rightarrow> u32 list \<Rightarrow> VirtQueueElement \<Rightarrow> bool" where
  "popped ph pa host head is el \<longleftrightarrow>
     el_index el = head \<and>
     el_in_addr el = map (vring_desc_addr ph pa) (filter (dev_writes ph pa) is) \<and>
     el_in_sg el = map (host_sg ph pa host) (filter (dev_writes ph pa) is) \<and>
     el_out_addr el = map (vring_desc_addr ph pa) (filter (\<lambda>i. \<not> dev_writes ph pa i) is) \<and>
     el_out_sg el = map (host_sg ph pa host) (filter (\<lambda>i. \<not> dev_writes ph pa i) is)"

text \<open>The addresses of the entry \<open>i\<close> of the used ring.\<close>

definition used_entry :: "VirtQueue \<Rightarrow> u32 \<Rightarrow> u64" where
  "used_entry vq i = vri_used (vq_vring vq) + (4 + 8 * ucast i)"

section \<open>Lemmas\<close>

lemma need_event_window_word:
  fixes e d :: u16
  shows "d - e < d \<longleftrightarrow> 1 \<le> unat e \<and> unat e \<le> unat d"
proof (cases "unat e \<le> unat d")
  case True
  then have "unat (d - e) = unat d - unat e" by (simp add: unat_sub word_le_nat_alt)
  then show ?thesis using True by (auto simp: word_less_nat_alt)
next
  case False
  then have "unat (d - e) = unat d + 2 ^ 16 - unat e" by (simp add: unat_sub_if')
  moreover have "unat e < 2 ^ 16" using unsigned_less [of e] by simp
  ultimately have "unat d < unat (d - e)" by linarith
  then show ?thesis using False by (simp add: word_less_nat_alt)
qed

text \<open>
  C27. The comparison by which a device decides whether to interrupt is exact also when the 16-bit indices wrap
  around: the guest is to be interrupted if and only if the entry it waits for, number \<open>event\<close>, is one of those
  published since the last interrupt, i.e. \<open>old, old + 1, ..., new - 1\<close>.
\<close>

theorem need_event_window:
  "vring_need_event event new old \<longleftrightarrow> (\<exists>k<unat (new - old). event = old + of_nat k)"
proof -
  have r: "new - event - 1 = (new - old) - (event + 1 - old)" by simp
  have "vring_need_event event new old \<longleftrightarrow> 1 \<le> unat (event + 1 - old) \<and> unat (event + 1 - old) \<le> unat (new - old)"
    unfolding vring_need_event_def r by (rule need_event_window_word)
  also have "\<dots> \<longleftrightarrow> (\<exists>k<unat (new - old). event = old + of_nat k)"
  proof
    assume a: "1 \<le> unat (event + 1 - old) \<and> unat (event + 1 - old) \<le> unat (new - old)"
    have "event + 1 - old = of_nat (unat (event + 1 - old) - 1) + 1" using a by (simp add: of_nat_diff)
    then have "event = old + of_nat (unat (event + 1 - old) - 1)" by (simp add: algebra_simps)
    then show "\<exists>k<unat (new - old). event = old + of_nat k" using a by (intro exI [of _ "unat (event + 1 - old) - 1"]) linarith
  next
    assume "\<exists>k<unat (new - old). event = old + of_nat k"
    then obtain k where k: "k < unat (new - old)" "event = old + of_nat k" by blast
    have "event + 1 - old = of_nat (Suc k)" using k(2) by simp
    moreover have "unat (new - old) < 2 ^ 16" using unsigned_less [of "new - old"] by simp
    then have "Suc k < 2 ^ 16" using k(1) by linarith
    ultimately have "unat (event + 1 - old) = Suc k" by (simp add: unat_of_nat_small del: of_nat_Suc)
    then show "1 \<le> unat (event + 1 - old) \<and> unat (event + 1 - old) \<le> unat (new - old)" using k(1) by simp
  qed
  finally show ?thesis .
qed

lemma used_offset:
  assumes "n = 2 ^ k" and "k \<le> 10"
  shows "18 * n + 6 \<le> 4096 * ((18 * n + 4099) div 4096)" and "4096 * ((18 * n + 4099) div 4096) + (8 * n + 6) \<le> (0x8000 :: nat)"
proof -
  have "k \<in> {0, 1, 2, 3, 4, 5, 6, 7, 8, 9, 10}" using assms(2) by (simp; presburger)
  then show "18 * n + 6 \<le> 4096 * ((18 * n + 4099) div 4096)" "4096 * ((18 * n + 4099) div 4096) + (8 * n + 6) \<le> (0x8000 :: nat)"
    unfolding assms(1) by auto
qed

text \<open>
  The parts of a ring do not overlap and lie in one block: for a page-aligned address and a power of two of
  at most 1024 descriptors, the descriptors are followed by the available ring with its event word, then, on a
  page of its own, comes the used ring with its event word, and the end is within 32 KiB.
\<close>

theorem ring_layout:
  assumes "vri_num (vq_vring vq) = 2 ^ k" and "k \<le> 10" and "vri_align (vq_vring vq) = VIRTIO_PCI_VRING_ALIGN"
    and "aligned (vq_pa vq)" and "unat (vq_pa vq) + 0x8000 < 2 ^ 64"
  shows "let r = vq_vring (virtqueue_init vq); n = 2 ^ k in
    vri_desc r = vq_pa vq \<and> unat (vri_avail r) = unat (vri_desc r) + 16 * n \<and>
    unat (vri_avail r) + (6 + 2 * n) \<le> unat (vri_used r) \<and> aligned (vri_used r) \<and>
    unat (vri_used r) + (6 + 8 * n) \<le> unat (vq_pa vq) + 0x8000"
proof -
  define n :: nat where n: "n = 2 ^ k"
  obtain p where p: "unat (vq_pa vq) = 4096 * p" using assms(4) by (auto simp: aligned_def)
  have n10: "n \<le> 1024" using assms(2) power_increasing [of k 10 "2 :: nat"] by (simp add: n)
  have num: "unat (vri_num (vq_vring vq)) = n"
  proof -
    have "vri_num (vq_vring vq) = of_nat n" using assms(1) by (simp add: n)
    then show ?thesis using n10 by (simp add: unat_of_nat_small)
  qed
  let ?r = "vq_vring (virtqueue_init vq)"
  have cn: "unat (ucast (vri_num (vq_vring vq)) :: u64) = n" using num by simp
  have av: "unat (vri_avail ?r) = unat (vq_pa vq) + 16 * n"
    using assms(5) n10 cn by (simp add: virtqueue_init_def Let_def unat_word_ariths)
  have e: "unat (vri_avail ?r + (4 + 2 * ucast (vri_num (vq_vring vq)))) = 4096 * p + 18 * n + 4"
    using assms(5) n10 cn av p by (simp add: unat_word_ariths)
  have "vri_used ?r = TARGET_PAGE_ALIGN (vri_avail ?r + (4 + 2 * ucast (vri_num (vq_vring vq))))"
    using assms(3) by (simp add: virtqueue_init_def Let_def vring_align_def TARGET_PAGE_ALIGN_def TARGET_PAGE_MASK_def
        VIRTIO_PCI_VRING_ALIGN_def)
  moreover from this have "unat (vri_used ?r) = 4096 * ((4096 * p + 18 * n + 4 + 4095) div 4096)"
    using align_unat [of "vri_avail ?r + (4 + 2 * ucast (vri_num (vq_vring vq)))"] e assms(5) n10 p by simp
  moreover have "(4096 * p + 18 * n + 4 + 4095) div 4096 = p + (18 * n + 4099) div 4096"
    using div_mult_self4 [of 4096 p "18 * n + 4099"] by (simp add: ac_simps)
  ultimately have u: "unat (vri_used ?r) = 4096 * p + 4096 * ((18 * n + 4099) div 4096)" "aligned (vri_used ?r)"
    by (simp_all add: aligned_align)
  show ?thesis
    using av u p used_offset [OF n assms(2)] by (simp add: Let_def n virtqueue_init_def)
qed

lemma add_desc_spec:
  assumes "length (el_in_sg el) + length (filter (dev_writes ph pa) [i]) \<le> VIRTQUEUE_MAX_SIZE"
    and "length (el_out_sg el) + length (filter (\<lambda>i. \<not> dev_writes ph pa i) [i]) \<le> VIRTQUEUE_MAX_SIZE"
  shows "add_desc ph pa i el = ret (extend_elem ph pa [i] el)"
  using assms by (simp add: add_desc_def extend_elem_def dev_writes_def desc_sg_def Let_def split: if_splits)

lemma extend_Cons: "extend_elem ph pa (i # is) el = extend_elem ph pa is (extend_elem ph pa [i] el)"
  by (simp add: extend_elem_def)

lemma extend_count:
  "length (el_in_sg (extend_elem ph pa is el)) = length (el_in_sg el) + length (filter (dev_writes ph pa) is)"
  "length (el_out_sg (extend_elem ph pa is el)) = length (el_out_sg el) + length (filter (\<lambda>i. \<not> dev_writes ph pa i) is)"
  "elem_count (extend_elem ph pa is el) = elem_count el + length is"
  using sum_length_filter_compl [of "dev_writes ph pa" "is"] by (simp_all add: extend_elem_def elem_count_def)

lemma of_nat_not_above:
  fixes w :: "'a::len word"
  shows "n \<le> unat w \<Longrightarrow> \<not> w < of_nat n"
proof
  assume le: "n \<le> unat w" and "w < of_nat n"
  then have "unat w < n mod 2 ^ LENGTH('a)" by (simp add: word_less_nat_alt unat_of_nat)
  also have "\<dots> \<le> n" by simp
  finally show False using le by simp
qed

lemma u16_of_u32 [simp]: "ucast (ucast (w :: u16) :: u32) = w"
  by (rule bit_word_eqI) (simp add: bit_ucast_iff bit_imp_le_length)

lemma collect_chain:
  assumes "walk ph pa mx (i # is)" and "elem_count el + length (i # is) \<le> unat mx"
    and "length (el_in_sg el) + length (filter (dev_writes ph pa) (i # is)) \<le> VIRTQUEUE_MAX_SIZE"
    and "length (el_out_sg el) + length (filter (\<lambda>i. \<not> dev_writes ph pa i) (i # is)) \<le> VIRTQUEUE_MAX_SIZE"
  shows "collect_descs ph pa mx i el = ret (extend_elem ph pa (i # is) el)"
  using assms
proof (induction "is" arbitrary: i el)
  case Nil
  let ?e = "extend_elem ph pa [i] el"
  have "add_desc ph pa i el = ret ?e" using Nil by (intro add_desc_spec) simp_all
  moreover have "elem_count ?e \<le> unat mx" using Nil.prems(2) extend_count(3) [of ph pa "[i]" el] by simp
  then have "\<not> mx < of_nat (elem_count ?e)" by (rule of_nat_not_above)
  ultimately show ?case using Nil.prems(1)
    by (simp add: collect_descs.simps [of ph pa mx i el] elem_count_def virtqueue_next_desc_def)
next
  case (Cons j js)
  let ?e = "extend_elem ph pa [i] el"
  have c: "elem_count ?e = elem_count el + 1" using extend_count(3) [of ph pa "[i]" el] by simp
  have "add_desc ph pa i el = ret ?e" using Cons.prems by (intro add_desc_spec) (auto split: if_splits)
  moreover have "elem_count ?e \<le> unat mx" using Cons.prems(2) c by simp
  then have "\<not> mx < of_nat (elem_count ?e)" by (rule of_nat_not_above)
  moreover have "virtqueue_next_desc ph pa i mx = ret j" "j \<noteq> mx" using Cons.prems(1) by (auto simp: virtqueue_next_desc_def Let_def)
  ultimately have "collect_descs ph pa mx i el = collect_descs ph pa mx j ?e"
    by (simp add: collect_descs.simps [of ph pa mx i el] elem_count_def)
  also have "\<dots> = ret (extend_elem ph pa (j # js) ?e)"
  proof (rule Cons.IH)
    show "walk ph pa mx (j # js)" using Cons.prems(1) by simp
    show "elem_count ?e + length (j # js) \<le> unat mx" using Cons.prems(2) c by simp
    show "length (el_in_sg ?e) + length (filter (dev_writes ph pa) (j # js)) \<le> VIRTQUEUE_MAX_SIZE"
      using Cons.prems(3) extend_count(1) [of ph pa "[i]" el] by (auto split: if_splits)
    show "length (el_out_sg ?e) + length (filter (\<lambda>i. \<not> dev_writes ph pa i) (j # js)) \<le> VIRTQUEUE_MAX_SIZE"
      using Cons.prems(4) extend_count(2) [of ph pa "[i]" el] by (auto split: if_splits)
  qed
  finally show ?case using extend_Cons [of ph pa i "j # js" el] by simp
qed

lemma map_sg_spec:
  assumes "\<And>io a l. qe_map env (io @ [QMap a l w]) = (host a, l)" and "\<And>a sg. (a, sg) \<in> set xs \<Longrightarrow> host a \<noteq> 0"
  shows "map_sg env w xs io = ret (map (\<lambda>(a, sg). sg\<lparr>iov_base := host a\<rparr>) xs, io @ map (\<lambda>(a, sg). QMap a (iov_len sg) w) xs)"
  using assms(2)
proof (induction xs arbitrary: io)
  case (Cons x xs)
  obtain a sg where x: "x = (a, sg)" by (cases x)
  have "map_sg env w xs (io @ [QMap a (iov_len sg) w]) =
      ret (map (\<lambda>(a, sg). sg\<lparr>iov_base := host a\<rparr>) xs, (io @ [QMap a (iov_len sg) w]) @ map (\<lambda>(a, sg). QMap a (iov_len sg) w) xs)"
    using Cons by (intro Cons.IH) auto
  moreover have "host a \<noteq> 0" using Cons.prems x by auto
  ultimately show ?case using assms(1) x by simp
qed simp

text \<open>
  C11. Taking a chain from the queue: if the available ring announces a head, the descriptors from it form a
  chain that fits, and the memory of its buffers can be mapped, then the result is one element with exactly the
  buffers of the chain, in order, those the device may write apart from those it may read; the queue has moved
  on by one, and nothing but the event index changes in guest memory.
\<close>

theorem pop_takes_chain:
  assumes heads: "vring_avail_idx ph vq \<noteq> vq_last_avail_idx vq"
      "unat (vring_avail_idx ph vq - vq_last_avail_idx vq) \<le> unat (vri_num (vq_vring vq))"
    and head: "head = ucast (vring_avail_ring ph vq (ucast (vq_last_avail_idx vq) mod vri_num (vq_vring vq)))"
      "head < vri_num (vq_vring vq)"
    and ph': "ph' = (if bit feat VIRTIO_RING_F_EVENT_IDX then vring_avail_event vq (vring_avail_idx ph vq) ph else ph)"
    and tab: "desc_table ph' vq head = ret (ind, pa, mx, i)"
    and chain: "walk ph' pa mx (i # js)" "length (i # js) \<le> unat mx"
      "length (filter (dev_writes ph' pa) (i # js)) \<le> VIRTQUEUE_MAX_SIZE"
      "length (filter (\<lambda>i. \<not> dev_writes ph' pa i) (i # js)) \<le> VIRTQUEUE_MAX_SIZE"
    and maps: "\<And>io a l w. qe_map env (io @ [QMap a l w]) = (host a, l)"
      "\<And>j. j \<in> set (i # js) \<Longrightarrow> host (vring_desc_addr ph' pa j) \<noteq> 0"
  shows "\<exists>el' io'. virtqueue_pop env feat el vq (ph, io) =
      ret (length (i # js), el', vq\<lparr>vq_last_avail_idx := vq_last_avail_idx vq + 1, vq_inuse := vq_inuse vq + 1\<rparr>, ph', io') \<and>
      popped ph' pa host head (i # js) el'"
proof -
  let ?e = "extend_elem ph' pa (i # js) (el\<lparr>el_in_addr := [], el_in_sg := [], el_out_addr := [], el_out_sg := []\<rparr>)"
  let ?in = "filter (dev_writes ph' pa) (i # js)" and ?out = "filter (\<lambda>i. \<not> dev_writes ph' pa i) (i # js)"
  have nh: "virtqueue_num_heads ph vq (ucast (vq_last_avail_idx vq)) = ret (vring_avail_idx ph vq - vq_last_avail_idx vq)"
    using heads(2) by (simp add: virtqueue_num_heads_def Let_def word_less_nat_alt not_less)
  have nz: "vri_num (vq_vring vq) \<noteq> 0" using head(2) by (auto simp: word_less_nat_alt)
  have gh: "virtqueue_get_head ph vq (ucast (vq_last_avail_idx vq)) = ret head"
    using head nz by (simp add: virtqueue_get_head_def Let_def)
  have up: "vring_avail_event (vq\<lparr>vq_last_avail_idx := x\<rparr>) y ph = vring_avail_event vq y ph"
    "vring_avail_idx ph (vq\<lparr>vq_last_avail_idx := x\<rparr>) = vring_avail_idx ph vq"
    "desc_table ph'' (vq\<lparr>vq_last_avail_idx := x\<rparr>) head = desc_table ph'' vq head" for x y ph''
    by (simp_all add: vring_avail_event_def vring_avail_idx_def desc_table_def Let_def)
  have col: "collect_descs ph' pa mx i (el\<lparr>el_in_addr := [], el_in_sg := [], el_out_addr := [], el_out_sg := []\<rparr>) = ret ?e"
    using chain by (intro collect_chain) (simp_all add: elem_count_def)
  have m1: "virtqueue_map_sg env True (el_in_addr ?e) (el_in_sg ?e) io =
      ret (map (host_sg ph' pa host) ?in, io @ map (\<lambda>(a, sg). QMap a (iov_len sg) True) (zip (el_in_addr ?e) (el_in_sg ?e)))" for io
    unfolding virtqueue_map_sg_def using maps
    by (subst map_sg_spec [where host = host])
      (auto simp: extend_elem_def zip_map_map zip_same_conv_map desc_sg_def host_sg_def comp_def split: if_splits)
  have m2: "virtqueue_map_sg env False (el_out_addr ?e) (el_out_sg ?e) io =
      ret (map (host_sg ph' pa host) ?out, io @ map (\<lambda>(a, sg). QMap a (iov_len sg) False) (zip (el_out_addr ?e) (el_out_sg ?e)))" for io
    unfolding virtqueue_map_sg_def using maps
    by (subst map_sg_spec [where host = host])
      (auto simp: extend_elem_def zip_map_map zip_same_conv_map desc_sg_def host_sg_def comp_def split: if_splits)
  have ln: "length ?in + length ?out = length (i # js)" by (rule sum_length_filter_compl)
  have "virtqueue_pop env feat el vq (ph, io) =
      ret (length (i # js), ?e\<lparr>el_in_sg := map (host_sg ph' pa host) ?in, el_out_sg := map (host_sg ph' pa host) ?out, el_index := head\<rparr>,
           vq\<lparr>vq_last_avail_idx := vq_last_avail_idx vq + 1, vq_inuse := vq_inuse vq + 1\<rparr>, ph',
           (io @ map (\<lambda>(a, sg). QMap a (iov_len sg) True) (zip (el_in_addr ?e) (el_in_sg ?e))) @
             map (\<lambda>(a, sg). QMap a (iov_len sg) False) (zip (el_out_addr ?e) (el_out_sg ?e)))"
    unfolding virtqueue_pop_def prod.case nh bindE_ret Let_def gh up ph' [symmetric] tab col m1 m2 length_map ln
    using heads(1) by (simp add: eq_neg_iff_add_eq_0 [symmetric])
  moreover have "popped ph' pa host head (i # js) (?e\<lparr>el_in_sg := map (host_sg ph' pa host) ?in, el_out_sg := map (host_sg ph' pa host) ?out, el_index := head\<rparr>)"
    by (simp add: popped_def extend_elem_def)
  ultimately show ?thesis by blast
qed

lemma add_desc_ret:
  assumes "add_desc ph pa i el = ret el'"
  shows "elem_count el' = Suc (elem_count el)"
  using assms by (auto simp: add_desc_def elem_count_def Let_def split: if_splits)

lemma returns_simps [simp]:
  "returns (add_desc ph pa i el)" "returns (virtqueue_next_desc ph pa i mx)" "returns (desc_table ph vq i)"
  "returns (virtqueue_num_heads ph vq idx)" "returns (virtqueue_get_head ph vq idx)"
  by (simp_all add: add_desc_def virtqueue_next_desc_def desc_table_def virtqueue_num_heads_def virtqueue_get_head_def Let_def)

lemma collect_returns:
  assumes "length (el_in_sg el) \<le> VIRTQUEUE_MAX_SIZE" and "length (el_out_sg el) \<le> VIRTQUEUE_MAX_SIZE"
  shows "returns (collect_descs ph pa mx i el)"
  using assms
proof (induction "2 * VIRTQUEUE_MAX_SIZE - elem_count el" arbitrary: i el rule: less_induct)
  case less
  show ?case
    unfolding collect_descs.simps [of ph pa mx i el]
  proof (intro returns_bindE)
    fix el' assume a: "add_desc ph pa i el = ret el'"
    then have b: "length (el_in_sg el') \<le> VIRTQUEUE_MAX_SIZE" "length (el_out_sg el') \<le> VIRTQUEUE_MAX_SIZE"
      using less.prems by (auto simp: add_desc_def Let_def split: if_splits)
    have "2 * VIRTQUEUE_MAX_SIZE - elem_count el' < 2 * VIRTQUEUE_MAX_SIZE - elem_count el"
      using add_desc_ret [OF a] b by (auto simp: elem_count_def)
    then have "returns (collect_descs ph pa mx j el')" for j using less.hyps b by blast
    then show "returns (if j \<noteq> mx then collect_descs ph pa mx j el' else ret el')" for j by simp
  qed simp_all
qed

lemma map_sg_returns [simp]: "returns (map_sg env w xs io)"
  by (induction xs arbitrary: io) (auto simp: Let_def split: prod.splits intro!: returns_bindE)

lemma count_descs_returns:
  assumes "unat mx < 2 ^ 32 - 1"
  shows "returns (count_descs ph a b pa mx i n t)"
proof -
  have small: "returns (count_descs ph a b pa mx i n t)" if "unat n < 2 ^ 32 - 1" for i n t
    using that
  proof (induction "unat mx - unat n" arbitrary: i n t rule: less_induct)
    case less
    have s: "unat (n + 1) = Suc (unat n)" using less.prems by (simp add: unat_word_ariths)
    show ?case
    proof (cases "mx < n + 1")
      case True
      then show ?thesis by (simp add: count_descs.simps [of ph a b pa mx i n t] Let_def)
    next
      case False
      then have le: "Suc (unat n) \<le> unat mx" using s by (simp add: word_less_nat_alt)
      then have "returns (count_descs ph a b pa mx j (n + 1) t')" for j t'
        using less.hyps [of "n + 1"] s assms by simp
      then show ?thesis using False
        by (subst count_descs.simps) (auto simp: Let_def intro!: returns_bindE)
    qed
  qed
  show ?thesis
  proof (cases "unat n < 2 ^ 32 - 1")
    case False
    moreover have "unat n < 2 ^ 32" using unsigned_less [of n] by simp
    ultimately have "unat n = 2 ^ 32 - 1" by linarith
    then have "unat (n + 1) = 0" by (simp add: unat_word_ariths)
    then have "n + 1 = 0" by (simp add: unat_eq_0)
    moreover have "returns (count_descs ph a b pa mx j 0 t')" for j t' by (rule small) simp
    ultimately show ?thesis by (subst count_descs.simps) (auto simp: Let_def intro!: returns_bindE)
  qed (rule small)
qed

lemma desc_table_max:
  assumes "desc_table ph vq i = ret (ind, pa, mx, j)" and "unat (vri_num (vq_vring vq)) < 2 ^ 32 - 1"
  shows "unat mx < 2 ^ 32 - 1"
proof -
  have "unat (w div 16) < 2 ^ 32 - 1" for w :: u32
  proof -
    have "unat w < 2 ^ 32" using unsigned_less [of w] by simp
    then show ?thesis by (simp add: unat_div_distrib)
  qed
  then show ?thesis using assms by (auto simp: desc_table_def Let_def split: if_splits)
qed

lemma count_chains_returns:
  assumes "unat (vri_num (vq_vring vq)) < 2 ^ 32 - 1"
  shows "returns (count_chains ph vq a b idx tb t)"
proof (induction "unat (vring_avail_idx ph vq - ucast idx)" arbitrary: idx tb t)
  case 0
  then show ?case by (simp add: count_chains.simps [of ph vq a b idx] virtqueue_num_heads_def unat_eq_0)
next
  case (Suc k)
  have "ucast (idx + 1) = ucast idx + (1 :: u16)" by (rule word_unat_eq_iff [THEN iffD2])
    (simp add: unsigned_ucast_eq unat_word_ariths take_bit_eq_mod mod_simps mod_mod_cancel)
  then have d: "vring_avail_idx ph vq - ucast (idx + 1) = vring_avail_idx ph vq - ucast idx - 1" by simp
  have "unat (vring_avail_idx ph vq - ucast (idx + 1)) = k" unfolding d using Suc.hyps(2) by (simp add: unat_sub_if')
  then have "returns (count_chains ph vq a b (idx + 1) tb' t')" for tb' t' using Suc.hyps(1) by simp
  then show ?case
    using count_descs_returns desc_table_max [OF _ assms]
    by (subst count_chains.simps) (auto intro!: returns_bindE)
qed

lemma pop_returns: "returns (virtqueue_pop env feat el vq s)"
  unfolding virtqueue_pop_def virtqueue_map_sg_def Let_def
  by (cases s) (auto intro!: returns_bindE collect_returns)

text \<open>
  C34. Whatever the guest writes to the rings, taking a chain from a queue ends, and so does counting the bytes
  that wait in it (the size of the queue being any 32-bit number but the largest): descriptors that form a loop
  are detected.
\<close>

theorem queue_walks_end:
  "returns (virtqueue_pop env feat el vq s) \<and>
   (vri_num (vq_vring vq) \<noteq> - 1 \<longrightarrow> returns (virtqueue_avail_bytes (fst s) vq in_bytes out_bytes))"
proof
  show "returns (virtqueue_pop env feat el vq s)" by (rule pop_returns)
  show "vri_num (vq_vring vq) \<noteq> - 1 \<longrightarrow> returns (virtqueue_avail_bytes (fst s) vq in_bytes out_bytes)"
  proof
    assume "vri_num (vq_vring vq) \<noteq> - 1"
    moreover have "(- 1 :: u32) = 0xffffffff" by simp
    then have "unat (- 1 :: u32) = 2 ^ 32 - 1" by (simp only:) simp
    ultimately have "unat (vri_num (vq_vring vq)) \<noteq> 2 ^ 32 - 1" by (metis word_unat_eq_iff)
    moreover have "unat (vri_num (vq_vring vq)) < 2 ^ 32" using unsigned_less [of "vri_num (vq_vring vq)"] by simp
    ultimately have "unat (vri_num (vq_vring vq)) < 2 ^ 32 - 1" by linarith
    then show "returns (virtqueue_avail_bytes (fst s) vq in_bytes out_bytes)"
      by (auto simp: virtqueue_avail_bytes_def virtqueue_get_avail_bytes_def intro!: returns_bindE count_chains_returns)
  qed
qed

lemma st_phys_frame: "x \<notin> region pa n \<Longrightarrow> ph_ram (st_phys pa n w ph) x = ph_ram ph x"
  using store_bytes_frame [of "ph_ram ph" pa "le_bytes n w"] by (simp add: st_phys_def split: option.splits)

lemma st_phys_other [simp]: "ph_mmio (st_phys pa n w ph) = ph_mmio ph" "dom (ph_ram (st_phys pa n w ph)) = dom (ph_ram ph)"
  using store_bytes_dom [of "ph_ram ph" pa "le_bytes n w"] by (auto simp: st_phys_def split: option.splits)

lemma ld_st_other: "region pa n \<inter> region pb k = {} \<Longrightarrow> ld_phys (st_phys pa n w ph) pb k = ld_phys ph pb k"
  using load_store_disjoint [of "ph_ram ph" pa "le_bytes n w" _ pb k]
  by (auto simp: st_phys_def ld_phys_def split: option.splits)

lemma ld_st_same:
  fixes w :: "'a::len word"
  assumes "region pa n \<subseteq> dom (ph_ram ph)" and "LENGTH('a) \<le> 8 * n" and "n \<le> 2 ^ 64"
  shows "ld_phys (st_phys pa n w ph) pa n = w"
proof -
  obtain m where m: "store_bytes (ph_ram ph) pa (le_bytes n w) = Some m"
    using store_bytes_iff_mapped [of "ph_ram ph" pa "le_bytes n w"] assms(1) by auto
  have "load_bytes m pa n = Some (le_bytes n w)" using load_store_same [OF m] assms(3) by simp
  then show ?thesis using m assms(2) by (simp add: ld_phys_def st_phys_def)
qed

lemma used_offsets:
  fixes i :: u32
  shows "region (u + 2) 2 \<inter> region (u + (4 + 8 * ucast i)) 4 = {}" and "region (u + 2) 2 \<inter> region (u + (4 + 8 * ucast i + 4)) 4 = {}"
    and "region (u + (4 + 8 * ucast i)) 4 \<inter> region (u + (4 + 8 * ucast i + 4)) 4 = {}"
proof -
  have b: "unat i < 2 ^ 32" using unsigned_less [of i] by simp
  have e: "4 + 8 * ucast i + 4 = (8 + 8 * ucast i :: u64)" by simp
  show "region (u + 2) 2 \<inter> region (u + (4 + 8 * ucast i)) 4 = {}"
    using region_disjoint_offsets [of 2 2 "4 + 8 * unat i" 4 u] b by simp
  show "region (u + 2) 2 \<inter> region (u + (4 + 8 * ucast i + 4)) 4 = {}"
    unfolding e using region_disjoint_offsets [of 2 2 "8 + 8 * unat i" 4 u] b by simp
  show "region (u + (4 + 8 * ucast i)) 4 \<inter> region (u + (4 + 8 * ucast i + 4)) 4 = {}"
    unfolding e using region_disjoint_offsets [of "4 + 8 * unat i" 4 "8 + 8 * unat i" 4 u] b by simp
qed

lemma used_regions:
  assumes "i < n"
  shows "region (u + (4 + 8 * ucast i)) 8 \<subseteq> region u (4 + 8 * unat n)" and "region (u + 2) 2 \<subseteq> region u (4 + 8 * unat n)"
proof -
  have e: "4 + 8 * ucast i = (of_nat (4 + 8 * unat i) :: u64)" by simp
  show "region (u + (4 + 8 * ucast i)) 8 \<subseteq> region u (4 + 8 * unat n)"
    unfolding e using assms by (intro region_sub) (simp add: word_less_nat_alt)
  show "region (u + 2) 2 \<subseteq> region u (4 + 8 * unat n)" using region_sub [of 2 2 "4 + 8 * unat n" u] by simp
qed

lemma region_halves: "region a 4 \<subseteq> region a 8" "region (a + 4) 4 \<subseteq> region a 8"
  using region_sub [of 0 4 8 a] region_sub [of 4 4 8 a] by simp_all

text \<open>
  C12. Returning an element to the guest: with the used ring in memory, the entry at the used index gets the head
  of the chain and the number of bytes written, the used index advances by one, the number of elements in use
  decreases, every buffer is released, and no other byte of guest memory changes.
\<close>

theorem push_publishes:
  assumes num: "vri_num (vq_vring vq) \<noteq> 0" and ram: "region (vri_used (vq_vring vq)) (4 + 8 * unat (vri_num (vq_vring vq))) \<subseteq> dom (ph_ram ph)"
    and slot: "slot = ucast (vring_used_idx ph vq) mod vri_num (vq_vring vq)"
  shows "\<exists>vq' ph' io'. virtqueue_push el len vq (ph, io) = ret (vq', ph', io') \<and>
     ld_phys ph' (used_entry vq slot) 4 = el_index el \<and> ld_phys ph' (used_entry vq slot + 4) 4 = len \<and>
     vring_used_idx ph' vq' = vring_used_idx ph vq + 1 \<and>
     (\<forall>x. x \<notin> region (used_entry vq slot) 8 \<and> x \<notin> region (vri_used (vq_vring vq) + 2) 2 \<longrightarrow> ph_ram ph' x = ph_ram ph x) \<and>
     vq_inuse vq' = int_of_u32 (word_of_int (vq_inuse vq) - 1) \<and> vq_vring vq' = vq_vring vq \<and>
     vq_last_avail_idx vq' = vq_last_avail_idx vq \<and>
     io' = io @ unmap_in len 0 (el_in_sg el) @ unmap_out (el_out_sg el)"
proof -
  let ?u = "vri_used (vq_vring vq)" and ?e = "used_entry vq slot"
  define ph1 ph2 ph3 where p: "ph1 = st_phys ?e 4 (el_index el) ph" "ph2 = st_phys (?e + 4) 4 len ph1"
    "ph3 = st_phys (?u + 2) 2 (vring_used_idx ph vq + 1) ph2"
  have s: "slot < vri_num (vq_vring vq)" using num slot by (simp add: word_less_nat_alt unat_mod_distrib unat_gt_0)
  have e4: "?u + (4 + 8 * ucast slot + 4) = ?e + 4" by (simp add: used_entry_def)
  have d: "region (?u + 2) 2 \<inter> region ?e 4 = {}" "region (?u + 2) 2 \<inter> region (?e + 4) 4 = {}" "region ?e 4 \<inter> region (?e + 4) 4 = {}"
    using used_offsets [of ?u slot] unfolding e4 by (simp_all add: used_entry_def)
  have m: "region ?e 8 \<subseteq> dom (ph_ram ph)" "region (?u + 2) 2 \<subseteq> dom (ph_ram ph)"
    using used_regions [OF s, of ?u] ram by (auto simp: used_entry_def)
  have m4: "region ?e 4 \<subseteq> dom (ph_ram ph)" "region (?e + 4) 4 \<subseteq> dom (ph_ram ph)"
    using m(1) region_halves [of ?e] by blast+
  have idx: "vring_used_idx ph2 vq = vring_used_idx ph vq"
    using d by (simp add: p vring_used_idx_def ld_st_other Int_commute)
  have fill: "virtqueue_fill vq el len 0 (ph, io) = ret (ph2, io @ unmap_in len 0 (el_in_sg el) @ unmap_out (el_out_sg el))"
    using num by (simp add: virtqueue_fill_def Let_def slot [symmetric] vring_used_ring_id_def vring_used_ring_len_def p used_entry_def add.assoc)
  have v: "ld_phys ph3 ?e 4 = el_index el" "ld_phys ph3 (?e + 4) 4 = len" "ld_phys ph3 (?u + 2) 2 = vring_used_idx ph vq + 1"
    using d m m4 by (simp_all add: p ld_st_other ld_st_same Int_commute)
  have fr: "ph_ram ph3 x = ph_ram ph x" if "x \<notin> region ?e 8" "x \<notin> region (?u + 2) 2" for x
  proof -
    have "x \<notin> region ?e 4" "x \<notin> region (?e + 4) 4" using that(1) region_halves [of ?e] by blast+
    then show ?thesis using that(2) by (simp add: p st_phys_frame)
  qed
  show ?thesis
    unfolding virtqueue_push_def fill bindE_ret prod.case virtqueue_flush_def Let_def vring_used_idx_set_def idx ucast_1
    p(3) [symmetric] using v fr by (simp add: vring_used_idx_def)
qed

section \<open>Examples\<close>

lemma sample_ld [simp]: "ld_phys sample_phys a n = (case load_bytes sample_mem a n of Some bs \<Rightarrow> of_le bs | None \<Rightarrow> 0)"
  by (simp add: ld_phys_def sample_phys_def split: option.split)

lemmas sample_queue_eval =
  sample_queue_def vring_avail_idx_def vring_avail_ring_def vring_desc_flags_def vring_desc_next_def vring_desc_addr_def
  vring_desc_len_def vring_used_idx_def sample_mem_def sample_byte_def memory_eval

theorem need_event_window_witness:
  "vring_need_event 0xffff 1 0xfffe \<and> (\<exists>k<3. (0xffff :: u16) = 0xfffe + of_nat k)"
  using need_event_window [of "0xffff" 1 "0xfffe"] by (auto simp: vring_need_event_def intro!: exI [of _ "1::nat"])

theorem ring_layout_witness:
  "let r = vq_vring (virtqueue_init sample_queue) in
     vri_desc r = 0x10000 \<and> unat (vri_avail r) = 0x10020 \<and> aligned (vri_used r) \<and> unat (vri_avail r) + 10 \<le> unat (vri_used r)"
proof -
  have "vri_num (vq_vring sample_queue) = 2 ^ 1" "vri_align (vq_vring sample_queue) = VIRTIO_PCI_VRING_ALIGN" "vq_pa sample_queue = 0x10000"
    by (simp_all add: sample_queue_def VIRTIO_PCI_VRING_ALIGN_def)
  then show ?thesis using ring_layout [of sample_queue 1] by (auto simp: Let_def aligned_def)
qed

lemma sample_heads:
  "vring_avail_idx sample_phys sample_queue = 1" "vring_avail_ring sample_phys sample_queue 0 = 0"
  "vring_desc_flags sample_phys 0x10000 0 = 1" "vring_desc_flags sample_phys 0x10000 1 = 0"
  "vring_desc_next sample_phys 0x10000 0 = 1" "vring_used_idx sample_phys sample_queue = 0"
  "vring_desc_addr sample_phys 0x10000 0 = 0x300" "vring_desc_addr sample_phys 0x10000 1 = 0x310"
  "vring_desc_len sample_phys 0x10000 0 = 10" "vring_desc_len sample_phys 0x10000 1 = 4"
  by (simp_all add: sample_queue_eval)

lemma sample_queue_simps [simp]:
  "vri_num (vq_vring sample_queue) = 2" "vri_desc (vq_vring sample_queue) = 0x10000" "vq_last_avail_idx sample_queue = 0"
  "vri_used (vq_vring sample_queue) = 0x10200" "vq_inuse sample_queue = 0"
  by (simp_all add: sample_queue_def fresh_queue_def)

theorem pop_takes_chain_witness:
  "\<exists>el io. virtqueue_pop sample_env 0 sample_element sample_queue (sample_phys, []) =
      ret (2, el, sample_queue\<lparr>vq_last_avail_idx := 1, vq_inuse := 1\<rparr>, sample_phys, io) \<and>
      el_index el = 0 \<and> el_out_sg el = [\<lparr>iov_base = 0x7f0000000300, iov_len = 10\<rparr>, \<lparr>iov_base = 0x7f0000000310, iov_len = 4\<rparr>]"
proof -
  have "sample_host (vring_desc_addr sample_phys 0x10000 j) \<noteq> 0" if "j \<in> set [0, 1]" for j
    using that sample_heads by (auto simp: sample_host_def)
  then have "\<exists>el io. virtqueue_pop sample_env 0 sample_element sample_queue (sample_phys, []) =
      ret (length [0 :: u32, 1], el, sample_queue\<lparr>vq_last_avail_idx := vq_last_avail_idx sample_queue + 1, vq_inuse := vq_inuse sample_queue + 1\<rparr>,
        sample_phys, io) \<and> popped sample_phys 0x10000 sample_host 0 [0, 1] el"
    by (intro pop_takes_chain [where ind = False and mx = 2])
      (simp_all add: sample_heads desc_table_def VRING_DESC_F_INDIRECT_def VRING_DESC_F_NEXT_def VRING_DESC_F_WRITE_def dev_writes_def
        VIRTQUEUE_MAX_SIZE_def)
  moreover have "length [0 :: u32, 1] = 2" by simp
  ultimately show ?thesis
    by (auto simp del: length_Cons list.size simp: sample_heads dev_writes_def VRING_DESC_F_WRITE_def sample_host_def popped_def host_sg_def)
qed

theorem queue_walks_end_witness:
  "returns (virtqueue_pop sample_env 0 sample_element sample_queue (sample_phys, [])) \<and>
   returns (virtqueue_avail_bytes sample_phys sample_queue 1500 0)"
  using queue_walks_end [of sample_env 0 sample_element sample_queue "(sample_phys, [])" 1500 0] by simp

theorem push_publishes_witness:
  "\<exists>vq ph io. virtqueue_push sample_element 4 sample_queue (sample_phys, []) = ret (vq, ph, io) \<and>
     ld_phys ph 0x10204 4 = (1 :: u32) \<and> ld_phys ph 0x10208 4 = (4 :: u32) \<and> vring_used_idx ph vq = 1"
proof -
  have "region (vri_used (vq_vring sample_queue)) (4 + 8 * unat (vri_num (vq_vring sample_queue))) \<subseteq> dom (ph_ram sample_phys)"
    using sample_region [of "0x200" 20] by (simp add: sample_phys_def)
  then obtain vq ph io where "virtqueue_push sample_element 4 sample_queue (sample_phys, []) = ret (vq, ph, io)"
    "ld_phys ph (used_entry sample_queue 0) 4 = el_index sample_element" "ld_phys ph (used_entry sample_queue 0 + 4) 4 = (4 :: u32)"
    "vring_used_idx ph vq = vring_used_idx sample_phys sample_queue + 1"
    using push_publishes [of sample_queue sample_phys 0 sample_element 4 "[]"] by (auto simp: sample_heads)
  then show ?thesis by (auto simp: sample_heads used_entry_def sample_element_def)
qed

end
