(* ===== verification/VirtIOSpec.thy ===== *)
theory VirtIOSpec
  imports VirtQueueSpec
begin

text \<open>
  The common part of a virtio device: what its operations keep of its queues, and saving it on one host and loading it
  on another restores it.  The locale \<open>queue_property\<close> collects what a property of a single
  queue has to satisfy to be kept by every operation; it is interpreted for the size and for the index of a queue.
\<close>

section \<open>Specification\<close>

text \<open>What migration transfers of a queue.\<close>

definition ring_state :: "VirtQueue \<Rightarrow> u32 \<times> u64 \<times> u16 \<times> u64 \<times> u64 \<times> u64" where
  "ring_state vq =
     (vri_num (vq_vring vq), vq_pa vq, vq_last_avail_idx vq, vri_desc (vq_vring vq), vri_avail (vq_vring vq), vri_used (vq_vring vq))"

text \<open>A queue whose ring addresses are those of its layout, and whose indices agree with guest memory.\<close>

definition queue_ok :: "phys \<Rightarrow> VirtQueue \<Rightarrow> bool" where
  "queue_ok ph vq \<longleftrightarrow>
     (if vq_pa vq = 0
      then vq_last_avail_idx vq = 0 \<and> vri_desc (vq_vring vq) = 0 \<and> vri_avail (vq_vring vq) = 0 \<and> vri_used (vq_vring vq) = 0
      else virtqueue_init vq = vq \<and> unat (vring_avail_idx ph vq - vq_last_avail_idx vq) \<le> unat (vri_num (vq_vring vq)))"

text \<open>A queue of the destination before loading: like the source, but without ring addresses.\<close>

definition blank_for :: "'v VirtioBusClass \<Rightarrow> VirtQueue \<Rightarrow> VirtQueue \<Rightarrow> bool" where
  "blank_for k vq vq0 \<longleftrightarrow>
     (bc_has_variable_vring_alignment k \<or> vri_align (vq_vring vq0) = vri_align (vq_vring vq)) \<and>
     vri_desc (vq_vring vq0) = 0 \<and> vri_avail (vq_vring vq0) = 0 \<and> vri_used (vq_vring vq0) = 0"

text \<open>The transport writes and reads back its own part of the stream.\<close>

definition bus_codec :: "'v VirtioBusClass \<Rightarrow> bool" where
  "bus_codec k \<longleftrightarrow>
     (case bc_save_config k of
        Some bs \<Rightarrow> (\<exists>g. bc_load_config k = Some g \<and> (\<forall>f. g (bs @ f) = (0, f)))
      | None \<Rightarrow> bc_load_config k = None) \<and>
     (case bc_save_queue k of
        Some h \<Rightarrow> (\<exists>g. bc_load_queue k = Some g \<and> (\<forall>i f. g i (h i @ f) = (0, f)))
      | None \<Rightarrow> bc_load_queue k = None)"

text \<open>The class callback for negotiated features leaves the common part of the device alone.\<close>

definition features_local :: "'v VirtioDeviceClass \<Rightarrow> bool" where
  "features_local c \<longleftrightarrow> (\<forall>v s. \<exists>io. opt_call (dc_set_features c) v s = ret (s\<lparr>vi_io := io\<rparr>))"

definition same_registers :: "VirtIODevice \<Rightarrow> VirtIODevice \<Rightarrow> bool" where
  "same_registers d d' \<longleftrightarrow>
     vd_status d' = vd_status d \<and> vd_isr d' = vd_isr d \<and> vd_queue_sel d' = vd_queue_sel d \<and>
     vd_guest_features d' = vd_guest_features d \<and> vd_config_len d' = vd_config_len d \<and> vd_config d' = vd_config d"

text \<open>The operations that a guest, the main loop, the board and a migration perform on a virtio device.  With \<open>any\<close>, queues
  of any size may appear: a migration stream is loaded, whose sizes are not checked, or the device asks for a queue of a
  negative size, which the comparison with the largest size lets pass.\<close>

inductive guest_step :: "bool \<Rightarrow> 'v VirtioBusClass \<Rightarrow> 'v VirtioDeviceClass \<Rightarrow> 'v vio_scheme \<Rightarrow> 'v vio_scheme \<Rightarrow> bool" for any k c where
  set_addr: "virtio_queue_set_addr n a (vi_dev s) = ret d \<Longrightarrow> guest_step any k c s (s\<lparr>vi_dev := d\<rparr>)"
| set_num: "virtio_queue_set_num n num (vi_dev s) = ret d \<Longrightarrow> guest_step any k c s (s\<lparr>vi_dev := d\<rparr>)"
| set_align: "virtio_queue_set_align k n al (vi_dev s) = ret d \<Longrightarrow> guest_step any k c s (s\<lparr>vi_dev := d\<rparr>)"
| set_vector: "virtio_queue_set_vector n v (vi_dev s) = ret d \<Longrightarrow> guest_step any k c s (s\<lparr>vi_dev := d\<rparr>)"
| set_last: "virtio_queue_set_last_avail_idx n idx (vi_dev s) = ret d \<Longrightarrow> guest_step any k c s (s\<lparr>vi_dev := d\<rparr>)"
| invalidate: "virtio_queue_invalidate_signalled_used n (vi_dev s) = ret d \<Longrightarrow> guest_step any k c s (s\<lparr>vi_dev := d\<rparr>)"
| add_queue: "virtio_add_queue sz h (vi_dev s) = ret (i, d) \<Longrightarrow> any \<or> 0 \<le> sz \<Longrightarrow> guest_step any k c s (s\<lparr>vi_dev := d\<rparr>)"
| del_queue: "virtio_del_queue n (vi_dev s) = ret d \<Longrightarrow> guest_step any k c s (s\<lparr>vi_dev := d\<rparr>)"
| set_status: "virtio_set_status c v s = ret s' \<Longrightarrow> guest_step any k c s s'"
| set_features: "virtio_set_features k c ft s = ret (r, s') \<Longrightarrow> guest_step any k c s s'"
| config_write: "config_write c w a v s = ret s' \<Longrightarrow> guest_step any k c s s'"
| config_read: "config_read c w a s = ret (v, s') \<Longrightarrow> guest_step any k c s s'"
| kick: "virtio_queue_notify c n s = ret s' \<Longrightarrow> guest_step any k c s s'"
| interrupt: "virtio_notify k n s = ret s' \<Longrightarrow> guest_step any k c s s'"
| reset: "virtio_reset k c s = ret s' \<Longrightarrow> guest_step any k c s s'"
| vmstate: "virtio_vmstate_change k c running s = ret s' \<Longrightarrow> guest_step any k c s s'"
| guest_event: "virtio_queue_guest_notifier_read env k n s = ret s' \<Longrightarrow> guest_step any k c s s'"
| host_event: "virtio_queue_host_notifier_read env c n s = ret s' \<Longrightarrow> guest_step any k c s s'"
| guest_handler: "virtio_queue_set_guest_notifier_fd_handler env k n assign irqfd s = ret s' \<Longrightarrow> guest_step any k c s s'"
| host_handler: "virtio_queue_set_host_notifier_fd_handler env c n assign handler s = ret s' \<Longrightarrow> guest_step any k c s s'"
| config_event: "guest_step any k c s (virtio_notify_config k s)"
| update_irq: "guest_step any k c s (virtio_update_irq k s)"
| load: "virtio_load k c f s = ret (r, s', rest) \<Longrightarrow> any \<Longrightarrow> guest_step any k c s s'"

text \<open>A property of every queue of the device, and callbacks that keep a property.\<close>

definition all_queues :: "(nat \<Rightarrow> VirtQueue \<Rightarrow> bool) \<Rightarrow> VirtIODevice \<Rightarrow> bool" where
  "all_queues Q d \<longleftrightarrow> length (vd_vq d) = VIRTIO_PCI_QUEUE_MAX \<and> (\<forall>i < length (vd_vq d). Q i (vd_vq d ! i))"

definition every_queue :: "(nat \<Rightarrow> VirtQueue \<Rightarrow> bool) \<Rightarrow> 'v vio_scheme \<Rightarrow> bool" where
  "every_queue Q s \<longleftrightarrow> all_queues Q (vi_dev s)"

definition callbacks_keep :: "('v vio_scheme \<Rightarrow> bool) \<Rightarrow> 'v VirtioBusClass \<Rightarrow> 'v VirtioDeviceClass \<Rightarrow> bool" where
  "callbacks_keep I k c \<longleftrightarrow>
     (\<forall>v s s'. opt_call (dc_set_status c) v s = ret s' \<longrightarrow> I s \<longrightarrow> I s') \<and>
     (\<forall>v s s'. opt_call (dc_set_features c) v s = ret s' \<longrightarrow> I s \<longrightarrow> I s') \<and>
     (\<forall>v s s'. opt_call (bc_vmstate_change k) v s = ret s' \<longrightarrow> I s \<longrightarrow> I s') \<and>
     (\<forall>s s'. (case dc_reset c of Some g \<Rightarrow> g s | None \<Rightarrow> ret s) = ret s' \<longrightarrow> I s \<longrightarrow> I s') \<and>
     (\<forall>s s'. (case dc_set_config c of Some g \<Rightarrow> g s | None \<Rightarrow> ret s) = ret s' \<longrightarrow> I s \<longrightarrow> I s') \<and>
     (\<forall>h n s s'. dc_handle_output c h n s = ret s' \<longrightarrow> I s \<longrightarrow> I s')"

text \<open>A queue is never longer than the largest ring, and knows its index.\<close>

definition sized :: "nat \<Rightarrow> VirtQueue \<Rightarrow> bool" where
  "sized i vq \<longleftrightarrow> unat (vri_num (vq_vring vq)) \<le> VIRTQUEUE_MAX_SIZE"

definition indexed :: "nat \<Rightarrow> VirtQueue \<Rightarrow> bool" where
  "indexed i vq \<longleftrightarrow> vq_queue_index vq = of_nat i"

text \<open>A property of a queue that holds for queues of any size.\<close>

definition size_free :: "(nat \<Rightarrow> VirtQueue \<Rightarrow> bool) \<Rightarrow> bool" where
  "size_free Q \<longleftrightarrow> (\<forall>i vq vq'. Q i vq \<longrightarrow> vq_queue_index vq' = vq_queue_index vq \<longrightarrow> Q i vq')"

section \<open>Lemmas\<close>

lemma get_put_be:
  fixes w :: "'a::len word"
  assumes "LENGTH('a) \<le> 8 * n"
  shows "get_be n (put_be n w @ f) = (w, f)"
  using assms by (simp add: get_be_def put_be_def)

lemma load_queue_saved:
  assumes k: "bus_codec k" and i: "i < length (vd_vq d)" and ok: "queue_ok ph vq" "blank_for k vq (vd_vq d ! i)"
  shows "\<exists>vq'. load_queue k ph i d (save_queue k i vq @ f) = ret (0, put_queue (int i) vq' d, f) \<and> ring_state vq' = ring_state vq"
proof -
  let ?v0 = "vd_vq d ! i"
  define al where al: "al = vri_align (vq_vring vq)"
  define vq1 where v1: "vq1 = ?v0\<lparr>vq_vring := (vq_vring ?v0)\<lparr>vri_num := vri_num (vq_vring vq), vri_align := al\<rparr>, vq_pa := vq_pa vq,
    vq_last_avail_idx := vq_last_avail_idx vq, vq_signalled_used_valid := False, vq_notification := True\<rparr>"
  define vq2 where v2: "vq2 = (if vq_pa vq \<noteq> 0 then virtqueue_init vq1 else vq1)"
  have init: "vq_vring (virtqueue_init vq1) = vq_vring vq" if "vq_pa vq \<noteq> 0"
  proof -
    have "vq_vring (virtqueue_init vq1) = vq_vring (virtqueue_init vq)"
      by (simp add: virtqueue_init_def Let_def v1 al)
    then show ?thesis using ok(1) that by (simp add: queue_ok_def)
  qed
  have rs: "ring_state vq2 = ring_state vq"
    using init ok by (auto simp: v2 ring_state_def v1 queue_ok_def blank_for_def virtqueue_init_def Let_def)
  have ai: "vring_avail_idx ph vq2 = vring_avail_idx ph vq" if "vq_pa vq \<noteq> 0"
    using init [OF that] that by (simp add: v2 vring_avail_idx_def)
  have chk: "\<not> (vq_pa vq \<noteq> 0 \<and> ucast (vring_avail_idx ph vq2 - vq_last_avail_idx vq) > vri_num (vq_vring vq))"
    "\<not> (vq_pa vq = 0 \<and> vq_last_avail_idx vq \<noteq> 0)"
    using ok(1) ai by (auto simp: queue_ok_def word_less_nat_alt)
  have q: "(case bc_load_queue k of Some g \<Rightarrow> (case g i ((case bc_save_queue k of Some g \<Rightarrow> g i | None \<Rightarrow> []) @ f) of (r, f) \<Rightarrow> ret (r, d', f))
      | None \<Rightarrow> ret (0, d', (case bc_save_queue k of Some g \<Rightarrow> g i | None \<Rightarrow> []) @ f)) = ret (0, d', f)" for d' :: VirtIODevice
    using k by (auto simp: bus_codec_def split: option.splits)
  have g: "virtio_get_queue d (int i) = ret ?v0" using i by (simp add: virtio_get_queue_def)
  let ?r = "(case bc_save_queue k of Some g \<Rightarrow> g i | None \<Rightarrow> []) @ f" and ?d = "put_queue (int i) vq2 d"
  have step: "load_queue k ph i d (save_queue k i vq @ f) =
    (if vq_pa vq \<noteq> 0 \<and> ucast (vring_avail_idx ph vq2 - vq_last_avail_idx vq) > vri_num (vq_vring vq) then ret (-1, ?d, ?r)
     else if vq_pa vq = 0 \<and> vq_last_avail_idx vq \<noteq> 0 then ret (-1, ?d, ?r)
     else case bc_load_queue k of Some g \<Rightarrow> (case g i ?r of (r, f) \<Rightarrow> ret (r, ?d, f)) | None \<Rightarrow> ret (0, ?d, ?r))"
  proof (cases "bc_has_variable_vring_alignment k")
    case True
    then show ?thesis
      unfolding v2 v1 al by (simp add: load_queue_def save_queue_def g get_put_be Let_def split del: if_split)
  next
    case False
    then have a: "vri_align (vq_vring vq) = vri_align (vq_vring ?v0)" using ok(2) by (simp add: blank_for_def)
    show ?thesis
      using False unfolding v2 v1 al a by (simp add: load_queue_def save_queue_def g get_put_be Let_def split del: if_split)
  qed
  have "load_queue k ph i d (save_queue k i vq @ f) = ret (0, ?d, f)"
    unfolding step if_not_P [OF chk(1)] if_not_P [OF chk(2)] by (rule q)
  then show ?thesis using rs by blast
qed

lemma load_queues_saved:
  assumes k: "bus_codec k" and "i + length (takeWhile (\<lambda>vq. vri_num (vq_vring vq) \<noteq> 0) vqs) \<le> length (vd_vq d)"
    and "\<And>j. j < length (takeWhile (\<lambda>vq. vri_num (vq_vring vq) \<noteq> 0) vqs) \<Longrightarrow>
           queue_ok ph (vqs ! j) \<and> blank_for k (vqs ! j) (vd_vq d ! (i + j))"
  shows "\<exists>qs. load_queues k ph (length (takeWhile (\<lambda>vq. vri_num (vq_vring vq) \<noteq> 0) vqs)) i d (save_queues k i vqs @ f) =
           ret (0, d\<lparr>vd_vq := qs\<rparr>, f) \<and> length qs = length (vd_vq d) \<and> take i qs = take i (vd_vq d) \<and>
           (\<forall>j < length (takeWhile (\<lambda>vq. vri_num (vq_vring vq) \<noteq> 0) vqs). ring_state (qs ! (i + j)) = ring_state (vqs ! j))"
  using assms(2,3)
proof (induction vqs arbitrary: i d)
  case Nil
  show ?case by (intro exI [of _ "vd_vq d"]) simp
next
  case (Cons vq vqs)
  show ?case
  proof (cases "vri_num (vq_vring vq) = 0")
    case True
    then show ?thesis by (intro exI [of _ "vd_vq d"]) simp
  next
    case False
    let ?n = "length (takeWhile (\<lambda>vq. vri_num (vq_vring vq) \<noteq> 0) vqs)"
    have i: "i < length (vd_vq d)" using Cons.prems(1) False by simp
    have ok: "queue_ok ph vq" "blank_for k vq (vd_vq d ! i)" using Cons.prems(2) [of 0] False by simp_all
    obtain vq' where ld: "load_queue k ph i d (save_queue k i vq @ save_queues k (Suc i) vqs @ f) =
        ret (0, put_queue (int i) vq' d, save_queues k (Suc i) vqs @ f)" and rs: "ring_state vq' = ring_state vq"
      using load_queue_saved [OF k i ok, of "save_queues k (Suc i) vqs @ f"] by blast
    let ?d = "put_queue (int i) vq' d"
    have vq: "vd_vq ?d = (vd_vq d)[i := vq']" by (simp add: put_queue_def)
    have "Suc i + ?n \<le> length (vd_vq ?d)" using Cons.prems(1) False by (simp add: vq)
    moreover have "queue_ok ph (vqs ! j) \<and> blank_for k (vqs ! j) (vd_vq ?d ! (Suc i + j))" if "j < ?n" for j
      using Cons.prems(2) [of "Suc j"] that False by (simp add: vq)
    ultimately obtain qs where
      qs: "load_queues k ph ?n (Suc i) ?d (save_queues k (Suc i) vqs @ f) = ret (0, ?d\<lparr>vd_vq := qs\<rparr>, f)"
        "length qs = length (vd_vq ?d)" "take (Suc i) qs = take (Suc i) (vd_vq ?d)"
        "\<forall>j < ?n. ring_state (qs ! (Suc i + j)) = ring_state (vqs ! j)"
      using Cons.IH [of "Suc i" ?d] by blast
    have nth: "qs ! i = vq'"
      using arg_cong [OF qs(3), of "\<lambda>l. l ! i"] i qs(2) by (simp add: vq)
    have pre: "take i qs = take i (vd_vq d)"
      using arg_cong [OF qs(3), of "take i"] by (simp add: vq min_def)
    have "ring_state (qs ! (i + j)) = ring_state ((vq # vqs) ! j)" if "j < Suc ?n" for j
      using that qs(4) nth rs by (cases j) auto
    then show ?thesis
      using ld qs(1,2) pre False by (intro exI [of _ qs]) (simp add: vq, simp add: put_queue_def)
  qed
qed

lemma queue_count_le: "queue_count d \<le> length (vd_vq d)"
  by (simp add: queue_count_def length_takeWhile_le)

lemma features_kept:
  assumes "w AND NOT m = (0 :: u32)"
  shows "w AND m = w"
proof (rule bit_word_eqI)
  fix n assume "n < LENGTH(32)"
  then show "bit (w AND m) n = bit w n"
    using arg_cong [OF assms, of "\<lambda>x. bit x n"] by (auto simp: bit_simps)
qed

lemma of_le_zeros [simp]: "of_le (replicate n 0) = 0"
  by (induction n) simp_all

text \<open>The callback for the features runs in the middle of loading: \<open>s1\<close> is the state it leaves behind.\<close>

lemma load_saved:
  assumes "bus_codec k" and "vd_guest_features d AND NOT (bc_get_features k) = 0"
    and cb: "opt_call (dc_set_features c) (vd_guest_features d)
        (s\<lparr>vi_dev := (vi_dev s)\<lparr>vd_status := vd_status d, vd_isr := vd_isr d, vd_queue_sel := vd_queue_sel d\<rparr>\<rparr>) = ret s1"
    and "length (vd_vq d) = 64" "length (vd_vq (vi_dev s1)) = 64"
    and "unat (vd_config_len d) < 2 ^ 31" "length (vd_config d) = unat (vd_config_len d)"
      "length (vd_config (vi_dev s1)) = unat (vd_config_len d)"
    and "\<And>j. j < queue_count d \<Longrightarrow> queue_ok (vi_phys s1) (vd_vq d ! j) \<and> blank_for k (vd_vq d ! j) (vd_vq (vi_dev s1) ! j)"
  shows "\<exists>qs. virtio_load k c (virtio_save k d @ rest) s = ret (0, virtio_notify_vector k VIRTIO_NO_VECTOR
      (s1\<lparr>vi_dev := (vi_dev s1)\<lparr>vd_guest_features := vd_guest_features d, vd_config_len := vd_config_len d,
        vd_config := vd_config d, vd_vq := qs\<rparr>\<rparr>), rest) \<and> length qs = 64 \<and> (\<forall>j < queue_count d. ring_state (qs ! j) = ring_state (vd_vq d ! j))"
proof -
  let ?len = "ucast (vd_config_len d) :: u32" and ?n = "queue_count d"
  let ?cfg = "take (unat (vd_config_len d)) (vd_config d)"
  let ?qs = "save_queues k 0 (vd_vq d)"
  define tail where tail: "tail = put_be 1 (vd_status d) @ put_be 1 (vd_isr d) @ put_be 2 (vd_queue_sel d) @
    put_be 4 (vd_guest_features d) @ put_be 4 ?len @ ?cfg @ put_be 4 (of_nat ?n :: u32) @ ?qs @ rest"
  have cfg: "(case bc_load_config k of Some g \<Rightarrow> g (virtio_save k d @ rest) | None \<Rightarrow> (0, virtio_save k d @ rest)) = (0, tail)"
    using assms(1) by (auto simp: bus_codec_def virtio_save_def tail split: option.splits)
  define d1 where d1: "d1 = (vi_dev s)\<lparr>vd_status := vd_status d, vd_isr := vd_isr d, vd_queue_sel := vd_queue_sel d\<rparr>"
  have hd: "load_header tail (vi_dev s) = (vd_guest_features d, d1, put_be 4 ?len @ ?cfg @ put_be 4 (of_nat ?n :: u32) @ ?qs @ rest)"
    by (simp add: load_header_def tail get_put_be d1)
  have ft: "virtio_set_features k c (vd_guest_features d) (s\<lparr>vi_dev := d1\<rparr>) =
      ret (0, s1\<lparr>vi_dev := (vi_dev s1)\<lparr>vd_guest_features := vd_guest_features d\<rparr>\<rparr>)"
    using assms(2) cb by (simp add: virtio_set_features_def features_kept d1)
  have u: "unat ?len = unat (vd_config_len d)"
    using assms(6) by (simp add: unsigned_ucast_eq take_bit_nat_eq_self)
  have len: "int_of_u32 ?len = int (unat (vd_config_len d))"
    using assms(6) u by (subst int_of_u32_small) simp_all
  have cl: "ucast ?len = vd_config_len d"
    using u unsigned_take_bit_eq [of 32 "vd_config_len d", where 'a = nat] by (simp add: word_unat_eq_iff unsigned_ucast_eq)
  have n: "nat (int_of_u32 (of_nat ?n)) = ?n"
    using queue_count_le [of d] assms(4) by (subst int_of_u32_small) (simp_all add: unat_of_nat)
  have buf: "qemu_get_buffer (vd_config (vi_dev s1)) (int_of_u32 ?len) (?cfg @ r) = ret (vd_config d, r)" for r
    using assms(7,8) by (simp add: qemu_get_buffer_def len poke_def)
  define d2 where d2: "d2 = (vi_dev s1)\<lparr>vd_guest_features := vd_guest_features d, vd_config_len := vd_config_len d, vd_config := vd_config d\<rparr>"
  obtain qs where qs: "load_queues k (vi_phys s1) ?n 0 d2 (?qs @ rest) = ret (0, d2\<lparr>vd_vq := qs\<rparr>, rest)" "length qs = 64"
      "\<forall>j < ?n. ring_state (qs ! j) = ring_state (vd_vq d ! j)"
    using load_queues_saved [OF assms(1), of 0 "vd_vq d" d2 "vi_phys s1" rest] assms(4,5,9) queue_count_le [of d]
    by (auto simp: queue_count_def d2)
  have "virtio_load k c (virtio_save k d @ rest) s =
      ret (0, virtio_notify_vector k VIRTIO_NO_VECTOR (s1\<lparr>vi_dev := d2\<lparr>vd_vq := qs\<rparr>\<rparr>), rest)"
    unfolding virtio_load_def cfg
    using qs(1) by (simp add: hd ft get_put_be buf cl n d2)
  then show ?thesis using qs(2,3) by (auto simp: d2)
qed

text \<open>
  C19. Migration of a virtio device: what \<^verbatim>\<open>virtio_save\<close> writes, \<^verbatim>\<open>virtio_load\<close> on the destination restores, and
  it leaves the rest of the stream.  The status, interrupt and feature registers, the selected queue, the
  configuration space, and of every queue in use the size, the addresses of the three rings and the position in the
  available ring are those of the source.  The destination has to offer the features, its queues have to be fresh,
  and the transport has to read back its own part of the stream.
\<close>

theorem migration_restores:
  assumes "bus_codec k" "features_local c" and "vd_guest_features d AND NOT (bc_get_features k) = 0"
    and "length (vd_vq d) = 64" "length (vd_vq (vi_dev s)) = 64"
    and "unat (vd_config_len d) < 2 ^ 31" "length (vd_config d) = unat (vd_config_len d)"
      "length (vd_config (vi_dev s)) = unat (vd_config_len d)"
    and "\<And>j. j < queue_count d \<Longrightarrow> queue_ok (vi_phys s) (vd_vq d ! j) \<and> blank_for k (vd_vq d ! j) (vd_vq (vi_dev s) ! j)"
  shows "\<exists>s'. virtio_load k c (virtio_save k d @ rest) s = ret (0, s', rest) \<and> same_registers d (vi_dev s') \<and>
           (\<forall>j < queue_count d. ring_state (vd_vq (vi_dev s') ! j) = ring_state (vd_vq d ! j)) \<and> vi_phys s' = vi_phys s"
proof -
  define s0 where "s0 = s\<lparr>vi_dev := (vi_dev s)\<lparr>vd_status := vd_status d, vd_isr := vd_isr d, vd_queue_sel := vd_queue_sel d\<rparr>\<rparr>"
  obtain io where io: "opt_call (dc_set_features c) (vd_guest_features d) s0 = ret (s0\<lparr>vi_io := io\<rparr>)"
    using assms(2) unfolding features_local_def by metis
  obtain qs where "virtio_load k c (virtio_save k d @ rest) s = ret (0, virtio_notify_vector k VIRTIO_NO_VECTOR
      ((s0\<lparr>vi_io := io\<rparr>)\<lparr>vi_dev := (vi_dev (s0\<lparr>vi_io := io\<rparr>))\<lparr>vd_guest_features := vd_guest_features d, vd_config_len := vd_config_len d,
        vd_config := vd_config d, vd_vq := qs\<rparr>\<rparr>), rest)" "\<forall>j < queue_count d. ring_state (qs ! j) = ring_state (vd_vq d ! j)"
    using load_saved [OF assms(1,3) io [unfolded s0_def], where rest = rest] assms(4-9) unfolding s0_def by auto
  then show ?thesis by (simp add: same_registers_def virtio_notify_vector_def s0_def)
qed

lemma zero_queues:
  assumes "bc_load_queue k = None" "\<not> bc_has_variable_vring_alignment k" "i + m = length (vd_vq d)" "m < n"
  shows "load_queues k ph n i d [] = fail (BadIndex (int (length (vd_vq d))))"
  using assms(3,4)
proof (induction m arbitrary: i d n)
  case 0
  then obtain n' where "n = Suc n'" by (cases n) auto
  then show ?case using 0 by (simp add: load_queue_def virtio_get_queue_def)
next
  case (Suc m)
  then obtain n' where n: "n = Suc n'" "m < n'" by (cases n) auto
  have z: "get_be w [] = (0 :: 'b::len word, [])" for w
    by (simp add: get_be_def)
  have "\<exists>vq. load_queue k ph i d [] = ret (0, put_queue (int i) vq d, [])"
    using Suc.prems(1) assms(1,2) by (simp add: load_queue_def virtio_get_queue_def z) blast
  then obtain vq where "load_queue k ph i d [] = ret (0, put_queue (int i) vq d, [])" by blast
  then show ?case
    using Suc.IH [of "Suc i" "put_queue (int i) vq d" n'] Suc.prems(1) n by (simp add: put_queue_def)
qed

text \<open>
  \<^verbatim>\<open>virtio_load\<close> does not check the number of queues it reads from the stream: with more than 64 of them it
  writes past the end of the array of queues.
\<close>

theorem load_overruns:
  assumes "bc_load_config k = None" "bc_load_queue k = None" "\<not> bc_has_variable_vring_alignment k"
    and "dc_set_features c = None" "feat AND NOT (bc_get_features k) = 0"
    and "length (vd_vq (vi_dev s)) = 64" and "64 < n" "n < 2 ^ 31"
  shows "virtio_load k c (put_be 1 (st :: u8) @ put_be 1 (isr :: u8) @ put_be 2 (sel :: u16) @ put_be 4 feat @ put_be 4 (0 :: u32) @
           put_be 4 (of_nat n :: u32)) s = fail (BadIndex 64)"
proof -
  have n: "nat (int_of_u32 (of_nat n)) = n"
    using assms(8) by (subst int_of_u32_small) (simp_all add: unat_of_nat)
  have g: "get_be 4 (put_be 4 (of_nat n :: u32)) = (of_nat n :: u32, [])"
    using get_put_be [of 4 "of_nat n :: u32" "[]"] by simp
  have q: "load_queues k ph n 0 d [] = fail (BadIndex 64)" if "vd_vq d = vd_vq (vi_dev s)" for ph d
    using zero_queues [OF assms(2,3), of 0 64 d n ph] that assms(6,7) by simp
  have z: "int_of_u32 0 = 0" by (simp add: int_of_u32_def)
  show ?thesis
    by (simp add: virtio_load_def assms load_header_def get_put_be virtio_set_features_def opt_call_def qemu_get_buffer_def z g n q)
qed

lemma all_queues_config [simp]:
  "all_queues Q (d\<lparr>vd_config_len := l\<rparr>) = all_queues Q d" "all_queues Q (d\<lparr>vd_config := cf\<rparr>) = all_queues Q d"
  by (simp_all add: all_queues_def)

lemma every_queue_frame [simp]:
  "every_queue Q (s\<lparr>vi_dev := (vi_dev s)\<lparr>vd_status := st\<rparr>\<rparr>) = every_queue Q s"
  "every_queue Q (s\<lparr>vi_dev := (vi_dev s)\<lparr>vd_guest_features := ft\<rparr>\<rparr>) = every_queue Q s"
  "every_queue Q (s\<lparr>vi_dev := (vi_dev s)\<lparr>vd_config := cf\<rparr>\<rparr>) = every_queue Q s"
  "every_queue Q (s\<lparr>vi_dev := (vi_dev s)\<lparr>vd_vm_running := b\<rparr>\<rparr>) = every_queue Q s"
  "every_queue Q (s\<lparr>vi_dev := (vi_dev s)\<lparr>vd_isr := w\<rparr>\<rparr>) = every_queue Q s"
  "every_queue Q (virtio_notify_vector k v s) = every_queue Q s"
  "every_queue Q (virtio_irq k vq s) = every_queue Q s" "every_queue Q (virtio_notify_config k s) = every_queue Q s"
  "every_queue Q (virtio_update_irq k s) = every_queue Q s" "every_queue Q (s\<lparr>vi_io := io\<rparr>) = every_queue Q s"
  by (simp_all add: every_queue_def all_queues_def virtio_notify_vector_def virtio_irq_def virtio_notify_config_def virtio_update_irq_def)

lemma callbacks_keepD:
  assumes "callbacks_keep I k c" "I s"
  shows "opt_call (dc_set_status c) v s = ret s' \<Longrightarrow> I s'" "opt_call (dc_set_features c) w s = ret s' \<Longrightarrow> I s'"
    "opt_call (bc_vmstate_change k) b s = ret s' \<Longrightarrow> I s'"
    "(case dc_reset c of Some g \<Rightarrow> g s | None \<Rightarrow> ret s) = ret s' \<Longrightarrow> I s'"
    "(case dc_set_config c of Some g \<Rightarrow> g s | None \<Rightarrow> ret s) = ret s' \<Longrightarrow> I s'"
    "dc_handle_output c h n s = ret s' \<Longrightarrow> I s'"
  using assms unfolding callbacks_keep_def by blast+

lemma sized_num: "0 \<le> num \<Longrightarrow> num \<le> int VIRTQUEUE_MAX_SIZE \<Longrightarrow> nat (take_bit 32 num) \<le> VIRTQUEUE_MAX_SIZE"
  by (simp add: VIRTQUEUE_MAX_SIZE_def take_bit_int_eq_self)

locale queue_property =
  fixes Q :: "nat \<Rightarrow> VirtQueue \<Rightarrow> bool"
  assumes Q_same: "Q i vq \<Longrightarrow> vq_queue_index vq' = vq_queue_index vq \<Longrightarrow> vri_num (vq_vring vq') = vri_num (vq_vring vq) \<Longrightarrow> Q i vq'"
    and Q_resize: "Q i vq \<Longrightarrow> vq_queue_index vq' = vq_queue_index vq \<Longrightarrow> unat (vri_num (vq_vring vq')) \<le> VIRTQUEUE_MAX_SIZE \<Longrightarrow> Q i vq'"
begin

lemma all_put:
  "all_queues Q d \<Longrightarrow> virtio_get_queue d n = ret vq \<Longrightarrow> (Q (nat n) vq \<Longrightarrow> Q (nat n) vq') \<Longrightarrow> all_queues Q (put_queue n vq' d)"
  by (auto simp: all_queues_def put_queue_def virtio_get_queue_def nth_list_update split: if_splits)

lemma keep_put:
  "every_queue Q s \<Longrightarrow> virtio_get_queue (vi_dev s) n = ret vq \<Longrightarrow> (Q (nat n) vq \<Longrightarrow> Q (nat n) vq') \<Longrightarrow>
   every_queue Q (s\<lparr>vi_dev := put_queue n vq' (vi_dev s)\<rparr>)"
  by (simp add: every_queue_def all_put)

lemma all_upd:
  assumes "all_queues Q d" "upd_queue n f d = ret d'" "\<And>vq. Q (nat n) vq \<Longrightarrow> Q (nat n) (f vq)"
  shows "all_queues Q d'"
  using assms(2) all_put [OF assms(1)] assms(3) by (auto simp: upd_queue_def)

text \<open>The operations on one queue.\<close>

lemma queue_ops:
  assumes "all_queues Q d"
  shows "virtio_queue_set_addr n a d = ret d' \<Longrightarrow> all_queues Q d'" "virtio_queue_set_align k n al d = ret d' \<Longrightarrow> all_queues Q d'"
    "virtio_queue_set_vector n v d = ret d' \<Longrightarrow> all_queues Q d'" "virtio_queue_set_last_avail_idx n idx d = ret d' \<Longrightarrow> all_queues Q d'"
    "virtio_queue_invalidate_signalled_used n d = ret d' \<Longrightarrow> all_queues Q d'" "virtio_del_queue n d = ret d' \<Longrightarrow> all_queues Q d'"
    "virtio_queue_set_num n num d = ret d' \<Longrightarrow> all_queues Q d'"
    "virtio_add_queue sz h d = ret (i, d') \<Longrightarrow> 0 \<le> sz \<or> size_free Q \<Longrightarrow> all_queues Q d'"
proof -
  have same: "vq_queue_index (virtqueue_init vq) = vq_queue_index vq" "vri_num (vq_vring (virtqueue_init vq)) = vri_num (vq_vring vq)" for vq
    by (simp_all add: virtqueue_init_def Let_def)
  show "virtio_queue_set_addr n a d = ret d' \<Longrightarrow> all_queues Q d'"
    unfolding virtio_queue_set_addr_def by (erule all_upd [OF assms]) (rule Q_same; simp add: same)
  show "virtio_queue_set_align k n al d = ret d' \<Longrightarrow> all_queues Q d'"
    unfolding virtio_queue_set_align_def by (auto elim!: all_upd [OF assms]) (rule Q_same; simp add: same)
  show "virtio_queue_set_vector n v d = ret d' \<Longrightarrow> all_queues Q d'"
    unfolding virtio_queue_set_vector_def using assms by (auto elim!: all_upd [OF assms] split: if_splits) (rule Q_same; simp)
  show "virtio_queue_set_last_avail_idx n idx d = ret d' \<Longrightarrow> all_queues Q d'"
    unfolding virtio_queue_set_last_avail_idx_def by (erule all_upd [OF assms]) (rule Q_same; simp)
  show "virtio_queue_invalidate_signalled_used n d = ret d' \<Longrightarrow> all_queues Q d'"
    unfolding virtio_queue_invalidate_signalled_used_def by (erule all_upd [OF assms]) (rule Q_same; simp)
  show "virtio_del_queue n d = ret d' \<Longrightarrow> all_queues Q d'"
    unfolding virtio_del_queue_def by (auto elim!: all_upd [OF assms] split: if_splits) (rule Q_resize; simp)
  show "all_queues Q d'" if sn: "virtio_queue_set_num n num d = ret d'"
  proof -
    obtain vq where vq: "virtio_get_queue d n = ret vq" using sn by (auto simp: virtio_queue_set_num_def)
    have "Q (nat n) (virtqueue_init (vq\<lparr>vq_vring := (vq_vring vq)\<lparr>vri_num := word_of_int num\<rparr>\<rparr>))"
      if "Q (nat n) vq" "0 \<le> num" "num \<le> int VIRTQUEUE_MAX_SIZE"
      by (rule Q_resize [OF that(1)]) (use that sized_num in \<open>simp_all add: same unsigned_of_int\<close>)
    then show ?thesis
      using sn vq assms all_put [OF assms vq] by (auto simp: virtio_queue_set_num_def simp del: of_int_0 of_int_1 split: if_split_asm)
  qed
  show "all_queues Q d'" if a: "virtio_add_queue sz h d = ret (i, d')" and z: "0 \<le> sz \<or> size_free Q"
  proof -
    have sz: "sz \<le> int VIRTQUEUE_MAX_SIZE" and u: "upd_queue (int (queue_count d))
        (\<lambda>vq. vq\<lparr>vq_vring := (vq_vring vq)\<lparr>vri_num := word_of_int sz, vri_align := VIRTIO_PCI_VRING_ALIGN\<rparr>,
                  vq_handle_output := Some h\<rparr>) d = ret d'"
      using a by (auto simp: virtio_add_queue_def Let_def split: if_splits)
    show ?thesis
    proof (rule all_upd [OF assms u])
      fix vq assume q: "Q (nat (int (queue_count d))) vq"
      show "Q (nat (int (queue_count d))) (vq\<lparr>vq_vring := (vq_vring vq)\<lparr>vri_num := word_of_int sz, vri_align := VIRTIO_PCI_VRING_ALIGN\<rparr>,
                  vq_handle_output := Some h\<rparr>)"
        using z
      proof
        assume "0 \<le> sz"
        then show ?thesis by (intro Q_resize [OF q]) (use sz sized_num in \<open>simp_all add: unsigned_of_int\<close>)
      next
        assume "size_free Q"
        then show ?thesis using q by (auto simp: size_free_def)
      qed
    qed
  qed
qed

lemma keep_status:
  assumes "callbacks_keep (every_queue Q) k c" "virtio_set_status c v s = ret s'" "every_queue Q s"
  shows "every_queue Q s'"
  using assms(2) callbacks_keepD(1) [OF assms(1,3)] by (auto simp: virtio_set_status_def)

lemma keep_reset:
  assumes "callbacks_keep (every_queue Q) k c" "virtio_reset k c s = ret s'" "every_queue Q s"
  shows "every_queue Q s'"
proof -
  obtain s1 where s1: "virtio_set_status c 0 s = ret s1"
    using assms(2) by (auto simp: virtio_reset_def elim!: bindE_retE)
  have I1: "every_queue Q s1" by (rule keep_status [OF assms(1) s1 assms(3)])
  obtain s2 where s2: "(case dc_reset c of Some g \<Rightarrow> g s1 | None \<Rightarrow> ret s1) = ret s2"
    using assms(2) s1 by (auto simp: virtio_reset_def elim!: bindE_retE)
  then have "every_queue Q s2" by (rule callbacks_keepD(4) [OF assms(1) I1])
  moreover have "Q i vq \<Longrightarrow> Q i (reset_queue vq)" for i vq by (rule Q_same) (simp_all add: reset_queue_def)
  ultimately show ?thesis
    using assms(2) s1 s2
    by (auto simp: virtio_reset_def every_queue_def all_queues_def virtio_notify_vector_def Let_def nth_append split: if_splits)
qed

lemma keep_notify:
  assumes "virtio_notify k n s = ret s'" "every_queue Q s"
  shows "every_queue Q s'"
proof -
  obtain vq where vq: "virtio_get_queue (vi_dev s) n = ret vq"
    using assms(1) by (auto simp: virtio_notify_def elim!: bindE_retE)
  obtain nf vq' where v: "vring_notify (vd_guest_features (vi_dev s)) (vi_phys s) vq = (nf, vq')" by fastforce
  have "vq_queue_index vq' = vq_queue_index vq" "vri_num (vq_vring vq') = vri_num (vq_vring vq)"
    using v by (auto simp: vring_notify_def Let_def split: if_splits)
  then have "every_queue Q (s\<lparr>vi_dev := put_queue n vq' (vi_dev s)\<rparr>)"
    using keep_put [OF assms(2) vq] Q_same by blast
  then show ?thesis
    using assms(1) vq v by (auto simp: virtio_notify_def Let_def split: if_splits)
qed

lemma keep_vmstate:
  assumes "callbacks_keep (every_queue Q) k c" "virtio_vmstate_change k c running s = ret s'" "every_queue Q s"
  shows "every_queue Q s'"
proof -
  let ?b = "running \<and> bit (vd_status (vi_dev s)) VIRTIO_CONFIG_S_DRIVER_OK"
  let ?s0 = "s\<lparr>vi_dev := (vi_dev s)\<lparr>vd_vm_running := running\<rparr>\<rparr>"
  obtain s1 s2 where s: "(if ?b then virtio_set_status c (vd_status (vi_dev ?s0)) ?s0 else ret ?s0) = ret s1"
      "opt_call (bc_vmstate_change k) ?b s1 = ret s2"
      "(if \<not> ?b then virtio_set_status c (vd_status (vi_dev s2)) s2 else ret s2) = ret s'"
    using assms(2) by (auto simp: virtio_vmstate_change_def Let_def simp del: if_split)
  have s0: "every_queue Q ?s0" using assms(3) by simp
  have "every_queue Q s1"
    using s(1) keep_status [OF assms(1) _ s0] s0 by (auto split: if_splits)
  then have s2: "every_queue Q s2" using callbacks_keepD(3) [OF assms(1) _ s(2)] by blast
  show ?thesis using s(3) keep_status [OF assms(1) _ s2] s2 by (auto split: if_splits)
qed

lemma keep_features:
  assumes "callbacks_keep (every_queue Q) k c" "virtio_set_features k c ft s = ret (r, s')" "every_queue Q s"
  shows "every_queue Q s'"
  using assms(2) callbacks_keepD(2) [OF assms(1,3)] by (auto simp: virtio_set_features_def Let_def)

text \<open>Loading a stream changes the size of a queue without a check.\<close>

lemma load_queue_keeps:
  assumes "size_free Q" "all_queues Q d" "load_queue k ph i d f = ret (r, d', f')"
  shows "all_queues Q d'"
proof -
  obtain vq where vq: "virtio_get_queue d (int i) = ret vq" using assms(3) by (auto simp: load_queue_def)
  obtain vq' where "d' = put_queue (int i) vq' d" "vq_queue_index vq' = vq_queue_index vq"
    using assms(3) vq by (auto simp: load_queue_def Let_def virtqueue_init_def split: prod.splits if_splits option.splits)
  then show ?thesis using all_put [OF assms(2) vq] assms(1) by (auto simp: size_free_def)
qed

lemma load_queues_keeps:
  "size_free Q \<Longrightarrow> load_queues k ph n i d f = ret (r, d', f') \<Longrightarrow> all_queues Q d \<Longrightarrow> all_queues Q d'"
  by (induction k ph n i d f rule: load_queues.induct) (auto split: if_splits dest: load_queue_keeps)

lemma load_keeps:
  assumes "size_free Q" "callbacks_keep (every_queue Q) k c" "virtio_load k c f s = ret (r, s', f')" "every_queue Q s"
  shows "every_queue Q s'"
proof -
  obtain r0 f0 where cfg: "(case bc_load_config k of Some g \<Rightarrow> g f | None \<Rightarrow> (0, f)) = (r0, f0)" by fastforce
  obtain ft d f1 where h: "load_header f0 (vi_dev s) = (ft, d, f1)" by (metis prod_cases3)
  have d: "every_queue Q (s\<lparr>vi_dev := d\<rparr>)"
    using h assms(4) by (auto simp: load_header_def every_queue_def all_queues_def split: prod.splits)
  show ?thesis
  proof (cases "r0 = 0")
    case True
    obtain r1 s1 where s1: "virtio_set_features k c ft (s\<lparr>vi_dev := d\<rparr>) = ret (r1, s1)"
      using assms(3) True cfg h by (auto simp: virtio_load_def)
    have q1: "every_queue Q s1" by (rule keep_features [OF assms(2) s1 d])
    then show ?thesis
      using assms(3) True cfg h s1
      by (auto simp: virtio_load_def Let_def every_queue_def virtio_notify_vector_def split: prod.splits if_splits
               dest!: load_queues_keeps [OF assms(1)])
  qed (use assms(3,4) cfg in \<open>auto simp: virtio_load_def\<close>)
qed

lemma keep_kick:
  assumes "callbacks_keep (every_queue Q) k c"
  shows "virtio_queue_notify_vq c n s = ret s' \<Longrightarrow> every_queue Q s \<longrightarrow> every_queue Q s'"
  using callbacks_keepD(6) [OF assms] by (auto simp: virtio_queue_notify_vq_def split: if_splits option.splits)

lemma keep_guest_event: "virtio_queue_guest_notifier_read env k n s = ret s' \<Longrightarrow> every_queue Q s \<longrightarrow> every_queue Q s'"
  by (auto simp: virtio_queue_guest_notifier_read_def split: if_splits)

lemma keep_host_event:
  assumes "callbacks_keep (every_queue Q) k c"
  shows "virtio_queue_host_notifier_read env c n s = ret s' \<Longrightarrow> every_queue Q s \<longrightarrow> every_queue Q s'"
  by (auto simp: virtio_queue_host_notifier_read_def split: if_splits dest!: keep_kick [OF assms])

lemma keep_step:
  assumes "callbacks_keep (every_queue Q) k c" "any \<longrightarrow> size_free Q" "guest_step any k c s s'" "every_queue Q s"
  shows "every_queue Q s'"
proof -
  have q: "all_queues Q (vi_dev s)" using assms(4) by (simp add: every_queue_def)
  show ?thesis
    using assms(3)
  proof cases
    case (config_write w a v)
    let ?s = "s\<lparr>vi_dev := (vi_dev s)\<lparr>vd_config := poke (unat a) (le_bytes w v) (vd_config (vi_dev s))\<rparr>\<rparr>"
    have "every_queue Q ?s" using assms(4) by simp
    then show ?thesis
      using assms(4) config_write callbacks_keepD(5) [OF assms(1), of ?s s'] by (simp add: config_write_def Let_def split: if_splits)
  next
    case (config_read w a v)
    then show ?thesis using assms(4) by (auto simp: config_read_def Let_def split: if_splits)
  next
    case (kick n)
    then show ?thesis using keep_kick [OF assms(1)] assms(4) by (simp add: virtio_queue_notify_def)
  next
    case (guest_event env n)
    then show ?thesis using keep_guest_event assms(4) by blast
  next
    case (host_event env n)
    then show ?thesis using keep_host_event [OF assms(1)] assms(4) by blast
  next
    case (guest_handler env n assign irqfd)
    then show ?thesis
      using assms(4) by (auto simp: virtio_queue_set_guest_notifier_fd_handler_def Let_def split: if_splits prod.splits dest!: keep_guest_event)
  next
    case (host_handler env n assign handler)
    then show ?thesis
      using assms(4) by (auto simp: virtio_queue_set_host_notifier_fd_handler_def Let_def split: if_splits prod.splits dest!: keep_host_event [OF assms(1)])
  next
    case (set_addr n a d)
    then show ?thesis using queue_ops(1) [OF q] by (auto simp: every_queue_def)
  next
    case (set_align n al d)
    then show ?thesis using queue_ops(2) [OF q] by (auto simp: every_queue_def)
  next
    case (set_vector n v d)
    then show ?thesis using queue_ops(3) [OF q] by (auto simp: every_queue_def)
  next
    case (set_last n idx d)
    then show ?thesis using queue_ops(4) [OF q] by (auto simp: every_queue_def)
  next
    case (invalidate n d)
    then show ?thesis using queue_ops(5) [OF q] by (auto simp: every_queue_def)
  next
    case (del_queue n d)
    then show ?thesis using queue_ops(6) [OF q] by (auto simp: every_queue_def)
  next
    case (set_num n num d)
    then show ?thesis using queue_ops(7) [OF q] by (auto simp: every_queue_def)
  next
    case (add_queue sz h i d)
    then show ?thesis using queue_ops(8) [OF q] assms(2) by (auto simp: every_queue_def)
  next
    case (load f r rest)
    then show ?thesis using assms(1,2,4) load_keeps by blast
  next
    case config_event
    then show ?thesis using assms(4) by simp
  next
    case update_irq
    then show ?thesis using assms(4) by simp
  qed (blast intro: keep_status [OF assms(1) _ assms(4)] keep_features [OF assms(1) _ assms(4)] keep_notify [OF _ assms(4)]
      keep_reset [OF assms(1) _ assms(4)] keep_vmstate [OF assms(1) _ assms(4)])+
qed

end

interpretation sizes: queue_property sized
  by unfold_locales (simp_all add: sized_def)

interpretation indices: queue_property indexed
  by unfold_locales (simp_all add: indexed_def)

lemma indexed_size_free: "size_free indexed"
  by (simp add: size_free_def indexed_def)

section \<open>Examples\<close>

lemma queue_indices: "[0 ..< 64] = 0 # 1 # [2 ..< 64]"
  by code_simp

lemma sample_queues: "vd_vq sample_vdev = fresh_queue 0 # fresh_queue 1 # map fresh_queue [2 ..< 64]"
  by (simp add: sample_vdev_def virtio_init_def VIRTIO_PCI_QUEUE_MAX_def queue_indices del: upt_rec_numeral)

lemma sample_source_simps:
  "queue_count sample_source = 1" "length (vd_vq sample_source) = 64" "length (vd_vq (vi_dev sample_target)) = 64"
  "vd_config_len sample_source = 8" "vd_config sample_source = replicate 8 0" "vd_config (vi_dev sample_target) = replicate 8 0"
  "vd_guest_features sample_source = 0x20000000" "vd_status sample_source = 7"
  by (simp_all add: sample_source_def sample_target_def queue_count_def put_queue_def sample_queues virtqueue_init_def Let_def fresh_queue_def
      del: upt_rec_numeral)
    (simp_all add: sample_vdev_def virtio_init_def)

lemma sample_source_queue:
  "queue_ok sample_phys (vd_vq sample_source ! 0)" "blank_for sample_bus (vd_vq sample_source ! 0) (vd_vq (vi_dev sample_target) ! 0)"
  by (simp_all add: sample_source_def sample_target_def put_queue_def sample_queues queue_ok_def blank_for_def virtqueue_init_def Let_def
      vring_avail_idx_def memory_eval sample_mem_def sample_byte_def fresh_queue_def)

theorem migration_restores_witness:
  "\<exists>s'. virtio_load sample_bus sample_class (virtio_save sample_bus sample_source @ [7, 8]) sample_target = ret (0, s', [7, 8]) \<and>
     vd_status (vi_dev s') = 7 \<and> ring_state (vd_vq (vi_dev s') ! 0) = ring_state (vd_vq sample_source ! 0)"
proof -
  have "\<exists>io. s = s\<lparr>vi_io := io\<rparr>" for s :: vio by (rule exI [of _ "vi_io s"]) simp
  then have c: "features_local sample_class" by (simp add: features_local_def sample_class_def opt_call_def)
  have k: "bus_codec sample_bus" "bc_get_features sample_bus = 0x21000000" by (simp_all add: bus_codec_def sample_bus_def)
  have ph: "vi_phys sample_target = sample_phys" by (simp add: sample_target_def)
  have "\<exists>s'. virtio_load sample_bus sample_class (virtio_save sample_bus sample_source @ [7, 8]) sample_target = ret (0, s', [7, 8]) \<and>
      same_registers sample_source (vi_dev s') \<and>
      (\<forall>j < queue_count sample_source. ring_state (vd_vq (vi_dev s') ! j) = ring_state (vd_vq sample_source ! j)) \<and>
      vi_phys s' = vi_phys sample_target"
    by (rule migration_restores [OF k(1) c]) (simp_all add: sample_source_simps k(2) ph sample_source_queue)
  then show ?thesis by (auto simp: same_registers_def sample_source_simps)
qed

theorem load_overruns_witness:
  "virtio_load (sample_bus\<lparr>bc_load_config := None\<rparr>) sample_class
     (put_be 1 (7 :: u8) @ put_be 1 (0 :: u8) @ put_be 2 (0 :: u16) @ put_be 4 (0 :: u32) @ put_be 4 (0 :: u32) @ put_be 4 (of_nat 65 :: u32))
     sample_target = fail (BadIndex 64)"
  by (rule load_overruns) (simp_all add: sample_bus_def sample_class_def sample_source_simps)

end
