(* ===== verification/MemTableSpec.thy ===== *)
theory MemTableSpec
  imports MemTable
begin

text \<open>
  The specification of the region table and the proof that the in-place editing of \<^verbatim>\<open>vhost.c\<close> meets it.
  A removal is shown first to compute the list \<open>firsts @ extras\<close> of the pieces of the old regions, with every
  assertion passing, and these pieces to cover exactly the old addresses outside the range.  An insertion
  keeps the invariant that the block grown so far, the regions already visited and those to come form a
  well-formed table with the same translation.
\<close>

section \<open>Specification\<close>

definition reg_span :: "vhost_memory_region \<Rightarrow> u64 set" where
  "reg_span r = span (rg_guest_phys_addr r) (rg_memory_size r)"

definition wf_region :: "vhost_memory_region \<Rightarrow> bool" where
  "wf_region r \<longleftrightarrow> fits (rg_guest_phys_addr r) (rg_memory_size r) \<and> fits (rg_userspace_addr r) (rg_memory_size r)"

definition apart :: "vhost_memory_region \<Rightarrow> vhost_memory_region \<Rightarrow> bool" where
  "apart r r' \<longleftrightarrow> reg_span r \<inter> reg_span r' = {}"

definition table :: "vhost_memory \<Rightarrow> vhost_memory_region list" where
  "table m = take (unat (vm_nregions m)) (vm_regions m)"

definition wf_table :: "vhost_memory_region list \<Rightarrow> bool" where
  "wf_table rs \<longleftrightarrow> list_all wf_region rs \<and> sorted_wrt apart rs"

text \<open>How a region lies to the range \<open>n\<close> bytes from \<open>s\<close>: apart from it, swallowed by it, or overlapping it with
  its tail, its head or its middle; and what is left of the region.\<close>

datatype overlap = Apart | Whole | Tail | Head | Middle

definition overlap_of :: "u64 \<Rightarrow> u64 \<Rightarrow> vhost_memory_region \<Rightarrow> overlap" where
  "overlap_of s n r =
     (if \<not> ranges_overlap (rg_guest_phys_addr r) (rg_memory_size r) s n then Apart
      else if s \<le> rg_guest_phys_addr r \<and> reg_last r \<le> range_get_last s n then Whole
      else if reg_last r \<le> range_get_last s n then Tail
      else if s \<le> rg_guest_phys_addr r then Head
      else Middle)"

definition left_part :: "u64 \<Rightarrow> vhost_memory_region \<Rightarrow> vhost_memory_region" where
  "left_part s r = r\<lparr>rg_memory_size := s - rg_guest_phys_addr r\<rparr>"

definition right_part :: "u64 \<Rightarrow> u64 \<Rightarrow> vhost_memory_region \<Rightarrow> vhost_memory_region" where
  "right_part s n r = shift_region (range_get_last s n + 1 - rg_guest_phys_addr r) r"

definition pieces :: "u64 \<Rightarrow> u64 \<Rightarrow> vhost_memory_region \<Rightarrow> vhost_memory_region list" where
  "pieces s n r =
     (case overlap_of s n r of
        Apart \<Rightarrow> [r]
      | Whole \<Rightarrow> []
      | Tail \<Rightarrow> [left_part s r]
      | Head \<Rightarrow> [right_part s n r]
      | Middle \<Rightarrow> [left_part s r, right_part s n r])"

text \<open>The table after a removal: the first piece of every region in order, then the second piece of the
  region that was split.\<close>

definition firsts :: "u64 \<Rightarrow> u64 \<Rightarrow> vhost_memory_region list \<Rightarrow> vhost_memory_region list" where
  "firsts s n rs = concat (map (\<lambda>r. take 1 (pieces s n r)) rs)"

definition extras :: "u64 \<Rightarrow> u64 \<Rightarrow> vhost_memory_region list \<Rightarrow> vhost_memory_region list" where
  "extras s n rs = concat (map (\<lambda>r. drop 1 (pieces s n r)) rs)"

definition tally :: "u64 \<Rightarrow> u64 \<Rightarrow> overlap \<Rightarrow> vhost_memory_region list \<Rightarrow> int" where
  "tally s n k rs = int (length (filter (\<lambda>r. overlap_of s n r = k) rs))"

definition counters :: "u64 \<Rightarrow> u64 \<Rightarrow> vhost_memory_region list \<Rightarrow> overlaps" where
  "counters s n rs =
     \<lparr>ov_start = tally s n Head rs, ov_end = tally s n Tail rs, ov_middle = tally s n Whole rs,
      ov_split = tally s n Middle rs\<rparr>"

definition wf_mem :: "vhost_memory \<Rightarrow> bool" where
  "wf_mem m \<longleftrightarrow>
     wf_table (table m) \<and> unat (vm_nregions m) \<le> length (vm_regions m) \<and> length (vm_regions m) < 2 ^ 31"

text \<open>A free element at the end of the array; a removal needs it when it splits a region.\<close>

definition room :: "vhost_memory \<Rightarrow> bool" where
  "room m \<longleftrightarrow> unat (vm_nregions m) < length (vm_regions m)"

definition splits :: "u64 \<Rightarrow> u64 \<Rightarrow> vhost_memory_region list \<Rightarrow> bool" where
  "splits s n rs \<longleftrightarrow> (\<exists>r\<in>set rs. overlap_of s n r = Middle)"

text \<open>What the assertions of one pass require, and how the pass counts.\<close>

definition step_asserts :: "overlap \<Rightarrow> overlaps \<Rightarrow> vhost_memory \<Rightarrow> nat \<Rightarrow> bool" where
  "step_asserts k ov m N \<longleftrightarrow>
     (k \<noteq> Apart \<longrightarrow> ov_split ov = 0) \<and> (k = Tail \<longrightarrow> ov_end ov = 0) \<and> (k = Head \<longrightarrow> ov_start ov = 0) \<and>
     (k = Middle \<longrightarrow> ov_start ov = 0 \<and> ov_end ov = 0 \<and> ov_middle ov = 0 \<and> vm_nregions m = of_nat N)"

definition count_one :: "overlap \<Rightarrow> overlaps \<Rightarrow> overlaps" where
  "count_one k ov =
     (case k of Apart \<Rightarrow> ov | Whole \<Rightarrow> ov\<lparr>ov_middle := ov_middle ov + 1\<rparr> | Tail \<Rightarrow> ov\<lparr>ov_end := ov_end ov + 1\<rparr>
      | Head \<Rightarrow> ov\<lparr>ov_start := ov_start ov + 1\<rparr> | Middle \<Rightarrow> ov\<lparr>ov_split := ov_split ov + 1\<rparr>)"

text \<open>The array in the middle of the removal, after \<open>k\<close> of the regions \<open>rs\<close>.\<close>

definition unassign_inv :: "u64 \<Rightarrow> u64 \<Rightarrow> vhost_memory_region list \<Rightarrow> nat \<Rightarrow> vhost_memory \<Rightarrow> bool" where
  "unassign_inv s n rs k m \<longleftrightarrow>
     length rs \<le> length (vm_regions m) \<and> (splits s n rs \<longrightarrow> length rs < length (vm_regions m)) \<and>
     take (length (firsts s n (take k rs))) (vm_regions m) = firsts s n (take k rs) \<and>
     (\<forall>i. k \<le> i \<and> i < length rs \<longrightarrow> vm_regions m ! i = rs ! i) \<and>
     (extras s n (take k rs) \<noteq> [] \<longrightarrow> vm_regions m ! length rs = hd (extras s n (take k rs))) \<and>
     vm_nregions m = word_of_int (int (length rs) - tally s n Whole (take k rs) + tally s n Middle (take k rs))"

definition reg_off :: "vhost_memory_region \<Rightarrow> u64" where
  "reg_off r = rg_userspace_addr r - rg_guest_phys_addr r"

text \<open>The addresses a table translates, as a relation and as a function.\<close>

definition maps :: "vhost_memory_region list \<Rightarrow> u64 \<Rightarrow> u64 \<Rightarrow> bool" where
  "maps rs a u \<longleftrightarrow> (\<exists>r\<in>set rs. a \<in> reg_span r \<and> u = a + reg_off r)"

definition guest_view :: "vhost_memory_region list \<Rightarrow> u64 \<rightharpoonup> u64" where
  "guest_view rs a = map_option (\<lambda>r. a + reg_off r) (find (\<lambda>r. a \<in> reg_span r) rs)"

definition mem_view :: "vhost_memory \<Rightarrow> u64 \<rightharpoonup> u64" where
  "mem_view m = guest_view (table m)"

definition block_view :: "u64 \<Rightarrow> u64 \<Rightarrow> u64 \<Rightarrow> u64 \<rightharpoonup> u64" where
  "block_view s n u a = (if a \<in> span s n then Some (u + (a - s)) else None)"

definition mem_splits :: "u64 \<Rightarrow> u64 \<Rightarrow> vhost_memory \<Rightarrow> bool" where
  "mem_splits s n m \<longleftrightarrow> splits s n (table m)"

text \<open>Merging.\<close>

definition adjacent :: "vhost_memory_region \<Rightarrow> vhost_memory_region \<Rightarrow> bool" where
  "adjacent r b \<longleftrightarrow>
     reg_last r + 1 = rg_guest_phys_addr b \<and>
     range_get_last (rg_userspace_addr r) (rg_memory_size r) + 1 = rg_userspace_addr b"

definition joined :: "vhost_memory_region \<Rightarrow> vhost_memory_region \<Rightarrow> vhost_memory_region \<Rightarrow> bool" where
  "joined b r nb \<longleftrightarrow>
     rg_userspace_addr nb = min (rg_userspace_addr b) (rg_userspace_addr r) \<and>
     rg_guest_phys_addr nb = min (rg_guest_phys_addr b) (rg_guest_phys_addr r) \<and>
     rg_memory_size nb = max (reg_last b) (reg_last r) - rg_guest_phys_addr nb + 1"

text \<open>The array in the middle of an insertion: the block \<open>b\<close> grown so far lies among \<open>others\<close>, or is still to be
  stored.\<close>

definition block_of :: "assign_vars \<Rightarrow> vhost_memory_region \<Rightarrow> bool" where
  "block_of v b \<longleftrightarrow> av_start_addr v = rg_guest_phys_addr b \<and> av_size v = rg_memory_size b \<and> av_uaddr v = rg_userspace_addr b"

definition placed :: "int option \<Rightarrow> nat \<Rightarrow> vhost_memory_region \<Rightarrow> vhost_memory_region list \<Rightarrow> vhost_memory_region list \<Rightarrow> bool" where
  "placed mg t b others out \<longleftrightarrow>
     (case mg of None \<Rightarrow> out = others \<and> rg_flags_padding b = 0
      | Some j \<Rightarrow> \<exists>xs ys. j = int (length xs) \<and> others = xs @ ys \<and> out = xs @ b # ys)"

definition assign_inv :: "vhost_memory_region \<Rightarrow> vhost_memory_region list \<Rightarrow> nat \<Rightarrow> assign_vars \<Rightarrow> vhost_memory \<Rightarrow> bool" where
  "assign_inv b0 rs k v m \<longleftrightarrow>
     (\<exists>t b others. av_to v = int t \<and> t \<le> k \<and> block_of v b \<and> placed (av_merged v) t b others (take t (vm_regions m)) \<and>
        wf_table (b # others @ drop k rs) \<and> (\<forall>a u. maps (b # others @ drop k rs) a u \<longleftrightarrow> maps (b0 # rs) a u)) \<and>
     length rs < length (vm_regions m) \<and> (\<forall>i. k \<le> i \<and> i < length rs \<longrightarrow> vm_regions m ! i = rs ! i) \<and>
     vm_nregions m = of_nat (length rs)"

section \<open>Removing a range\<close>

lemma overlap_points:
  assumes "wf_region r" and "fits s n"
  shows "overlap_of s n r \<noteq> Apart \<Longrightarrow> reg_span r \<inter> span s n \<noteq> {}"
    and "overlap_of s n r = Tail \<Longrightarrow> s \<in> reg_span r"
    and "overlap_of s n r = Head \<Longrightarrow> range_get_last s n \<in> reg_span r"
    and "overlap_of s n r = Middle \<Longrightarrow> span s n \<subseteq> reg_span r"
  using assms overlap_iff [of "rg_guest_phys_addr r" "rg_memory_size r" s n] span_ends [OF assms(2)]
  by (auto simp: overlap_of_def reg_span_def wf_region_def span_def ranges_overlap_def split: if_splits)

lemma overlaps_exclude:
  assumes "wf_region r" and "wf_region r'" and "fits s n" and "apart r r'"
  shows "overlap_of s n r = Middle \<Longrightarrow> overlap_of s n r' = Apart"
    and "overlap_of s n r = Tail \<Longrightarrow> overlap_of s n r' \<noteq> Tail"
    and "overlap_of s n r = Head \<Longrightarrow> overlap_of s n r' \<noteq> Head"
  using assms overlap_points [of r s n] overlap_points [of r' s n] unfolding apart_def by blast+

lemma part_sizes:
  assumes "wf_region r" and "fits s n"
  shows "overlap_of s n r \<in> {Tail, Middle} \<Longrightarrow> rg_memory_size (left_part s r) \<noteq> 0"
    and "overlap_of s n r \<in> {Head, Middle} \<Longrightarrow> rg_memory_size (right_part s n r) \<noteq> 0"
proof -
  let ?g = "rg_guest_phys_addr r" and ?z = "rg_memory_size r"
  have "fits ?g ?z" using assms(1) by (simp add: wf_region_def)
  note l = unat_last [OF this] unat_last [OF assms(2)]
  show "overlap_of s n r \<in> {Tail, Middle} \<Longrightarrow> rg_memory_size (left_part s r) \<noteq> 0"
    by (auto simp: overlap_of_def left_part_def split: if_splits)
  show "overlap_of s n r \<in> {Head, Middle} \<Longrightarrow> rg_memory_size (right_part s n r) \<noteq> 0"
  proof
    assume "overlap_of s n r \<in> {Head, Middle}" and z: "rg_memory_size (right_part s n r) = 0"
    then have lt: "range_get_last s n < reg_last r" by (auto simp: overlap_of_def split: if_splits)
    have "range_get_last s n + 1 = ?g + ?z" using z by (simp add: right_part_def shift_region_def algebra_simps)
    then have "range_get_last s n = reg_last r" by (simp add: range_get_last_def algebra_simps)
    with lt show False by simp
  qed
qed

lemma region_access:
  assumes "i < length (vm_regions m)"
  shows "get_region m (int i) = ret (vm_regions m ! i)"
    and "set_region (int i) r m = ret (m\<lparr>vm_regions := (vm_regions m)[i := r]\<rparr>)"
  using assms by (simp_all add: get_region_def set_region_def)

lemma unassign_step_spec:
  assumes cap: "N \<le> length (vm_regions m)" "overlap_of s n r = Middle \<Longrightarrow> N < length (vm_regions m)"
    and ord: "t \<le> k" "k < N" and r: "r = vm_regions m ! k"
    and wf: "wf_region r" "fits s n" and ok: "step_asserts (overlap_of s n r) ov m N"
  shows "\<exists>m'. unassign_step s n (int N) (int k) (int t) ov m =
           ret (int (t + length (take 1 (pieces s n r))) - 1, count_one (overlap_of s n r) ov, m') \<and>
         length (vm_regions m') = length (vm_regions m) \<and>
         take (t + length (take 1 (pieces s n r))) (vm_regions m') = take t (vm_regions m) @ take 1 (pieces s n r) \<and>
         (\<forall>i. k < i \<and> i < N \<longrightarrow> vm_regions m' ! i = vm_regions m ! i) \<and>
         vm_regions m' ! N = (if drop 1 (pieces s n r) = [] then vm_regions m ! N else hd (drop 1 (pieces s n r))) \<and>
         vm_nregions m' = vm_nregions m + of_nat (length (pieces s n r)) - 1"
proof -
  define m1 where "m1 = m\<lparr>vm_regions := (vm_regions m)[t := r]\<rparr>"
  have clone: "(if int t \<noteq> int k then bindE (get_region m (int k)) (\<lambda>r. set_region (int t) r m) else ret m) = ret m1"
    using assms by (auto simp: m1_def region_access)
  have m1: "length (vm_regions m1) = length (vm_regions m)" "vm_regions m1 ! t = r" "vm_nregions m1 = vm_nregions m"
    "get_region m1 (int t) = ret r"
    using assms by (simp_all add: m1_def region_access)
  have keep: "take t (vm_regions m1) = take t (vm_regions m)" "take (Suc t) (vm_regions m1) = take t (vm_regions m) @ [r]" "\<forall>i. k < i \<longrightarrow> vm_regions m1 ! i = vm_regions m ! i"
    using assms by (simp_all add: m1_def take_Suc_conv_app_nth)
  have left: "rg_memory_size (left_part s r) \<noteq> 0" if "overlap_of s n r \<in> {Tail, Middle}" using part_sizes [OF wf] that by blast
  have right: "rg_memory_size (right_part s n r) \<noteq> 0" if "overlap_of s n r \<in> {Head, Middle}" using part_sizes [OF wf] that by blast
  note step = unassign_step_def [of s n "int N" "int k" "int t" ov m, unfolded clone]
  show ?thesis
  proof (cases "overlap_of s n r")
    case Apart
    then show ?thesis using m1 keep ord by (auto simp: step overlap_of_def pieces_def count_one_def split: if_splits)
  next
    case Whole
    then show ?thesis using m1 keep ord ok
      by (auto simp: step overlap_of_def pieces_def count_one_def step_asserts_def split: if_splits)
  next
    case Tail
    then show ?thesis using m1 keep ord ok left cap
      by (auto simp: step overlap_of_def pieces_def count_one_def step_asserts_def region_access left_part_def take_Suc_conv_app_nth split: if_splits)
  next
    case Head
    then show ?thesis using m1 keep ord ok right cap
      by (auto simp: step overlap_of_def pieces_def count_one_def step_asserts_def region_access right_part_def take_Suc_conv_app_nth split: if_splits)
  next
    case Middle
    then show ?thesis using m1 keep ord ok left right cap
      by (auto simp: step overlap_of_def pieces_def count_one_def step_asserts_def region_access left_part_def right_part_def take_Suc_conv_app_nth split: if_splits)
  qed
qed

lemma tally_Suc:
  "k < length rs \<Longrightarrow> counters s n (take (Suc k) rs) = count_one (overlap_of s n (rs ! k)) (counters s n (take k rs))"
  by (simp add: counters_def tally_def take_Suc_conv_app_nth count_one_def split: overlap.splits)

lemma pieces_Suc:
  "k < length rs \<Longrightarrow> firsts s n (take (Suc k) rs) = firsts s n (take k rs) @ take 1 (pieces s n (rs ! k))"
  "k < length rs \<Longrightarrow> extras s n (take (Suc k) rs) = extras s n (take k rs) @ drop 1 (pieces s n (rs ! k))"
  by (simp_all add: firsts_def extras_def take_Suc_conv_app_nth)

lemma length_firsts: "length (firsts s n rs) \<le> length rs"
  by (induction rs) (auto simp: firsts_def le_SucI)

lemma length_parts:
  "int (length (firsts s n rs)) = int (length rs) - tally s n Whole rs" "int (length (extras s n rs)) = tally s n Middle rs"
  by (induction rs) (auto simp: firsts_def extras_def tally_def pieces_def split: overlap.splits)

lemma tally_0: "tally s n k rs = 0 \<longleftrightarrow> (\<forall>r\<in>set rs. overlap_of s n r \<noteq> k)"
  by (auto simp: tally_def filter_empty_conv)

lemma step_asserts_hold:
  assumes wf: "wf_table rs" "fits s n" and k: "k < length rs"
    and nr: "vm_nregions m = word_of_int (int (length rs) - tally s n Whole (take k rs) + tally s n Middle (take k rs))"
  shows "step_asserts (overlap_of s n (rs ! k)) (counters s n (take k rs)) m (length rs)"
proof -
  have wf_nth: "wf_region (rs ! i)" if "i < length rs" for i using wf(1) that by (simp add: wf_table_def list_all_length)
  have excl: "\<not> (overlap_of s n r = Middle \<and> overlap_of s n (rs ! k) \<noteq> Apart)"
    "\<not> (overlap_of s n r \<noteq> Apart \<and> overlap_of s n (rs ! k) = Middle)"
    "\<not> (overlap_of s n r = Tail \<and> overlap_of s n (rs ! k) = Tail)"
    "\<not> (overlap_of s n r = Head \<and> overlap_of s n (rs ! k) = Head)" if r: "r \<in> set (take k rs)" for r
  proof -
    obtain i where "i < k" "r = rs ! i" using r by (auto simp: in_set_conv_nth)
    then have "wf_region r" "apart r (rs ! k)" "apart (rs ! k) r"
      using wf(1) k wf_nth by (auto simp: wf_table_def sorted_wrt_iff_nth_less apart_def)
    with overlaps_exclude [of r "rs ! k" s n] overlaps_exclude [of "rs ! k" r s n] wf(2) wf_nth [OF k]
    show "\<not> (overlap_of s n r = Middle \<and> overlap_of s n (rs ! k) \<noteq> Apart)"
      "\<not> (overlap_of s n r \<noteq> Apart \<and> overlap_of s n (rs ! k) = Middle)"
      "\<not> (overlap_of s n r = Tail \<and> overlap_of s n (rs ! k) = Tail)"
      "\<not> (overlap_of s n r = Head \<and> overlap_of s n (rs ! k) = Head)" by blast+
  qed
  have m0: "tally s n Middle (take k rs) = 0" if "overlap_of s n (rs ! k) \<noteq> Apart"
    using excl(1) that by (auto simp: tally_0)
  have c0: "tally s n x (take k rs) = 0" if "overlap_of s n (rs ! k) = Middle" "x \<noteq> Apart" for x
    using excl(2) that by (auto simp: tally_0)
  have t0: "tally s n Tail (take k rs) = 0" if "overlap_of s n (rs ! k) = Tail"
    using excl(3) that by (auto simp: tally_0)
  have h0: "tally s n Head (take k rs) = 0" if "overlap_of s n (rs ! k) = Head"
    using excl(4) that by (auto simp: tally_0)
  show ?thesis using m0 c0 t0 h0 nr by (auto simp: step_asserts_def counters_def)
qed

lemma word_nregions_step:
  "word_of_int a + of_nat (length (pieces s n r)) - 1 =
     (word_of_int (a - (if overlap_of s n r = Whole then 1 else 0) + (if overlap_of s n r = Middle then 1 else 0)) :: u32)"
  by (simp add: pieces_def split: overlap.splits)

lemma tally_Suc_one:
  "k < length rs \<Longrightarrow> tally s n x (take (Suc k) rs) = tally s n x (take k rs) + (if overlap_of s n (rs ! k) = x then 1 else 0)"
  by (simp add: tally_def take_Suc_conv_app_nth)

lemma unassign_loop_spec:
  assumes wf: "wf_table rs" "fits s n" and "k \<le> length rs" and "unassign_inv s n rs k m"
  shows "\<exists>m'. unassign_loop s n (int (length rs)) (int k) (int (length (firsts s n (take k rs)))) (counters s n (take k rs)) m = ret m' \<and>
           length (vm_regions m') = length (vm_regions m) \<and> unassign_inv s n rs (length rs) m'"
  using assms(3,4)
proof (induction "length rs - k" arbitrary: k m)
  case 0
  then show ?case by (simp add: unassign_loop.simps)
next
  case (Suc d)
  let ?r = "rs ! k" and ?t = "length (firsts s n (take k rs))"
  have k: "k < length rs" using Suc.hyps(2) by simp
  have r: "vm_regions m ! k = ?r" and cap: "length rs \<le> length (vm_regions m)" and le: "?t \<le> k"
    and sp: "overlap_of s n ?r = Middle \<Longrightarrow> length rs < length (vm_regions m)"
    using Suc.prems k length_firsts [of s n "take k rs"] by (auto simp: unassign_inv_def splits_def)
  have wr: "wf_region ?r" using wf(1) k by (simp add: wf_table_def list_all_length)
  have ok: "step_asserts (overlap_of s n ?r) (counters s n (take k rs)) m (length rs)"
    using step_asserts_hold [OF wf k] Suc.prems(2) by (simp add: unassign_inv_def)
  obtain m1 where st: "unassign_step s n (int (length rs)) (int k) (int ?t) (counters s n (take k rs)) m =
      ret (int (?t + length (take 1 (pieces s n ?r))) - 1, count_one (overlap_of s n ?r) (counters s n (take k rs)), m1)"
    and m1: "length (vm_regions m1) = length (vm_regions m)"
      "take (?t + length (take 1 (pieces s n ?r))) (vm_regions m1) = take ?t (vm_regions m) @ take 1 (pieces s n ?r)"
      "\<forall>i. k < i \<and> i < length rs \<longrightarrow> vm_regions m1 ! i = vm_regions m ! i"
      "vm_regions m1 ! length rs = (if drop 1 (pieces s n ?r) = [] then vm_regions m ! length rs else hd (drop 1 (pieces s n ?r)))"
      "vm_nregions m1 = vm_nregions m + of_nat (length (pieces s n ?r)) - 1"
    using unassign_step_spec [OF cap sp le k r [symmetric] wr wf(2) ok] by blast
  have one: "extras s n (take k rs) = []" if "drop 1 (pieces s n ?r) \<noteq> []"
  proof -
    have "overlap_of s n ?r = Middle" using that by (auto simp: pieces_def split: overlap.splits)
    then have "tally s n Middle (take k rs) = 0" using ok by (simp add: step_asserts_def counters_def)
    then show ?thesis using length_parts(2) [of s n "take k rs"] by simp
  qed
  have "vm_nregions m1 = word_of_int (int (length rs) - tally s n Whole (take (Suc k) rs) + tally s n Middle (take (Suc k) rs))"
    using Suc.prems(2) m1(5) k word_nregions_step [where s = s and n = n and r = ?r]
    by (simp add: unassign_inv_def tally_Suc_one)
  with Suc.prems(2) m1(1-4) k one have inv1: "unassign_inv s n rs (Suc k) m1"
    by (auto simp: unassign_inv_def pieces_Suc)
  have "d = length rs - Suc k" using Suc.hyps(2) by simp
  from Suc.hyps(1) [OF this _ inv1] k obtain m2 where
    "unassign_loop s n (int (length rs)) (int (Suc k)) (int (length (firsts s n (take (Suc k) rs)))) (counters s n (take (Suc k) rs)) m1 = ret m2"
    "length (vm_regions m2) = length (vm_regions m1)" "unassign_inv s n rs (length rs) m2" by auto
  moreover have "int (length (firsts s n (take (Suc k) rs))) = int (?t + length (take 1 (pieces s n ?r))) - 1 + 1"
    using k by (simp add: pieces_Suc)
  ultimately show ?case using k st m1(1) tally_Suc [OF k]
    by (subst unassign_loop.simps) (simp add: add.commute)
qed

lemma wf_table_Cons: "wf_table (r # rs) \<longleftrightarrow> wf_region r \<and> (\<forall>r'\<in>set rs. apart r r') \<and> wf_table rs"
  by (auto simp: wf_table_def)

lemma middle_alone:
  assumes "wf_table rs" and "fits s n" and "tally s n Middle rs \<noteq> 0"
  shows "tally s n Whole rs = 0 \<and> tally s n Middle rs = 1"
  using assms(1,3)
proof (induction rs)
  case Nil
  then show ?case by (simp add: tally_def)
next
  case (Cons r rs)
  have wf: "wf_region r" "wf_table rs" "\<And>r'. r' \<in> set rs \<Longrightarrow> wf_region r' \<and> apart r r'"
    using Cons.prems(1) by (auto simp: wf_table_def list_all_iff)
  show ?case
  proof (cases "overlap_of s n r = Middle")
    case True
    then have "overlap_of s n r' = Apart" if "r' \<in> set rs" for r'
      using overlaps_exclude(1) [OF wf(1) _ assms(2)] wf(3) that by blast
    then have "tally s n x rs = 0" if "x \<noteq> Apart" for x using that by (auto simp: tally_0)
    with True show ?thesis by (simp add: tally_def)
  next
    case False
    then have m: "tally s n Middle rs \<noteq> 0" using Cons.prems(2) by (simp add: tally_def)
    then obtain r' where r': "r' \<in> set rs" "overlap_of s n r' = Middle" by (auto simp: tally_0)
    then have "overlap_of s n r = Apart"
      using overlaps_exclude(1) [of r' r s n] wf assms(2) by (auto simp: apart_def)
    then show ?thesis using Cons.IH [OF wf(2) m] by (simp add: tally_def)
  qed
qed

lemma unassign_table:
  assumes rs: "rs = table m" "wf_table rs" and s: "fits s n"
    and cap: "unat (vm_nregions m) \<le> length (vm_regions m)" "unat (vm_nregions m) < 2 ^ 31"
      "splits s n rs \<Longrightarrow> unat (vm_nregions m) < length (vm_regions m)"
  shows "\<exists>m'. vhost_dev_unassign_memory s n m = ret m' \<and> table m' = firsts s n rs @ extras s n rs \<and>
           length (vm_regions m') = length (vm_regions m) \<and> unat (vm_nregions m') = length (firsts s n rs @ extras s n rs)"
proof -
  have len: "length rs = unat (vm_nregions m)" using rs(1) cap by (simp add: table_def)
  have i0: "unassign_inv s n rs 0 m"
    using len cap rs(1) by (simp add: unassign_inv_def firsts_def extras_def tally_def table_def)
  have c0: "counters s n (take 0 rs) = \<lparr>ov_start = 0, ov_end = 0, ov_middle = 0, ov_split = 0\<rparr>"
    by (simp add: counters_def tally_def)
  have f0: "length (firsts s n (take 0 rs)) = 0" by (simp add: firsts_def)
  have "vhost_dev_unassign_memory s n m =
      unassign_loop s n (int (length rs)) (int 0) (int (length (firsts s n (take 0 rs)))) (counters s n (take 0 rs)) m"
    unfolding vhost_dev_unassign_memory_def len int_of_u32_small [OF cap(2)] c0 f0 by simp
  then obtain m' where m': "vhost_dev_unassign_memory s n m = ret m'" "length (vm_regions m') = length (vm_regions m)"
    and inv: "unassign_inv s n rs (length rs) m'"
    using unassign_loop_spec [OF rs(2) s le0 i0] by metis
  let ?c = "int (length rs) - tally s n Whole rs + tally s n Middle rs"
  have W: "0 \<le> tally s n Whole rs" "tally s n Whole rs \<le> int (length rs)" "0 \<le> tally s n Middle rs"
    by (simp_all add: tally_def)
  have "length rs < 2 ^ 31" using cap(2) len by simp
  then have l31: "int (length rs) < 2147483648" by simp
  have nr: "vm_nregions m' = word_of_int ?c" using inv by (simp add: unassign_inv_def)
  have c: "unat (vm_nregions m') = nat ?c" if "?c < 2 ^ 32"
    using that W unfolding nr by (intro unat_word_of_int_small) simp_all
  have "table m' = firsts s n rs @ extras s n rs \<and> unat (vm_nregions m') = length (firsts s n rs @ extras s n rs)"
  proof (cases "tally s n Middle rs = 0")
    case True
    then have e: "extras s n rs = []" using length_parts(2) [of s n rs] by simp
    have "?c < 2 ^ 32" using True W l31 by simp
    then have "unat (vm_nregions m') = length (firsts s n rs)"
      using c length_parts(1) [of s n rs] True by simp
    then show ?thesis using inv e by (simp add: unassign_inv_def table_def)
  next
    case False
    then have sp: "splits s n rs" by (auto simp: tally_0 splits_def)
    from False have t: "tally s n Whole rs = 0" "tally s n Middle rs = 1" using middle_alone [OF rs(2) s] by simp_all
    then have f: "length (firsts s n rs) = length rs" "length (extras s n rs) = 1"
      using length_parts [of s n rs] by simp_all
    then obtain x where x: "extras s n rs = [x]" by (cases "extras s n rs") auto
    have "?c < 2 ^ 32" using t l31 by simp
    then have nr': "unat (vm_nregions m') = Suc (length rs)" using c t by simp
    have "take (length rs) (vm_regions m') = firsts s n rs" "vm_regions m' ! length rs = x" "length rs < length (vm_regions m')"
      using inv f x sp by (auto simp: unassign_inv_def)
    with nr' f x show ?thesis by (simp add: table_def take_Suc_conv_app_nth)
  qed
  with m' show ?thesis by blast
qed

section \<open>What a removal keeps\<close>

lemma mem_reg_span:
  "wf_region r \<Longrightarrow> x \<in> reg_span r \<longleftrightarrow>
     unat (rg_guest_phys_addr r) \<le> unat x \<and> unat x < unat (rg_guest_phys_addr r) + unat (rg_memory_size r)"
  by (simp add: reg_span_def wf_region_def mem_span)

lemma overlap_bounds:
  assumes "wf_region r" and "fits s n"
  shows "overlap_of s n r \<in> {Tail, Middle} \<Longrightarrow>
           unat (rg_guest_phys_addr r) < unat s \<and> unat s < unat (rg_guest_phys_addr r) + unat (rg_memory_size r)"
    and "overlap_of s n r \<in> {Head, Middle} \<Longrightarrow> unat (rg_guest_phys_addr r) < unat s + unat n \<and>
           unat s + unat n < unat (rg_guest_phys_addr r) + unat (rg_memory_size r)"
proof -
  have f: "fits (rg_guest_phys_addr r) (rg_memory_size r)" using assms(1) by (simp add: wf_region_def)
  note l = unat_last [OF f] unat_last [OF assms(2)]
  show "overlap_of s n r \<in> {Tail, Middle} \<Longrightarrow>
           unat (rg_guest_phys_addr r) < unat s \<and> unat s < unat (rg_guest_phys_addr r) + unat (rg_memory_size r)"
    "overlap_of s n r \<in> {Head, Middle} \<Longrightarrow> unat (rg_guest_phys_addr r) < unat s + unat n \<and>
           unat s + unat n < unat (rg_guest_phys_addr r) + unat (rg_memory_size r)"
    using l f assms(2)
    by (auto simp: overlap_of_def ranges_overlap_def word_le_nat_alt word_less_nat_alt fits_def split: if_splits)
qed

lemma left_part_spec:
  assumes "wf_region r" and "fits s n" and "overlap_of s n r \<in> {Tail, Middle}"
  shows "wf_region (left_part s r)" and "reg_off (left_part s r) = reg_off r"
    and "x \<in> reg_span (left_part s r) \<longleftrightarrow> unat (rg_guest_phys_addr r) \<le> unat x \<and> unat x < unat s"
proof -
  note b = overlap_bounds(1) [OF assms]
  then have z: "unat (rg_memory_size (left_part s r)) = unat s - unat (rg_guest_phys_addr r)"
    by (simp add: left_part_def unat_sub_if')
  show w: "wf_region (left_part s r)"
    using assms(1) b z by (auto simp: wf_region_def fits_def left_part_def)
  show "reg_off (left_part s r) = reg_off r" by (simp add: reg_off_def left_part_def)
  show "x \<in> reg_span (left_part s r) \<longleftrightarrow> unat (rg_guest_phys_addr r) \<le> unat x \<and> unat x < unat s"
    using mem_reg_span [OF w, of x] b z by (auto simp: left_part_def)
qed

lemma right_part_spec:
  assumes "wf_region r" and "fits s n" and "overlap_of s n r \<in> {Head, Middle}"
  shows "wf_region (right_part s n r)" and "reg_off (right_part s n r) = reg_off r"
    and "x \<in> reg_span (right_part s n r) \<longleftrightarrow>
           unat s + unat n \<le> unat x \<and> unat x < unat (rg_guest_phys_addr r) + unat (rg_memory_size r)"
proof -
  let ?g = "rg_guest_phys_addr r" and ?z = "rg_memory_size r" and ?c = "range_get_last s n + 1 - rg_guest_phys_addr r"
  note b = overlap_bounds(2) [OF assms]
  have g: "fits ?g ?z" "fits (rg_userspace_addr r) ?z" using assms(1) by (simp_all add: wf_region_def)
  have e: "range_get_last s n + 1 = s + n" by (simp add: range_get_last_def)
  have sn: "unat (s + n) = unat s + unat n" using assms(2) by (simp add: fits_def unat_word_ariths)
  have c: "unat ?c = unat s + unat n - unat ?g" unfolding e using sn b by (simp add: unat_sub_if')
  have "?c \<le> ?z" unfolding word_le_nat_alt c using b by linarith
  then have z: "unat (?z - ?c) = unat ?g + unat ?z - (unat s + unat n)" unfolding unat_sub [OF \<open>?c \<le> ?z\<close>] c using b by linarith
  have a: "unat (?g + ?c) = unat s + unat n" unfolding e using sn by simp
  have u: "unat (rg_userspace_addr r + ?c) = unat (rg_userspace_addr r) + unat ?c"
    using g(2) b c by (subst unat_add_lem [symmetric]) (simp add: fits_def, linarith)
  show w: "wf_region (right_part s n r)"
    using g b z a u c by (auto simp: wf_region_def fits_def right_part_def shift_region_def)
  show "reg_off (right_part s n r) = reg_off r" by (simp add: reg_off_def right_part_def shift_region_def)
  show "x \<in> reg_span (right_part s n r) \<longleftrightarrow>
           unat s + unat n \<le> unat x \<and> unat x < unat (rg_guest_phys_addr r) + unat (rg_memory_size r)"
    using mem_reg_span [OF w, of x] b z a by (auto simp: right_part_def shift_region_def)
qed

lemma pieces_spec:
  assumes "wf_region r" and "fits s n"
  shows "p \<in> set (pieces s n r) \<Longrightarrow> wf_region p \<and> reg_off p = reg_off r"
    and "(\<exists>p\<in>set (pieces s n r). x \<in> reg_span p) \<longleftrightarrow> x \<in> reg_span r \<and> x \<notin> span s n"
    and "sorted_wrt apart (pieces s n r)"
proof -
  note L = left_part_spec [OF assms] and R = right_part_spec [OF assms] and b = overlap_bounds [OF assms]
  show "p \<in> set (pieces s n r) \<Longrightarrow> wf_region p \<and> reg_off p = reg_off r"
    using L R assms(1) by (auto simp: pieces_def split: overlap.splits)
  have f: "fits (rg_guest_phys_addr r) (rg_memory_size r)" using assms(1) by (simp add: wf_region_def)
  show "(\<exists>p\<in>set (pieces s n r). x \<in> reg_span p) \<longleftrightarrow> x \<in> reg_span r \<and> x \<notin> span s n"
  proof (cases "overlap_of s n r")
    case Apart
    then have "reg_span r \<inter> span s n = {}"
      using overlap_iff [OF f assms(2)] by (auto simp: overlap_of_def reg_span_def split: if_splits)
    then show ?thesis using Apart by (auto simp: pieces_def)
  next
    case Whole
    then have "reg_span r \<subseteq> span s n" by (auto simp: overlap_of_def reg_span_def span_def split: if_splits)
    then show ?thesis using Whole by (auto simp: pieces_def)
  next
    case Tail
    then show ?thesis using L(3) b mem_reg_span [OF assms(1)] mem_span [OF assms(2)]
      by (auto simp: pieces_def overlap_of_def word_le_nat_alt unat_last [OF f] unat_last [OF assms(2)] split: if_splits)
  next
    case Head
    then show ?thesis using R(3) b mem_reg_span [OF assms(1)] mem_span [OF assms(2)]
      by (auto simp: pieces_def overlap_of_def word_le_nat_alt split: if_splits)
  next
    case Middle
    then show ?thesis using L(3) R(3) b mem_reg_span [OF assms(1)] mem_span [OF assms(2)]
      by (auto simp: pieces_def)
  qed
  show "sorted_wrt apart (pieces s n r)"
    using L(3) R(3) by (auto simp: pieces_def apart_def split: overlap.splits)
qed

lemma apart_sym: "apart r r' \<longleftrightarrow> apart r' r"
  by (auto simp: apart_def)

lemma wf_table_insert:
  "wf_table (xs @ r # ys) \<longleftrightarrow> wf_region r \<and> wf_table (xs @ ys) \<and> (\<forall>r'\<in>set (xs @ ys). apart r r')"
  by (auto simp: wf_table_def sorted_wrt_append apart_sym)

lemma guest_view_iff: "wf_table rs \<Longrightarrow> guest_view rs a = Some u \<longleftrightarrow> maps rs a u"
proof (induction rs)
  case Nil
  then show ?case by (simp add: guest_view_def maps_def)
next
  case (Cons r rs)
  have "wf_table rs" "\<forall>r'\<in>set rs. reg_span r \<inter> reg_span r' = {}"
    using Cons.prems by (auto simp: wf_table_Cons apart_def)
  with Cons.IH show ?case by (auto simp: guest_view_def maps_def)
qed

lemma guest_view_eqI: "wf_table rs \<Longrightarrow> (\<And>a u. f a = Some u \<longleftrightarrow> maps rs a u) \<Longrightarrow> guest_view rs = f"
  by (rule ext) (metis guest_view_iff option.exhaust)

lemma parts_set:
  "set (firsts s n rs @ extras s n rs) = (\<Union>r\<in>set rs. set (pieces s n r))"
proof -
  have "set (take (Suc 0) xs) \<union> set (drop (Suc 0) xs) = set xs" for xs :: "vhost_memory_region list"
    by (metis append_take_drop_id set_append)
  then show ?thesis by (simp add: firsts_def extras_def UN_Un_distrib [symmetric])
qed

lemma pieces_apart:
  assumes "fits s n" and "wf_region r" and "wf_region r'" and "apart r r'" and "p \<in> set (pieces s n r)" and "p' \<in> set (pieces s n r')"
  shows "apart p p'"
  using pieces_spec(2) [OF assms(2,1)] pieces_spec(2) [OF assms(3,1)] assms(4-6) unfolding apart_def by blast

lemma parts_wf:
  assumes "wf_table rs" and "fits s n"
  shows "wf_table (firsts s n rs @ extras s n rs)"
  using assms(1)
proof (induction rs)
  case Nil
  then show ?case by (simp add: wf_table_def firsts_def extras_def)
next
  case (Cons r rs)
  have wf: "wf_region r" "wf_table rs" "\<And>r'. r' \<in> set rs \<Longrightarrow> wf_region r' \<and> apart r r'"
    using Cons.prems by (auto simp: wf_table_def list_all_iff)
  have sub: "set (take 1 (pieces s n r)) \<subseteq> set (pieces s n r)" "set (drop 1 (pieces s n r)) \<subseteq> set (pieces s n r)"
    by (simp_all add: set_take_subset set_drop_subset)
  have out: "apart p p'" if "p \<in> set (pieces s n r)" "p' \<in> set (firsts s n rs @ extras s n rs)" for p p'
    using that pieces_apart [OF assms(2) wf(1)] wf(3) by (auto simp only: parts_set)
  have out': "apart p' p" if "p \<in> set (pieces s n r)" "p' \<in> set (firsts s n rs @ extras s n rs)" for p p'
    using out [OF that] apart_sym by blast
  have own: "sorted_wrt apart (take 1 (pieces s n r) @ drop 1 (pieces s n r))" "list_all wf_region (pieces s n r)"
    using pieces_spec [OF wf(1) assms(2)] by (auto simp: list_all_iff)
  have e: "firsts s n (r # rs) = take 1 (pieces s n r) @ firsts s n rs" "extras s n (r # rs) = drop 1 (pieces s n r) @ extras s n rs"
    by (simp_all add: firsts_def extras_def)
  show ?case
    using Cons.IH [OF wf(2)] own out out' sub unfolding e wf_table_def sorted_wrt_append list_all_append list_all_iff set_append
    by blast
qed

lemma parts_maps:
  assumes "wf_table rs" and "fits s n"
  shows "maps (firsts s n rs @ extras s n rs) a u \<longleftrightarrow> maps rs a u \<and> a \<notin> span s n"
proof -
  have wf: "wf_region r" if "r \<in> set rs" for r using assms(1) that by (auto simp: wf_table_def list_all_iff)
  have "maps (firsts s n rs @ extras s n rs) a u \<longleftrightarrow>
      (\<exists>r\<in>set rs. \<exists>p\<in>set (pieces s n r). a \<in> reg_span p \<and> u = a + reg_off r)"
    using wf pieces_spec(1) [OF _ assms(2)] unfolding maps_def parts_set by fastforce
  also have "\<dots> \<longleftrightarrow> maps rs a u \<and> a \<notin> span s n"
    using wf pieces_spec(2) [OF _ assms(2)] unfolding maps_def by fastforce
  finally show ?thesis .
qed

lemma length_unsplit: "\<not> splits s n rs \<Longrightarrow> length (firsts s n rs @ extras s n rs) \<le> length rs"
  using length_parts [of s n rs] length_firsts [of s n rs] tally_0 [of s n Middle rs] by (simp add: splits_def)

lemma unassign_spec:
  assumes wf: "wf_mem m" and s: "fits s n" and cap: "splits s n (table m) \<Longrightarrow> room m"
  obtains m' where "vhost_dev_unassign_memory s n m = ret m'" and "wf_mem m'"
    and "\<And>a u. maps (table m') a u \<longleftrightarrow> maps (table m) a u \<and> a \<notin> span s n"
    and "length (vm_regions m') = length (vm_regions m)"
    and "\<not> splits s n (table m) \<Longrightarrow> unat (vm_nregions m') \<le> unat (vm_nregions m)"
proof -
  let ?rs = "table m"
  have w: "wf_table ?rs" "unat (vm_nregions m) \<le> length (vm_regions m)" "unat (vm_nregions m) < 2 ^ 31"
    using wf by (simp_all add: wf_mem_def)
  have len: "length ?rs = unat (vm_nregions m)" using w by (simp add: table_def)
  obtain m' where m': "vhost_dev_unassign_memory s n m = ret m'" "table m' = firsts s n ?rs @ extras s n ?rs"
    "length (vm_regions m') = length (vm_regions m)" "unat (vm_nregions m') = length (firsts s n ?rs @ extras s n ?rs)"
    using unassign_table [OF refl w(1) s w(2,3)] cap by (auto simp: room_def)
  have "length (table m') = unat (vm_nregions m')" using m'(2,4) by simp
  then have "unat (vm_nregions m') \<le> length (vm_regions m')" by (simp add: table_def)
  then have "wf_mem m'" using wf m' parts_wf [OF w(1) s] by (simp add: wf_mem_def)
  then show thesis using that m' parts_maps [OF w(1) s] length_unsplit [of s n ?rs] len by simp
qed

section \<open>Adding a range\<close>

lemma joined_sym: "joined b r nb \<longleftrightarrow> joined r b nb"
  by (auto simp: joined_def min.commute max.commute)

lemma join_adjacent:
  assumes wf: "wf_region r" "wf_region b" and ad: "adjacent r b" and nb: "joined b r nb"
  shows "wf_region nb \<and> reg_off nb = reg_off r \<and> reg_off nb = reg_off b \<and> rg_memory_size nb \<noteq> 0 \<and>
         reg_span nb = reg_span r \<union> reg_span b"
proof -
  let ?g = rg_guest_phys_addr and ?u = rg_userspace_addr and ?z = rg_memory_size
  have f: "fits (?g r) (?z r)" "fits (?u r) (?z r)" "fits (?g b) (?z b)" "fits (?u b) (?z b)"
    using wf by (simp_all add: wf_region_def)
  have w: "?g b = ?g r + ?z r" "?u b = ?u r + ?z r" using ad by (simp_all add: adjacent_def range_get_last_def)
  have g: "unat (?g b) = unat (?g r) + unat (?z r)" "unat (?u b) = unat (?u r) + unat (?z r)"
    unfolding w using f(1,2) by (simp_all add: fits_def unat_word_ariths)
  have m: "min (?u b) (?u r) = ?u r" "min (?g b) (?g r) = ?g r" using g f by (auto simp: min_def word_le_nat_alt fits_def)
  have "reg_last r \<le> reg_last b"
    using unat_last [OF f(1)] unat_last [OF f(3)] g f by (simp add: word_le_nat_alt fits_def)
  then have x: "max (reg_last b) (reg_last r) = reg_last b" by (simp add: max_def)
  have nbf: "?g nb = ?g r" "?u nb = ?u r" "?z nb = ?z r + ?z b"
    using nb m x w by (simp_all add: joined_def range_get_last_def)
  have "unat (?z nb) = unat (?z r) + unat (?z b)"
    unfolding nbf using f g by (simp add: fits_def unat_word_ariths)
  moreover from this have wn: "wf_region nb"
    using f g by (simp add: wf_region_def nbf fits_def)
  ultimately have "reg_span nb = reg_span r \<union> reg_span b"
    using mem_reg_span [OF wn] mem_reg_span [OF wf(1)] mem_reg_span [OF wf(2)] g by (auto simp: nbf)
  moreover have "?z nb \<noteq> 0" using wn by (auto simp: wf_region_def fits_def)
  ultimately show ?thesis using wn w by (simp add: reg_off_def nbf)
qed

lemma join_spec:
  assumes "wf_region r" and "wf_region b" and "adjacent r b \<or> adjacent b r" and "joined b r nb"
  shows "wf_region nb \<and> reg_off nb = reg_off r \<and> reg_off nb = reg_off b \<and> rg_memory_size nb \<noteq> 0 \<and>
         reg_span nb = reg_span r \<union> reg_span b"
  using assms join_adjacent [of r b nb] join_adjacent [of b r nb] joined_sym [of b r nb] by blast

lemma join_table:
  assumes wf: "wf_table (b # others @ r # rest)" and ad: "adjacent r b \<or> adjacent b r" and nb: "joined b r nb"
  shows "wf_table (nb # others @ rest)" and "maps (nb # others @ rest) a u \<longleftrightarrow> maps (b # others @ r # rest) a u"
    and "rg_memory_size nb \<noteq> 0"
proof -
  have w: "wf_region b" "wf_region r" "wf_table (others @ rest)"
    "\<And>x. x \<in> set (others @ rest) \<Longrightarrow> apart b x \<and> apart r x"
    using wf by (auto simp: wf_table_Cons wf_table_insert)
  note j = join_spec [OF w(2,1) ad nb]
  then have "\<And>x. x \<in> set (others @ rest) \<Longrightarrow> apart nb x" using w(4) by (auto simp: apart_def)
  then show "wf_table (nb # others @ rest)" using w j by (simp add: wf_table_Cons)
  show "maps (nb # others @ rest) a u \<longleftrightarrow> maps (b # others @ r # rest) a u" using j by (auto simp: maps_def)
  show "rg_memory_size nb \<noteq> 0" using j by blast
qed

lemma assign_step_spec:
  assumes inv: "assign_inv b0 rs k v m" and k: "k < length rs"
  shows "\<exists>v' m'. assign_step (int k) v m = ret (v', m') \<and> assign_inv b0 rs (Suc k) (v'\<lparr>av_to := av_to v' + 1\<rparr>) m' \<and>
           length (vm_regions m') = length (vm_regions m)"
proof -
  obtain t b others where t: "av_to v = int t" "t \<le> k" and b: "block_of v b"
    and pl: "placed (av_merged v) t b others (take t (vm_regions m))"
    and wf: "wf_table (b # others @ drop k rs)" and mp: "\<And>a u. maps (b # others @ drop k rs) a u \<longleftrightarrow> maps (b0 # rs) a u"
    and cap: "length rs < length (vm_regions m)" and keep: "\<forall>i. k \<le> i \<and> i < length rs \<longrightarrow> vm_regions m ! i = rs ! i"
    and nr: "vm_nregions m = of_nat (length rs)"
    using inv by (auto simp: assign_inv_def)
  let ?r = "rs ! k"
  have dk: "drop k rs = ?r # drop (Suc k) rs" using k by (simp add: Cons_nth_drop_Suc)
  define m1 where "m1 = m\<lparr>vm_regions := (vm_regions m)[t := ?r]\<rparr>"
  have clone: "(if int t \<noteq> int k then bindE (get_region m (int k)) (\<lambda>r. set_region (int t) r m) else ret m) = ret m1"
    using t k cap keep list_update_id [of "vm_regions m" k] by (auto simp: m1_def region_access)
  have m1: "length (vm_regions m1) = length (vm_regions m)" "get_region m1 (int t) = ret ?r" "vm_nregions m1 = vm_nregions m"
    "take (Suc t) (vm_regions m1) = take t (vm_regions m) @ [?r]" "\<forall>i. Suc k \<le> i \<and> i < length rs \<longrightarrow> vm_regions m1 ! i = rs ! i"
    using t k cap keep by (auto simp: m1_def region_access take_Suc_conv_app_nth)
  have wr: "wf_region ?r" "wf_region b" "apart b ?r" using wf dk by (auto simp: wf_table_Cons wf_table_insert)
  have as: "reg_last ?r < av_start_addr v \<or> range_get_last (av_start_addr v) (av_size v) < rg_guest_phys_addr ?r"
  proof -
    have "\<not> ranges_overlap (rg_guest_phys_addr b) (rg_memory_size b) (rg_guest_phys_addr ?r) (rg_memory_size ?r)"
      using overlap_iff wr by (auto simp: wf_region_def apart_def reg_span_def)
    then show ?thesis using b by (auto simp: ranges_overlap_def block_of_def)
  qed
  note step = assign_step_def [of "int k" v m, unfolded t(1) Let_def clone]
  show ?thesis
  proof (cases "adjacent ?r b \<or> adjacent b ?r")
    case False
    then have "assign_step (int k) v m = ret (v, m1)"
      using as m1 b by (auto simp: step adjacent_def block_of_def)
    moreover have "placed (av_merged v) (Suc t) b (others @ [?r]) (take (Suc t) (vm_regions m1))"
      using pl m1(4) by (auto simp: placed_def split: option.splits)
    then have "assign_inv b0 rs (Suc k) (v\<lparr>av_to := av_to v + 1\<rparr>) m1"
      unfolding assign_inv_def using t b wf mp m1 nr cap dk
      by (intro conjI exI [of _ "Suc t"] exI [of _ b] exI [of _ "others @ [?r]"]) (auto simp: block_of_def)
    ultimately show ?thesis using m1 by blast
  next
    case True
    define nb :: "vhost_memory_region \<Rightarrow> vhost_memory_region" where "nb = (\<lambda>mg. mg\<lparr>rg_userspace_addr := min (rg_userspace_addr b) (rg_userspace_addr ?r),
        rg_guest_phys_addr := min (rg_guest_phys_addr b) (rg_guest_phys_addr ?r),
        rg_memory_size := max (reg_last b) (reg_last ?r) - min (rg_guest_phys_addr b) (rg_guest_phys_addr ?r) + 1\<rparr>)"
    have jn: "joined b ?r (nb mg)" for mg by (simp add: joined_def nb_def)
    have wf': "wf_table (b # others @ ?r # drop (Suc k) rs)" using wf dk by simp
    note J = join_table [OF wf' True jn]
    have grown: "\<exists>v' m'. assign_step (int k) v m = ret (v', m') \<and> assign_inv b0 rs (Suc k) (v'\<lparr>av_to := av_to v' + 1\<rparr>) m' \<and>
        length (vm_regions m') = length (vm_regions m)"
      if st: "assign_step (int k) v m = ret (\<lparr>av_to = int t' - 1, av_start_addr = rg_guest_phys_addr (nb mg),
           av_size = rg_memory_size (nb mg), av_uaddr = rg_userspace_addr (nb mg), av_merged = Some (int i)\<rparr>,
           m1\<lparr>vm_regions := (vm_regions m1)[i := nb mg]\<rparr>)"
        and i: "i < t'" "t' \<le> Suc t" and out: "placed (Some (int i)) t' (nb mg) others (take t' ((vm_regions m1)[i := nb mg]))"
      for t' i mg
    proof -
      have "assign_inv b0 rs (Suc k) \<lparr>av_to = int t', av_start_addr = rg_guest_phys_addr (nb mg),
           av_size = rg_memory_size (nb mg), av_uaddr = rg_userspace_addr (nb mg), av_merged = Some (int i)\<rparr>
           (m1\<lparr>vm_regions := (vm_regions m1)[i := nb mg]\<rparr>)"
        unfolding assign_inv_def using i t out J [of mg] m1 nr cap mp dk
        by (intro conjI exI [of _ t'] exI [of _ "nb mg"] exI [of _ others]) (auto simp: block_of_def)
      with st m1(1) show ?thesis by simp
    qed
    show ?thesis
    proof (cases "av_merged v")
      case None
      have "assign_step (int k) v m = ret (\<lparr>av_to = int (Suc t) - 1, av_start_addr = rg_guest_phys_addr (nb ?r),
           av_size = rg_memory_size (nb ?r), av_uaddr = rg_userspace_addr (nb ?r), av_merged = Some (int t)\<rparr>,
           m1\<lparr>vm_regions := (vm_regions m1)[t := nb ?r]\<rparr>)"
        using True as m1 b None t k cap J(3) [of ?r]
        by (auto simp: step adjacent_def block_of_def region_access nb_def)
      moreover have o: "take t (vm_regions m) = others" using pl None by (simp add: placed_def)
      have lo: "length others = t" using arg_cong [OF o, of length] t k cap by simp
      have "take (Suc t) ((vm_regions m1)[t := nb ?r]) = others @ [nb ?r]"
        using m1(4) o lo by (simp add: take_update_swap list_update_append)
      then have "placed (Some (int t)) (Suc t) (nb ?r) others (take (Suc t) ((vm_regions m1)[t := nb ?r]))"
        using lo by (auto simp: placed_def)
      ultimately show ?thesis using grown [of "Suc t" ?r t] by simp
    next
      case (Some j)
      then obtain xs ys where p: "j = int (length xs)" "others = xs @ ys" "take t (vm_regions m) = xs @ b # ys"
        using pl by (auto simp: placed_def)
      have lt: "length xs < t" using arg_cong [OF p(3), of length] t k cap by simp
      have o: "take t (vm_regions m1) = xs @ b # ys" using m1(4) p(3) t k cap by (simp add: m1_def)
      then have bm: "vm_regions m1 ! length xs = b" using lt by (metis nth_append_length nth_take)
      have "assign_step (int k) v m = ret (\<lparr>av_to = int t - 1, av_start_addr = rg_guest_phys_addr (nb b),
           av_size = rg_memory_size (nb b), av_uaddr = rg_userspace_addr (nb b), av_merged = Some (int (length xs))\<rparr>,
           m1\<lparr>vm_regions := (vm_regions m1)[length xs := nb b]\<rparr>)"
        using True as m1 b Some p(1) t k cap lt bm J(3) [of b]
        by (auto simp: step adjacent_def block_of_def region_access nb_def)
      moreover have "placed (Some (int (length xs))) t (nb b) others (take t ((vm_regions m1)[length xs := nb b]))"
        using p(2) o by (auto simp: placed_def take_update_swap)
      ultimately show ?thesis using grown [of t b "length xs"] lt by simp
    qed
  qed
qed

lemma assign_loop_spec:
  assumes "k \<le> length rs" and "assign_inv b0 rs k v m"
  shows "\<exists>v' m'. assign_loop (int (length rs)) (int k) v m = ret (v', m') \<and> assign_inv b0 rs (length rs) v' m' \<and>
           length (vm_regions m') = length (vm_regions m)"
  using assms
proof (induction "length rs - k" arbitrary: k v m)
  case 0
  then show ?case by (simp add: assign_loop.simps)
next
  case (Suc d)
  then have k: "k < length rs" and d: "d = length rs - Suc k" by simp_all
  obtain v1 m1 where 1: "assign_step (int k) v m = ret (v1, m1)" "assign_inv b0 rs (Suc k) (v1\<lparr>av_to := av_to v1 + 1\<rparr>) m1"
    "length (vm_regions m1) = length (vm_regions m)" using assign_step_spec [OF Suc.prems(2) k] by blast
  then show ?case using Suc.hyps(1) [OF d _ 1(2)] k by (subst assign_loop.simps) (simp add: add.commute)
qed

lemma assign_spec:
  assumes b: "b0 = \<lparr>rg_guest_phys_addr = s, rg_memory_size = n, rg_userspace_addr = u0, rg_flags_padding = 0\<rparr>"
    and wf: "wf_table (b0 # table m)" and wm: "wf_mem m" "room m"
  obtains m' where "vhost_dev_assign_memory s n u0 m = ret m'" and "wf_mem m'"
    and "\<And>a u. maps (table m') a u \<longleftrightarrow> maps (b0 # table m) a u"
proof -
  have cap: "unat (vm_nregions m) < length (vm_regions m)" "unat (vm_nregions m) < 2 ^ 31"
    using wm by (simp_all add: wf_mem_def room_def)
  have wfm: "wf_mem m'" if "wf_table (table m')" "length (vm_regions m') = length (vm_regions m)"
    "unat (vm_nregions m') \<le> Suc (unat (vm_nregions m))" for m'
    using that wm cap by (simp add: wf_mem_def)
  let ?rs = "table m"
  let ?v = "\<lparr>av_to = 0, av_start_addr = s, av_size = n, av_uaddr = u0, av_merged = None\<rparr>"
  have len: "length ?rs = unat (vm_nregions m)" using cap by (simp add: table_def)
  have "assign_inv b0 ?rs 0 ?v m"
    unfolding assign_inv_def using wf b cap len
    by (intro conjI exI [of _ 0] exI [of _ b0] exI [of _ "[]"]) (auto simp: block_of_def placed_def table_def)
  then obtain v m1 where lp: "assign_loop (int (unat (vm_nregions m))) 0 ?v m = ret (v, m1)"
    and inv: "assign_inv b0 ?rs (length ?rs) v m1" and l1: "length (vm_regions m1) = length (vm_regions m)"
    using assign_loop_spec [of 0 ?rs b0 ?v m] len by auto
  obtain t b others where t: "av_to v = int t" "t \<le> length ?rs" and bl: "block_of v b"
    and pl: "placed (av_merged v) t b others (take t (vm_regions m1))"
    and w1: "wf_table (b # others)" and mp: "\<And>a u. maps (b # others) a u \<longleftrightarrow> maps (b0 # ?rs) a u"
    and nr: "vm_nregions m1 = of_nat (length ?rs)"
    using inv by (auto simp: assign_inv_def)
  have nz: "av_size v \<noteq> 0" using w1 bl by (auto simp: wf_table_Cons wf_region_def fits_def block_of_def)
  have u: "unat (of_nat k :: u32) = k" if "k \<le> Suc (length ?rs)" for k
    using that cap(2) len by (intro unat_of_nat_small) simp
  have le: "(of_nat k :: u32) \<le> vm_nregions m1 + 1" if "k \<le> Suc (length ?rs)" for k
    using that u [of "Suc (length ?rs)"] u [of k] unfolding word_le_nat_alt nr by (simp add: add.commute)
  have ut: "unat (of_nat t :: u32) = t" "unat (of_nat (Suc t) :: u32) = Suc t" using u [of t] u [of "Suc t"] t(2) by auto
  show thesis
  proof (cases "av_merged v")
    case None
    let ?m' = "m1\<lparr>vm_regions := (vm_regions m1)[t := b], vm_nregions := of_nat (Suc t)\<rparr>"
    have o: "take t (vm_regions m1) = others" "rg_flags_padding b = 0" using pl None by (simp_all add: placed_def)
    have be: "\<lparr>rg_guest_phys_addr = av_start_addr v, rg_memory_size = av_size v, rg_userspace_addr = av_uaddr v, rg_flags_padding = 0\<rparr> = b"
      using bl o(2) by (simp add: block_of_def)
    have tl: "t < length (vm_regions m1)" using t l1 len cap by simp
    have "vhost_dev_assign_memory s n u0 m = ret ?m'"
      using lp None nz le [of "Suc t"] t region_access(2) [OF tl] by (simp add: vhost_dev_assign_memory_def be algebra_simps)
    moreover have "table ?m' = others @ [b]"
      using ut(2) tl o(1) by (simp add: table_def take_Suc_conv_app_nth del: of_nat_Suc)
    then have "wf_table (table ?m')" "maps (table ?m') a u \<longleftrightarrow> maps (b # others) a u" for a u
      using w1 wf_table_insert [of others b "[]"] by (auto simp: wf_table_Cons maps_def)
    ultimately show thesis using that [of ?m'] wfm [of ?m'] mp l1 ut(2) t(2) len by (simp del: of_nat_Suc)
  next
    case (Some j)
    let ?m' = "m1\<lparr>vm_nregions := of_nat t\<rparr>"
    obtain xs ys where p: "others = xs @ ys" "take t (vm_regions m1) = xs @ b # ys" using pl Some by (auto simp: placed_def)
    have "vhost_dev_assign_memory s n u0 m = ret ?m'"
      using lp Some le [of t] t by (simp add: vhost_dev_assign_memory_def)
    moreover have "table ?m' = xs @ b # ys" using ut(1) p(2) by (simp add: table_def)
    then have "wf_table (table ?m')" "maps (table ?m') a u \<longleftrightarrow> maps (b # others) a u" for a u
      using w1 p(1) wf_table_insert [of xs b ys] by (auto simp: wf_table_Cons maps_def)
    ultimately show thesis using that [of ?m'] wfm [of ?m'] mp l1 ut(1) t(2) len by simp
  qed
qed

section \<open>The contract of the table\<close>

text \<open>
  What the memory listener of a device relies on: removing a range restricts the translation, adding a
  range that is not translated extends it, and both keep the invariant.  Adding needs a free element; so
  does removing when it splits a region.
\<close>

locale range_table =
  fixes inv :: "'t \<Rightarrow> bool" and free :: "'t \<Rightarrow> bool" and cuts :: "u64 \<Rightarrow> u64 \<Rightarrow> 't \<Rightarrow> bool"
    and view :: "'t \<Rightarrow> u64 \<rightharpoonup> u64" and cut :: "u64 \<Rightarrow> u64 \<Rightarrow> 't \<Rightarrow> 't exec"
    and put :: "u64 \<Rightarrow> u64 \<Rightarrow> u64 \<Rightarrow> 't \<Rightarrow> 't exec"
  assumes cut_law: "inv t \<Longrightarrow> fits s n \<Longrightarrow> (cuts s n t \<Longrightarrow> free t) \<Longrightarrow>
        \<exists>t'. cut s n t = ret t' \<and> inv t' \<and> view t' = view t |` (- span s n) \<and> (\<not> cuts s n t \<longrightarrow> free t \<longrightarrow> free t')"
    and cuts_law: "inv t \<Longrightarrow> fits s n \<Longrightarrow> cuts s n t \<Longrightarrow> span s n \<subseteq> dom (view t)"
    and put_law: "inv t \<Longrightarrow> free t \<Longrightarrow> fits s n \<Longrightarrow> fits u n \<Longrightarrow> dom (view t) \<inter> span s n = {} \<Longrightarrow>
        \<exists>t'. put s n u t = ret t' \<and> inv t' \<and> view t' = view t ++ block_view s n u"
begin

lemma cut_cut:
  assumes "inv t" and "fits s n" and "cuts s n t \<Longrightarrow> free t"
  shows "\<exists>t'. bindE (cut s n t) (cut s n) = ret t' \<and> inv t' \<and> view t' = view t |` (- span s n)"
proof -
  obtain t1 where t1: "cut s n t = ret t1" "inv t1" "view t1 = view t |` (- span s n)"
    using cut_law [OF assms] by blast
  have "a \<notin> dom (view t1)" if "a \<in> span s n" for a using that t1(3) by (simp add: dom_def restrict_map_def)
  then have "\<not> cuts s n t1" using cuts_law [OF t1(2) assms(2)] span_ends [OF assms(2)] by blast
  then obtain t2 where "cut s n t1 = ret t2" "inv t2" "view t2 = view t1 |` (- span s n)"
    using cut_law [OF t1(2) assms(2)] by blast
  with t1 show ?thesis by simp
qed

lemma cut_put:
  assumes "inv t" and "fits s n" and "fits u n" and "\<not> cuts s n t" and "free t"
  shows "\<exists>t'. bindE (cut s n t) (put s n u) = ret t' \<and> inv t' \<and> view t' = view t ++ block_view s n u"
proof -
  obtain t1 where t1: "cut s n t = ret t1" "inv t1" "view t1 = view t |` (- span s n)" "free t1"
    using cut_law [OF assms(1,2)] assms(4,5) by blast
  have "dom (view t1) \<inter> span s n = {}" using t1(3) by auto
  then obtain t2 where t2: "put s n u t1 = ret t2" "inv t2" "view t2 = view t1 ++ block_view s n u"
    using put_law [OF t1(2,4) assms(2,3)] by blast
  have "view t2 = view t ++ block_view s n u"
    using t1(3) t2(3) by (auto simp: fun_eq_iff map_add_def block_view_def restrict_map_def)
  with t1 t2 show ?thesis by simp
qed

end

lemma mem_view_iff: "wf_mem m \<Longrightarrow> mem_view m a = Some u \<longleftrightarrow> maps (table m) a u"
  by (simp add: mem_view_def guest_view_iff wf_mem_def)

lemma mem_view_eqI: "wf_mem m \<Longrightarrow> (\<And>a u. f a = Some u \<longleftrightarrow> maps (table m) a u) \<Longrightarrow> mem_view m = f"
  unfolding mem_view_def by (rule guest_view_eqI) (simp_all add: wf_mem_def)

lemma block_region:
  assumes "fits s n" and "fits u n"
  shows "wf_region \<lparr>rg_guest_phys_addr = s, rg_memory_size = n, rg_userspace_addr = u, rg_flags_padding = 0\<rparr>"
    and "maps [\<lparr>rg_guest_phys_addr = s, rg_memory_size = n, rg_userspace_addr = u, rg_flags_padding = 0\<rparr>] a v \<longleftrightarrow>
         block_view s n u a = Some v"
  using assms by (auto simp: wf_region_def maps_def block_view_def reg_span_def reg_off_def algebra_simps)

interpretation mem_table: range_table wf_mem room mem_splits mem_view vhost_dev_unassign_memory vhost_dev_assign_memory
proof
  fix m s n assume wf: "wf_mem m" and s: "fits s n"
  show "\<exists>m'. vhost_dev_unassign_memory s n m = ret m' \<and> wf_mem m' \<and> mem_view m' = mem_view m |` (- span s n) \<and>
      (\<not> mem_splits s n m \<longrightarrow> room m \<longrightarrow> room m')" if "mem_splits s n m \<Longrightarrow> room m"
  proof -
    have cap: "splits s n (table m) \<Longrightarrow> room m" using that by (simp add: mem_splits_def)
    obtain m' where m': "vhost_dev_unassign_memory s n m = ret m'" "wf_mem m'"
      "\<And>a u. maps (table m') a u \<longleftrightarrow> maps (table m) a u \<and> a \<notin> span s n"
      "length (vm_regions m') = length (vm_regions m)"
      "\<not> splits s n (table m) \<Longrightarrow> unat (vm_nregions m') \<le> unat (vm_nregions m)"
      using unassign_spec [OF wf s cap] by blast
    moreover have "mem_view m' = mem_view m |` (- span s n)"
      using m'(3) mem_view_iff [OF wf] by (intro mem_view_eqI m'(2)) (auto simp: restrict_map_def)
    ultimately show ?thesis by (auto simp: mem_splits_def room_def)
  qed
  show "span s n \<subseteq> dom (mem_view m)" if "mem_splits s n m"
  proof
    fix a assume a: "a \<in> span s n"
    obtain r where r: "r \<in> set (table m)" "overlap_of s n r = Middle" using \<open>mem_splits s n m\<close> by (auto simp: mem_splits_def splits_def)
    then have "wf_region r" using wf by (auto simp: wf_mem_def wf_table_def list_all_iff)
    then have "a \<in> reg_span r" using overlap_points(4) [OF _ s r(2)] a by blast
    then have "maps (table m) a (a + reg_off r)" using r(1) by (auto simp: maps_def)
    then show "a \<in> dom (mem_view m)" using mem_view_iff [OF wf] by blast
  qed
next
  fix m s n u assume wf: "wf_mem m" "room m" and s: "fits s n" "fits u n" and new: "dom (mem_view m) \<inter> span s n = {}"
  define b where "b = \<lparr>rg_guest_phys_addr = s, rg_memory_size = n, rg_userspace_addr = u, rg_flags_padding = 0\<rparr>"
  have "apart b r" if "r \<in> set (table m)" for r
  proof -
    have "maps (table m) a (a + reg_off r)" if "a \<in> reg_span r" for a using that \<open>r \<in> set (table m)\<close> by (auto simp: maps_def)
    then have "reg_span r \<subseteq> dom (mem_view m)" using mem_view_iff [OF wf(1)] by blast
    then show ?thesis using new by (auto simp: apart_def reg_span_def b_def)
  qed
  then have "wf_table (b # table m)" using wf(1) block_region(1) [OF s] by (simp add: wf_table_Cons wf_mem_def b_def)
  then obtain m' where m': "vhost_dev_assign_memory s n u m = ret m'" "wf_mem m'"
    "\<And>a v. maps (table m') a v \<longleftrightarrow> maps (b # table m) a v" using assign_spec [OF b_def _ wf] by blast
  have "maps (b # table m) a v \<longleftrightarrow> block_view s n u a = Some v \<or> mem_view m a = Some v" for a v
    using block_region(2) [OF s, of a v] mem_view_iff [OF wf(1), of a v] by (auto simp: maps_def b_def)
  moreover have "block_view s n u a = None" if "mem_view m a = Some v" for a v
    using that new by (auto simp: block_view_def)
  ultimately have "mem_view m' = mem_view m ++ block_view s n u"
    using m'(3) by (intro mem_view_eqI m'(2)) (auto simp: map_add_Some_iff)
  with m' show "\<exists>m'. vhost_dev_assign_memory s n u m = ret m' \<and> wf_mem m' \<and> mem_view m' = mem_view m ++ block_view s n u"
    by blast
qed

end
