(* ===== verification/VhostMemorySpec.thy ===== *)
theory VhostMemorySpec
  imports QemuSample MemTableSpec
begin

text \<open>
  What the memory side of a vhost device guarantees: its table follows the memory map of the guest, as a refinement
  of partial functions from guest to process addresses, and the dirty log of the back end reaches the bitmap of
  the RAM list.  The table is allocated for one more region than it has, which is not enough when a section splits
  a region.
\<close>

section \<open>Specification\<close>

definition section_span :: "MemoryRegionSection \<Rightarrow> u64 set" where
  "section_span se = span (se_offset_within_address_space se) (word_of_int (se_size se))"

text \<open>What the memory listener may assume of a section: it has at least one byte, ends below
  \<open>2\<^sup>6\<^sup>4\<close>, and its memory is at \<open>u\<close> in the process.\<close>

definition section_at :: "MemoryRegionSection \<Rightarrow> RAMList \<Rightarrow> u64 \<Rightarrow> RAMList \<Rightarrow> bool" where
  "section_at se rl u rl' \<longleftrightarrow>
     0 < se_size se \<and> se_size se < 2 ^ 64 \<and> fits (se_offset_within_address_space se) (word_of_int (se_size se)) \<and>
     fits u (word_of_int (se_size se)) \<and>
     (\<exists>p. memory_region_get_ram_ptr (se_mr se) rl = ret (p, rl') \<and> u = p + se_offset_within_region se)"

definition adds :: "MemoryRegionSection \<Rightarrow> bool \<Rightarrow> bool" where
  "adds se add \<longleftrightarrow> add \<and> \<not> memory_region_is_logging (se_mr se)"

text \<open>The translation that the table should have after a change.\<close>

definition view_after :: "MemoryRegionSection \<Rightarrow> bool \<Rightarrow> u64 \<Rightarrow> (u64 \<rightharpoonup> u64) \<Rightarrow> (u64 \<rightharpoonup> u64)" where
  "view_after se add u view =
     (if adds se add then view ++ block_view (se_offset_within_address_space se) (word_of_int (se_size se)) u
      else view |` (- section_span se))"

text \<open>The rest of a device.\<close>

definition other_than_mem :: "vhost_dev \<Rightarrow> vhost_dev" where
  "other_than_mem d =
     d\<lparr>hd_mem := \<lparr>vm_nregions = 0, vm_regions = []\<rparr>, hd_mem_changed_start_addr := 0, hd_mem_changed_end_addr := 0,
       hd_memory_changed := False\<rparr>"

definition small_table :: "vhost_memory \<Rightarrow> bool" where
  "small_table m \<longleftrightarrow> wf_mem m \<and> unat (vm_nregions m) + 1 < 2 ^ 31"

definition meets :: "u64 \<Rightarrow> u64 \<Rightarrow> u64 \<Rightarrow> vhost_memory_region \<Rightarrow> bool" where
  "meets s n u r \<longleftrightarrow>
     reg_last r + 1 = s \<and> range_get_last (rg_userspace_addr r) (rg_memory_size r) + 1 = u \<or>
     range_get_last s n + 1 = rg_guest_phys_addr r \<and> range_get_last u n + 1 = rg_userspace_addr r"

text \<open>The RAM address of a guest address in a section, and the pages that a part of the log stands for.\<close>

definition ram_addr_in :: "MemoryRegionSection \<Rightarrow> u64 \<Rightarrow> u64" where
  "ram_addr_in se a =
     ri_ram_addr (mr_info (se_mr se)) + (a - se_offset_within_address_space se + se_offset_within_region se)"

definition chunk_pages :: "MemoryRegionSection \<Rightarrow> u64 \<Rightarrow> u64 \<Rightarrow> nat set" where
  "chunk_pages se addr w = {page_of (ram_addr_in se (addr + of_nat b * VHOST_LOG_PAGE)) |b. bit w b}"

definition log_pages :: "MemoryRegionSection \<Rightarrow> nat set \<Rightarrow> u64 list \<Rightarrow> nat set" where
  "log_pages se I log = (\<Union>i\<in>I. chunk_pages se (of_nat i * VHOST_LOG_CHUNK) (log ! i))"

definition marked :: "nat set \<Rightarrow> u8 list \<Rightarrow> u8 list" where
  "marked S pd = map (\<lambda>p. if p \<in> S then 0xff else pd ! p) [0 ..< length pd]"

text \<open>A section of RAM that begins at a page.\<close>

definition paged :: "MemoryRegionSection \<Rightarrow> bool" where
  "paged se \<longleftrightarrow> ri_terminates (mr_info (se_mr se)) \<and> aligned (ram_addr_in se 0)"

section \<open>Lemmas\<close>

lemma set_region_length: "set_region i r m = ret m' \<Longrightarrow> length (vm_regions m') = length (vm_regions m)"
  by (auto simp: set_region_def split: if_splits)

lemma assign_step_length:
  "assign_step from v m = ret (v', m') \<Longrightarrow> length (vm_regions m') = length (vm_regions m)"
  by (auto simp: assign_step_def Let_def dest!: set_region_length split: if_splits option.splits)

lemma assign_loop_length:
  "assign_loop n from v m = ret (v', m') \<Longrightarrow> length (vm_regions m') = length (vm_regions m)"
proof (induction n "from" v m rule: assign_loop.induct)
  case (1 n "from" v m)
  from "1.prems" show ?case
    by (subst (asm) assign_loop.simps) (auto split: if_splits dest!: assign_step_length "1.IH" [rotated 2])
qed

lemma assign_length: "vhost_dev_assign_memory s n u m = ret m' \<Longrightarrow> length (vm_regions m') = length (vm_regions m)"
  by (auto simp: vhost_dev_assign_memory_def dest!: assign_loop_length set_region_length split: if_splits)

lemma unassign_step_length:
  "unassign_step s n N from to ov m = ret (to', ov', m') \<Longrightarrow> length (vm_regions m') = length (vm_regions m)"
  by (auto simp: unassign_step_def Let_def dest!: set_region_length split: if_splits)

lemma unassign_loop_length:
  "unassign_loop s n N from to ov m = ret m' \<Longrightarrow> length (vm_regions m') = length (vm_regions m)"
proof (induction s n N "from" to ov m rule: unassign_loop.induct)
  case (1 s n N "from" to ov m)
  from "1.prems" show ?case
    by (subst (asm) unassign_loop.simps) (auto split: if_splits dest!: unassign_step_length "1.IH" [rotated 1])
qed

lemma unassign_length: "vhost_dev_unassign_memory s n m = ret m' \<Longrightarrow> length (vm_regions m') = length (vm_regions m)"
  by (simp add: vhost_dev_unassign_memory_def unassign_loop_length)

lemma realloc_table:
  assumes "small_table m"
  shows "wf_mem (realloc_mem j m)" and "room (realloc_mem j m)" and "table (realloc_mem j m) = table m"
    and "length (vm_regions (realloc_mem j m)) = unat (vm_nregions m) + 1" and "vm_nregions (realloc_mem j m) = vm_nregions m"
proof -
  have n: "unat (vm_nregions m + 1) = unat (vm_nregions m) + 1"
    using assms unat_add_lem [of "vm_nregions m" 1] by (simp add: small_table_def)
  have l: "unat (vm_nregions m) \<le> length (vm_regions m)" using assms by (simp add: small_table_def wf_mem_def)
  show t: "table (realloc_mem j m) = table m"
    using l by (simp add: table_def realloc_mem_def n min_def)
  show c: "length (vm_regions (realloc_mem j m)) = unat (vm_nregions m) + 1" "vm_nregions (realloc_mem j m) = vm_nregions m"
    using l by (simp_all add: realloc_mem_def n)
  show "wf_mem (realloc_mem j m)" "room (realloc_mem j m)"
    using assms t c by (simp_all add: small_table_def wf_mem_def room_def)
qed

lemma find_Some_set: "find P xs = Some x \<Longrightarrow> x \<in> set xs \<and> P x"
  by (induction xs) (auto split: if_splits)

lemma covered_view:
  assumes wf: "wf_mem m" and f: "fits s n" and c: "\<not> vhost_dev_cmp_memory m s n u"
  shows "mem_view m ++ block_view s n u = mem_view m"
proof -
  obtain r where r: "vhost_dev_find_reg m s n = Some r" and b: "\<not> s < rg_guest_phys_addr r" "\<not> range_get_last s n > reg_last r"
    and u: "u = rg_userspace_addr r + s - rg_guest_phys_addr r"
    using c by (auto simp: vhost_dev_cmp_memory_def split: option.splits if_splits)
  have rt: "r \<in> set (table m)" using r by (auto simp: vhost_dev_find_reg_def table_def dest: find_Some_set)
  have "span s n \<subseteq> reg_span r" using b by (auto simp: span_def reg_span_def)
  then have "maps (table m) a (u + (a - s))" if "a \<in> span s n" for a
    using that rt u by (auto simp: maps_def reg_off_def intro!: bexI [of _ r])
  then have "mem_view m a = block_view s n u a" if "block_view s n u a \<noteq> None" for a
    using that wf mem_view_iff [OF wf, of a "u + (a - s)"] by (auto simp: block_view_def split: if_splits)
  then show ?thesis by (intro ext) (auto simp: map_add_def split: option.splits)
qed

lemma untouched_view:
  assumes wf: "wf_mem m" and f: "fits s n" and c: "vhost_dev_find_reg m s n = None"
  shows "mem_view m |` (- span s n) = mem_view m"
proof -
  have "reg_span r \<inter> span s n = {}" if "r \<in> set (table m)" for r
    using that c wf f overlap_iff [of "rg_guest_phys_addr r" "rg_memory_size r" s n]
    by (auto simp: vhost_dev_find_reg_def find_None_iff table_def wf_mem_def wf_table_def list_all_iff wf_region_def reg_span_def)
  then have "mem_view m a \<noteq> Some u" if "a \<in> span s n" for a u
    using that mem_view_iff [OF wf, of a u] by (auto simp: maps_def)
  then have "mem_view m a = None" if "a \<in> span s n" for a using that by (cases "mem_view m a") auto
  then show ?thesis by (intro ext) (auto simp: restrict_map_def)
qed

lemma set_memory_run:
  assumes at: "section_at se (q_ram q) u rl'" and m: "m = realloc_mem (qe_junk_region env (q_io q)) (hd_mem (q_dev q))"
    and s: "s = se_offset_within_address_space se" "n = word_of_int (se_size se)"
  shows "vhost_set_memory env se add q =
    (let q1 = upd_dev (\<lambda>d. d\<lparr>hd_mem := m\<rparr>) (q\<lparr>q_ram := rl'\<rparr>);
         q2 = (\<lambda>m. upd_dev (\<lambda>d. d\<lparr>hd_mem := m,
                 hd_mem_changed_start_addr := min (hd_mem_changed_start_addr d) s,
                 hd_mem_changed_end_addr := max (hd_mem_changed_end_addr d) (s + n - 1),
                 hd_memory_changed := True\<rparr>) q1) in
     if adds se add
     then if \<not> vhost_dev_cmp_memory m s n u then ret q1
          else bindE (bindE (vhost_dev_unassign_memory s n m) (vhost_dev_assign_memory s n u)) (\<lambda>m. ret (q2 m))
     else if vhost_dev_find_reg m s n = None then ret q1
          else bindE (bindE (vhost_dev_unassign_memory s n m) (vhost_dev_unassign_memory s n)) (\<lambda>m. ret (q2 m)))"
proof -
  obtain p where p: "memory_region_get_ram_ptr (se_mr se) (q_ram q) = ret (p, rl')" "u = p + se_offset_within_region se"
    and z: "0 \<le> se_size se" "se_size se < 2 ^ 64" "fits s n"
    using at s by (auto simp: section_at_def)
  have nz: "n \<noteq> 0" using z(3) by (auto simp: fits_def)
  have i: "int128_get64 (se_size se) = ret n" using z s(2) by (simp add: int128_get64_def ensure_def)
  show ?thesis
    unfolding vhost_set_memory_def i bindE_ret Let_def s(1) [symmetric] m [symmetric]
    using nz p by (auto simp: upd_dev_def adds_def bindE_assoc m)
qed

lemma set_memory_spec:
  assumes tab: "small_table (hd_mem (q_dev q))" and at: "section_at se (q_ram q) u rl'"
    and ns: "adds se add \<Longrightarrow> mem_splits (se_offset_within_address_space se) (word_of_int (se_size se)) (hd_mem (q_dev q)) \<Longrightarrow>
      \<not> vhost_dev_cmp_memory (hd_mem (q_dev q)) (se_offset_within_address_space se) (word_of_int (se_size se)) u"
  shows "\<exists>q'. vhost_set_memory env se add q = ret q' \<and> wf_mem (hd_mem (q_dev q')) \<and>
           length (vm_regions (hd_mem (q_dev q'))) = unat (vm_nregions (hd_mem (q_dev q))) + 1 \<and>
           mem_view (hd_mem (q_dev q')) = view_after se add u (mem_view (hd_mem (q_dev q))) \<and>
           other_than_mem (q_dev q') = other_than_mem (q_dev q) \<and> q_ram q' = rl' \<and> q_io q' = q_io q"
proof -
  define s n m where d: "s = se_offset_within_address_space se" "n = (word_of_int (se_size se) :: u64)"
    "m = realloc_mem (qe_junk_region env (q_io q)) (hd_mem (q_dev q))"
  note run = set_memory_run [OF at d(3,1,2), of add]
  note re = realloc_table [OF tab, of "qe_junk_region env (q_io q)", folded d(3)]
  have v: "mem_view m = mem_view (hd_mem (q_dev q))" using re(3) by (simp add: mem_view_def)
  have f: "fits s n" "fits u n" using at d by (auto simp: section_at_def)
  have tm: "take (unat (vm_nregions m)) (vm_regions m) = take (unat (vm_nregions (hd_mem (q_dev q)))) (vm_regions (hd_mem (q_dev q)))"
    using re(3) by (simp add: table_def)
  have cm: "vhost_dev_cmp_memory m s n u = vhost_dev_cmp_memory (hd_mem (q_dev q)) s n u"
    by (simp add: vhost_dev_cmp_memory_def vhost_dev_find_reg_def tm)
  have sp: "mem_splits s n m = mem_splits s n (hd_mem (q_dev q))" using re(3) by (simp add: mem_splits_def)
  consider (same) "adds se add" "\<not> vhost_dev_cmp_memory m s n u" | (put) "adds se add" "vhost_dev_cmp_memory m s n u"
    | (none) "\<not> adds se add" "vhost_dev_find_reg m s n = None" | (cut) r where "\<not> adds se add" "vhost_dev_find_reg m s n = Some r" by blast
  then show ?thesis
  proof cases
    case same
    then show ?thesis using run re(1,4) covered_view [OF re(1) f(1) same(2)] v
      by (simp add: Let_def upd_dev_def view_after_def other_than_mem_def d)
  next
    case put
    then have "\<not> mem_splits s n m" using ns cm sp d(1,2) by blast
    then obtain m' where "bindE (vhost_dev_unassign_memory s n m) (vhost_dev_assign_memory s n u) = ret m'" "wf_mem m'"
      "mem_view m' = mem_view m ++ block_view s n u"
      using mem_table.cut_put [OF re(1) f _ re(2)] by auto
    moreover from this(1) have "length (vm_regions m') = length (vm_regions m)" by (auto dest!: assign_length unassign_length)
    ultimately show ?thesis using run put v re(4) by (simp add: Let_def upd_dev_def view_after_def other_than_mem_def d)
  next
    case none
    then show ?thesis using run re(1,4) untouched_view [OF re(1) f(1) none(2)] v
      by (simp add: Let_def upd_dev_def view_after_def other_than_mem_def section_span_def d)
  next
    case cut
    obtain m' where "bindE (vhost_dev_unassign_memory s n m) (vhost_dev_unassign_memory s n) = ret m'" "wf_mem m'"
      "mem_view m' = mem_view m |` (- span s n)"
      using mem_table.cut_cut [OF re(1) f(1)] re(2) by auto
    moreover from this(1) have "length (vm_regions m') = length (vm_regions m)" by (auto dest!: unassign_length)
    ultimately show ?thesis using run cut v re(4) by (simp add: Let_def upd_dev_def view_after_def other_than_mem_def section_span_def d)
  qed
qed

text \<open>
  C8. The memory listener keeps the table of a device equal to the memory map: adding a section makes the
  table translate exactly the addresses of the section to its memory and every other address as before,
  removing a section (or adding one whose pages are logged) takes exactly its addresses away, the table stays
  well-formed, and nothing else of the device changes.  Adding needs that the section does not lie inside a
  region of the table with other memory.
\<close>

theorem set_memory_refines:
  assumes tab: "small_table (hd_mem (q_dev q))" and at: "section_at se (q_ram q) u rl'"
    and ns: "adds se add \<Longrightarrow> mem_splits (se_offset_within_address_space se) (word_of_int (se_size se)) (hd_mem (q_dev q)) \<Longrightarrow>
      \<not> vhost_dev_cmp_memory (hd_mem (q_dev q)) (se_offset_within_address_space se) (word_of_int (se_size se)) u"
  shows "\<exists>q'. vhost_set_memory env se add q = ret q' \<and> wf_mem (hd_mem (q_dev q')) \<and>
           mem_view (hd_mem (q_dev q')) = view_after se add u (mem_view (hd_mem (q_dev q))) \<and>
           other_than_mem (q_dev q') = other_than_mem (q_dev q) \<and> q_ram q' = rl' \<and> q_io q' = q_io q"
  using set_memory_spec [OF assms] by blast

lemma assign_loop_skips:
  assumes "N \<le> length (vm_regions m)" and "k \<le> N"
    and "\<And>i. i < N \<Longrightarrow> \<not> ranges_overlap (rg_guest_phys_addr (vm_regions m ! i)) (rg_memory_size (vm_regions m ! i)) s n"
    and "\<And>i. i < N \<Longrightarrow> \<not> meets s n u (vm_regions m ! i)"
  shows "assign_loop (int N) (int k) \<lparr>av_to = int k, av_start_addr = s, av_size = n, av_uaddr = u, av_merged = None\<rparr> m =
    ret (\<lparr>av_to = int N, av_start_addr = s, av_size = n, av_uaddr = u, av_merged = None\<rparr>, m)"
  using assms(2)
proof (induction "N - k" arbitrary: k)
  case 0
  then show ?case by (simp add: assign_loop.simps)
next
  case (Suc d)
  then have k: "k < N" by simp
  have "assign_step (int k) \<lparr>av_to = int k, av_start_addr = s, av_size = n, av_uaddr = u, av_merged = None\<rparr> m =
      ret (\<lparr>av_to = int k, av_start_addr = s, av_size = n, av_uaddr = u, av_merged = None\<rparr>, m)"
    using assms(3,4) [OF k] k assms(1) region_access(1) [of k m]
    by (auto simp: assign_step_def Let_def ranges_overlap_def meets_def)
  then show ?case using Suc.hyps(1) [of "Suc k"] Suc.hyps(2) k
    by (simp add: assign_loop.simps [of "int N" "int k"] add.commute)
qed

lemma assign_overflows:
  assumes nr: "unat (vm_nregions m) = length (vm_regions m)" "length (vm_regions m) < 2 ^ 31" and n: "n \<noteq> 0"
    and "\<And>r. r \<in> set (vm_regions m) \<Longrightarrow> \<not> ranges_overlap (rg_guest_phys_addr r) (rg_memory_size r) s n \<and> \<not> meets s n u r"
  shows "vhost_dev_assign_memory s n u m = fail (BadIndex (int (length (vm_regions m))))"
proof -
  have "assign_loop (int (length (vm_regions m))) (int 0) \<lparr>av_to = int 0, av_start_addr = s, av_size = n, av_uaddr = u, av_merged = None\<rparr> m =
      ret (\<lparr>av_to = int (length (vm_regions m)), av_start_addr = s, av_size = n, av_uaddr = u, av_merged = None\<rparr>, m)"
    using assms(4) by (intro assign_loop_skips) auto
  then show ?thesis by (simp add: vhost_dev_assign_memory_def nr(1) set_region_def del: of_nat_unat)
qed

lemma meets_off:
  assumes "meets s n u r" and "wf_region r" and "fits s n"
  shows "reg_off r = u - s" and "s - 1 \<in> reg_span r \<or> s + n \<in> reg_span r"
proof -
  have e: "reg_last r \<in> reg_span r" "rg_guest_phys_addr r \<in> reg_span r"
    using span_ends [of "rg_guest_phys_addr r" "rg_memory_size r"] assms(2) by (auto simp: wf_region_def reg_span_def)
  have "reg_last r = s - 1" if "reg_last r + 1 = s" using that by (simp add: eq_diff_eq)
  with e assms(1) show "s - 1 \<in> reg_span r \<or> s + n \<in> reg_span r"
    by (auto simp: meets_def range_get_last_def)
  have "a + n = g \<Longrightarrow> b + n = h \<Longrightarrow> h - g = b - a" for a b g h :: u64 by auto
  then show "reg_off r = u - s" using assms(1) by (auto simp: meets_def reg_off_def range_get_last_def)
qed

lemma middle_region:
  assumes wf: "wf_mem m" and f: "fits s n" and R: "R \<in> set (table m)" "overlap_of s n R = Middle"
  shows "vhost_dev_find_reg m s n = Some R" and "s - 1 \<in> reg_span R" and "s + n \<in> reg_span R"
    and "vhost_dev_cmp_memory m s n u \<longleftrightarrow> u - s \<noteq> reg_off R"
proof -
  have w: "wf_region r" if "r \<in> set (table m)" for r using wf that by (auto simp: wf_mem_def wf_table_def list_all_iff)
  have ov: "ranges_overlap (rg_guest_phys_addr R) (rg_memory_size R) s n" using R(2) by (auto simp: overlap_of_def split: if_splits)
  obtain r where r: "vhost_dev_find_reg m s n = Some r"
    using ov R(1) by (cases "vhost_dev_find_reg m s n") (auto simp: vhost_dev_find_reg_def find_None_iff table_def)
  then have rt: "r \<in> set (table m)" "ranges_overlap (rg_guest_phys_addr r) (rg_memory_size r) s n"
    by (auto simp: vhost_dev_find_reg_def table_def dest: find_Some_set)
  have "overlap_of s n r \<noteq> Apart" using rt(2) by (simp add: overlap_of_def)
  then have "\<not> apart R r" using overlaps_exclude(1) [OF w [OF R(1)] w [OF rt(1)] f] R(2) by blast
  then have rR: "r = R"
    using wf R(1) rt(1) by (auto simp: wf_mem_def wf_table_def sorted_wrt_iff_nth_less in_set_conv_nth apart_sym)
      (metis apart_sym linorder_neqE_nat)
  then show fr: "vhost_dev_find_reg m s n = Some R" using r by simp
  have b: "unat (rg_guest_phys_addr R) < unat s" "unat s < unat (rg_guest_phys_addr R) + unat (rg_memory_size R)"
    "unat s + unat n < unat (rg_guest_phys_addr R) + unat (rg_memory_size R)"
    using overlap_bounds [OF w [OF R(1)] f] R(2) by auto
  have fR: "fits (rg_guest_phys_addr R) (rg_memory_size R)" using w [OF R(1)] by (simp add: wf_region_def)
  have "unat (s - 1) = unat s - 1" using b(1) by (simp add: unat_sub_if')
  then show "s - 1 \<in> reg_span R" unfolding mem_reg_span [OF w [OF R(1)]] using b by arith
  have "unat (s + n) = unat s + unat n" using f by (simp add: fits_def unat_word_ariths)
  then show "s + n \<in> reg_span R" using b mem_reg_span [OF w [OF R(1)]] by simp
  have "unat (range_get_last s n) = unat s + unat n - 1" "unat (reg_last R) = unat (rg_guest_phys_addr R) + unat (rg_memory_size R) - 1"
    using unat_last f fR by blast+
  then have "\<not> s < rg_guest_phys_addr R" "\<not> reg_last R < range_get_last s n"
    using b by (auto simp: word_less_nat_alt)
  then show "vhost_dev_cmp_memory m s n u \<longleftrightarrow> u - s \<noteq> reg_off R"
    by (auto simp: vhost_dev_cmp_memory_def fr reg_off_def algebra_simps)
qed

lemma split_then_assign:
  assumes wf: "wf_mem m" and l: "length (vm_regions m) = unat (vm_nregions m) + 1" and f: "fits s n"
    and sp: "mem_splits s n m" and c: "vhost_dev_cmp_memory m s n u"
  shows "bindE (vhost_dev_unassign_memory s n m) (vhost_dev_assign_memory s n u) = fail (BadIndex (int (length (vm_regions m))))"
proof -
  obtain R where R: "R \<in> set (table m)" "overlap_of s n R = Middle" using sp by (auto simp: mem_splits_def splits_def)
  note mid = middle_region [OF wf f R]
  have w: "wf_table (table m)" "unat (vm_nregions m) \<le> length (vm_regions m)" "length (vm_regions m) < 2 ^ 31"
    using wf by (simp_all add: wf_mem_def)
  have lt: "length (table m) = unat (vm_nregions m)" using w(2) by (simp add: table_def)
  obtain m' where m': "vhost_dev_unassign_memory s n m = ret m'" "table m' = firsts s n (table m) @ extras s n (table m)"
    "length (vm_regions m') = length (vm_regions m)" "unat (vm_nregions m') = length (firsts s n (table m) @ extras s n (table m))"
    using unassign_table [OF refl w(1) f w(2)] w(3) l by auto
  have "tally s n Middle (table m) \<noteq> 0" using R by (auto simp: tally_0)
  then have "int (length (firsts s n (table m))) + int (length (extras s n (table m))) = int (length (table m)) + 1"
    using middle_alone [OF w(1) f] length_parts [of s n "table m"] by simp
  then have "length (firsts s n (table m)) + length (extras s n (table m)) = length (table m) + 1" by linarith
  then have "length (firsts s n (table m) @ extras s n (table m)) = unat (vm_nregions m) + 1" using lt by simp
  then have full: "unat (vm_nregions m') = length (vm_regions m')" "table m' = vm_regions m'"
    using m'(3,4) l by (simp_all add: table_def)
  have wf': "wf_table (vm_regions m')"
    and mp': "\<And>a v. maps (vm_regions m') a v \<longleftrightarrow> maps (table m) a v \<and> a \<notin> span s n"
    using parts_wf [OF w(1) f] parts_maps [OF w(1) f] unfolding m'(2) [symmetric] full(2) by blast+
  have ok: "\<not> ranges_overlap (rg_guest_phys_addr r) (rg_memory_size r) s n \<and> \<not> meets s n u r" if r: "r \<in> set (vm_regions m')" for r
  proof
    have wr: "wf_region r" using wf' r by (auto simp: wf_table_def list_all_iff)
    have mp: "a \<notin> span s n \<and> maps (table m) a (a + reg_off r)" if "a \<in> reg_span r" for a
      using mp' [of a "a + reg_off r"] that r by (auto simp: maps_def)
    then show "\<not> ranges_overlap (rg_guest_phys_addr r) (rg_memory_size r) s n"
      using overlap_iff [of "rg_guest_phys_addr r" "rg_memory_size r" s n] wr f by (auto simp: wf_region_def reg_span_def)
    have "reg_off r = reg_off R" if "a \<in> reg_span r" "a \<in> reg_span R" for a
      using mp [OF that(1)] that(2) R(1) guest_view_iff [OF w(1), of a] by (auto simp: maps_def)
        (metis add_left_cancel option.inject)
    then show "\<not> meets s n u r" using meets_off [OF _ wr f, of u] mid(2,3) mid(4) [of u] c by metis
  qed
  have "n \<noteq> 0" using f by (auto simp: fits_def)
  then show ?thesis using assign_overflows [OF full(1) _ _ ok] m'(1,3) w(3) by simp
qed

text \<open>
  C35. The table has room for one region more than it holds.  Adding a section that lies inside a region with
  other memory first splits that region, which takes the free element, and then stores the section beyond the
  end of the allocation.
\<close>

theorem set_memory_overflows:
  assumes "small_table (hd_mem (q_dev q))" and "section_at se (q_ram q) u rl'" and "adds se add"
    and "mem_splits (se_offset_within_address_space se) (word_of_int (se_size se)) (hd_mem (q_dev q))"
    and "vhost_dev_cmp_memory (hd_mem (q_dev q)) (se_offset_within_address_space se) (word_of_int (se_size se)) u"
  shows "vhost_set_memory env se add q = fail (BadIndex (int (unat (vm_nregions (hd_mem (q_dev q)))) + 1))"
proof -
  define s n m where d: "s = se_offset_within_address_space se" "n = (word_of_int (se_size se) :: u64)"
    "m = realloc_mem (qe_junk_region env (q_io q)) (hd_mem (q_dev q))"
  note run = set_memory_run [OF assms(2) d(3,1,2), of add]
  note re = realloc_table [OF assms(1), of "qe_junk_region env (q_io q)", folded d(3)]
  have tm: "take (unat (vm_nregions m)) (vm_regions m) = take (unat (vm_nregions (hd_mem (q_dev q)))) (vm_regions (hd_mem (q_dev q)))"
    using re(3) by (simp add: table_def)
  have "vhost_dev_cmp_memory m s n u" "mem_splits s n m"
    using assms(4,5) re(3) d(1,2) by (simp_all add: vhost_dev_cmp_memory_def vhost_dev_find_reg_def tm mem_splits_def)
  moreover have "fits s n" using assms(2) d(1,2) by (simp add: section_at_def)
  ultimately show ?thesis
    using split_then_assign [OF re(1)] re(4,5) run assms(3) by (simp add: Let_def)
qed

lemma marked_marked: "marked S (marked T pd) = marked (S \<union> T) pd"
  by (auto simp: marked_def)

lemma length_marked [simp]: "length (marked S pd) = length pd"
  by (simp add: marked_def)

lemma marked_none [simp]: "marked {} pd = pd"
  by (simp add: marked_def map_nth)

lemma aligned_iff: "aligned a \<longleftrightarrow> take_bit 12 (unat a) = 0"
  by (simp add: aligned_def take_bit_eq_mod dvd_eq_mod_eq_0)

lemma aligned_add: "aligned a \<Longrightarrow> aligned b \<Longrightarrow> aligned (a + b)"
proof -
  assume "aligned a" "aligned b"
  then have "4096 dvd unat a + unat b" by (simp add: aligned_def)
  then show "aligned (a + b)" by (simp add: aligned_def unat_word_ariths dvd_mod_iff)
qed

lemma aligned_times: "aligned (x * VHOST_LOG_PAGE)" "aligned (x * VHOST_LOG_CHUNK)"
proof -
  have "4096 dvd unat x * 4096" "4096 dvd unat x * (4096 * 64)" by simp_all
  then show "aligned (x * VHOST_LOG_PAGE)" "aligned (x * VHOST_LOG_CHUNK)"
    by (simp_all add: aligned_def unat_word_ariths dvd_mod_iff VHOST_LOG_PAGE_def VHOST_LOG_CHUNK_def)
qed

lemma ffsll_cases:
  obtains "ffsll w = 0" "w = 0" | b where "ffsll w = Suc b" "bit w b" "b < 64"
proof (cases "find (bit w) [0 ..< 64]")
  case None
  then have "\<not> bit w b" if "b < 64" for b using that by (auto simp: find_None_iff)
  then have "w = 0" by (intro bit_word_eqI) simp
  then show ?thesis using that(1) None by (simp add: ffsll_def)
next
  case (Some b)
  then have "b \<in> set [0 ..< 64]" "bit w b" using find_Some_set [OF Some] by auto
  then show ?thesis using that(2) Some by (simp add: ffsll_def)
qed

lemma set_dirty_page:
  assumes "paged se" "aligned a" "page_of (ram_addr_in se a) < length (rl_phys_dirty rl)" "length (rl_phys_dirty rl) < 2 ^ 52"
  shows "memory_region_set_dirty (se_mr se) (a - se_offset_within_address_space se + se_offset_within_region se) VHOST_LOG_PAGE rl =
    ret (rl\<lparr>rl_phys_dirty := marked {page_of (ram_addr_in se a)} (rl_phys_dirty rl)\<rparr>)"
proof -
  let ?r = "ram_addr_in se a"
  have "?r = ram_addr_in se 0 + a" by (simp add: ram_addr_in_def)
  then have al: "aligned ?r" using assms(1,2) aligned_add by (simp add: paged_def)
  have "page_of ?r + 1 < 2 ^ 52" using assms(3,4) by simp
  then have "fits ?r VHOST_LOG_PAGE" using aligned_mult [OF al] by (simp add: fits_def VHOST_LOG_PAGE_def)
  then have p: "pages_of ?r VHOST_LOG_PAGE = [page_of ?r]"
    using pages_of_aligned [OF _ al, of VHOST_LOG_PAGE] by (simp add: aligned_def page_of_div VHOST_LOG_PAGE_def)
  have "(0xff :: u8) = - 1" by simp
  then have "(f :: u8) OR 0xff = 0xff" for f by (simp only: bit.disj_one_right)
  moreover have "pd[k := 0xff] = marked {k} pd" if "k < length pd" for k pd
    using that by (intro nth_equalityI) (simp_all add: marked_def nth_list_update)
  ultimately show ?thesis
    using assms(1,3) p
    by (simp add: memory_region_set_dirty_def paged_def ensure_def cpu_physical_memory_set_dirty_range_def
        ram_addr_in_def upd_dirty_def)
qed

lemma sync_bits_spec:
  assumes "paged se" "aligned addr" "length (rl_phys_dirty rl) < 2 ^ 52"
    and "chunk_pages se addr w \<subseteq> {..< length (rl_phys_dirty rl)}"
  shows "sync_bits se addr w rl = ret (rl\<lparr>rl_phys_dirty := marked (chunk_pages se addr w) (rl_phys_dirty rl)\<rparr>)"
  using assms(3,4)
proof (induction "card {b. bit w b}" arbitrary: w rl rule: less_induct)
  case less
  show ?case
  proof (cases rule: ffsll_cases [of w])
    case 1
    then show ?thesis by (simp add: sync_bits.simps [of se addr 0] chunk_pages_def)
  next
    case (2 b)
    define w' where w': "w' = w AND NOT (push_bit b 1)"
    let ?p = "page_of (ram_addr_in se (addr + of_nat b * VHOST_LOG_PAGE))"
    let ?rl = "rl\<lparr>rl_phys_dirty := marked {?p} (rl_phys_dirty rl)\<rparr>"
    have bits: "bit w' c \<longleftrightarrow> bit w c \<and> c \<noteq> b" for c
      using 2(3) bit_imp_le_length [of w c] by (auto simp: w' bit_simps)
    then have "{c. bit w' c} \<subset> {c. bit w c}" using 2(2) by blast
    moreover have "finite {c. bit w c}" by (rule finite_subset [of _ "{..<64}"]) (auto dest: bit_imp_le_length)
    ultimately have less': "card {c. bit w' c} < card {c. bit w c}" by (simp add: psubset_card_mono)
    have pages: "chunk_pages se addr w = insert ?p (chunk_pages se addr w')"
      using 2(2) by (auto simp: chunk_pages_def bits)
    have "sync_bits se addr w' ?rl = ret (?rl\<lparr>rl_phys_dirty := marked (chunk_pages se addr w') (rl_phys_dirty ?rl)\<rparr>)"
      using less.prems pages by (intro less.hyps less') auto
    moreover have "memory_region_set_dirty (se_mr se)
        (addr + of_nat b * VHOST_LOG_PAGE - se_offset_within_address_space se + se_offset_within_region se) VHOST_LOG_PAGE rl = ret ?rl"
      using less.prems pages assms(1,2) by (intro set_dirty_page aligned_add aligned_times) auto
    ultimately show ?thesis
      using 2(1) pages by (simp add: sync_bits.simps [of se addr w] Let_def w' [symmetric, simplified] marked_marked)
  qed
qed

lemma sync_chunks_spec:
  assumes "paged se" "length (rl_phys_dirty rl) < 2 ^ 52" "i + n \<le> length log" "addr = of_nat i * VHOST_LOG_CHUNK"
    and "log_pages se {i ..< i + n} log \<subseteq> {..< length (rl_phys_dirty rl)}"
  shows "sync_chunks se n i addr log rl =
    ret (map (\<lambda>j. if j \<in> {i ..< i + n} then 0 else log ! j) [0 ..< length log],
         rl\<lparr>rl_phys_dirty := marked (log_pages se {i ..< i + n} log) (rl_phys_dirty rl)\<rparr>)"
  using assms(2-)
proof (induction n arbitrary: i addr log rl)
  case 0
  then show ?case by (simp add: log_pages_def map_nth)
next
  case (Suc n)
  let ?P = "chunk_pages se addr (log ! i)" and ?log = "log[i := 0]"
  let ?rl = "rl\<lparr>rl_phys_dirty := marked ?P (rl_phys_dirty rl)\<rparr>"
  have iv: "{i ..< i + Suc n} = insert i {Suc i ..< Suc i + n}" by auto
  have tl: "log_pages se {Suc i ..< Suc i + n} ?log = log_pages se {Suc i ..< Suc i + n} log"
    by (auto simp: log_pages_def)
  have pg: "log_pages se {i ..< i + Suc n} log = ?P \<union> log_pages se {Suc i ..< Suc i + n} log"
    unfolding iv by (simp add: log_pages_def Suc.prems(3))
  have ad: "addr + VHOST_LOG_CHUNK = of_nat (Suc i) * VHOST_LOG_CHUNK" by (simp add: Suc.prems(3) algebra_simps)
  have "sync_chunks se n (Suc i) (addr + VHOST_LOG_CHUNK) ?log ?rl =
      ret (map (\<lambda>j. if j \<in> {Suc i ..< Suc i + n} then 0 else ?log ! j) [0 ..< length ?log],
           ?rl\<lparr>rl_phys_dirty := marked (log_pages se {Suc i ..< Suc i + n} ?log) (rl_phys_dirty ?rl)\<rparr>)"
    using Suc.prems pg tl by (intro Suc.IH ad) auto
  also have "\<dots> = ret (map (\<lambda>j. if j \<in> {i ..< i + Suc n} then 0 else log ! j) [0 ..< length log],
         rl\<lparr>rl_phys_dirty := marked (log_pages se {i ..< i + Suc n} log) (rl_phys_dirty rl)\<rparr>)"
    unfolding tl pg by (auto simp: marked_marked Un_commute nth_list_update)
  finally have rest: "sync_chunks se n (Suc i) (addr + VHOST_LOG_CHUNK) ?log ?rl = \<dots>" .
  have "aligned addr" unfolding Suc.prems(3) by (rule aligned_times)
  then have bits: "sync_bits se addr (log ! i) rl = ret ?rl"
    using Suc.prems pg assms(1) by (intro sync_bits_spec) auto
  have z: "?log = log" "?P = {}" if "log ! i = 0"
    using that Suc.prems(2) by (auto simp: chunk_pages_def intro: list_update_same_conv [THEN iffD2])
  have i: "i < length log" using Suc.prems(2) by simp
  show ?case
  proof (cases "log ! i = 0")
    case True
    have "sync_chunks se (Suc n) i addr log rl = sync_chunks se n (Suc i) (addr + VHOST_LOG_CHUNK) ?log ?rl"
      using i True z by simp
    then show ?thesis using rest by simp
  next
    case False
    have "sync_chunks se (Suc n) i addr log rl = sync_chunks se n (Suc i) (addr + VHOST_LOG_CHUNK) ?log ?rl"
      using i False bits by simp
    then show ?thesis using rest by simp
  qed
qed

text \<open>
  C20. Transferring the dirty log: for the chunks of the log that a range of guest memory touches, every page whose
  bit is set is marked dirty in the bitmap of the RAM list, at its place in the region of the section; these chunks
  are cleared, and no other page or chunk changes.
\<close>

theorem sync_region_transfers:
  assumes "paged se" "length (rl_phys_dirty (q_ram q)) < 2 ^ 52"
    and "hd_log (q_dev q) = Some log" "hd_log_size (q_dev q) = of_nat (length log)" "length log < 2 ^ 46"
    and "lo = max mfirst rfirst" "hi = min mlast rlast" "lo \<le> hi" "unat hi div 0x40000 < length log"
    and "I = {unat lo div 0x40000 .. unat hi div 0x40000}" "log_pages se I log \<subseteq> {..< length (rl_phys_dirty (q_ram q))}"
  shows "vhost_dev_sync_region se mfirst mlast rfirst rlast q =
    ret (q\<lparr>q_ram := (q_ram q)\<lparr>rl_phys_dirty := marked (log_pages se I log) (rl_phys_dirty (q_ram q))\<rparr>,
          q_dev := (q_dev q)\<lparr>hd_log := Some (map (\<lambda>j. if j \<in> I then 0 else log ! j) [0 ..< length log])\<rparr>\<rparr>)"
proof -
  let ?f = "lo div VHOST_LOG_CHUNK" and ?t = "hi div VHOST_LOG_CHUNK"
  have f: "unat ?f = unat lo div 0x40000" "unat ?t = unat hi div 0x40000"
    by (simp_all add: unat_div_distrib VHOST_LOG_CHUNK_def VHOST_LOG_PAGE_def)
  have w: "of_nat (unat lo div 0x40000) = ?f" unfolding f(1) [symmetric] by simp
  have le: "unat ?f \<le> unat ?t" using assms(8) by (simp add: f word_le_nat_alt div_le_mono)
  have ls: "unat (of_nat (length log) :: u64) = length log" using assms(5) by (simp add: unat_of_nat)
  have as: "?t < of_nat (length log)" "?f < of_nat (length log)"
    using assms(9) le by (simp_all add: word_less_nat_alt ls f)
  have I: "I = {unat ?f ..< unat ?f + (unat ?t + 1 - unat ?f)}" using le by (auto simp: assms(10) f)
  have "sync_chunks se (unat ?t + 1 - unat ?f) (unat ?f) (?f * VHOST_LOG_CHUNK) log (q_ram q) =
      ret (map (\<lambda>j. if j \<in> I then 0 else log ! j) [0 ..< length log],
        (q_ram q)\<lparr>rl_phys_dirty := marked (log_pages se I log) (rl_phys_dirty (q_ram q))\<rparr>)"
    unfolding I using assms(9,11) le by (intro sync_chunks_spec assms(1,2)) (auto simp: f I w)
  then show ?thesis
    using assms(3,4,8) as
    by (simp add: vhost_dev_sync_region_def Let_def ensure_def upd_dev_def not_less assms(6,7) [symmetric])
qed

section \<open>Examples\<close>

lemma sample_ptr:
  "qemu_get_ram_ptr 0 sample_ram = ret (0x7f0000000000, sample_ram\<lparr>rl_mru_block := Some sample_block\<rparr>)"
  by (simp add: qemu_get_ram_ptr_def qemu_get_ram_block_def sample_ram_def sample_block_def in_block_def)

lemma sample_section_simps:
  "se_offset_within_address_space sample_section = 0x1000" "se_size sample_section = 0x1000" "se_offset_within_region sample_section = 0"
  "mr_info (se_mr sample_section) = \<lparr>ri_id = 0, ri_ram_addr = 0, ri_terminates = True, ri_ram = True, ri_dirty_log_mask = 0\<rparr>"
  by (simp_all add: sample_section_def sample_mr_def)

lemma sample_section_at:
  "section_at sample_section sample_ram 0x7f0000000000 (sample_ram\<lparr>rl_mru_block := Some sample_block\<rparr>)"
  by (simp add: section_at_def sample_section_def sample_mr_def sample_ptr fits_def ensure_def)

lemma sample_adds: "adds sample_section True"
  by (simp add: adds_def sample_section_def sample_mr_def memory_region_is_logging_def)

theorem set_memory_refines_witness:
  "\<exists>q. vhost_set_memory sample_env sample_section True sample_qemu = ret q \<and>
     mem_view (hd_mem (q_dev q)) 0x1004 = Some 0x7f0000000004 \<and> mem_view (hd_mem (q_dev q)) 0x2000 = None"
proof -
  have "small_table (hd_mem (q_dev sample_qemu))"
    by (simp add: small_table_def sample_qemu_def sample_dev_def wf_mem_def table_def wf_table_def)
  moreover have "\<not> mem_splits a n (hd_mem (q_dev sample_qemu))" and none: "mem_view (hd_mem (q_dev sample_qemu)) a = None" for a n
    by (simp_all add: sample_qemu_def sample_dev_def mem_splits_def splits_def table_def mem_view_def guest_view_def)
  moreover have "section_at sample_section (q_ram sample_qemu) 0x7f0000000000 (sample_ram\<lparr>rl_mru_block := Some sample_block\<rparr>)"
    using sample_section_at by (simp add: sample_qemu_def)
  ultimately obtain q where "vhost_set_memory sample_env sample_section True sample_qemu = ret q"
    "mem_view (hd_mem (q_dev q)) = view_after sample_section True 0x7f0000000000 (mem_view (hd_mem (q_dev sample_qemu)))"
    using set_memory_refines [of sample_qemu sample_section "0x7f0000000000" _ True sample_env] by blast
  then show ?thesis
    using none by (auto simp: view_after_def sample_adds block_view_def sample_section_simps mem_span fits_def map_add_def)
qed

text \<open>The device with one large region, in whose middle the section lies.\<close>

theorem set_memory_overflows_witness:
  "vhost_set_memory sample_env sample_section True (upd_dev (\<lambda>d. d\<lparr>hd_mem := sample_guest_table\<rparr>) sample_qemu) = fail (BadIndex 2)"
proof -
  let ?q = "upd_dev (\<lambda>d. d\<lparr>hd_mem := sample_guest_table\<rparr>) sample_qemu"
  have m: "hd_mem (q_dev ?q) = sample_guest_table" "q_ram ?q = sample_ram" by (simp_all add: upd_dev_def sample_qemu_def)
  have "small_table sample_guest_table"
    by (simp add: small_table_def sample_guest_table_def wf_mem_def table_def wf_table_def wf_region_def fits_def)
  moreover have "mem_splits (se_offset_within_address_space sample_section) (word_of_int (se_size sample_section)) sample_guest_table"
    by (simp add: mem_splits_def splits_def table_def sample_guest_table_def sample_section_def overlap_of_def ranges_overlap_def
        range_get_last_def)
  moreover have "vhost_dev_cmp_memory sample_guest_table (se_offset_within_address_space sample_section) (word_of_int (se_size sample_section)) 0x7f0000000000"
    by (simp add: vhost_dev_cmp_memory_def vhost_dev_find_reg_def sample_guest_table_def sample_section_def ranges_overlap_def range_get_last_def)
  ultimately have "vhost_set_memory sample_env sample_section True ?q = fail (BadIndex (int (unat (vm_nregions sample_guest_table)) + 1))"
    using set_memory_overflows [of ?q sample_section "0x7f0000000000" _ True sample_env] sample_section_at sample_adds by (simp add: m)
  then show ?thesis by (simp add: sample_guest_table_def)
qed

text \<open>The bit of the log for the page at \<^verbatim>\<open>0x1000\<close>, which is the first page of RAM.\<close>

lemma sample_log_pages: "log_pages sample_section {0} [2] = {0}"
proof -
  have "bit (2 :: u64) b \<longleftrightarrow> b = 1" for b by (auto simp: bit_2_iff)
  then show ?thesis
    by (auto simp: log_pages_def chunk_pages_def ram_addr_in_def sample_section_simps VHOST_LOG_PAGE_def page_of_div)
qed

theorem sync_region_transfers_witness:
  "let q = upd_dev (\<lambda>d. d\<lparr>hd_log := Some [2], hd_log_size := 1\<rparr>) sample_qemu in
   \<exists>q'. vhost_dev_sync_region sample_section 0x1000 0x1fff 0 0x3fff q = ret q' \<and> rl_phys_dirty (q_ram q') = [0xff, 8] \<and>
     hd_log (q_dev q') = Some [0]"
proof -
  let ?q = "upd_dev (\<lambda>d. d\<lparr>hd_log := Some [2], hd_log_size := 1\<rparr>) sample_qemu"
  have pd: "rl_phys_dirty (q_ram ?q) = [0, 8]" by (simp add: upd_dev_def sample_qemu_def sample_ram_def)
  have "paged sample_section" by (simp add: paged_def sample_section_simps ram_addr_in_def aligned_def)
  then have "vhost_dev_sync_region sample_section 0x1000 0x1fff 0 0x3fff ?q =
      ret (?q\<lparr>q_ram := (q_ram ?q)\<lparr>rl_phys_dirty := marked (log_pages sample_section {0} [2]) (rl_phys_dirty (q_ram ?q))\<rparr>,
            q_dev := (q_dev ?q)\<lparr>hd_log := Some (map (\<lambda>j. if j \<in> {0} then 0 else [2] ! j) [0 ..< length [2 :: u64]])\<rparr>\<rparr>)"
    by (rule sync_region_transfers [where lo = "0x1000" and hi = "0x1fff"])
      (simp_all add: pd sample_log_pages, simp_all add: upd_dev_def max_def min_def)
  then show ?thesis by (simp add: pd sample_log_pages marked_def)
qed

end
