(* ===== verification/VhostNetSpec.thy ===== *)
theory VhostNetSpec
  imports VhostMemorySpec
begin

text \<open>
  The vhost-user network client: registering the memory listener gives a new device the memory map of the guest, a client
  can connect and can drop its device, and stopping a started device whose connection is lost ends QEMU.
\<close>

section \<open>Specification\<close>

text \<open>Where the memory of a region is, by the blocks of RAM.\<close>

fun region_ptr :: "RAMBlock list \<Rightarrow> MemoryRegion \<Rightarrow> u64 option" where
  "region_ptr bs (Alias i mr off) = map_option (\<lambda>p. p + off) (region_ptr bs mr)"
| "region_ptr bs (Region i) =
     (if ri_terminates i
      then map_option (\<lambda>b. rb_host b + ((ri_ram_addr i AND TARGET_PAGE_MASK) - rb_offset b))
             (find (in_block (ri_ram_addr i AND TARGET_PAGE_MASK)) bs)
      else None)"

definition section_view :: "RAMBlock list \<Rightarrow> MemoryRegionSection \<Rightarrow> u64 \<rightharpoonup> u64" where
  "section_view bs se =
     (if vhost_section se \<and> \<not> memory_region_is_logging (se_mr se)
      then case region_ptr bs (se_mr se) of
             Some p \<Rightarrow> block_view (se_offset_within_address_space se) (word_of_int (se_size se)) (p + se_offset_within_region se)
           | None \<Rightarrow> Map.empty
      else Map.empty)"

text \<open>The memory map that a list of sections describes.\<close>

definition machine_map :: "RAMBlock list \<Rightarrow> MemoryRegionSection list \<Rightarrow> u64 \<rightharpoonup> u64" where
  "machine_map bs ss = foldl (++) Map.empty (map (section_view bs) ss)"

definition backed :: "RAMBlock list \<Rightarrow> MemoryRegionSection \<Rightarrow> bool" where
  "backed bs se \<longleftrightarrow>
     0 < se_size se \<and> se_size se < 2 ^ 64 \<and> fits (se_offset_within_address_space se) (word_of_int (se_size se)) \<and>
     (\<exists>p. region_ptr bs (se_mr se) = Some p \<and> fits (p + se_offset_within_region se) (word_of_int (se_size se)))"

text \<open>What the board guarantees: sections of RAM are backed by blocks and do not overlap.\<close>

definition sections_ok :: "RAMBlock list \<Rightarrow> MemoryRegionSection list \<Rightarrow> bool" where
  "sections_ok bs ss \<longleftrightarrow>
     list_all (backed bs) (filter vhost_section ss) \<and>
     sorted_wrt (\<lambda>a b. section_span a \<inter> section_span b = {}) (filter vhost_section ss)"

text \<open>The device without its memory table and its list of sections.\<close>

definition rest_of :: "vhost_dev \<Rightarrow> vhost_dev" where
  "rest_of d = (other_than_mem d)\<lparr>hd_mem_sections := []\<rparr>"

text \<open>An environment in which the server accepts connections and every message is sent.\<close>

definition answering :: "qenv \<Rightarrow> bool" where
  "answering env \<longleftrightarrow>
     (\<forall>io. qe_sendmsg env io \<ge> 0 \<and> qe_socket env io \<ge> 0 \<and> qe_setsockopt env io = 0 \<and> qe_connect env io = 0 \<and> qe_eventfd env io \<ge> 0)"

definition simple_request :: "u64 \<Rightarrow> vhost_arg \<Rightarrow> bool" where
  "simple_request r arg \<longleftrightarrow>
     r = VHOST_SET_OWNER \<or> r = VHOST_GET_FEATURES \<or> r = VHOST_SET_VRING_CALL \<and> (\<exists>f. arg = ArgFile f)"

text \<open>What the code finds when it registers a memory listener.\<close>

definition listener_ok :: "qemu \<Rightarrow> bool" where
  "listener_ok q \<longleftrightarrow>
     ram_ok (q_ram q) \<and> sections_ok (rl_blocks (q_ram q)) (q_view q) \<and> length (q_view q) < 2 ^ 31 - 1"

definition attached :: "qemu \<Rightarrow> vhost_dev \<Rightarrow> bool" where
  "attached q d \<longleftrightarrow>
     hd_control d \<ge> 0 \<and> hd_vhost_ops d = VHOST_BACKEND_TYPE_USER \<and> hd_nvqs d = 2 \<and> length (hd_vqs d) = 2 \<and>
     mem_view (hd_mem d) = machine_map (rl_blocks (q_ram q)) (q_view q)"

section \<open>Lemmas\<close>

lemma get_ram_ptr_found:
  assumes "ram_ok rl" "find (in_block a) (rl_blocks rl) = Some b"
  shows "\<exists>rl'. qemu_get_ram_ptr a rl = ret (rb_host b + (a - rb_offset b), rl') \<and> ram_ok rl' \<and> rl_blocks rl' = rl_blocks rl"
  using get_ram_block_spec [OF assms(1), of a] assms
  by (auto simp: qemu_get_ram_ptr_def same_memory_def ram_ok_def mru_ok_def)

lemma region_ptr_spec:
  "ram_ok rl \<Longrightarrow> region_ptr (rl_blocks rl) mr = Some p \<Longrightarrow>
   \<exists>rl'. memory_region_get_ram_ptr mr rl = ret (p, rl') \<and> ram_ok rl' \<and> rl_blocks rl' = rl_blocks rl"
proof (induction mr arbitrary: p)
  case (Region i)
  then obtain b where b: "ri_terminates i" "find (in_block (ri_ram_addr i AND TARGET_PAGE_MASK)) (rl_blocks rl) = Some b"
    "p = rb_host b + ((ri_ram_addr i AND TARGET_PAGE_MASK) - rb_offset b)"
    by (auto split: if_splits)
  then show ?case using get_ram_ptr_found [OF Region.prems(1) b(2)] by (simp add: ensure_def)
next
  case (Alias i mr off)
  then obtain p' where "region_ptr (rl_blocks rl) mr = Some p'" "p = p' + off" by auto
  then show ?case using Alias.IH [OF Alias.prems(1)] by fastforce
qed

lemma backed_section_at:
  assumes "ram_ok rl" "backed (rl_blocks rl) se"
  obtains u rl' where "section_at se rl u rl'" "ram_ok rl'" "rl_blocks rl' = rl_blocks rl"
    "section_view (rl_blocks rl) se =
      (if vhost_section se \<and> \<not> memory_region_is_logging (se_mr se)
       then block_view (se_offset_within_address_space se) (word_of_int (se_size se)) u else Map.empty)"
proof -
  obtain p where p: "region_ptr (rl_blocks rl) (se_mr se) = Some p" "fits (p + se_offset_within_region se) (word_of_int (se_size se))"
    using assms(2) by (auto simp: backed_def)
  obtain rl' where "memory_region_get_ram_ptr (se_mr se) rl = ret (p, rl')" "ram_ok rl'" "rl_blocks rl' = rl_blocks rl"
    using region_ptr_spec [OF assms(1) p(1)] by blast
  then show thesis
    using that [of "p + se_offset_within_region se" rl'] assms(2) p by (auto simp: section_at_def backed_def section_view_def)
qed

lemma restrict_disjoint: "dom f \<inter> A = {} \<Longrightarrow> f |` (- A) = f"
  by (rule ext) (metis ComplI disjoint_iff domIff restrict_in restrict_out)

lemma rest_ofD:
  assumes "rest_of d' = rest_of d"
  shows "hd_control d' = hd_control d" "hd_vhost_ops d' = hd_vhost_ops d" "hd_vqs d' = hd_vqs d" "hd_nvqs d' = hd_nvqs d"
    "hd_started d' = hd_started d"
  using arg_cong [OF assms, of hd_control] arg_cong [OF assms, of hd_vhost_ops] arg_cong [OF assms, of hd_vqs]
    arg_cong [OF assms, of hd_nvqs] arg_cong [OF assms, of hd_started]
  by (simp_all add: rest_of_def other_than_mem_def)

lemma region_add_new:
  assumes tab: "small_table (hd_mem (q_dev q))" and ram: "ram_ok (q_ram q)" and se: "vhost_section se" "backed (rl_blocks (q_ram q)) se"
    and new: "dom (mem_view (hd_mem (q_dev q))) \<inter> section_span se = {}"
  shows "\<exists>q'. vhost_region_add env se q = ret q' \<and> wf_mem (hd_mem (q_dev q')) \<and>
     length (vm_regions (hd_mem (q_dev q'))) = unat (vm_nregions (hd_mem (q_dev q))) + 1 \<and>
     mem_view (hd_mem (q_dev q')) = mem_view (hd_mem (q_dev q)) ++ section_view (rl_blocks (q_ram q)) se \<and>
     rest_of (q_dev q') = rest_of (q_dev q) \<and> hd_mem_sections (q_dev q') = hd_mem_sections (q_dev q) @ [se] \<and>
     ram_ok (q_ram q') \<and> rl_blocks (q_ram q') = rl_blocks (q_ram q)"
proof -
  let ?q = "log_io (QMemRef (ri_id (mr_info (se_mr se)))) (upd_dev (\<lambda>d. d\<lparr>hd_mem_sections := hd_mem_sections d @ [se]\<rparr>) q)"
  have q: "hd_mem (q_dev ?q) = hd_mem (q_dev q)" "q_ram ?q = q_ram q" "hd_mem_sections (q_dev ?q) = hd_mem_sections (q_dev q) @ [se]"
    by (simp_all add: log_io_def upd_dev_def)
  obtain u rl' where at: "section_at se (q_ram ?q) u rl'" "ram_ok rl'" "rl_blocks rl' = rl_blocks (q_ram q)"
    "section_view (rl_blocks (q_ram q)) se =
      (if vhost_section se \<and> \<not> memory_region_is_logging (se_mr se)
       then block_view (se_offset_within_address_space se) (word_of_int (se_size se)) u else Map.empty)"
    using backed_section_at [OF ram se(2)] q(2) by metis
  have f: "fits (se_offset_within_address_space se) (word_of_int (se_size se))" using se(2) by (simp add: backed_def)
  have "\<not> mem_splits (se_offset_within_address_space se) (word_of_int (se_size se)) (hd_mem (q_dev q))"
    using mem_table.cuts_law [OF _ f, of "hd_mem (q_dev q)"] new tab span_ends [OF f]
    by (auto simp: small_table_def section_span_def)
  then obtain q' where q': "vhost_set_memory env se True ?q = ret q'" "wf_mem (hd_mem (q_dev q'))"
    "length (vm_regions (hd_mem (q_dev q'))) = unat (vm_nregions (hd_mem (q_dev ?q))) + 1"
    "mem_view (hd_mem (q_dev q')) = view_after se True u (mem_view (hd_mem (q_dev ?q)))"
    "other_than_mem (q_dev q') = other_than_mem (q_dev ?q)" "q_ram q' = rl'"
    using set_memory_spec [OF _ at(1), of True env] tab q(1) by auto
  have "view_after se True u (mem_view (hd_mem (q_dev q))) = mem_view (hd_mem (q_dev q)) ++ section_view (rl_blocks (q_ram q)) se"
    using at(4) se(1) restrict_disjoint [OF new] by (simp add: view_after_def adds_def)
  moreover have "rest_of (q_dev q') = rest_of (q_dev q)" using q'(5) by (simp add: rest_of_def other_than_mem_def log_io_def upd_dev_def)
  moreover have "hd_mem_sections (q_dev q') = hd_mem_sections (q_dev q) @ [se]"
    using arg_cong [OF q'(5), of hd_mem_sections] q(3) by (simp add: other_than_mem_def)
  ultimately show ?thesis using q' at(2,3) se(1) q(1) by (simp add: vhost_region_add_def)
qed

lemma section_view_dom: "dom (section_view bs se) \<subseteq> section_span se"
  by (auto simp: section_view_def block_view_def section_span_def split: if_splits option.splits)

lemma section_view_other: "\<not> vhost_section se \<Longrightarrow> section_view bs se = Map.empty"
  by (simp add: section_view_def)

lemma sections_ok_Cons:
  "sections_ok bs (se # ss) \<longleftrightarrow> sections_ok bs ss \<and>
     (vhost_section se \<longrightarrow> backed bs se \<and> (\<forall>se'\<in>set ss. vhost_section se' \<longrightarrow> section_span se \<inter> section_span se' = {}))"
  by (auto simp: sections_ok_def)

lemma add_sections_map:
  assumes "wf_mem (hd_mem (q_dev q))" "ram_ok (q_ram q)" "sections_ok (rl_blocks (q_ram q)) ss"
    and "length (vm_regions (hd_mem (q_dev q))) + length ss < 2 ^ 31 - 1"
    and "\<And>se. se \<in> set ss \<Longrightarrow> vhost_section se \<Longrightarrow> dom (mem_view (hd_mem (q_dev q))) \<inter> section_span se = {}"
  shows "\<exists>q'. add_sections env ss q = ret q' \<and> wf_mem (hd_mem (q_dev q')) \<and>
     mem_view (hd_mem (q_dev q')) = foldl (++) (mem_view (hd_mem (q_dev q))) (map (section_view (rl_blocks (q_ram q))) ss) \<and>
     rest_of (q_dev q') = rest_of (q_dev q) \<and> hd_mem_sections (q_dev q') = hd_mem_sections (q_dev q) @ filter vhost_section ss"
  using assms
proof (induction ss arbitrary: q)
  case Nil
  then show ?case by simp
next
  case (Cons se ss)
  show ?case
  proof (cases "vhost_section se")
    case False
    then show ?thesis
      using Cons.IH [of q] Cons.prems by (simp add: vhost_region_add_def sections_ok_Cons section_view_other)
  next
    case True
    have wf: "unat (vm_nregions (hd_mem (q_dev q))) \<le> length (vm_regions (hd_mem (q_dev q)))"
      using Cons.prems(1) by (simp add: wf_mem_def)
    have "small_table (hd_mem (q_dev q))" using Cons.prems(1,4) wf by (simp add: small_table_def)
    moreover have "dom (mem_view (hd_mem (q_dev q))) \<inter> section_span se = {}" using Cons.prems(5) True by simp
    ultimately obtain q1 where q1: "vhost_region_add env se q = ret q1" "wf_mem (hd_mem (q_dev q1))"
      "length (vm_regions (hd_mem (q_dev q1))) = unat (vm_nregions (hd_mem (q_dev q))) + 1"
      "mem_view (hd_mem (q_dev q1)) = mem_view (hd_mem (q_dev q)) ++ section_view (rl_blocks (q_ram q)) se"
      "rest_of (q_dev q1) = rest_of (q_dev q)" "hd_mem_sections (q_dev q1) = hd_mem_sections (q_dev q) @ [se]"
      "ram_ok (q_ram q1)" "rl_blocks (q_ram q1) = rl_blocks (q_ram q)"
      using region_add_new [of q se env] Cons.prems(2,3) True by (auto simp: sections_ok_Cons)
    have "dom (mem_view (hd_mem (q_dev q1))) \<inter> section_span se' = {}" if "se' \<in> set ss" "vhost_section se'" for se'
    proof -
      have "dom (mem_view (hd_mem (q_dev q))) \<inter> section_span se' = {}" using Cons.prems(5) [of se'] that by simp
      moreover have "section_span se \<inter> section_span se' = {}" using Cons.prems(3) True that by (simp add: sections_ok_Cons)
      ultimately show ?thesis using section_view_dom [of "rl_blocks (q_ram q)" se] by (auto simp: q1(4))
    qed
    then have "\<exists>q'. add_sections env ss q1 = ret q' \<and> wf_mem (hd_mem (q_dev q')) \<and>
        mem_view (hd_mem (q_dev q')) = foldl (++) (mem_view (hd_mem (q_dev q1))) (map (section_view (rl_blocks (q_ram q1))) ss) \<and>
        rest_of (q_dev q') = rest_of (q_dev q1) \<and> hd_mem_sections (q_dev q') = hd_mem_sections (q_dev q1) @ filter vhost_section ss"
      using q1 wf Cons.prems(3,4) by (intro Cons.IH) (auto simp: sections_ok_Cons)
    then show ?thesis using q1 True by auto
  qed
qed

lemma answeringD:
  assumes "answering env"
  shows "qe_sendmsg env io \<ge> 0" "qe_socket env io \<ge> 0" "qe_setsockopt env io = 0" "qe_connect env io = 0" "qe_eventfd env io \<ge> 0"
    "\<not> qe_sendmsg env io < 0" "qe_socket env io \<noteq> -1"
proof -
  show "qe_sendmsg env io \<ge> 0" "qe_socket env io \<ge> 0" "qe_setsockopt env io = 0" "qe_connect env io = 0" "qe_eventfd env io \<ge> 0"
    using assms by (auto simp: answering_def)
  then show "\<not> qe_sendmsg env io < 0" "qe_socket env io \<noteq> -1" by auto
qed

lemma send_ok:
  assumes "answering env"
  shows "\<exists>io. vhost_user_send_fds env fd m fds q = ret (0, q\<lparr>q_io := io\<rparr>)"
  by (rule exI) (subst vhost_user_send_fds_def, subst sendmsg_retry.simps, simp add: answeringD [OF assms] log_io_def)

lemma echo_ok:
  assumes "answering env" "hd_control (q_dev q) \<ge> 0"
  shows "\<exists>io. vhost_user_echo env q = ret (0, q\<lparr>q_io := io\<rparr>)"
proof -
  obtain io where "vhost_user_send_fds env (hd_control (q_dev q)) (fresh_msg env (request_code VHOST_USER_ECHO) (q_io q)) [] q = ret (0, q\<lparr>q_io := io\<rparr>)"
    using send_ok [OF assms(1)] by blast
  then show ?thesis using assms(2) by (auto simp: vhost_user_echo_def Let_def)
qed

lemma fill_simple:
  assumes "simple_request r arg"
  shows "\<exists>m' fds. fill_msg r arg rl m = ret (Some (m', fds))"
  using assms
  by (auto simp: simple_request_def fill_msg_def read_arg_def file_bytes_def Let_def ioctl_defs)

lemma call_ok:
  assumes "answering env" "hd_control (q_dev q) \<ge> 0" "hd_vhost_ops (q_dev q) = VHOST_BACKEND_TYPE_USER" "simple_request r arg"
  shows "\<exists>io. vhost_call env r arg q = ret (0, arg, q\<lparr>q_io := io\<rparr>)"
proof -
  obtain m fds where "fill_msg r arg (q_ram q) (fresh_msg env (vhost_user_request_translate r) (q_io q)) = ret (Some (m, fds))"
    using fill_simple [OF assms(4)] by blast
  moreover obtain io where "vhost_user_send_fds env (hd_control (q_dev q)) m fds q = ret (0, q\<lparr>q_io := io\<rparr>)"
    using send_ok [OF assms(1)] by blast
  ultimately show ?thesis using assms(2,3) by (auto simp: vhost_call_def vhost_user_call_def ensure_def Let_def)
qed

lemma dev_io_order: "q\<lparr>q_io := a, q_dev := d\<rparr> = q\<lparr>q_dev := d, q_io := a\<rparr>"
  by simp

lemma init_ok:
  assumes "answering env" "hd_vhost_ops (q_dev q) = VHOST_BACKEND_TYPE_USER" "length path < 108"
  shows "\<exists>fd io. fd \<ge> 0 \<and> vhost_user_init env path q = ret (fd, q\<lparr>q_dev := (q_dev q)\<lparr>hd_control := fd\<rparr>, q_io := io\<rparr>)"
proof -
  define fd where fd: "fd = qe_socket env (q_io q @ [QSocket])"
  let ?q = "\<lambda>io. q\<lparr>q_dev := (q_dev q)\<lparr>hd_control := fd\<rparr>, q_io := io\<rparr>"
  have nn: "fd \<ge> 0" "fd \<noteq> -1" using answeringD [OF assms(1)] by (simp_all add: fd)
  define io0 where io0: "io0 = q_io q @ [QSocket, QSndTimeo fd, QRcvTimeo fd, QConnect fd path] @
    (if hd_control (q_dev q) \<ge> 0 then [QClose (hd_control (q_dev q))] else [])"
  obtain io where echo: "vhost_user_echo env (?q io0) = ret (0, (?q io0)\<lparr>q_io := io\<rparr>)"
    using echo_ok [OF assms(1), of "?q io0"] nn by auto
  have "vhost_user_init env path q = bindE (vhost_user_echo env (?q io0)) (\<lambda>(r, q).
      if r < 0 then ret (-1, log_io (QClose fd) (upd_dev (\<lambda>d. d\<lparr>hd_control := -1\<rparr>) q)) else ret (fd, q))"
    using nn assms(2,3) answeringD(3,4) [OF assms(1)]
    by (simp add: vhost_user_init_def ensure_def Let_def log_io_def upd_dev_def fd [symmetric] vhost_user_cleanup_def io0 dev_io_order cong: if_cong)
  then show ?thesis using echo nn by auto
qed

lemma ring_init_ok:
  assumes "answering env" "hd_control (q_dev q) \<ge> 0" "hd_vhost_ops (q_dev q) = VHOST_BACKEND_TYPE_USER" "i < length (hd_vqs (q_dev q))"
  shows "\<exists>io vqs. vhost_virtqueue_init env (int i) q = ret (0, q\<lparr>q_dev := (q_dev q)\<lparr>hd_vqs := vqs\<rparr>, q_io := io\<rparr>) \<and>
    length vqs = length (hd_vqs (q_dev q))"
proof -
  let ?io = "q_io q @ [QEventfd]"
  let ?fd = "qe_eventfd env ?io"
  let ?e = "\<lparr>en_rfd = ?fd, en_wfd = ?fd\<rparr>"
  let ?q = "put_hq (int i) (\<lambda>vq. vq\<lparr>hq_masked_notifier := ?e\<rparr>) (q\<lparr>q_io := ?io\<rparr>)"
  have g: "get_hq (q_dev q) (int i) = ret (hd_vqs (q_dev q) ! i)" using assms(4) by (simp add: get_hq_def)
  have e: "event_notifier_init env False x (q_io q) = ret (0, ?e, ?io)" for x
    using answeringD(5) [OF assms(1)] by (simp add: event_notifier_init_def Let_def)
  have "hd_control (q_dev ?q) \<ge> 0" "hd_vhost_ops (q_dev ?q) = VHOST_BACKEND_TYPE_USER"
    using assms(2,3) by (simp_all add: put_hq_def upd_dev_def)
  then obtain io where "vhost_call env VHOST_SET_VRING_CALL (ArgFile \<lparr>vf_index = word_of_int (int i), vf_fd = event_notifier_get_fd ?e\<rparr>) ?q =
      ret (0, ArgFile \<lparr>vf_index = word_of_int (int i), vf_fd = event_notifier_get_fd ?e\<rparr>, ?q\<lparr>q_io := io\<rparr>)"
    using call_ok [OF assms(1), of ?q VHOST_SET_VRING_CALL] by (auto simp: simple_request_def)
  then have "vhost_virtqueue_init env (int i) q = ret (0, ?q\<lparr>q_io := io\<rparr>)"
    unfolding vhost_virtqueue_init_def g bindE_ret e prod.case Let_def by simp
  then show ?thesis
    by (intro exI [of _ io] exI [of _ "hd_vqs (q_dev ?q)"]) (simp add: put_hq_def upd_dev_def)
qed

lemma rings_init_ok:
  assumes "answering env" "hd_control (q_dev q) \<ge> 0" "hd_vhost_ops (q_dev q) = VHOST_BACKEND_TYPE_USER" "i + n \<le> length (hd_vqs (q_dev q))"
  shows "\<exists>io vqs. init_rings env n i q = ret (0, i + n, q\<lparr>q_dev := (q_dev q)\<lparr>hd_vqs := vqs\<rparr>, q_io := io\<rparr>) \<and>
    length vqs = length (hd_vqs (q_dev q))"
  using assms(2-)
proof (induction n arbitrary: i q)
  case 0
  then show ?case by (intro exI [of _ "q_io q"] exI [of _ "hd_vqs (q_dev q)"]) simp
next
  case (Suc n)
  then have "i < length (hd_vqs (q_dev q))" by simp
  then obtain io vqs where r: "vhost_virtqueue_init env (int i) q = ret (0, q\<lparr>q_dev := (q_dev q)\<lparr>hd_vqs := vqs\<rparr>, q_io := io\<rparr>)"
      "length vqs = length (hd_vqs (q_dev q))"
    using ring_init_ok [OF assms(1) Suc.prems(1,2)] by blast
  let ?q = "q\<lparr>q_dev := (q_dev q)\<lparr>hd_vqs := vqs\<rparr>, q_io := io\<rparr>"
  obtain io' vqs' where "init_rings env n (Suc i) ?q = ret (0, Suc i + n, ?q\<lparr>q_dev := (q_dev ?q)\<lparr>hd_vqs := vqs'\<rparr>, q_io := io'\<rparr>)"
      "length vqs' = length (hd_vqs (q_dev ?q))"
    using Suc.IH [of ?q "Suc i"] Suc.prems r(2) by auto
  then show ?case using r by auto
qed

lemma listener_map:
  assumes "listener_ok q" "hd_mem (q_dev q) = \<lparr>vm_nregions = 0, vm_regions = []\<rparr>" "\<not> hd_started (q_dev q)"
  shows "\<exists>q' b. memory_listener_register env q = ret q' \<and> mem_view (hd_mem (q_dev q')) = machine_map (rl_blocks (q_ram q)) (q_view q) \<and>
    rest_of (q_dev q') = (rest_of (q_dev q))\<lparr>hd_log_enabled := b\<rparr>"
proof -
  let ?q = "\<lambda>b. log_io (QListener True) (upd_dev (\<lambda>d. d\<lparr>hd_log_enabled := b\<rparr>) q)"
  obtain b where b: "(if q_global_dirty_log q then vhost_log_global_start env (log_io (QListener True) q) else ret (log_io (QListener True) q)) = ret (?q b)"
  proof (cases "q_global_dirty_log q \<and> \<not> hd_log_enabled (q_dev q)")
    case True
    then show thesis
      using that [of True] assms(3) by (simp add: vhost_log_global_start_def vhost_migration_log_def log_io_def upd_dev_def)
  next
    case False
    then show thesis
      using that [of "hd_log_enabled (q_dev q)"]
      by (auto simp: vhost_log_global_start_def vhost_migration_log_def log_io_def upd_dev_def)
  qed
  have m: "hd_mem (q_dev (?q b)) = \<lparr>vm_nregions = 0, vm_regions = []\<rparr>" "q_ram (?q b) = q_ram q" "q_view (?q b) = q_view q"
    using assms(2) by (simp_all add: log_io_def upd_dev_def)
  have v: "mem_view \<lparr>vm_nregions = 0, vm_regions = []\<rparr> = Map.empty" "wf_mem \<lparr>vm_nregions = 0, vm_regions = []\<rparr>"
    by (simp_all add: mem_view_def guest_view_def table_def wf_mem_def wf_table_def fun_eq_iff)
  obtain q' where "add_sections env (q_view q) (?q b) = ret q'"
    "mem_view (hd_mem (q_dev q')) = foldl (++) Map.empty (map (section_view (rl_blocks (q_ram q))) (q_view q))"
    "rest_of (q_dev q') = rest_of (q_dev (?q b))"
    using add_sections_map [of "?q b" "q_view q" env] assms(1) v by (auto simp: m listener_ok_def)
  moreover have "rest_of (q_dev (?q b)) = (rest_of (q_dev q))\<lparr>hd_log_enabled := b\<rparr>"
    by (simp add: rest_of_def other_than_mem_def log_io_def upd_dev_def)
  moreover have "q_global_dirty_log (log_io e q) = q_global_dirty_log q" "q_view (log_io e q) = q_view q" for e
    by (simp_all add: log_io_def)
  ultimately show ?thesis using b by (auto simp: memory_listener_register_def Let_def machine_map_def m(3))
qed

lemma dev_init_ok:
  assumes "answering env" "length path < 108" "listener_ok q" "hd_nvqs (q_dev q) = 2" "length (hd_vqs (q_dev q)) = 2"
  shows "\<exists>q'. vhost_dev_init env (-1) path VHOST_BACKEND_TYPE_USER True q = ret (0, q') \<and> attached q (q_dev q')"
proof -
  define same where same: "same = (\<lambda>q' :: qemu. q_ram q' = q_ram q \<and> q_view q' = q_view q)"
  define q0 where q0: "q0 = upd_dev (\<lambda>d. d\<lparr>hd_vhost_ops := VHOST_BACKEND_TYPE_USER\<rparr>) q"
  have bt: "vhost_set_backend_type VHOST_BACKEND_TYPE_USER q = (0, q0)" by (simp add: vhost_set_backend_type_def q0)
  have d0: "hd_vhost_ops (q_dev q0) = VHOST_BACKEND_TYPE_USER" "hd_nvqs (q_dev q0) = 2" "length (hd_vqs (q_dev q0)) = 2" "same q0"
    using assms(4,5) by (simp_all add: q0 upd_dev_def same)
  obtain fd q1 where c0: "vhost_user_init env path q0 = ret (fd, q1)" "fd \<ge> 0"
      and d1: "q_dev q1 = (q_dev q0)\<lparr>hd_control := fd\<rparr>" "same q1"
    using init_ok [OF assms(1) d0(1) assms(2)] d0(4) by (auto simp: same)
  have "hd_control (q_dev q1) \<ge> 0" "hd_vhost_ops (q_dev q1) = VHOST_BACKEND_TYPE_USER" using c0(2) d0(1) by (simp_all add: d1)
  then obtain q2 where c1: "vhost_call env VHOST_SET_OWNER ArgNull q1 = ret (0, ArgNull, q2)" and d2: "q_dev q2 = q_dev q1" "same q2"
    using call_ok [OF assms(1), of q1 VHOST_SET_OWNER ArgNull] d1(2) by (auto simp: simple_request_def same)
  have "hd_control (q_dev q2) \<ge> 0" "hd_vhost_ops (q_dev q2) = VHOST_BACKEND_TYPE_USER" using c0(2) d0(1) by (simp_all add: d1 d2)
  then obtain arg q3 where c2: "vhost_call env VHOST_GET_FEATURES (ArgU64 (of_le (take 8 (qe_junk env (q_io q2))))) q2 = ret (0, arg, q3)"
      and d3: "q_dev q3 = q_dev q2" "same q3"
    using call_ok [OF assms(1), of q2 VHOST_GET_FEATURES] d2(2) by (fastforce simp: simple_request_def same)
  have "hd_control (q_dev q3) \<ge> 0" "hd_vhost_ops (q_dev q3) = VHOST_BACKEND_TYPE_USER" "length (hd_vqs (q_dev q3)) = 2"
    and nv: "hd_nvqs (q_dev q3) = 2"
    using c0(2) d0 by (simp_all add: d1 d2 d3)
  then obtain q4 vqs where c3: "init_rings env 2 0 q3 = ret (0, 2, q4)" and d4: "q_dev q4 = (q_dev q3)\<lparr>hd_vqs := vqs\<rparr>" "length vqs = 2" "same q4"
    using rings_init_ok [OF assms(1), of q3 0 2] d3(2) by (auto simp: same)
  define q5 where q5: "q5 = upd_dev (setup_dev (arg_u64 arg)) q4"
  have d5: "listener_ok q5" "rl_blocks (q_ram q5) = rl_blocks (q_ram q)" "q_view q5 = q_view q"
    "hd_mem (q_dev q5) = \<lparr>vm_nregions = 0, vm_regions = []\<rparr>" "\<not> hd_started (q_dev q5)"
    using assms(3) d4(3) by (simp_all add: listener_ok_def upd_dev_def setup_dev_def q5 same)
  obtain q6 b where c6: "memory_listener_register env q5 = ret q6" "mem_view (hd_mem (q_dev q6)) = machine_map (rl_blocks (q_ram q)) (q_view q)"
    "rest_of (q_dev q6) = (rest_of (q_dev q5))\<lparr>hd_log_enabled := b\<rparr>"
    using listener_map [OF d5(1,4,5)] d5(2,3) by metis
  have "vhost_dev_init env (-1) path VHOST_BACKEND_TYPE_USER True q = ret (0, upd_dev (\<lambda>d. d\<lparr>hd_force := True\<rparr>) q6)"
    using c0 c1 c2 c3 c6(1) d0(1) nv by (simp add: vhost_dev_init_def bt vhost_backend_init_def q5 [symmetric])
  moreover have r: "rest_of (q_dev q6) = rest_of ((q_dev q5)\<lparr>hd_log_enabled := b\<rparr>)"
    using c6(3) by (simp add: rest_of_def other_than_mem_def)
  then have "attached q (q_dev (upd_dev (\<lambda>d. d\<lparr>hd_force := True\<rparr>) q6))"
    using rest_ofD [OF r] c6(2) c0(2) d0 d1 d2 d3 d4 by (simp add: attached_def upd_dev_def q5 setup_dev_def)
  ultimately show ?thesis by blast
qed

lemma net_init_ok:
  assumes "answering env" "length path < 108" "listener_ok q" "length (hd_vqs fresh) = 2"
  shows "\<exists>net q'. vhost_net_init env fresh \<lparr>op_backend_type = VHOST_BACKEND_TYPE_USER, op_net_backend = Some nc, op_devpath = path,
      op_devfd = -1, op_force = True\<rparr> q = ret (Some net, q') \<and> attached q (vn_dev net)"
proof -
  let ?q = "q\<lparr>q_dev := fresh\<lparr>hd_nvqs := 2\<rparr>\<rparr>"
  have "listener_ok ?q" using assms(3) by (simp add: listener_ok_def)
  then obtain q' where q': "vhost_dev_init env (-1) path VHOST_BACKEND_TYPE_USER True ?q = ret (0, q')" "attached ?q (q_dev q')"
    using dev_init_ok [OF assms(1,2), of ?q] assms(4) by auto
  have "attached q (vhost_net_ack_features 0 (q_dev q'))" using q'(2) by (simp add: attached_def vhost_net_ack_features_def)
  then show ?thesis using q'(1) by (auto simp: vhost_net_init_def Let_def upd_dev_def)
qed

lemma stop_ok:
  assumes "us_vhost_net s = Some net" "hd_vhost_ops (vn_dev net) = VHOST_BACKEND_TYPE_USER" "nat (hd_nvqs (vn_dev net)) \<le> length (hd_vqs (vn_dev net))"
  shows "\<exists>q'. vhost_user_stop env s q = ret (s\<lparr>us_vhost_net := None\<rparr>, q') \<and> q_ram q' = q_ram q \<and> q_view q' = q_view q"
proof -
  have rings: "\<exists>io. cleanup_rings n i q = ret (q\<lparr>q_io := io\<rparr>)" if "i + n \<le> length (hd_vqs (q_dev q))" for n i q
    using that
  proof (induction n arbitrary: i q)
    case 0
    show ?case by (rule exI [of _ "q_io q"]) simp
  next
    case (Suc n)
    then show ?case
      using Suc.IH [of "Suc i" "q\<lparr>q_io := _\<rparr>"] by (simp add: vhost_virtqueue_cleanup_def get_hq_def)
  qed
  let ?q = "q\<lparr>q_dev := vn_dev net\<rparr>"
  obtain io where "cleanup_rings (nat (hd_nvqs (vn_dev net))) 0 ?q = ret (?q\<lparr>q_io := io\<rparr>)"
    using rings [of 0 "nat (hd_nvqs (vn_dev net))" ?q] assms(3) by auto
  then show ?thesis
    using assms(1,2)
    by (auto simp: vhost_user_stop_def vhost_net_cleanup_def vhost_dev_cleanup_def vhost_backend_cleanup_def vhost_user_cleanup_def
        ensure_def Let_def log_io_def upd_dev_def)
qed

text \<open>
  Stopping a device whose connection is lost ends QEMU: after a failed send the control descriptor is -1, every
  further request fails, and the assertion on the result of the first request of \<^verbatim>\<open>vhost_net_stop_one\<close> is violated.
\<close>

theorem stop_aborts:
  assumes "hd_started (q_dev q)" "hd_vhost_ops (q_dev q) = VHOST_BACKEND_TYPE_USER" "hd_control (q_dev q) < 0" "0 < hd_nvqs (q_dev q)"
  shows "vhost_net_stop_one env k net q = fail AssertFail"
proof -
  obtain n where "nat (hd_nvqs (q_dev q)) = Suc n" using assms(4) by (cases "nat (hd_nvqs (q_dev q))") auto
  then show ?thesis
    using assms(1-3) by (simp add: vhost_net_stop_one_def vhost_call_def vhost_user_call_def ensure_def)
qed

section \<open>Examples\<close>

lemma sample_listener: "listener_ok sample_qemu"
proof -
  have "ram_ok (q_ram sample_qemu)" using sample_ram_ok(1) by (simp add: sample_qemu_def)
  moreover have "find (in_block 0) (rl_blocks sample_ram) = Some sample_block"
    by (simp add: sample_ram_def sample_block_def in_block_def)
  then have "region_ptr (rl_blocks sample_ram) sample_mr = Some 0x7f0000000000"
    by (simp add: sample_mr_def) (simp add: sample_block_def)
  then have "backed (rl_blocks sample_ram) sample_section"
    by (simp add: backed_def sample_section_simps) (simp add: sample_section_def fits_def)
  ultimately show ?thesis by (simp add: listener_ok_def sections_ok_def sample_qemu_def)
qed

theorem stop_aborts_witness:
  "vhost_net_stop_one sample_env sample_bus \<lparr>vn_dev = sample_dev, vn_backend = -1, vn_nc = sample_client\<rparr>
     (upd_dev (\<lambda>d. d\<lparr>hd_started := True, hd_control := -1\<rparr>) sample_qemu) = fail AssertFail"
  by (rule stop_aborts) (simp_all add: upd_dev_def sample_qemu_def sample_dev_def)

end
