(* ===== verification/Protocol.thy ===== *)
theory Protocol
  imports VhostNetSpec Server
begin

text \<open>
  Both ends of the vhost-user connection: what the back end of QEMU sends is what the server receives and acts on.
  A message is sent as its header and as much of the payload as its size says; the descriptors travel beside it and
  have other numbers on the other side.
\<close>

section \<open>Specification\<close>

text \<open>What a receiver sees of a message of which only the header and \<open>size\<close> bytes of the payload are sent.\<close>

definition sent_bytes :: "VHostUserMsg \<Rightarrow> u8 list" where
  "sent_bytes m = take (VHOST_USER_HDR_SIZE + unat (msg_size m)) (bytes_of_msg m)"

text \<open>The answer of \<^verbatim>\<open>recvmsg\<close> when the other side sent \<open>bs\<close> with descriptors, which this side has as \<open>fds\<close>.\<close>

definition received :: "u8 list \<Rightarrow> int list \<Rightarrow> recv_answer" where
  "received bs fds =
     \<lparr>rv_ret = int (length bs), rv_data = bs, rv_trunc = False,
      rv_cmsg = (if fds = [] then None
                 else Some \<lparr>cm_len = CMSG_LEN0 + of_nat (4 * length fds), cm_sol_socket = True, cm_scm_rights = True,
                            cm_data = concat (map (\<lambda>fd. le_bytes 4 (word_of_int fd :: u32)) fds)\<rparr>)\<rparr>"

definition fd_ok :: "int \<Rightarrow> bool" where
  "fd_ok fd \<longleftrightarrow> 0 < fd \<and> fd < 2 ^ 31"

definition block_bytes :: "RAMBlock \<Rightarrow> u8 list" where
  "block_bytes b = le_bytes 8 (rb_offset b) @ le_bytes 8 (rb_length b) @ le_bytes 8 (rb_host b)"

definition shared_blocks :: "RAMList \<Rightarrow> RAMBlock list" where
  "shared_blocks rl = filter (\<lambda>b. rb_fd b > 0) (rl_blocks rl)"

text \<open>The message that announces the blocks that have a descriptor.\<close>

definition table_payload :: "RAMBlock list \<Rightarrow> u8 list \<Rightarrow> u8 list" where
  "table_payload bs junk = le_bytes 4 (of_nat (length bs) :: u32) @ peek 4 4 junk @ concat (map block_bytes bs) @ drop (8 + 24 * length bs) junk"

section \<open>Lemmas\<close>

lemma length_block_bytes [simp]: "length (block_bytes b) = 24"
  by (simp add: block_bytes_def)

lemma length_blocks [simp]: "length (concat (map block_bytes bs)) = 24 * length bs"
  by (induction bs) simp_all

lemma poke_poke:
  assumes "off + length xs + length ys \<le> length zs"
  shows "poke (off + length xs) ys (poke off xs zs) = poke off (xs @ ys) zs"
  using assms by (simp add: poke_def ac_simps)

lemma poke_nil [simp]: "poke off [] zs = zs"
  by (simp add: poke_def)

lemma put_regions_spec:
  assumes "8 + 24 * (n + length (filter (\<lambda>b. rb_fd b > 0) bs)) \<le> length (msg_payload m)"
    and "n + length (filter (\<lambda>b. rb_fd b > 0) bs) \<le> MAX_NREGIONS"
  shows "put_regions bs n m fds =
    ret (m\<lparr>msg_payload := poke (8 + 24 * n) (concat (map block_bytes (filter (\<lambda>b. rb_fd b > 0) bs))) (msg_payload m)\<rparr>,
         fds @ map rb_fd (filter (\<lambda>b. rb_fd b > 0) bs))"
  using assms
proof (induction bs arbitrary: n m fds)
  case Nil
  then show ?case by simp
next
  case (Cons b bs)
  show ?case
  proof (cases "rb_fd b > 0")
    case False
    then show ?thesis using Cons by simp
  next
    case True
    have len: "length (msg_payload (put_region n b m)) = length (msg_payload m)"
      using Cons.prems True by (simp add: put_region_def)
    have pay: "msg_payload (put_region n b m) = poke (8 + 24 * n) (block_bytes b) (msg_payload m)"
      by (simp add: put_region_def block_bytes_def)
    have "poke (8 + 24 * Suc n) (concat (map block_bytes (filter (\<lambda>b. rb_fd b > 0) bs))) (msg_payload (put_region n b m)) =
        poke (8 + 24 * n) (block_bytes b @ concat (map block_bytes (filter (\<lambda>b. rb_fd b > 0) bs))) (msg_payload m)"
      unfolding pay using Cons.prems True
      by (subst poke_poke [symmetric]) (simp_all add: algebra_simps)
    then show ?thesis
      using Cons.IH [of "Suc n" "put_region n b m" "fds @ [rb_fd b]"] Cons.prems True len by (simp add: put_region_def)
  qed
qed

lemma received_prefix:
  assumes "wf_msg m" "wf_msg m0" "unat (msg_size m) \<le> PAYLOAD_SIZE"
  shows "msg_of_bytes (poke 0 (sent_bytes m) (bytes_of_msg m0)) =
    m\<lparr>msg_payload := take (unat (msg_size m)) (msg_payload m) @ drop (unat (msg_size m)) (msg_payload m0)\<rparr>"
proof -
  have "sent_bytes m = le_bytes 4 (msg_request m) @ le_bytes 4 (msg_flags m) @ le_bytes 4 (msg_size m) @ take (unat (msg_size m)) (msg_payload m)"
    by (simp add: sent_bytes_def bytes_of_msg_def VHOST_USER_HDR_SIZE_def)
  moreover have "length (take (unat (msg_size m)) (msg_payload m)) = unat (msg_size m)" using assms(1,3) by (simp add: wf_msg_def)
  ultimately show ?thesis
    by (simp add: msg_of_bytes_def poke_def peek_def bytes_of_msg_def add.commute)
qed

lemma peek_concat:
  assumes "\<And>x. length (f x) = w" "i < length xs"
  shows "peek (w * i) w (concat (map f xs) @ r) = f (xs ! i)"
  using assms(2)
proof (induction xs arbitrary: i)
  case (Cons x xs)
  then show ?case using assms(1) by (cases i) (auto simp: peek_def)
qed simp

lemma peek_inner: "a + n \<le> w \<Longrightarrow> peek (off + a) n xs = peek a n (peek off w xs)"
  by (simp add: peek_def drop_take min_def add.commute)

lemma peek_shift: "length h = k \<Longrightarrow> peek (k + i) n (h @ xs) = peek i n xs"
  by (simp add: peek_def)

lemma sint_fd: "fd_ok fd \<Longrightarrow> sint (word_of_int fd :: u32) = fd"
  by (simp add: fd_ok_def signed_of_int signed_take_bit_int_eq_self)

lemma lm_fd_received:
  assumes "i < length fds" "list_all fd_ok fds" "length fds \<le> MAX_NREGIONS" "lm_fds lm = poke 0 (concat (map (\<lambda>fd. le_bytes 4 (word_of_int fd :: u32)) fds)) r"
  shows "lm_fd lm i = fds ! i"
proof -
  have "peek (4 * i) 4 (lm_fds lm) = le_bytes 4 (word_of_int (fds ! i) :: u32)"
    using assms(1) unfolding assms(4) by (simp add: poke_def peek_concat)
  then show ?thesis using assms(1,2) sint_fd by (simp add: lm_fd_def list_all_length)
qed

lemma region_received:
  assumes "msg_payload m = h @ concat (map block_bytes bs) @ r" "length h = 8" "i < length bs"
  shows "msg_region m i = \<lparr>mr_guest_phys_addr = rb_offset (bs ! i), mr_memory_size = rb_length (bs ! i), mr_userspace_addr = rb_host (bs ! i)\<rparr>"
proof -
  have p: "peek (8 + 24 * i) 24 (msg_payload m) = block_bytes (bs ! i)"
    using assms(3) unfolding assms(1) by (simp add: peek_shift [OF assms(2)] peek_concat)
  have in_block: "peek (8 + 24 * i + a) 8 (msg_payload m) = peek a 8 (block_bytes (bs ! i))" if "a + 8 \<le> 24" for a
    using peek_inner [OF that, of "8 + 24 * i" "msg_payload m"] p by simp
  have "peek (8 + 24 * i) 8 (msg_payload m) = le_bytes 8 (rb_offset (bs ! i))"
    "peek (8 + 24 * i + 8) 8 (msg_payload m) = le_bytes 8 (rb_length (bs ! i))"
    "peek (8 + 24 * i + 16) 8 (msg_payload m) = le_bytes 8 (rb_host (bs ! i))"
    using in_block [of 0] in_block [of 8] in_block [of 16] by (simp_all add: block_bytes_def, simp_all add: peek_def)
  then show ?thesis by (simp add: msg_region_def Let_def)
qed

lemma table_request:
  assumes "answering env" "hd_control (q_dev q) \<ge> 0" "hd_vhost_ops (q_dev q) = VHOST_BACKEND_TYPE_USER"
    and "length (qe_junk env (q_io q)) = PAYLOAD_SIZE" "shared_blocks (q_ram q) \<noteq> []" "length (shared_blocks (q_ram q)) \<le> MAX_NREGIONS"
  defines "bs \<equiv> shared_blocks (q_ram q)"
  defines "m \<equiv> \<lparr>msg_request = request_code VHOST_USER_SET_MEM_TABLE, msg_flags = VHOST_USER_VERSION,
    msg_size = 4 + 4 + of_nat (length bs) * 24, msg_payload = table_payload bs (qe_junk env (q_io q))\<rparr>"
  shows "vhost_user_call env VHOST_SET_MEM_TABLE arg q = ret (0, log_io (QSendmsg (hd_control (q_dev q)) (sent_bytes m) (map rb_fd bs)) q)"
    and "wf_msg m" "unat (msg_size m) = 8 + 24 * length bs"
proof -
  let ?j = "qe_junk env (q_io q)"
  have n: "length bs \<le> 8" using assms(6) by (simp add: bs_def size_defs)
  have l: "length ?j = 200" using assms(4) by (simp add: size_defs)
  show "wf_msg m" using n l by (simp add: m_def wf_msg_def table_payload_def size_defs)
  have "unat (of_nat (length bs) :: u32) = length bs" using n by (simp add: unat_of_nat)
  then show "unat (msg_size m) = 8 + 24 * length bs"
    using n by (simp add: m_def unat_word_ariths)
  have tr: "vhost_user_request_translate VHOST_SET_MEM_TABLE = request_code VHOST_USER_SET_MEM_TABLE"
    by (simp add: vhost_user_request_translate_def ioctl_to_vhost_user_request_def ioctl_defs)
  have "poke 0 (le_bytes 4 (of_nat (length bs) :: u32)) (poke 8 (concat (map block_bytes bs)) ?j) = table_payload bs ?j"
    using n l by (simp add: poke_def table_payload_def peek_def drop_take add.commute)
  then have "fill_msg VHOST_SET_MEM_TABLE arg (q_ram q) (fresh_msg env (request_code VHOST_USER_SET_MEM_TABLE) (q_io q)) = ret (Some (m, map rb_fd bs))"
    using put_regions_spec [of 0 "rl_blocks (q_ram q)" "fresh_msg env (request_code VHOST_USER_SET_MEM_TABLE) (q_io q)" "[]"] n l assms(5)
    by (simp add: fill_msg_def ioctl_defs fresh_msg_def m_def bs_def shared_blocks_def size_defs)
  then show "vhost_user_call env VHOST_SET_MEM_TABLE arg q = ret (0, log_io (QSendmsg (hd_control (q_dev q)) (sent_bytes m) (map rb_fd bs)) q)"
    using assms(2,3) answeringD [OF assms(1)]
    by (simp add: vhost_user_call_def ensure_def tr vhost_user_send_fds_def sendmsg_retry.simps sent_bytes_def Let_def)
qed

lemma length_fd_bytes [simp]: "length (concat (map (\<lambda>fd. le_bytes 4 (word_of_int fd :: u32)) fds)) = 4 * length fds"
  by (induction fds) simp_all

lemma receive_sent:
  assumes "wf_msg m" "wf_local_msg lm" "unat (msg_size m) \<le> PAYLOAD_SIZE" "fds \<noteq> []" "length fds \<le> MAX_NREGIONS"
  shows "vhost_user_receive (received (sent_bytes m) fds) lm =
    (int (length (sent_bytes m)),
     \<lparr>lm_request = m\<lparr>msg_payload := take (unat (msg_size m)) (msg_payload m) @ drop (unat (msg_size m)) (msg_payload (lm_request lm))\<rparr>,
      lm_fd_num = of_nat (length fds), lm_fds = poke 0 (concat (map (\<lambda>fd. le_bytes 4 (word_of_int fd :: u32)) fds)) (lm_fds lm)\<rparr>)"
proof -
  let ?k = "length fds"
  have uk: "unat (of_nat ?k :: u64) = ?k" using assms(5) by (intro unat_of_nat_small) (simp add: size_defs)
  have u: "unat (4 * of_nat ?k :: u64) = 4 * ?k"
    using assms(5) unat_of_nat_small [of "4 * ?k", where 'a = 64] by (simp add: size_defs)
  then have le: "(4 * of_nat ?k :: u64) \<le> 32" using assms(5) by (simp add: word_le_nat_alt size_defs)
  have pos: "0 < CMSG_LEN0 + 4 * of_nat ?k"
    using u assms(5) by (simp add: word_less_nat_alt unat_word_ariths CMSG_LEN0_def size_defs)
  have div: "(4 * of_nat ?k :: u64) div 4 = of_nat ?k"
    using u uk by (simp add: word_unat_eq_iff unat_div_distrib)
  have "0 < length (sent_bytes m)" by (simp add: sent_bytes_def bytes_of_msg_def VHOST_USER_HDR_SIZE_def)
  moreover have "wf_msg (lm_request lm)" using assms(2) by (simp add: wf_local_msg_def)
  ultimately show ?thesis
    using assms(4) le pos div u received_prefix [OF assms(1) _ assms(3), of "lm_request lm"]
    by (simp add: vhost_user_receive_def received_def Let_def size_defs)
qed

text \<open>
  C6. QEMU and the server agree on guest memory: for the RAM blocks that have a descriptor, up to eight,
  \<^verbatim>\<open>VHOST_SET_MEM_TABLE\<close> sends one message with their descriptors, whatever was on the stack.  Once the server has
  received it and called \<^verbatim>\<open>_set_mem_table\<close>, its table has exactly one region for each of these blocks, in order,
  with the offset, the length and the address of the block in QEMU.
\<close>

theorem mem_table_agrees:
  assumes "answering env" "hd_control (q_dev q) \<ge> 0" "hd_vhost_ops (q_dev q) = VHOST_BACKEND_TYPE_USER"
    and "length (qe_junk env (q_io q)) = PAYLOAD_SIZE" "bs = shared_blocks (q_ram q)" "bs \<noteq> []" "length bs \<le> MAX_NREGIONS"
    and "length fds = length bs" "list_all fd_ok fds" "wf_local_msg lm" "wf_memory M"
  shows "\<exists>sent. vhost_user_call env VHOST_SET_MEM_TABLE arg q = ret (0, log_io (QSendmsg (hd_control (q_dev q)) sent (map rb_fd bs)) q) \<and>
    (\<exists>msg M' m'. vhost_user_receive (received sent fds) lm = (int (length sent), msg) \<and>
       request_of (msg_request (lm_request msg)) = Some VHOST_USER_SET_MEM_TABLE \<and>
       set_mem_table mmap msg (M, m0) = ret (0, M', m') \<and> wf_memory M' \<and> unat (mt_nregions M') = length bs \<and>
       (\<forall>i < length bs. lr_guest_phys_addr (mt_regions M' ! i) = rb_offset (bs ! i) \<and>
          lr_memory_size (mt_regions M' ! i) = rb_length (bs ! i) \<and> lr_userspace_addr (mt_regions M' ! i) = rb_host (bs ! i)))"
proof -
  define m where m: "m = \<lparr>msg_request = request_code VHOST_USER_SET_MEM_TABLE, msg_flags = VHOST_USER_VERSION,
    msg_size = 4 + 4 + of_nat (length bs) * 24, msg_payload = table_payload bs (qe_junk env (q_io q))\<rparr>"
  note req = table_request [OF assms(1-4) assms(6,7) [unfolded assms(5)], folded assms(5), folded m]
  define msg where msg: "msg = \<lparr>lm_request = m\<lparr>msg_payload := take (unat (msg_size m)) (msg_payload m) @
      drop (unat (msg_size m)) (msg_payload (lm_request lm))\<rparr>,
    lm_fd_num = of_nat (length fds), lm_fds = poke 0 (concat (map (\<lambda>fd. le_bytes 4 (word_of_int fd :: u32)) fds)) (lm_fds lm)\<rparr>"
  have n: "length bs \<le> 8" using assms(7) by (simp add: size_defs)
  have rcv: "vhost_user_receive (received (sent_bytes m) fds) lm = (int (length (sent_bytes m)), msg)"
    unfolding msg using assms(6-8,10) req(2,3) n by (intro receive_sent) (auto simp: size_defs)
  let ?c = "le_bytes 4 (of_nat (length bs) :: u32)" and ?j = "peek 4 4 (qe_junk env (q_io q))"
  have pay: "msg_payload (lm_request msg) = (?c @ ?j) @ concat (map block_bytes bs) @ drop (8 + 24 * length bs) (msg_payload (lm_request lm))"
    using req(3) assms(4) n by (simp add: msg m table_payload_def size_defs)
  have lj: "length ?j = 4" using assms(4) by (simp add: size_defs)
  have nr: "msg_nregions (lm_request msg) = of_nat (length bs)" by (simp add: msg_nregions_def pay peek_def)
  have un: "unat (of_nat (length bs) :: u32) = length bs" "unat (of_nat (length fds) :: u64) = length bs"
    using n assms(8) by (simp_all add: unat_of_nat)
  have reg: "msg_region (lm_request msg) i = \<lparr>mr_guest_phys_addr = rb_offset (bs ! i), mr_memory_size = rb_length (bs ! i), mr_userspace_addr = rb_host (bs ! i)\<rparr>"
    if "i < length bs" for i
    using region_received [OF pay _ that] lj by simp
  have fd: "lm_fd msg i > 0" if "i < length bs" for i
    using lm_fd_received [of i fds msg "lm_fds lm"] assms(7-9) that by (simp add: msg list_all_length fd_ok_def)
  define M' where M': "M' = M\<lparr>mt_regions := map (\<lambda>i. if 0 \<le> i \<and> i < length bs then local_region (mapped_at mmap msg m0) msg i
      else mt_regions (M\<lparr>mt_nregions := 0\<rparr>) ! i) [0..<MAX_NREGIONS], mt_nregions := mt_nregions (M\<lparr>mt_nregions := 0\<rparr>) + of_nat (length bs - 0)\<rparr>"
  have "set_mem_table_from mmap msg 0 (M\<lparr>mt_nregions := 0\<rparr>, map_all mmap msg 0 m0) =
      ret (M\<lparr>mt_nregions := 0\<rparr>\<lparr>mt_regions := mt_regions M', mt_nregions := mt_nregions M'\<rparr>, map_all mmap msg (length bs) m0)"
    using set_mem_table_from_all [of "length bs" msg 0 "M\<lparr>mt_nregions := 0\<rparr>" mmap m0] assms(7,11) fd un
    by (simp add: nr M') (simp add: msg wf_memory_def)
  then have "set_mem_table mmap msg (M, m0) = ret (0, M', map_all mmap msg (length bs) m0)"
    by (simp add: set_mem_table_def M')
  moreover have "wf_memory M'" "unat (mt_nregions M') = length bs" using assms(7) un(1) by (simp_all add: M' wf_memory_def)
  moreover have "lr_guest_phys_addr (mt_regions M' ! i) = rb_offset (bs ! i) \<and> lr_memory_size (mt_regions M' ! i) = rb_length (bs ! i) \<and>
      lr_userspace_addr (mt_regions M' ! i) = rb_host (bs ! i)" if "i < length bs" for i
    using that assms(7) reg [OF that] by (simp add: M' local_region_def Let_def)
  moreover have "request_of (msg_request (lm_request msg)) = Some VHOST_USER_SET_MEM_TABLE"
    by (simp add: msg m request_of_def all_requests_def)
  ultimately show ?thesis using req(1) rcv by blast
qed

section \<open>Examples\<close>

theorem mem_table_agrees_witness:
  "\<exists>sent msg M' m'. vhost_user_call sample_env VHOST_SET_MEM_TABLE ArgNull sample_qemu = ret (0, log_io (QSendmsg 20 sent [11]) sample_qemu) \<and>
     vhost_user_receive (received sent [7]) null_msg = (int (length sent), msg) \<and>
     set_mem_table (\<lambda>fd sz m. None) msg (sample_memory, Map.empty) = ret (0, M', m') \<and>
     lr_userspace_addr (mt_regions M' ! 0) = 0x7f0000000000"
proof -
  have b: "shared_blocks (q_ram sample_qemu) = [sample_block]" by (simp add: shared_blocks_def sample_qemu_def sample_ram_def sample_block_def)
  have e: "answering sample_env" "length (qe_junk sample_env (q_io sample_qemu)) = PAYLOAD_SIZE"
    by (simp_all add: answering_def sample_env_def size_defs)
  have d: "hd_control (q_dev sample_qemu) = 20" "hd_vhost_ops (q_dev sample_qemu) = VHOST_BACKEND_TYPE_USER"
    by (simp_all add: sample_qemu_def sample_dev_def)
  have m: "wf_memory sample_memory" using sample_wf by (simp add: wf_proc_def)
  have l: "wf_local_msg null_msg" by (simp add: null_msg_def wf_msg_def wf_local_msg_def)
  have f: "rb_fd sample_block = 11" "rb_host sample_block = 0x7f0000000000" by (simp_all add: sample_block_def)
  show ?thesis
    using mem_table_agrees [of sample_env sample_qemu "[sample_block]" "[7]" null_msg sample_memory ArgNull "\<lambda>fd sz m. None" Map.empty]
    by (fastforce simp: b e d m l f fd_ok_def size_defs)
qed

end
