(* ===== verification/IoVec.thy ===== *)
theory IoVec
  imports VirtQueue Sample
begin

text \<open>
  Vectors of buffers, from \<^verbatim>\<open>src/qemu_vhost_user/util/iov.c\<close>: copying between a vector and a flat buffer, cutting
  vectors, and the growing vectors of the block layer.  Offsets and byte counts are natural numbers: every difference
  the code computes is guarded, so nothing wraps around; the only sum of lengths without a guard is \<open>iov_size\<close>.

  The lemmas relate each operation to the sequence of addresses behind a vector.
\<close>

section \<open>Copying\<close>

text \<open>Writing to a vector from a buffer of as many bytes as are to be written: the loop ends with the offset that is
  left, which must be 0, and the number of bytes written.\<close>

fun from_buf :: "iovec list \<Rightarrow> nat \<Rightarrow> nat \<Rightarrow> u8 list \<Rightarrow> mem \<Rightarrow> (nat \<times> nat \<times> mem) exec" where
  "from_buf [] offset n buf m = ret (offset, n, m)"
| "from_buf (v # vs) offset n buf m =
     (if offset = 0 \<and> \<not> n < length buf then ret (offset, n, m)
      else if offset < unat (iov_len v)
      then let len = min (unat (iov_len v) - offset) (length buf - n) in
           bindE (memcpy_to m (iov_base v + of_nat offset) (peek n len buf)) (\<lambda>m. from_buf vs 0 (n + len) buf m)
      else from_buf vs (offset - unat (iov_len v)) n buf m)"

definition iov_from_buf :: "iovec list \<Rightarrow> nat \<Rightarrow> u8 list \<Rightarrow> mem \<Rightarrow> (nat \<times> mem) exec" where
  "iov_from_buf iov offset buf m =
     bindE (from_buf iov offset 0 buf m) (\<lambda>(offset, n, m). bindE (ensure (offset = 0) AssertFail) (\<lambda>_. ret (n, m)))"

text \<open>Reading: the result is the bytes that were copied.\<close>

fun to_buf :: "iovec list \<Rightarrow> nat \<Rightarrow> u8 list \<Rightarrow> nat \<Rightarrow> mem \<Rightarrow> (nat \<times> u8 list) exec" where
  "to_buf [] offset buf bytes m = ret (offset, buf)"
| "to_buf (v # vs) offset buf bytes m =
     (if offset = 0 \<and> \<not> length buf < bytes then ret (offset, buf)
      else if offset < unat (iov_len v)
      then let len = min (unat (iov_len v) - offset) (bytes - length buf) in
           bindE (memcpy_from m (iov_base v + of_nat offset) len) (\<lambda>bs. to_buf vs 0 (buf @ bs) bytes m)
      else to_buf vs (offset - unat (iov_len v)) buf bytes m)"

definition iov_to_buf :: "iovec list \<Rightarrow> nat \<Rightarrow> nat \<Rightarrow> mem \<Rightarrow> u8 list exec" where
  "iov_to_buf iov offset bytes m =
     bindE (to_buf iov offset [] bytes m) (\<lambda>(offset, buf). bindE (ensure (offset = 0) AssertFail) (\<lambda>_. ret buf))"

fun memset_loop :: "iovec list \<Rightarrow> nat \<Rightarrow> nat \<Rightarrow> u8 \<Rightarrow> nat \<Rightarrow> mem \<Rightarrow> (nat \<times> nat \<times> mem) exec" where
  "memset_loop [] offset n fillc bytes m = ret (offset, n, m)"
| "memset_loop (v # vs) offset n fillc bytes m =
     (if offset = 0 \<and> \<not> n < bytes then ret (offset, n, m)
      else if offset < unat (iov_len v)
      then let len = min (unat (iov_len v) - offset) (bytes - n) in
           bindE (memcpy_to m (iov_base v + of_nat offset) (replicate len fillc)) (\<lambda>m. memset_loop vs 0 (n + len) fillc bytes m)
      else memset_loop vs (offset - unat (iov_len v)) n fillc bytes m)"

definition iov_memset :: "iovec list \<Rightarrow> nat \<Rightarrow> u8 \<Rightarrow> nat \<Rightarrow> mem \<Rightarrow> (nat \<times> mem) exec" where
  "iov_memset iov offset fillc bytes m =
     bindE (memset_loop iov offset 0 fillc bytes m) (\<lambda>(offset, n, m). bindE (ensure (offset = 0) AssertFail) (\<lambda>_. ret (n, m)))"

text \<open>The sum of the lengths is computed in 64 bits.\<close>

fun iov_size :: "iovec list \<Rightarrow> u64" where
  "iov_size [] = 0"
| "iov_size (v # vs) = iov_len v + iov_size vs"

section \<open>Parts of a vector\<close>

text \<open>The entries written to the destination, which has room for \<open>cnt\<close>.\<close>

fun copy_loop :: "iovec list \<Rightarrow> nat \<Rightarrow> nat \<Rightarrow> nat \<Rightarrow> nat \<times> iovec list" where
  "copy_loop [] cnt offset bytes = (offset, [])"
| "copy_loop (v # vs) cnt offset bytes =
     (if cnt = 0 \<or> bytes = 0 then (offset, [])
      else if offset \<ge> unat (iov_len v) then copy_loop vs cnt (offset - unat (iov_len v)) bytes
      else let len = min bytes (unat (iov_len v) - offset); (off, dst) = copy_loop vs (cnt - 1) 0 (bytes - len) in
        (off, \<lparr>iov_base = iov_base v + of_nat offset, iov_len = of_nat len\<rparr> # dst))"

definition iov_copy :: "nat \<Rightarrow> iovec list \<Rightarrow> nat \<Rightarrow> nat \<Rightarrow> iovec list exec" where
  "iov_copy dst_cnt iov offset bytes =
     (let (offset, dst) = copy_loop iov dst_cnt offset bytes in bindE (ensure (offset = 0) AssertFail) (\<lambda>_. ret dst))"

text \<open>The number of bytes dropped, the number of entries the vector now starts after, and the array: its first entry
  in use is changed in place.\<close>

fun iov_discard_front :: "iovec list \<Rightarrow> nat \<Rightarrow> nat \<times> nat \<times> iovec list" where
  "iov_discard_front [] bytes = (0, 0, [])"
| "iov_discard_front (v # vs) bytes =
     (if unat (iov_len v) > bytes
      then (bytes, 0, v\<lparr>iov_base := iov_base v + of_nat bytes, iov_len := iov_len v - of_nat bytes\<rparr> # vs)
      else let (total, n, vs) = iov_discard_front vs (bytes - unat (iov_len v)) in (unat (iov_len v) + total, Suc n, v # vs))"

text \<open>From the back: the entries are visited in reverse; the second result is the number of entries left.\<close>

fun discard_back :: "iovec list \<Rightarrow> nat \<Rightarrow> nat \<times> nat \<times> iovec list" where
  "discard_back [] bytes = (0, 0, [])"
| "discard_back (v # vs) bytes =
     (if unat (iov_len v) > bytes then (bytes, 0, v\<lparr>iov_len := iov_len v - of_nat bytes\<rparr> # vs)
      else let (total, n, vs) = discard_back vs (bytes - unat (iov_len v)) in (unat (iov_len v) + total, Suc n, v # vs))"

definition iov_discard_back :: "iovec list \<Rightarrow> nat \<Rightarrow> nat \<times> nat \<times> iovec list" where
  "iov_discard_back iov bytes =
     (let (total, n, vs) = discard_back (rev iov) bytes in (total, length iov - n, rev vs))"

section \<open>Growing vectors\<close>

text \<open>The entries in use, the number of entries allocated, or -1 for a vector owned by the caller, and the total
  size.\<close>

record QEMUIOVector =
  qv_iov :: "iovec list"
  qv_nalloc :: int
  qv_size :: u64

definition qemu_iovec_init :: "int \<Rightarrow> QEMUIOVector" where
  "qemu_iovec_init alloc_hint = \<lparr>qv_iov = [], qv_nalloc = alloc_hint, qv_size = 0\<rparr>"

definition qemu_iovec_init_external :: "iovec list \<Rightarrow> QEMUIOVector" where
  "qemu_iovec_init_external iov = \<lparr>qv_iov = iov, qv_nalloc = -1, qv_size = iov_size iov\<rparr>"

definition qemu_iovec_add :: "u64 \<Rightarrow> u64 \<Rightarrow> QEMUIOVector \<Rightarrow> QEMUIOVector exec" where
  "qemu_iovec_add base len q =
     bindE (ensure (qv_nalloc q \<noteq> -1) AssertFail) (\<lambda>_.
     ret (q\<lparr>qv_nalloc := (if int (length (qv_iov q)) = qv_nalloc q then 2 * qv_nalloc q + 1 else qv_nalloc q),
            qv_iov := qv_iov q @ [\<lparr>iov_base = base, iov_len = len\<rparr>], qv_size := qv_size q + len\<rparr>))"

text \<open>\<open>sbytes\<close> is the number of bytes that remain to be appended.\<close>

fun concat_loop :: "iovec list \<Rightarrow> nat \<Rightarrow> nat \<Rightarrow> QEMUIOVector \<Rightarrow> (nat \<times> QEMUIOVector) exec" where
  "concat_loop [] soffset sbytes dst = ret (soffset, dst)"
| "concat_loop (v # vs) soffset sbytes dst =
     (if sbytes = 0 then ret (soffset, dst)
      else if soffset < unat (iov_len v)
      then let len = min (unat (iov_len v) - soffset) sbytes in
           bindE (qemu_iovec_add (iov_base v + of_nat soffset) (of_nat len) dst) (\<lambda>dst. concat_loop vs 0 (sbytes - len) dst)
      else concat_loop vs (soffset - unat (iov_len v)) sbytes dst)"

definition qemu_iovec_concat_iov :: "QEMUIOVector \<Rightarrow> iovec list \<Rightarrow> nat \<Rightarrow> nat \<Rightarrow> QEMUIOVector exec" where
  "qemu_iovec_concat_iov dst src_iov soffset sbytes =
     (if sbytes = 0 then ret dst
      else bindE (ensure (qv_nalloc dst \<noteq> -1) AssertFail) (\<lambda>_.
           bindE (concat_loop src_iov soffset sbytes dst) (\<lambda>(soffset, dst).
           bindE (ensure (soffset = 0) AssertFail) (\<lambda>_. ret dst))))"

definition qemu_iovec_concat :: "QEMUIOVector \<Rightarrow> QEMUIOVector \<Rightarrow> nat \<Rightarrow> nat \<Rightarrow> QEMUIOVector exec" where
  "qemu_iovec_concat dst src soffset sbytes = qemu_iovec_concat_iov dst (qv_iov src) soffset sbytes"

definition qemu_iovec_reset :: "QEMUIOVector \<Rightarrow> QEMUIOVector exec" where
  "qemu_iovec_reset q = bindE (ensure (qv_nalloc q \<noteq> -1) AssertFail) (\<lambda>_. ret (q\<lparr>qv_iov := [], qv_size := 0\<rparr>))"

definition qemu_iovec_destroy :: "QEMUIOVector \<Rightarrow> QEMUIOVector exec" where
  "qemu_iovec_destroy q =
     bindE (ensure (qv_nalloc q \<noteq> -1) AssertFail) (\<lambda>_. bindE (qemu_iovec_reset q) (\<lambda>q. ret (q\<lparr>qv_nalloc := 0\<rparr>)))"

definition qemu_iovec_to_buf :: "QEMUIOVector \<Rightarrow> nat \<Rightarrow> nat \<Rightarrow> mem \<Rightarrow> u8 list exec" where
  "qemu_iovec_to_buf q offset bytes m = iov_to_buf (qv_iov q) offset bytes m"

definition qemu_iovec_from_buf :: "QEMUIOVector \<Rightarrow> nat \<Rightarrow> u8 list \<Rightarrow> mem \<Rightarrow> (nat \<times> mem) exec" where
  "qemu_iovec_from_buf q offset buf m = iov_from_buf (qv_iov q) offset buf m"

definition qemu_iovec_memset :: "QEMUIOVector \<Rightarrow> nat \<Rightarrow> u8 \<Rightarrow> nat \<Rightarrow> mem \<Rightarrow> (nat \<times> mem) exec" where
  "qemu_iovec_memset q offset fillc bytes m = iov_memset (qv_iov q) offset fillc bytes m"

section \<open>Specification\<close>

text \<open>A vector stands for the sequence of the addresses of its bytes; \<open>store_at\<close> writes bytes to a sequence of
  addresses, one after the other.\<close>

definition span_of :: "iovec \<Rightarrow> u64 list" where
  "span_of v = map (\<lambda>i. iov_base v + of_nat i) [0 ..< unat (iov_len v)]"

definition addrs_of :: "iovec list \<Rightarrow> u64 list" where
  "addrs_of vs = concat (map span_of vs)"

fun store_at :: "u64 list \<Rightarrow> u8 list \<Rightarrow> mem \<Rightarrow> mem" where
  "store_at (a # as) (b # bs) m = store_at as bs (m(a \<mapsto> b))"
| "store_at as bs m = m"

definition window :: "nat \<Rightarrow> nat \<Rightarrow> 'a list \<Rightarrow> 'a list" where
  "window off n xs = take n (drop off xs)"

section \<open>Sample\<close>

definition sample_iov :: "iovec list" where
  "sample_iov = [\<lparr>iov_base = 0x10000, iov_len = 3\<rparr>, \<lparr>iov_base = 0x10010, iov_len = 0\<rparr>, \<lparr>iov_base = 0x10020, iov_len = 5\<rparr>]"

section \<open>Lemmas\<close>

lemma length_span_of [simp]: "length (span_of v) = unat (iov_len v)"
  by (simp add: span_of_def)

lemma addrs_of_simps [simp]: "addrs_of [] = []" "addrs_of (v # vs) = span_of v @ addrs_of vs" "addrs_of (vs @ ws) = addrs_of vs @ addrs_of ws"
  by (simp_all add: addrs_of_def)

lemma window_simps [simp]: "window off 0 xs = []" "window off n [] = []"
  by (simp_all add: window_def)

lemma window_append:
  "off < length xs \<Longrightarrow> window off n (xs @ ys) = window off (min (length xs - off) n) xs @ window 0 (n - min (length xs - off) n) ys"
  "length xs \<le> off \<Longrightarrow> window off n (xs @ ys) = window (off - length xs) n ys"
  by (auto simp: window_def min_def)

lemma length_window [simp]: "length (window off n xs) = min n (length xs - off)"
  by (simp add: window_def)

lemma window_span:
  "off + n \<le> unat (iov_len v) \<Longrightarrow> window off n (span_of v) = map (\<lambda>i. iov_base v + of_nat off + of_nat i) [0 ..< n]"
  by (auto simp: window_def span_of_def intro: nth_equalityI simp: add.assoc)

lemma store_at_append: "length as = length bs \<Longrightarrow> store_at (as @ as') (bs @ bs') m = store_at as' bs' (store_at as bs m)"
  by (induction as bs m rule: store_at.induct) auto

lemma dom_store_at: "set as \<subseteq> dom m \<Longrightarrow> dom (store_at as bs m) = dom m"
  by (induction as bs m rule: store_at.induct) (auto simp: insert_absorb)

lemma store_at_other: "x \<notin> set as \<Longrightarrow> store_at as bs m x = m x"
  by (induction as bs m rule: store_at.induct) auto

lemma store_at_nth: "distinct as \<Longrightarrow> length as = length bs \<Longrightarrow> i < length as \<Longrightarrow> store_at as bs m (as ! i) = Some (bs ! i)"
proof (induction as bs m arbitrary: i rule: store_at.induct)
  case (1 a as b bs m)
  then show ?case by (cases i) (auto simp: store_at_other fun_upd_same simp del: fun_upd_apply)
qed auto

lemma upt_0_Suc: "[0 ..< Suc n] = 0 # map Suc [0 ..< n]"
  by (simp add: map_Suc_upt upt_conv_Cons del: upt_Suc)

lemma shift_upt: "map (\<lambda>i. a + of_nat i) [0 ..< Suc n] = a # map (\<lambda>i. a + 1 + of_nat i) [0 ..< n]" for a :: u64
  using upt_0_Suc [of n] by (simp add: add.assoc o_def del: upt_Suc)

lemma memcpy_to_at: "region a (length bs) \<subseteq> dom m \<Longrightarrow> memcpy_to m a bs = ret (store_at (map (\<lambda>i. a + of_nat i) [0 ..< length bs]) bs m)"
proof (induction bs arbitrary: a m)
  case Nil
  then show ?case by (simp add: memcpy_to_def)
next
  case (Cons b bs)
  then have "a \<in> dom m" "region (a + 1) (length bs) \<subseteq> dom (m(a \<mapsto> b))" by (auto simp: region_Suc)
  then show ?case
    using Cons.IH [of "a + 1" "m(a \<mapsto> b)"]
    by (auto simp: memcpy_to_def shift_upt simp del: upt_Suc fun_upd_apply split: option.splits)
qed

lemma memcpy_from_at: "region a n \<subseteq> dom m \<Longrightarrow> memcpy_from m a n = ret (map (\<lambda>i. the (m (a + of_nat i))) [0 ..< n])"
proof (induction n arbitrary: a)
  case 0
  then show ?case by (simp add: memcpy_from_def)
next
  case (Suc n)
  then have "a \<in> dom m" "region (a + 1) n \<subseteq> dom m" by (auto simp: region_Suc)
  then show ?case
    using Suc.IH [of "a + 1"] upt_0_Suc [of n]
    by (auto simp: memcpy_from_def add.assoc o_def simp del: upt_Suc split: option.splits)
qed

lemma set_map_region: "set (map (\<lambda>i. a + of_nat i) [0 ..< n]) = region a n" for a :: u64
  by (auto simp: region_def)


lemma span_region: "off + n \<le> unat (iov_len v) \<Longrightarrow> set (window off n (span_of v)) = region (iov_base v + of_nat off) n"
  by (simp only: window_span set_map_region)

lemma from_buf_spec:
  assumes "set (window off (length buf - n) (addrs_of vs)) \<subseteq> dom m" and "off \<le> length (addrs_of vs)" and "n \<le> length buf"
  shows "from_buf vs off n buf m =
    ret (0, n + min (length buf - n) (length (addrs_of vs) - off), store_at (window off (length buf - n) (addrs_of vs)) (drop n buf) m)"
  using assms
proof (induction vs off n buf m rule: from_buf.induct)
  case (1 off n buf m)
  then show ?case by simp
next
  case (2 v vs off n buf m)
  let ?l = "unat (iov_len v)"
  consider "off = 0" "n = length buf" | "off < ?l" "off \<noteq> 0 \<or> n < length buf" | "?l \<le> off" "off \<noteq> 0 \<or> n < length buf"
    using 2(5) by force
  then show ?case
  proof cases
    case 1
    then show ?thesis by simp
  next
    case b: 2
    define len where "len = min (?l - off) (length buf - n)"
    have sl: "window off (length buf - n) (addrs_of (v # vs)) = window off len (span_of v) @ window 0 (length buf - (n + len)) (addrs_of vs)"
      using b by (simp add: window_append len_def)
    have le: "off + len \<le> ?l" "n + len \<le> length buf" using b 2(5) by (auto simp: len_def)
    have pk: "length (peek n len buf) = len" "drop n buf = peek n len buf @ drop (n + len) buf"
      using le by (simp_all add: peek_def add.commute flip: drop_drop)
    have reg: "region (iov_base v + of_nat off) len \<subseteq> dom m"
      using 2(3) unfolding sl by (simp add: span_region [OF le(1)])
    let ?m = "store_at (window off len (span_of v)) (peek n len buf) m"
    have m1: "memcpy_to m (iov_base v + of_nat off) (peek n len buf) = ret ?m"
      using memcpy_to_at [of "iov_base v + of_nat off" "peek n len buf" m] reg pk(1) window_span [OF le(1)] by simp
    have "set (window off len (span_of v)) \<subseteq> dom m" using 2(3) unfolding sl by simp
    then have "set (window 0 (length buf - (n + len)) (addrs_of vs)) \<subseteq> dom ?m"
      using 2(3) unfolding sl by (simp add: dom_store_at)
    then have "from_buf vs 0 (n + len) buf ?m =
      ret (0, n + len + min (length buf - (n + len)) (length (addrs_of vs) - 0),
        store_at (window 0 (length buf - (n + len)) (addrs_of vs)) (drop (n + len) buf) ?m)"
      using 2(1) [of len ?m] b le(2) len_def by blast
    moreover have "store_at (window off (length buf - n) (addrs_of (v # vs))) (drop n buf) m =
        store_at (window 0 (length buf - (n + len)) (addrs_of vs)) (drop (n + len) buf) ?m"
      unfolding sl pk(2) by (rule store_at_append) (use pk(1) le in simp)
    moreover have "n + len + min (length buf - (n + len)) (length (addrs_of vs)) = n + min (length buf - n) (length (addrs_of (v # vs)) - off)"
      using b le by (auto simp: len_def min_def)
    moreover have "from_buf (v # vs) off n buf m = bindE (memcpy_to m (iov_base v + of_nat off) (peek n len buf)) (from_buf vs 0 (n + len) buf)"
      using b by (auto simp: Let_def len_def)
    ultimately show ?thesis using m1 by simp
  next
    case c: 3
    then have "from_buf vs (off - ?l) n buf m =
      ret (0, n + min (length buf - n) (length (addrs_of vs) - (off - ?l)), store_at (window (off - ?l) (length buf - n) (addrs_of vs)) (drop n buf) m)"
      using 2 by (auto simp: window_append)
    then show ?thesis using c by (auto simp: window_append)
  qed
qed

lemma from_buf_past: "length (addrs_of vs) < off \<Longrightarrow> from_buf vs off n buf m = ret (off - length (addrs_of vs), n, m)"
  by (induction vs arbitrary: off) auto

lemma to_buf_spec:
  assumes "set (window off (bytes - length buf) (addrs_of vs)) \<subseteq> dom m" and "off \<le> length (addrs_of vs)" and "length buf \<le> bytes"
  shows "to_buf vs off buf bytes m = ret (0, buf @ map (\<lambda>a. the (m a)) (window off (bytes - length buf) (addrs_of vs)))"
  using assms
proof (induction vs off buf bytes m rule: to_buf.induct)
  case (1 off buf bytes m)
  then show ?case by simp
next
  case (2 v vs off buf bytes m)
  let ?l = "unat (iov_len v)"
  consider "off = 0" "length buf = bytes" | "off < ?l" "off \<noteq> 0 \<or> length buf < bytes" | "?l \<le> off" "off \<noteq> 0 \<or> length buf < bytes"
    using 2(5) by force
  then show ?case
  proof cases
    case 1
    then show ?thesis by simp
  next
    case b: 2
    define len where "len = min (?l - off) (bytes - length buf)"
    let ?bs = "map (\<lambda>a. the (m a)) (window off len (span_of v))"
    have sl: "window off (bytes - length buf) (addrs_of (v # vs)) = window off len (span_of v) @ window 0 (bytes - length (buf @ ?bs)) (addrs_of vs)"
      using b by (simp add: window_append len_def)
    have le: "off + len \<le> ?l" "length (buf @ ?bs) \<le> bytes" using b 2(5) by (auto simp: len_def)
    have reg: "region (iov_base v + of_nat off) len \<subseteq> dom m"
      using 2(3) unfolding sl by (simp add: span_region [OF le(1)])
    have m1: "memcpy_from m (iov_base v + of_nat off) len = ret ?bs"
      using memcpy_from_at [OF reg] window_span [OF le(1)] by (simp add: o_def)
    have "set (window 0 (bytes - length (buf @ ?bs)) (addrs_of vs)) \<subseteq> dom m" using 2(3) unfolding sl by simp
    then have "to_buf vs 0 (buf @ ?bs) bytes m =
      ret (0, (buf @ ?bs) @ map (\<lambda>a. the (m a)) (window 0 (bytes - length (buf @ ?bs)) (addrs_of vs)))"
      using 2(1) [of len ?bs] b le(2) len_def by blast
    moreover have "to_buf (v # vs) off buf bytes m = bindE (memcpy_from m (iov_base v + of_nat off) len) (\<lambda>bs. to_buf vs 0 (buf @ bs) bytes m)"
      using b by (auto simp: Let_def len_def)
    ultimately show ?thesis using m1 unfolding sl by simp
  next
    case c: 3
    then have "to_buf vs (off - ?l) buf bytes m = ret (0, buf @ map (\<lambda>a. the (m a)) (window (off - ?l) (bytes - length buf) (addrs_of vs)))"
      using 2 by (auto simp: window_append)
    then show ?thesis using c by (auto simp: window_append)
  qed
qed

lemma memset_loop_eq: "n \<le> bytes \<Longrightarrow> memset_loop vs off n c bytes = from_buf vs off n (replicate bytes c)"
proof (induction vs arbitrary: off n)
  case (Cons v vs)
  let ?len = "min (unat (iov_len v) - off) (bytes - n)"
  have p: "peek n ?len (replicate bytes c) = replicate ?len c" by (simp add: peek_def)
  have "memset_loop vs 0 (n + ?len) c bytes = from_buf vs 0 (n + ?len) (replicate bytes c)" by (rule Cons.IH) (use Cons.prems in simp)
  then show ?case using Cons p by (intro ext) (simp add: Let_def)
qed (simp add: fun_eq_iff)

lemma iov_from_buf_spec:
  assumes "set (window off (length buf) (addrs_of vs)) \<subseteq> dom m" and "off \<le> length (addrs_of vs)"
  shows "iov_from_buf vs off buf m =
    ret (min (length buf) (length (addrs_of vs) - off), store_at (window off (length buf) (addrs_of vs)) buf m)"
  using assms by (simp add: iov_from_buf_def from_buf_spec)

lemma iov_to_buf_spec:
  assumes "set (window off bytes (addrs_of vs)) \<subseteq> dom m" and "off \<le> length (addrs_of vs)"
  shows "iov_to_buf vs off bytes m = ret (map (\<lambda>a. the (m a)) (window off bytes (addrs_of vs)))"
  using assms by (simp add: iov_to_buf_def to_buf_spec)

lemma iov_memset_spec: "iov_memset vs off c bytes m = iov_from_buf vs off (replicate bytes c) m"
  by (simp add: iov_memset_def iov_from_buf_def memset_loop_eq)

lemma unat_part: "k \<le> unat (w :: u64) \<Longrightarrow> unat (of_nat k :: u64) = k"
  using unsigned_less [of w, where 'a = nat] by (intro unat_of_nat_small) simp

lemma span_part: "off + len \<le> unat (iov_len v) \<Longrightarrow> span_of \<lparr>iov_base = iov_base v + of_nat off, iov_len = of_nat len\<rparr> = window off len (span_of v)"
  using unat_part [of len "iov_len v"] by (simp add: window_span) (simp add: span_of_def)

lemma copy_loop_spec:
  "off \<le> length (addrs_of vs) \<Longrightarrow> length vs \<le> cnt \<Longrightarrow> off = 0 \<or> bytes \<noteq> 0 \<Longrightarrow>
   fst (copy_loop vs cnt off bytes) = 0 \<and> addrs_of (snd (copy_loop vs cnt off bytes)) = window off bytes (addrs_of vs)"
proof (induction vs cnt off bytes rule: copy_loop.induct)
  case (2 v vs cnt off bytes)
  let ?l = "unat (iov_len v)"
  consider "bytes = 0" | "bytes \<noteq> 0" "?l \<le> off" | "bytes \<noteq> 0" "off < ?l" by linarith
  then show ?case
  proof cases
    case c: 3
    define len where "len = min bytes (?l - off)"
    have "off + len \<le> ?l" using c by (simp add: len_def)
    moreover have "fst (copy_loop vs (cnt - 1) 0 (bytes - len)) = 0 \<and>
        addrs_of (snd (copy_loop vs (cnt - 1) 0 (bytes - len))) = window 0 (bytes - len) (addrs_of vs)"
      using 2(2) [of len] c 2(4) len_def by auto
    ultimately show ?thesis
      using c 2(4) by (auto simp: Let_def len_def [symmetric] span_part window_append min.commute split: prod.splits)
  qed (use 2 in \<open>auto simp: window_append\<close>)
qed simp

lemma iov_copy_spec:
  assumes "off \<le> length (addrs_of vs)" "length vs \<le> cnt" "off = 0 \<or> bytes \<noteq> 0"
  obtains dst where "iov_copy cnt vs off bytes = ret dst" "addrs_of dst = window off bytes (addrs_of vs)"
  using copy_loop_spec [OF assms] that [of "snd (copy_loop vs cnt off bytes)"] by (simp add: iov_copy_def case_prod_beta)

lemma length_copy_loop: "length (snd (copy_loop vs cnt off bytes)) \<le> min cnt (length vs)"
  by (induction vs cnt off bytes rule: copy_loop.induct) (auto simp: Let_def split: prod.splits)

lemma discard_front_spec:
  "iov_discard_front vs bytes = (t, n, vs') \<Longrightarrow>
   t = min bytes (length (addrs_of vs)) \<and> addrs_of (drop n vs') = drop bytes (addrs_of vs) \<and> length vs' = length vs \<and> n \<le> length vs"
proof (induction vs bytes arbitrary: t n vs' rule: iov_discard_front.induct)
  case (2 v vs bytes)
  let ?l = "unat (iov_len v)"
  show ?case
  proof (cases "?l > bytes")
    case True
    then have "unat (iov_len v - of_nat bytes) = ?l - bytes"
      using unat_part [of bytes "iov_len v"] by (simp add: unat_sub word_le_nat_alt)
    then have "span_of (v\<lparr>iov_base := iov_base v + of_nat bytes, iov_len := iov_len v - of_nat bytes\<rparr>) = drop bytes (span_of v)"
      using True by (auto simp: span_of_def add.assoc intro!: nth_equalityI)
    then show ?thesis using 2(2) True by auto
  next
    case False
    then obtain t1 n1 vs1 where r: "iov_discard_front vs (bytes - ?l) = (t1, n1, vs1)" by (metis prod_cases3)
    show ?thesis using 2(1) [OF False r] 2(2) False r by auto
  qed
qed simp

lemma discard_back_spec:
  "discard_back vs bytes = (t, n, vs') \<Longrightarrow>
   t = min bytes (length (addrs_of vs)) \<and> length vs' = length vs \<and> n \<le> length vs \<and>
   addrs_of (rev (drop n vs')) = take (length (addrs_of vs) - bytes) (addrs_of (rev vs))"
proof (induction vs bytes arbitrary: t n vs' rule: discard_back.induct)
  case (2 v vs bytes)
  let ?l = "unat (iov_len v)"
  have rv: "length (addrs_of (rev vs)) = length (addrs_of vs)" by (induction vs) auto
  show ?case
  proof (cases "?l > bytes")
    case True
    then have "unat (iov_len v - of_nat bytes) = ?l - bytes"
      using unat_part [of bytes "iov_len v"] by (simp add: unat_sub word_le_nat_alt)
    then have "span_of (v\<lparr>iov_len := iov_len v - of_nat bytes\<rparr>) = take (?l - bytes) (span_of v)"
      using True by (auto simp: span_of_def intro!: nth_equalityI)
    then show ?thesis using 2(2) True rv by auto
  next
    case False
    then obtain t1 n1 vs1 where r: "discard_back vs (bytes - ?l) = (t1, n1, vs1)" by (metis prod_cases3)
    show ?thesis using 2(1) [OF False r] 2(2) False r rv by (auto simp: add.commute)
  qed
qed simp

lemma iov_size_addrs: "iov_size vs = of_nat (length (addrs_of vs))"
  by (induction vs) auto

lemma concat_loop_spec:
  assumes "off \<le> length (addrs_of vs)" "off = 0 \<or> bytes \<noteq> 0" "qv_nalloc d \<noteq> -1" "qv_nalloc d \<ge> 0" "int (length (qv_iov d)) \<le> qv_nalloc d"
  shows "\<exists>d'. concat_loop vs off bytes d = ret (0, d') \<and> addrs_of (qv_iov d') = addrs_of (qv_iov d) @ window off bytes (addrs_of vs) \<and>
     qv_size d' = qv_size d + of_nat (length (window off bytes (addrs_of vs))) \<and> int (length (qv_iov d')) \<le> qv_nalloc d'"
  using assms
proof (induction vs off bytes d rule: concat_loop.induct)
  case (2 v vs off bytes d)
  let ?l = "unat (iov_len v)"
  consider "bytes = 0" | "bytes \<noteq> 0" "?l \<le> off" | "bytes \<noteq> 0" "off < ?l" by linarith
  then show ?case
  proof cases
    case c: 3
    define len where "len = min (?l - off) bytes"
    define d1 where "d1 = d\<lparr>qv_nalloc := (if int (length (qv_iov d)) = qv_nalloc d then 2 * qv_nalloc d + 1 else qv_nalloc d),
            qv_iov := qv_iov d @ [\<lparr>iov_base = iov_base v + of_nat off, iov_len = of_nat len\<rparr>], qv_size := qv_size d + of_nat len\<rparr>"
    have a: "qemu_iovec_add (iov_base v + of_nat off) (of_nat len) d = ret d1" using 2(5) by (simp add: qemu_iovec_add_def d1_def)
    have d1: "qv_nalloc d1 \<noteq> -1" "qv_nalloc d1 \<ge> 0" "int (length (qv_iov d1)) \<le> qv_nalloc d1" using 2(6,7) by (auto simp: d1_def)
    have le: "off + len \<le> ?l" using c by (simp add: len_def)
    obtain d' where d': "concat_loop vs 0 (bytes - len) d1 = ret (0, d')"
        "addrs_of (qv_iov d') = addrs_of (qv_iov d1) @ window 0 (bytes - len) (addrs_of vs)"
        "qv_size d' = qv_size d1 + of_nat (length (window 0 (bytes - len) (addrs_of vs)))" "int (length (qv_iov d')) \<le> qv_nalloc d'"
      using 2(1) [of len d1] c d1 len_def by auto
    have sl: "window off bytes (addrs_of (v # vs)) = window off len (span_of v) @ window 0 (bytes - len) (addrs_of vs)"
      using c by (simp add: window_append len_def)
    have "concat_loop (v # vs) off bytes d = ret (0, d')" using c a d'(1) by (simp add: Let_def len_def)
    moreover have "addrs_of (qv_iov d') = addrs_of (qv_iov d) @ window off bytes (addrs_of (v # vs))"
      unfolding sl using d'(2) by (simp add: d1_def span_part [OF le])
    moreover have "qv_size d' = qv_size d + of_nat (length (window off bytes (addrs_of (v # vs))))"
      unfolding sl using d'(3) le by (simp add: d1_def add.assoc min_absorb1)
    ultimately show ?thesis using d'(4) by blast
  qed (use 2 in \<open>auto simp: window_append\<close>)
qed simp

section \<open>Properties\<close>

lemma load_store_at: "distinct as \<Longrightarrow> length as = length bs \<Longrightarrow> map (\<lambda>a. the (store_at as bs m a)) as = bs"
  by (rule nth_equalityI) (simp_all add: store_at_nth)

text \<open>
  C23. A vector of buffers behaves as the sequence of its addresses.  Reading \<open>n\<close> bytes at an offset yields the bytes
  at that window of the sequence, writing stores the bytes there one after the other, also when buffers overlap, and
  filling is writing equal bytes.  What was written is read back when no address occurs twice in the window.\<close>

theorem iov_transfers:
  assumes "off \<le> length (addrs_of vs)" "W = window off (length buf) (addrs_of vs)" "set W \<subseteq> dom m"
  shows "iov_to_buf vs off (length buf) m = ret (map (\<lambda>a. the (m a)) W) \<and>
    iov_from_buf vs off buf m = ret (length W, store_at W buf m) \<and>
    iov_memset vs off c (length buf) m = ret (length W, store_at W (replicate (length buf) c) m) \<and>
    (distinct W \<longrightarrow> length W = length buf \<longrightarrow> iov_to_buf vs off (length buf) (store_at W buf m) = ret buf)"
  using assms iov_from_buf_spec [of off buf vs m] iov_from_buf_spec [of off "replicate (length buf) c" vs m]
  by (simp add: iov_to_buf_spec iov_memset_spec dom_store_at load_store_at)

text \<open>
  C24. Cutting a vector is cutting its sequence of addresses: a copy of a part has the addresses of the window, dropping
  bytes at the front or at the back leaves the rest, each reports the number of bytes it dropped, and appending a part
  to a growing vector adds the window and its size.\<close>

theorem iov_parts:
  assumes "off \<le> length (addrs_of vs)" "0 < n" "length vs \<le> cnt" "0 \<le> qv_nalloc d" "int (length (qv_iov d)) \<le> qv_nalloc d"
  shows "\<exists>dst d' k1 vs1 k2 vs2. iov_copy cnt vs off n = ret dst \<and> addrs_of dst = window off n (addrs_of vs) \<and>
    iov_discard_front vs n = (min n (length (addrs_of vs)), k1, vs1) \<and> addrs_of (drop k1 vs1) = drop n (addrs_of vs) \<and>
    iov_discard_back vs n = (min n (length (addrs_of vs)), k2, vs2) \<and> addrs_of (take k2 vs2) = take (length (addrs_of vs) - n) (addrs_of vs) \<and>
    qemu_iovec_concat_iov d vs off n = ret d' \<and> addrs_of (qv_iov d') = addrs_of (qv_iov d) @ window off n (addrs_of vs) \<and>
    qv_size d' = qv_size d + iov_size dst"
proof -
  obtain dst where c: "iov_copy cnt vs off n = ret dst" "addrs_of dst = window off n (addrs_of vs)"
    using iov_copy_spec assms by (metis less_not_refl)
  obtain t1 k1 vs1 where f: "iov_discard_front vs n = (t1, k1, vs1)" by (metis prod_cases3)
  obtain t2 k2 vs2 where b: "discard_back (rev vs) n = (t2, k2, vs2)" by (metis prod_cases3)
  have rv: "length (addrs_of (rev vs)) = length (addrs_of vs)" by (induction vs) auto
  have bb: "iov_discard_back vs n = (t2, length vs - k2, rev vs2)" by (simp add: iov_discard_back_def b)
  have bs: "t2 = min n (length (addrs_of vs))" "take (length vs - k2) (rev vs2) = rev (drop k2 vs2)"
      "addrs_of (rev (drop k2 vs2)) = take (length (addrs_of vs) - n) (addrs_of vs)"
    using discard_back_spec [OF b] rv by (auto simp: rev_drop)
  obtain d' where d: "concat_loop vs off n d = ret (0, d')" "addrs_of (qv_iov d') = addrs_of (qv_iov d) @ window off n (addrs_of vs)"
      "qv_size d' = qv_size d + of_nat (length (window off n (addrs_of vs)))"
    using concat_loop_spec [of off vs n d] assms by auto
  have "qemu_iovec_concat_iov d vs off n = ret d'" using assms d(1) by (simp add: qemu_iovec_concat_iov_def)
  moreover have "qv_size d' = qv_size d + iov_size dst" using d(3) c(2) by (simp add: iov_size_addrs)
  ultimately show ?thesis using c f discard_front_spec [OF f] bb bs d(2) by auto
qed

section \<open>Examples\<close>

lemma sample_addrs: "addrs_of sample_iov = [0x10000, 0x10001, 0x10002, 0x10020, 0x10021, 0x10022, 0x10023, 0x10024]"
  by (simp add: sample_iov_def span_of_def upt_conv_Cons)

theorem iov_transfers_witness:
  "\<exists>m. iov_from_buf sample_iov 2 [7, 8, 9] sample_mem = ret (3, m) \<and> iov_to_buf sample_iov 2 3 m = ret [7, 8, 9] \<and> m 0x10021 = Some 9"
proof -
  have W: "[0x10002, 0x10020, 0x10021] = window 2 (length [7, 8, 9 :: u8]) (addrs_of sample_iov)"
    by (simp add: sample_addrs window_def)
  have "set [0x10002, 0x10020, 0x10021] \<subseteq> dom sample_mem" by (simp add: sample_mem_def dom_def)
  from iov_transfers [OF _ W this] show ?thesis by (simp add: sample_addrs numeral_3_eq_3)
qed

theorem iov_parts_witness:
  "\<exists>dst. iov_copy 8 sample_iov 2 3 = ret dst \<and> addrs_of dst = [0x10002, 0x10020, 0x10021]"
proof -
  have "2 \<le> length (addrs_of sample_iov)" "length sample_iov \<le> 8" by (simp_all add: sample_addrs) (simp add: sample_iov_def)
  from iov_parts [OF this(1) _ this(2), of 3 "qemu_iovec_init 4"] show ?thesis
    by (auto simp: qemu_iovec_init_def sample_addrs window_def)
qed

end
