(* ===== verification/NetQueue.thy ===== *)
theory NetQueue
  imports IoVec
begin

text \<open>
  The network clients of QEMU and the queues between them, from \<^verbatim>\<open>src/qemu_vhost_user/net/queue.c\<close> and
  \<^verbatim>\<open>net/net.c\<close>: a packet that the receiver cannot take now waits in the queue of the receiver until it is flushed.

  A client is known by a number, which stands for its address.  The functions a client installs are a parameter, and
  so is the rest of the state they work on; they may send packets themselves, so that every function of this theory
  can be entered again from within a delivery or a callback.
\<close>

section \<open>Packets and queues\<close>

text \<open>\<open>sent_cb\<close> names the callback, if there is one.  The size of a packet is an \<^verbatim>\<open>int\<close>.\<close>

record NetPacket =
  np_sender :: nat
  np_flags :: u32
  np_size :: int
  np_sent_cb :: "nat option"
  np_data :: "u8 list"

record NetQueue =
  nq_opaque :: nat
  nq_maxlen :: u32
  nq_count :: u32
  nq_packets :: "NetPacket list"
  nq_delivering :: bool

datatype client_kind = CK_NIC | CK_HUBPORT | CK_OTHER

record net_client =
  cl_kind :: client_kind
  cl_link_down :: bool
  cl_peer :: "nat option"
  cl_incoming_queue :: NetQueue
  cl_model :: string
  cl_name :: string
  cl_receive_disabled :: bool
  cl_queue_index :: u32

text \<open>The clients, the list \<^verbatim>\<open>net_clients\<close>, the ports of the hub a hub port belongs to, how often the main loop was
  woken, and the rest of the process.\<close>

record 'w nets =
  ns_clients :: "nat \<Rightarrow> net_client"
  ns_net_clients :: "nat list"
  ns_hub_ports :: "nat \<Rightarrow> nat list"
  ns_notified :: nat
  ns_world :: 'w

text \<open>The functions of the clients, the callbacks of packets, and the memory that vectors refer to.\<close>

record 'w net_ops =
  no_receive :: "nat \<Rightarrow> u8 list \<Rightarrow> 'w nets \<Rightarrow> (int \<times> 'w nets) exec"
  no_receive_raw :: "nat \<Rightarrow> (u8 list \<Rightarrow> 'w nets \<Rightarrow> (int \<times> 'w nets) exec) option"
  no_receive_iov :: "nat \<Rightarrow> (iovec list \<Rightarrow> 'w nets \<Rightarrow> (int \<times> 'w nets) exec) option"
  no_can_receive :: "nat \<Rightarrow> ('w nets \<Rightarrow> bool) option"
  no_link_status_changed :: "nat \<Rightarrow> ('w nets \<Rightarrow> 'w nets exec) option"
  no_sent :: "nat \<Rightarrow> nat \<Rightarrow> int \<Rightarrow> 'w nets \<Rightarrow> 'w nets exec"
  no_mem :: "'w \<Rightarrow> mem"

definition NET_BUFSIZE :: nat where
  "NET_BUFSIZE = 4096 + 65536"

definition QEMU_NET_PACKET_FLAG_NONE :: u32 where
  "QEMU_NET_PACKET_FLAG_NONE = 0"

definition QEMU_NET_PACKET_FLAG_RAW :: u32 where
  "QEMU_NET_PACKET_FLAG_RAW = 1"

definition upd_client :: "nat \<Rightarrow> (net_client \<Rightarrow> net_client) \<Rightarrow> 'w nets \<Rightarrow> 'w nets" where
  "upd_client nc f s = s\<lparr>ns_clients := (ns_clients s)(nc := f (ns_clients s nc))\<rparr>"

text \<open>A queue is known by the client that owns it.\<close>

definition queue_of :: "nat \<Rightarrow> 'w nets \<Rightarrow> NetQueue" where
  "queue_of nc s = cl_incoming_queue (ns_clients s nc)"

definition upd_net_queue :: "nat \<Rightarrow> (NetQueue \<Rightarrow> NetQueue) \<Rightarrow> 'w nets \<Rightarrow> 'w nets" where
  "upd_net_queue nc f = upd_client nc (\<lambda>c. c\<lparr>cl_incoming_queue := f (cl_incoming_queue c)\<rparr>)"

definition qemu_new_net_queue :: "nat \<Rightarrow> NetQueue" where
  "qemu_new_net_queue opaque =
     \<lparr>nq_opaque = opaque, nq_maxlen = 10000, nq_count = 0, nq_packets = [], nq_delivering = False\<rparr>"

section \<open>Appending\<close>

definition insert_tail :: "NetPacket \<Rightarrow> NetQueue \<Rightarrow> NetQueue" where
  "insert_tail p q = q\<lparr>nq_count := nq_count q + 1, nq_packets := nq_packets q @ [p]\<rparr>"

definition drop_packet :: "NetQueue \<Rightarrow> nat option \<Rightarrow> bool" where
  "drop_packet q sent_cb \<longleftrightarrow> nq_count q \<ge> nq_maxlen q \<and> sent_cb = None"

definition qemu_net_queue_append :: "nat \<Rightarrow> u32 \<Rightarrow> u8 list \<Rightarrow> nat option \<Rightarrow> NetQueue \<Rightarrow> NetQueue" where
  "qemu_net_queue_append sender flags buf sent_cb q =
     (if drop_packet q sent_cb then q
      else insert_tail \<lparr>np_sender = sender, np_flags = flags, np_size = int_of_u32 (of_nat (length buf)), np_sent_cb = sent_cb,
                        np_data = buf\<rparr> q)"

text \<open>The parts of a vector are copied one after the other to a buffer as large as the sum of their lengths; the
  position is an \<^verbatim>\<open>int\<close>.\<close>

fun append_parts :: "iovec list \<Rightarrow> int \<Rightarrow> u8 list \<Rightarrow> mem \<Rightarrow> (int \<times> u8 list) exec" where
  "append_parts [] pos data m = ret (pos, data)"
| "append_parts (v # vs) pos data m =
     bindE (ensure (0 \<le> pos \<and> nat pos + unat (iov_len v) \<le> length data) Overrun) (\<lambda>_.
     bindE (memcpy_from m (iov_base v) (unat (iov_len v))) (\<lambda>bs.
       append_parts vs (int_of_u32 (word_of_int pos + ucast (iov_len v))) (poke (nat pos) bs data) m))"

definition qemu_net_queue_append_iov ::
  "mem \<Rightarrow> nat \<Rightarrow> u32 \<Rightarrow> iovec list \<Rightarrow> nat option \<Rightarrow> NetQueue \<Rightarrow> NetQueue exec" where
  "qemu_net_queue_append_iov m sender flags iov sent_cb q =
     (if drop_packet q sent_cb then ret q
      else bindE (append_parts iov 0 (replicate (unat (iov_size iov)) 0) m) (\<lambda>(pos, data).
        ret (insert_tail \<lparr>np_sender = sender, np_flags = flags, np_size = pos, np_sent_cb = sent_cb, np_data = data\<rparr> q)))"

section \<open>Delivering\<close>

definition qemu_can_send_packet :: "'w net_ops \<Rightarrow> nat \<Rightarrow> 'w nets \<Rightarrow> bool" where
  "qemu_can_send_packet ops sender s =
     (case cl_peer (ns_clients s sender) of
        None \<Rightarrow> True
      | Some p \<Rightarrow>
          \<not> cl_receive_disabled (ns_clients s p) \<and> (case no_can_receive ops p of None \<Rightarrow> True | Some f \<Rightarrow> f s))"

text \<open>A receiver that takes no bytes is not asked again until it says so.\<close>

definition disable_if_zero :: "nat \<Rightarrow> int \<times> 'w nets \<Rightarrow> int \<times> 'w nets" where
  "disable_if_zero nc = (\<lambda>(r, s). (r, if r = 0 then upd_client nc (\<lambda>c. c\<lparr>cl_receive_disabled := True\<rparr>) s else s))"

definition qemu_deliver_packet :: "'w net_ops \<Rightarrow> u32 \<Rightarrow> u8 list \<Rightarrow> nat \<Rightarrow> 'w nets \<Rightarrow> (int \<times> 'w nets) exec" where
  "qemu_deliver_packet ops flags data nc s =
     (if cl_link_down (ns_clients s nc) then ret (int (length data), s)
      else if cl_receive_disabled (ns_clients s nc) then ret (0, s)
      else bindE (case no_receive_raw ops nc of
                    Some f \<Rightarrow> if flags AND QEMU_NET_PACKET_FLAG_RAW \<noteq> 0 then f data s else no_receive ops nc data s
                  | None \<Rightarrow> no_receive ops nc data s) (\<lambda>rs. ret (disable_if_zero nc rs)))"

definition nc_sendv_compat :: "'w net_ops \<Rightarrow> nat \<Rightarrow> iovec list \<Rightarrow> 'w nets \<Rightarrow> (int \<times> 'w nets) exec" where
  "nc_sendv_compat ops nc iov s =
     bindE (iov_to_buf iov 0 NET_BUFSIZE (no_mem ops (ns_world s))) (\<lambda>buf. no_receive ops nc buf s)"

definition qemu_deliver_packet_iov :: "'w net_ops \<Rightarrow> iovec list \<Rightarrow> nat \<Rightarrow> 'w nets \<Rightarrow> (int \<times> 'w nets) exec" where
  "qemu_deliver_packet_iov ops iov nc s =
     (if cl_link_down (ns_clients s nc) then ret (sint (iov_size iov), s)
      else if cl_receive_disabled (ns_clients s nc) then ret (0, s)
      else bindE (case no_receive_iov ops nc of Some f \<Rightarrow> f iov s | None \<Rightarrow> nc_sendv_compat ops nc iov s) (\<lambda>rs.
        ret (disable_if_zero nc rs)))"

definition qemu_net_queue_deliver :: "'w net_ops \<Rightarrow> nat \<Rightarrow> u32 \<Rightarrow> u8 list \<Rightarrow> 'w nets \<Rightarrow> (int \<times> 'w nets) exec" where
  "qemu_net_queue_deliver ops q flags data s =
     (let s = upd_net_queue q (\<lambda>q. q\<lparr>nq_delivering := True\<rparr>) s in
      bindE (qemu_deliver_packet ops flags data (nq_opaque (queue_of q s)) s) (\<lambda>(r, s).
        ret (r, upd_net_queue q (\<lambda>q. q\<lparr>nq_delivering := False\<rparr>) s)))"

definition qemu_net_queue_deliver_iov :: "'w net_ops \<Rightarrow> nat \<Rightarrow> iovec list \<Rightarrow> 'w nets \<Rightarrow> (int \<times> 'w nets) exec" where
  "qemu_net_queue_deliver_iov ops q iov s =
     (let s = upd_net_queue q (\<lambda>q. q\<lparr>nq_delivering := True\<rparr>) s in
      bindE (qemu_deliver_packet_iov ops iov (nq_opaque (queue_of q s)) s) (\<lambda>(r, s).
        ret (r, upd_net_queue q (\<lambda>q. q\<lparr>nq_delivering := False\<rparr>) s)))"

text \<open>The bytes of a packet in the queue, as many as its size says.\<close>

definition packet_bytes :: "NetPacket \<Rightarrow> u8 list exec" where
  "packet_bytes p =
     (if 0 \<le> np_size p \<and> nat (np_size p) \<le> length (np_data p) then ret (take (nat (np_size p)) (np_data p)) else fail Overrun)"

partial_function (option) qemu_net_queue_flush :: "'w net_ops \<Rightarrow> nat \<Rightarrow> 'w nets \<Rightarrow> (bool \<times> 'w nets) exec" where
  "qemu_net_queue_flush ops q s =
     (case nq_packets (queue_of q s) of
        [] \<Rightarrow> ret (True, s)
      | p # ps \<Rightarrow>
          let s = upd_net_queue q (\<lambda>q. q\<lparr>nq_packets := ps, nq_count := nq_count q - 1\<rparr>) s in
          bindE (packet_bytes p) (\<lambda>data.
          bindE (qemu_net_queue_deliver ops q (np_flags p) data s) (\<lambda>(r, s).
          if r = 0
          then ret (False, upd_net_queue q (\<lambda>q. q\<lparr>nq_count := nq_count q + 1, nq_packets := p # nq_packets q\<rparr>) s)
          else bindE (case np_sent_cb p of Some cb \<Rightarrow> no_sent ops cb (np_sender p) r s | None \<Rightarrow> ret s)
                 (qemu_net_queue_flush ops q))))"

definition qemu_net_queue_send ::
  "'w net_ops \<Rightarrow> nat \<Rightarrow> nat \<Rightarrow> u32 \<Rightarrow> u8 list \<Rightarrow> nat option \<Rightarrow> 'w nets \<Rightarrow> (int \<times> 'w nets) exec" where
  "qemu_net_queue_send ops q sender flags data sent_cb s =
     (if nq_delivering (queue_of q s) \<or> \<not> qemu_can_send_packet ops sender s
      then ret (0, upd_net_queue q (qemu_net_queue_append sender flags data sent_cb) s)
      else bindE (qemu_net_queue_deliver ops q flags data s) (\<lambda>(r, s).
        if r = 0 then ret (0, upd_net_queue q (qemu_net_queue_append sender flags data sent_cb) s)
        else bindE (qemu_net_queue_flush ops q s) (\<lambda>(_, s). ret (r, s))))"

definition append_iov_to ::
  "'w net_ops \<Rightarrow> nat \<Rightarrow> nat \<Rightarrow> u32 \<Rightarrow> iovec list \<Rightarrow> nat option \<Rightarrow> 'w nets \<Rightarrow> 'w nets exec" where
  "append_iov_to ops q sender flags iov sent_cb s =
     bindE (qemu_net_queue_append_iov (no_mem ops (ns_world s)) sender flags iov sent_cb (queue_of q s)) (\<lambda>nq.
       ret (upd_net_queue q (\<lambda>_. nq) s))"

definition qemu_net_queue_send_iov ::
  "'w net_ops \<Rightarrow> nat \<Rightarrow> nat \<Rightarrow> u32 \<Rightarrow> iovec list \<Rightarrow> nat option \<Rightarrow> 'w nets \<Rightarrow> (int \<times> 'w nets) exec" where
  "qemu_net_queue_send_iov ops q sender flags iov sent_cb s =
     (if nq_delivering (queue_of q s) \<or> \<not> qemu_can_send_packet ops sender s
      then bindE (append_iov_to ops q sender flags iov sent_cb s) (\<lambda>s. ret (0, s))
      else bindE (qemu_net_queue_deliver_iov ops q iov s) (\<lambda>(r, s).
        if r = 0 then bindE (append_iov_to ops q sender flags iov sent_cb s) (\<lambda>s. ret (0, s))
        else bindE (qemu_net_queue_flush ops q s) (\<lambda>(_, s). ret (r, s))))"

definition qemu_net_queue_purge :: "nat \<Rightarrow> NetQueue \<Rightarrow> NetQueue" where
  "qemu_net_queue_purge from q =
     q\<lparr>nq_packets := filter (\<lambda>p. np_sender p \<noteq> from) (nq_packets q),
       nq_count := nq_count q - of_nat (length (filter (\<lambda>p. np_sender p = from) (nq_packets q)))\<rparr>"

section \<open>Sending\<close>

definition qemu_purge_queued_packets :: "nat \<Rightarrow> 'w nets \<Rightarrow> 'w nets" where
  "qemu_purge_queued_packets nc s =
     (case cl_peer (ns_clients s nc) of None \<Rightarrow> s | Some p \<Rightarrow> upd_net_queue p (qemu_net_queue_purge nc) s)"

fun flush_ports :: "'w net_ops \<Rightarrow> nat \<Rightarrow> nat list \<Rightarrow> 'w nets \<Rightarrow> (bool \<times> 'w nets) exec" where
  "flush_ports ops nc [] s = ret (False, s)"
| "flush_ports ops nc (p # ps) s =
     bindE (if p \<noteq> nc then qemu_net_queue_flush ops p s else ret (False, s)) (\<lambda>(r, s).
     bindE (flush_ports ops nc ps s) (\<lambda>(r', s). ret (r \<or> r', s)))"

definition net_hub_flush :: "'w net_ops \<Rightarrow> nat \<Rightarrow> 'w nets \<Rightarrow> (bool \<times> 'w nets) exec" where
  "net_hub_flush ops nc s = flush_ports ops nc (ns_hub_ports s nc) s"

definition notify_event :: "bool \<Rightarrow> 'w nets \<Rightarrow> 'w nets" where
  "notify_event b s = (if b then s\<lparr>ns_notified := Suc (ns_notified s)\<rparr> else s)"

definition qemu_flush_queued_packets :: "'w net_ops \<Rightarrow> nat \<Rightarrow> 'w nets \<Rightarrow> 'w nets exec" where
  "qemu_flush_queued_packets ops nc s =
     (let s = upd_client nc (\<lambda>c. c\<lparr>cl_receive_disabled := False\<rparr>) s in
      bindE (case cl_peer (ns_clients s nc) of
               Some p \<Rightarrow>
                 if cl_kind (ns_clients s p) = CK_HUBPORT
                 then bindE (net_hub_flush ops p s) (\<lambda>(r, s). ret (notify_event r s)) else ret s
             | None \<Rightarrow> ret s) (\<lambda>s.
      bindE (qemu_net_queue_flush ops nc s) (\<lambda>(r, s). ret (notify_event r s))))"

definition qemu_send_packet_async_with_flags ::
  "'w net_ops \<Rightarrow> nat \<Rightarrow> u32 \<Rightarrow> u8 list \<Rightarrow> nat option \<Rightarrow> 'w nets \<Rightarrow> (int \<times> 'w nets) exec" where
  "qemu_send_packet_async_with_flags ops sender flags buf sent_cb s =
     (case cl_peer (ns_clients s sender) of
        Some p \<Rightarrow>
          if cl_link_down (ns_clients s sender) then ret (int (length buf), s)
          else qemu_net_queue_send ops p sender flags buf sent_cb s
      | None \<Rightarrow> ret (int (length buf), s))"

definition qemu_send_packet_async :: "'w net_ops \<Rightarrow> nat \<Rightarrow> u8 list \<Rightarrow> nat option \<Rightarrow> 'w nets \<Rightarrow> (int \<times> 'w nets) exec" where
  "qemu_send_packet_async ops sender buf sent_cb s =
     qemu_send_packet_async_with_flags ops sender QEMU_NET_PACKET_FLAG_NONE buf sent_cb s"

definition qemu_send_packet :: "'w net_ops \<Rightarrow> nat \<Rightarrow> u8 list \<Rightarrow> 'w nets \<Rightarrow> 'w nets exec" where
  "qemu_send_packet ops nc buf s = bindE (qemu_send_packet_async ops nc buf None s) (\<lambda>(_, s). ret s)"

definition qemu_send_packet_raw :: "'w net_ops \<Rightarrow> nat \<Rightarrow> u8 list \<Rightarrow> 'w nets \<Rightarrow> (int \<times> 'w nets) exec" where
  "qemu_send_packet_raw ops nc buf s = qemu_send_packet_async_with_flags ops nc QEMU_NET_PACKET_FLAG_RAW buf None s"

definition qemu_sendv_packet_async ::
  "'w net_ops \<Rightarrow> nat \<Rightarrow> iovec list \<Rightarrow> nat option \<Rightarrow> 'w nets \<Rightarrow> (int \<times> 'w nets) exec" where
  "qemu_sendv_packet_async ops sender iov sent_cb s =
     (case cl_peer (ns_clients s sender) of
        Some p \<Rightarrow>
          if cl_link_down (ns_clients s sender) then ret (sint (iov_size iov), s)
          else qemu_net_queue_send_iov ops p sender QEMU_NET_PACKET_FLAG_NONE iov sent_cb s
      | None \<Rightarrow> ret (sint (iov_size iov), s))"

definition qemu_sendv_packet :: "'w net_ops \<Rightarrow> nat \<Rightarrow> iovec list \<Rightarrow> 'w nets \<Rightarrow> (int \<times> 'w nets) exec" where
  "qemu_sendv_packet ops nc iov s = qemu_sendv_packet_async ops nc iov None s"

section \<open>Clients\<close>

definition digit :: "nat \<Rightarrow> char" where
  "digit n = char_of (48 + n)"

fun dec_of :: "nat \<Rightarrow> string" where
  "dec_of n = (if n < 10 then [digit n] else dec_of (n div 10) @ [digit (n mod 10)])"

declare dec_of.simps [simp del]

definition assign_name :: "nat \<Rightarrow> string \<Rightarrow> 'w nets \<Rightarrow> string" where
  "assign_name nc1 model s =
     take 255 (model @ ''.'' @ dec_of (length (filter (\<lambda>nc. nc \<noteq> nc1 \<and> cl_model (ns_clients s nc) = model) (ns_net_clients s))))"

text \<open>The new client \<open>nc\<close> has cleared storage.\<close>

definition qemu_net_client_setup ::
  "nat \<Rightarrow> client_kind \<Rightarrow> nat option \<Rightarrow> string \<Rightarrow> string option \<Rightarrow> 'w nets \<Rightarrow> 'w nets exec" where
  "qemu_net_client_setup nc kind peer model name s =
     bindE (ensure (case peer of Some p \<Rightarrow> cl_peer (ns_clients s p) = None | None \<Rightarrow> True) AssertFail) (\<lambda>_.
     let c = \<lparr>cl_kind = kind, cl_link_down = False, cl_peer = peer, cl_incoming_queue = qemu_new_net_queue nc, cl_model = model,
              cl_name = (case name of Some n \<Rightarrow> n | None \<Rightarrow> assign_name nc model s), cl_receive_disabled = False, cl_queue_index = 0\<rparr>;
         s = s\<lparr>ns_clients := (ns_clients s)(nc := c), ns_net_clients := ns_net_clients s @ [nc]\<rparr> in
     ret (case peer of Some p \<Rightarrow> upd_client p (\<lambda>c. c\<lparr>cl_peer := Some nc\<rparr>) s | None \<Rightarrow> s))"

definition qemu_new_net_client ::
  "nat \<Rightarrow> client_kind \<Rightarrow> nat option \<Rightarrow> string \<Rightarrow> string option \<Rightarrow> 'w nets \<Rightarrow> 'w nets exec" where
  "qemu_new_net_client nc kind peer model name s = qemu_net_client_setup nc kind peer model name s"

text \<open>The clients of a network card lie one after the other in memory.\<close>

fun nic_queues :: "nat \<Rightarrow> nat \<Rightarrow> nat option list \<Rightarrow> string \<Rightarrow> string option \<Rightarrow> 'w nets \<Rightarrow> 'w nets exec" where
  "nic_queues nc i [] model name s = ret s"
| "nic_queues nc i (p # ps) model name s =
     bindE (qemu_net_client_setup (nc + i) CK_NIC p model name s) (\<lambda>s.
       nic_queues nc (Suc i) ps model name (upd_client (nc + i) (\<lambda>c. c\<lparr>cl_queue_index := of_nat i\<rparr>) s))"

definition qemu_new_nic :: "nat \<Rightarrow> int \<Rightarrow> (nat \<Rightarrow> nat option) \<Rightarrow> string \<Rightarrow> string option \<Rightarrow> 'w nets \<Rightarrow> 'w nets exec" where
  "qemu_new_nic nc queues peers model name s = nic_queues nc 0 (map peers [0 ..< nat (max 1 queues)]) model name s"

definition qemu_find_netdev :: "string \<Rightarrow> 'w nets \<Rightarrow> nat option" where
  "qemu_find_netdev ident s =
     find (\<lambda>nc. cl_kind (ns_clients s nc) \<noteq> CK_NIC \<and> cl_name (ns_clients s nc) = ident) (ns_net_clients s)"

text \<open>All clients of that name but those of one kind.  The caller passes an array with room for \<^verbatim>\<open>max\<close> of them; the
  number returned counts those that do not fit, too.\<close>

definition qemu_find_net_clients_except :: "string \<Rightarrow> client_kind option \<Rightarrow> nat \<Rightarrow> 'w nets \<Rightarrow> nat \<times> nat list" where
  "qemu_find_net_clients_except ident kind mx s =
     (let found = filter (\<lambda>nc. Some (cl_kind (ns_clients s nc)) \<noteq> kind \<and> cl_name (ns_clients s nc) = ident) (ns_net_clients s) in
      (length found, take mx found))"

definition MAX_QUEUE_NUM :: nat where
  "MAX_QUEUE_NUM = 1024"

definition set_links :: "bool \<Rightarrow> nat list \<Rightarrow> 'w nets \<Rightarrow> 'w nets" where
  "set_links down ncs s = fold (\<lambda>nc. upd_client nc (\<lambda>c. c\<lparr>cl_link_down := down\<rparr>)) ncs s"

fun peers_of :: "nat list \<Rightarrow> 'w nets \<Rightarrow> nat list exec" where
  "peers_of [] s = ret []"
| "peers_of (nc # ncs) s =
     (case cl_peer (ns_clients s nc) of
        None \<Rightarrow> fail (Segv 0)
      | Some p \<Rightarrow> bindE (peers_of ncs s) (\<lambda>ps. ret (p # ps)))"

definition link_changed :: "'w net_ops \<Rightarrow> nat \<Rightarrow> 'w nets \<Rightarrow> 'w nets exec" where
  "link_changed ops nc s = (case no_link_status_changed ops nc of Some f \<Rightarrow> f s | None \<Rightarrow> ret s)"

text \<open>The result is false when there is no client of that name.\<close>

definition qmp_set_link :: "'w net_ops \<Rightarrow> string \<Rightarrow> bool \<Rightarrow> 'w nets \<Rightarrow> (bool \<times> 'w nets) exec" where
  "qmp_set_link ops name up s =
     (let (queues, ncs) = qemu_find_net_clients_except name None MAX_QUEUE_NUM s in
      if queues = 0 then ret (False, s)
      else if queues > MAX_QUEUE_NUM then fail (BadIndex (int MAX_QUEUE_NUM))
      else let nc = hd ncs; s = set_links (\<not> up) ncs s in
      bindE (link_changed ops nc s) (\<lambda>s.
      case cl_peer (ns_clients s nc) of
        None \<Rightarrow> ret (True, s)
      | Some p \<Rightarrow>
          bindE (if cl_kind (ns_clients s p) = CK_NIC
                 then bindE (peers_of ncs s) (\<lambda>ps. ret (set_links (\<not> up) ps s)) else ret s) (\<lambda>s.
          bindE (link_changed ops p s) (\<lambda>s. ret (True, s)))))"

section \<open>Specification\<close>

text \<open>A receiver that keeps to itself: receiving a packet and the callbacks of packets change neither the clients nor
  the memory.  \<open>dl\<close> is what it has accepted so far.  Of the functions of a client it has \<^verbatim>\<open>receive\<close> only: no
  \<^verbatim>\<open>receive_raw\<close>, no \<^verbatim>\<open>receive_iov\<close> and no \<^verbatim>\<open>can_receive\<close>; it refuses packets by returning zero.\<close>

definition plain_receiver :: "'w net_ops \<Rightarrow> nat \<Rightarrow> ('w \<Rightarrow> u8 list list) \<Rightarrow> bool" where
  "plain_receiver ops r dl \<longleftrightarrow>
     no_receive_raw ops r = None \<and> no_receive_iov ops r = None \<and> no_can_receive ops r = None \<and>
     (\<forall>bs s. \<exists>a w. no_receive ops r bs s = ret (a, s\<lparr>ns_world := w\<rparr>) \<and> no_mem ops w = no_mem ops (ns_world s) \<and>
        dl w = (if a = 0 then dl (ns_world s) else dl (ns_world s) @ [bs])) \<and>
     (\<forall>cb sender n s. \<exists>w. no_sent ops cb sender n s = ret (s\<lparr>ns_world := w\<rparr>) \<and> no_mem ops w = no_mem ops (ns_world s) \<and>
        dl w = dl (ns_world s))"

text \<open>What happens to the queue of a receiver: packets are sent from a buffer or from a vector, and the receiver asks
  for the packets that wait.\<close>

datatype net_op = SendBuf nat "u8 list" | SendVec nat "iovec list" | FlushQueue

fun run_op :: "'w net_ops \<Rightarrow> nat \<Rightarrow> nat \<Rightarrow> net_op \<Rightarrow> 'w nets \<Rightarrow> 'w nets exec" where
  "run_op ops sender r (SendBuf cb buf) s = bindE (qemu_send_packet_async ops sender buf (Some cb) s) (\<lambda>(_, s). ret s)"
| "run_op ops sender r (SendVec cb iov) s = bindE (qemu_sendv_packet_async ops sender iov (Some cb) s) (\<lambda>(_, s). ret s)"
| "run_op ops sender r FlushQueue s = qemu_flush_queued_packets ops r s"

fun run_ops :: "'w net_ops \<Rightarrow> nat \<Rightarrow> nat \<Rightarrow> net_op list \<Rightarrow> 'w nets \<Rightarrow> 'w nets exec" where
  "run_ops ops sender r [] s = ret s"
| "run_ops ops sender r (x # xs) s = bindE (run_op ops sender r x s) (run_ops ops sender r xs)"

fun op_packets :: "mem \<Rightarrow> net_op \<Rightarrow> u8 list list" where
  "op_packets m (SendBuf cb buf) = [buf]"
| "op_packets m (SendVec cb iov) = [map (\<lambda>a. the (m a)) (addrs_of iov)]"
| "op_packets m FlushQueue = []"

fun op_ok :: "mem \<Rightarrow> net_op \<Rightarrow> bool" where
  "op_ok m (SendBuf cb buf) \<longleftrightarrow> length buf < 2 ^ 31"
| "op_ok m (SendVec cb iov) \<longleftrightarrow> length (addrs_of iov) \<le> NET_BUFSIZE \<and> set (addrs_of iov) \<subseteq> dom m"
| "op_ok m FlushQueue \<longleftrightarrow> True"

definition queued :: "nat \<Rightarrow> 'w nets \<Rightarrow> u8 list list" where
  "queued r s = map np_data (nq_packets (queue_of r s))"

text \<open>The link between sender and receiver, and the invariant of the queue: packets wait only while the receiver is
  marked as not taking any.\<close>

definition linked :: "nat \<Rightarrow> nat \<Rightarrow> 'w nets \<Rightarrow> bool" where
  "linked sender r s \<longleftrightarrow>
     cl_peer (ns_clients s sender) = Some r \<and> \<not> cl_link_down (ns_clients s sender) \<and> \<not> cl_link_down (ns_clients s r) \<and>
     (case cl_peer (ns_clients s r) of Some p \<Rightarrow> cl_kind (ns_clients s p) \<noteq> CK_HUBPORT | None \<Rightarrow> True)"

definition queue_inv :: "nat \<Rightarrow> NetQueue \<Rightarrow> bool" where
  "queue_inv r q \<longleftrightarrow>
     nq_opaque q = r \<and> \<not> nq_delivering q \<and> nq_count q = of_nat (length (nq_packets q)) \<and>
     (\<forall>p \<in> set (nq_packets q). packet_bytes p = ret (np_data p))"

definition fifo_inv :: "nat \<Rightarrow> nat \<Rightarrow> 'w nets \<Rightarrow> bool" where
  "fifo_inv sender r s \<longleftrightarrow>
     linked sender r s \<and> queue_inv r (queue_of r s) \<and> (nq_packets (queue_of r s) \<noteq> [] \<longrightarrow> cl_receive_disabled (ns_clients s r))"

text \<open>All that a transfer to \<open>r\<close> changes: the queue of \<open>r\<close> and its mark.\<close>

definition fixed_part :: "net_client \<Rightarrow> client_kind \<times> bool \<times> nat option \<times> string \<times> string \<times> u32" where
  "fixed_part c = (cl_kind c, cl_link_down c, cl_peer c, cl_model c, cl_name c, cl_queue_index c)"

definition only_queue :: "'w net_ops \<Rightarrow> nat \<Rightarrow> 'w nets \<Rightarrow> 'w nets \<Rightarrow> bool" where
  "only_queue ops r s s' \<longleftrightarrow>
     (\<forall>x. fixed_part (ns_clients s' x) = fixed_part (ns_clients s x) \<and> (x \<noteq> r \<longrightarrow> ns_clients s' x = ns_clients s x)) \<and>
     no_mem ops (ns_world s') = no_mem ops (ns_world s)"

text \<open>Each operation keeps the invariant and the order.\<close>

definition op_result :: "'w net_ops \<Rightarrow> nat \<Rightarrow> nat \<Rightarrow> ('w \<Rightarrow> u8 list list) \<Rightarrow> 'w nets \<Rightarrow> u8 list list \<Rightarrow> 'w nets exec \<Rightarrow> bool" where
  "op_result ops sender r dl s ps m \<longleftrightarrow>
     (\<exists>s'. m = ret s' \<and> fifo_inv sender r s' \<and> only_queue ops r s s' \<and> dl (ns_world s') @ queued r s' = dl (ns_world s) @ queued r s @ ps)"

text \<open>A receiver that refuses a packet when it has no room, and then makes room for one.\<close>

definition sample_ops :: "(u8 list list \<times> nat) net_ops" where
  "sample_ops =
     \<lparr>no_receive = (\<lambda>nc bs s. ret (case ns_world s of
          (log, 0) \<Rightarrow> (0, s\<lparr>ns_world := (log, 1)\<rparr>)
        | (log, Suc n) \<Rightarrow> (1, s\<lparr>ns_world := (log @ [bs], n)\<rparr>))),
      no_receive_raw = (\<lambda>_. None), no_receive_iov = (\<lambda>_. None), no_can_receive = (\<lambda>_. None),
      no_link_status_changed = (\<lambda>_. None), no_sent = (\<lambda>_ _ _ s. ret s), no_mem = (\<lambda>_. sample_mem)\<rparr>"

text \<open>A receiver that takes every packet it is given, and tells beforehand whether it can.\<close>

definition picky_ops :: "(u8 list list \<times> nat) net_ops" where
  "picky_ops = sample_ops\<lparr>no_receive := (\<lambda>nc bs s. ret (1, s\<lparr>ns_world := (fst (ns_world s) @ [bs], snd (ns_world s))\<rparr>)),
     no_can_receive := (\<lambda>_. Some (\<lambda>s. snd (ns_world s) \<noteq> 0))\<rparr>"

definition sample_port :: "nat \<Rightarrow> nat \<Rightarrow> net_client" where
  "sample_port nc peer =
     \<lparr>cl_kind = CK_OTHER, cl_link_down = False, cl_peer = Some peer, cl_incoming_queue = qemu_new_net_queue nc, cl_model = ''sample'',
      cl_name = ''sample'', cl_receive_disabled = False, cl_queue_index = 0\<rparr>"

definition sample_nets :: "(u8 list list \<times> nat) nets" where
  "sample_nets =
     \<lparr>ns_clients = (\<lambda>nc. sample_port nc (1 - nc)), ns_net_clients = [0, 1], ns_hub_ports = (\<lambda>_. []), ns_notified = 0, ns_world = ([], 0)\<rparr>"

section \<open>Lemmas\<close>

lemma only_queue_refl: "only_queue ops r s s"
  by (simp add: only_queue_def)

lemma only_queue_trans [trans]: "only_queue ops r s s' \<Longrightarrow> only_queue ops r s' s'' \<Longrightarrow> only_queue ops r s s''"
  by (simp add: only_queue_def)

lemma only_queue_upd: "only_queue ops r s (upd_net_queue r f s)" "only_queue ops r s (upd_client r (\<lambda>c. c\<lparr>cl_receive_disabled := b\<rparr>) s)"
  "no_mem ops w = no_mem ops (ns_world s) \<Longrightarrow> only_queue ops r s (s\<lparr>ns_world := w\<rparr>)" "only_queue ops r s (notify_event b s)"
  by (simp_all add: only_queue_def fixed_part_def upd_net_queue_def upd_client_def notify_event_def)

lemma linked_only: "only_queue ops r s s' \<Longrightarrow> linked sender r s' = linked sender r s"
  by (auto simp: linked_def only_queue_def fixed_part_def split: option.splits)

lemma queue_of_upd [simp]:
  "queue_of r (upd_net_queue r f s) = f (queue_of r s)" "queue_of r (upd_client r (\<lambda>c. c\<lparr>cl_receive_disabled := b\<rparr>) s) = queue_of r s"
  "queue_of r (s\<lparr>ns_world := w\<rparr>) = queue_of r s" "queue_of r (notify_event b s) = queue_of r s"
  by (simp_all add: queue_of_def upd_net_queue_def upd_client_def notify_event_def)

lemma disabled_upd [simp]:
  "cl_receive_disabled (ns_clients (upd_net_queue r f s) r) = cl_receive_disabled (ns_clients s r)"
  "cl_receive_disabled (ns_clients (upd_client r (\<lambda>c. c\<lparr>cl_receive_disabled := b\<rparr>) s) r) = b"
  "cl_receive_disabled (ns_clients (notify_event b s) r) = cl_receive_disabled (ns_clients s r)"
  by (simp_all add: upd_net_queue_def upd_client_def notify_event_def)

lemma world_upd [simp]:
  "ns_world (upd_net_queue r f s) = ns_world s" "ns_world (upd_client r g s) = ns_world s" "ns_world (notify_event b s) = ns_world s"
  by (simp_all add: upd_net_queue_def upd_client_def notify_event_def)

text \<open>Passing a packet to the receiver: it accepts it, or it is marked and the packet is not accepted.\<close>

lemma disable_if_zero_only: "only_queue ops r s s' \<Longrightarrow> only_queue ops r s (snd (disable_if_zero r (a, s')))"
  using only_queue_trans only_queue_upd(2) by (fastforce simp: disable_if_zero_def)

lemma deliver_packet:
  assumes "plain_receiver ops r dl" "linked sender r s" "\<not> cl_receive_disabled (ns_clients s r)"
  shows "\<exists>a s'. qemu_deliver_packet ops flags data r s = ret (a, s') \<and> only_queue ops r s s' \<and> queue_of r s' = queue_of r s \<and>
     cl_receive_disabled (ns_clients s' r) = (a = 0) \<and>
     dl (ns_world s') = (if a = 0 then dl (ns_world s) else dl (ns_world s) @ [data])"
proof -
  obtain a w where w: "no_receive ops r data s = ret (a, s\<lparr>ns_world := w\<rparr>)" "no_mem ops w = no_mem ops (ns_world s)"
      "dl w = (if a = 0 then dl (ns_world s) else dl (ns_world s) @ [data])" "no_receive_raw ops r = None"
    using assms(1) unfolding plain_receiver_def by metis
  have "qemu_deliver_packet ops flags data r s = ret (disable_if_zero r (a, s\<lparr>ns_world := w\<rparr>))"
    using assms(2,3) w by (simp add: qemu_deliver_packet_def linked_def)
  then show ?thesis
    using w disable_if_zero_only [OF only_queue_upd(3) [OF w(2)], where a = a and r = r] assms(3) by (auto simp: disable_if_zero_def)
qed

lemma deliver_iov:
  assumes "plain_receiver ops r dl" "linked sender r s" "\<not> cl_receive_disabled (ns_clients s r)" "op_ok (no_mem ops (ns_world s)) (SendVec cb iov)"
    "data = map (\<lambda>a. the (no_mem ops (ns_world s) a)) (addrs_of iov)"
  shows "\<exists>a s'. qemu_deliver_packet_iov ops iov r s = ret (a, s') \<and> only_queue ops r s s' \<and> queue_of r s' = queue_of r s \<and>
     cl_receive_disabled (ns_clients s' r) = (a = 0) \<and>
     dl (ns_world s') = (if a = 0 then dl (ns_world s) else dl (ns_world s) @ [data])"
proof -
  obtain a w where w: "no_receive ops r data s = ret (a, s\<lparr>ns_world := w\<rparr>)" "no_mem ops w = no_mem ops (ns_world s)"
      "dl w = (if a = 0 then dl (ns_world s) else dl (ns_world s) @ [data])" "no_receive_iov ops r = None"
    using assms(1) unfolding plain_receiver_def by metis
  have "window 0 NET_BUFSIZE (addrs_of iov) = addrs_of iov" using assms(4) by (simp add: window_def)
  then have "iov_to_buf iov 0 NET_BUFSIZE (no_mem ops (ns_world s)) = ret data"
    using assms(4,5) by (simp add: iov_to_buf_spec)
  then have "qemu_deliver_packet_iov ops iov r s = ret (disable_if_zero r (a, s\<lparr>ns_world := w\<rparr>))"
    using assms(2,3) w by (simp add: qemu_deliver_packet_iov_def nc_sendv_compat_def linked_def)
  then show ?thesis
    using w disable_if_zero_only [OF only_queue_upd(3) [OF w(2)], where a = a and r = r] assms(3) by (auto simp: disable_if_zero_def)
qed

text \<open>The same around the mark of a delivery in progress.\<close>

lemma marked_delivery:
  assumes del: "\<And>s. linked sender r s \<Longrightarrow> \<not> cl_receive_disabled (ns_clients s r) \<Longrightarrow> P (no_mem ops (ns_world s)) \<Longrightarrow>
      \<exists>a s'. f s = ret (a, s') \<and> only_queue ops r s s' \<and> queue_of r s' = queue_of r s \<and>
        cl_receive_disabled (ns_clients s' r) = (a = 0) \<and> dl (ns_world s') = (if a = 0 then dl (ns_world s) else dl (ns_world s) @ [data])"
    and "linked sender r s" "\<not> cl_receive_disabled (ns_clients s r)" "P (no_mem ops (ns_world s))" "\<not> nq_delivering (queue_of r s)"
  shows "\<exists>a s'. bindE (f (upd_net_queue r (\<lambda>q. q\<lparr>nq_delivering := True\<rparr>) s))
       (\<lambda>(a, s). ret (a, upd_net_queue r (\<lambda>q. q\<lparr>nq_delivering := False\<rparr>) s)) = ret (a, s') \<and>
     only_queue ops r s s' \<and> queue_of r s' = queue_of r s \<and>
     cl_receive_disabled (ns_clients s' r) = (a = 0) \<and> dl (ns_world s') = (if a = 0 then dl (ns_world s) else dl (ns_world s) @ [data])"
proof -
  let ?s = "upd_net_queue r (\<lambda>q. q\<lparr>nq_delivering := True\<rparr>) s"
  have o: "only_queue ops r s ?s" by (rule only_queue_upd)
  obtain a s1 where s1: "f ?s = ret (a, s1)" "only_queue ops r ?s s1" "queue_of r s1 = queue_of r ?s"
      "cl_receive_disabled (ns_clients s1 r) = (a = 0)" "dl (ns_world s1) = (if a = 0 then dl (ns_world s) else dl (ns_world s) @ [data])"
    using del [of ?s] assms(2-4) linked_only [OF o, of sender] by auto
  have "only_queue ops r s (upd_net_queue r (\<lambda>q. q\<lparr>nq_delivering := False\<rparr>) s1)"
    by (rule only_queue_trans [OF o only_queue_trans [OF s1(2) only_queue_upd(1)]])
  then show ?thesis using s1 assms(5) by simp
qed

lemma queue_deliver:
  assumes "plain_receiver ops r dl" "linked sender r s" "\<not> cl_receive_disabled (ns_clients s r)" "queue_inv r (queue_of r s)"
  shows "\<exists>a s'. qemu_net_queue_deliver ops r flags data s = ret (a, s') \<and> only_queue ops r s s' \<and> queue_of r s' = queue_of r s \<and>
     cl_receive_disabled (ns_clients s' r) = (a = 0) \<and> dl (ns_world s') = (if a = 0 then dl (ns_world s) else dl (ns_world s) @ [data])"
  using marked_delivery [where P = "\<lambda>_. True" and f = "qemu_deliver_packet ops flags data r" and s = s, OF deliver_packet [OF assms(1)]] assms(2-4)
  by (simp add: qemu_net_queue_deliver_def queue_inv_def)

lemma queue_deliver_iov:
  assumes "plain_receiver ops r dl" "linked sender r s" "\<not> cl_receive_disabled (ns_clients s r)" "queue_inv r (queue_of r s)"
    "op_ok (no_mem ops (ns_world s)) (SendVec cb iov)" "data = map (\<lambda>a. the (no_mem ops (ns_world s) a)) (addrs_of iov)"
  shows "\<exists>a s'. qemu_net_queue_deliver_iov ops r iov s = ret (a, s') \<and> only_queue ops r s s' \<and> queue_of r s' = queue_of r s \<and>
     cl_receive_disabled (ns_clients s' r) = (a = 0) \<and> dl (ns_world s') = (if a = 0 then dl (ns_world s) else dl (ns_world s) @ [data])"
proof -
  let ?P = "\<lambda>m. op_ok m (SendVec cb iov) \<and> data = map (\<lambda>a. the (m a)) (addrs_of iov)"
  have "\<exists>a s'. qemu_deliver_packet_iov ops iov r s = ret (a, s') \<and> only_queue ops r s s' \<and> queue_of r s' = queue_of r s \<and>
      cl_receive_disabled (ns_clients s' r) = (a = 0) \<and> dl (ns_world s') = (if a = 0 then dl (ns_world s) else dl (ns_world s) @ [data])"
    if "linked sender r s" "\<not> cl_receive_disabled (ns_clients s r)" "?P (no_mem ops (ns_world s))" for s
    using deliver_iov [OF assms(1) that(1,2)] that(3) by blast
  from marked_delivery [where P = ?P, OF this] show ?thesis
    using assms(2-6) by (simp add: qemu_net_queue_deliver_iov_def queue_inv_def)
qed

lemma flush_fifo:
  assumes "plain_receiver ops r dl" "linked sender r s" "\<not> cl_receive_disabled (ns_clients s r)" "queue_inv r (queue_of r s)"
  shows "\<exists>b s'. qemu_net_queue_flush ops r s = ret (b, s') \<and> only_queue ops r s s' \<and> fifo_inv sender r s' \<and>
     dl (ns_world s') @ queued r s' = dl (ns_world s) @ queued r s"
  using assms(2-4)
proof (induction "nq_packets (queue_of r s)" arbitrary: s)
  case Nil
  then show ?case
    by (subst qemu_net_queue_flush.simps) (auto simp: only_queue_refl fifo_inv_def queued_def Nil(1) [symmetric])
next
  case (Cons p ps)
  let ?s = "upd_net_queue r (\<lambda>q. q\<lparr>nq_packets := ps, nq_count := nq_count q - 1\<rparr>) s"
  have qs: "nq_packets (queue_of r s) = p # ps" using Cons(2) by simp
  have o1: "only_queue ops r s ?s" by (rule only_queue_upd)
  have inv1: "queue_inv r (queue_of r ?s)" and pb: "packet_bytes p = ret (np_data p)"
    using Cons(5) qs by (auto simp: queue_inv_def)
  obtain a s1 where s1: "qemu_net_queue_deliver ops r (np_flags p) (np_data p) ?s = ret (a, s1)" "only_queue ops r ?s s1"
      "queue_of r s1 = queue_of r ?s" "cl_receive_disabled (ns_clients s1 r) = (a = 0)"
      "dl (ns_world s1) = (if a = 0 then dl (ns_world s) else dl (ns_world s) @ [np_data p])"
    using queue_deliver [OF assms(1), of sender ?s "np_flags p" "np_data p"] Cons(3,4) linked_only [OF o1, of sender] inv1 by auto
  have o2: "only_queue ops r s s1" by (rule only_queue_trans [OF o1 s1(2)])
  show ?case
  proof (cases "a = 0")
    case True
    let ?s2 = "upd_net_queue r (\<lambda>q. q\<lparr>nq_count := nq_count q + 1, nq_packets := p # nq_packets q\<rparr>) s1"
    have "qemu_net_queue_flush ops r s = ret (False, ?s2)"
      by (subst qemu_net_queue_flush.simps) (simp add: qs pb s1(1) True)
    moreover have "only_queue ops r s ?s2" by (rule only_queue_trans [OF o2 only_queue_upd(1)])
    moreover have "queue_of r ?s2 = queue_of r s" using s1(3) qs by simp
    ultimately show ?thesis
      using s1(4,5) True Cons(3,5) linked_only [of ops r s ?s2 sender] by (auto simp: fifo_inv_def queued_def)
  next
    case False
    obtain w where w: "(case np_sent_cb p of Some cb \<Rightarrow> no_sent ops cb (np_sender p) a s1 | None \<Rightarrow> ret s1) = ret (s1\<lparr>ns_world := w\<rparr>)"
        "no_mem ops w = no_mem ops (ns_world s1)" "dl w = dl (ns_world s1)"
    proof (cases "np_sent_cb p")
      case None
      then show thesis using that [of "ns_world s1"] by simp
    next
      case (Some cb)
      then show thesis using that assms(1) unfolding plain_receiver_def by fastforce
    qed
    let ?s2 = "s1\<lparr>ns_world := w\<rparr>"
    have o3: "only_queue ops r s ?s2" by (rule only_queue_trans [OF o2 only_queue_upd(3) [OF w(2)]])
    have "qemu_net_queue_flush ops r s = qemu_net_queue_flush ops r ?s2"
      by (subst qemu_net_queue_flush.simps) (simp add: qs pb s1(1) False w(1))
    moreover obtain b s' where "qemu_net_queue_flush ops r ?s2 = ret (b, s')" "only_queue ops r ?s2 s'" "fifo_inv sender r s'"
        "dl (ns_world s') @ queued r s' = dl w @ queued r ?s2"
      using Cons(1) [of ?s2] s1(3,4) False Cons(3) linked_only [OF o3, of sender] inv1 by auto
    moreover have "dl w @ queued r ?s2 = dl (ns_world s) @ queued r s"
      using w(3) s1(3,5) False by (simp add: queued_def qs)
    ultimately show ?thesis using only_queue_trans [OF o3] by auto
  qed
qed

lemma append_parts_spec:
  "\<lbrakk>0 \<le> pos; nat pos + length (addrs_of vs) = length data; length data < 2 ^ 31; set (addrs_of vs) \<subseteq> dom m\<rbrakk> \<Longrightarrow>
   append_parts vs pos data m = ret (int (length data), take (nat pos) data @ map (\<lambda>a. the (m a)) (addrs_of vs))"
proof (induction vs pos data m rule: append_parts.induct)
  case (1 pos data m)
  then show ?case by simp
next
  case (2 v vs pos data m)
  let ?l = "unat (iov_len v)" and ?bs = "map (\<lambda>a. the (m a)) (span_of v)"
  let ?pos = "int_of_u32 (word_of_int pos + ucast (iov_len v))" and ?data = "poke (nat pos) ?bs data"
  have le: "nat pos + ?l \<le> length data" using 2(3) by simp
  have reg: "region (iov_base v) ?l \<subseteq> dom m" using 2(5) span_region [of 0 ?l v] by (simp add: window_def)
  have bs: "memcpy_from m (iov_base v) ?l = ret ?bs" using memcpy_from_at [OF reg] by (simp add: span_of_def o_def)
  have w: "word_of_int pos + ucast (iov_len v) = (of_nat (nat pos + ?l) :: u32)"
    using 2(2) by (simp add: of_nat_nat)
  have "unat (of_nat (nat pos + ?l) :: u32) = nat pos + ?l"
    using le 2(4) by (intro unat_of_nat_small) simp
  then have pos: "?pos = int (nat pos + ?l)"
    unfolding w using le 2(4) by (subst int_of_u32_small) simp_all
  have len: "length ?data = length data" using le by (simp add: poke_def)
  have "append_parts vs ?pos ?data m = ret (int (length ?data), take (nat ?pos) ?data @ map (\<lambda>a. the (m a)) (addrs_of vs))"
  proof (rule 2(1))
    show "nat ?pos + length (addrs_of vs) = length ?data" using 2(3) by (simp only: pos len nat_int addrs_of_simps length_append length_span_of add.assoc)
  qed (use 2 pos len le bs in auto)
  moreover have "take (nat ?pos) ?data = take (nat pos) data @ ?bs" unfolding pos nat_int using le by (simp add: poke_def)
  ultimately show ?case using le 2(2) bs len by simp
qed

text \<open>A packet that waits.\<close>

lemma wait_buf:
  assumes "fifo_inv sender r s" "cl_receive_disabled (ns_clients s r)" "length buf < 2 ^ 31"
    and "s' = upd_net_queue r (qemu_net_queue_append x flags buf (Some cb)) s"
  shows "fifo_inv sender r s' \<and> only_queue ops r s s' \<and> queued r s' = queued r s @ [buf]"
proof -
  have "unat (of_nat (length buf) :: u32) = length buf" using assms(3) by (intro unat_of_nat_small) simp
  then have "int_of_u32 (of_nat (length buf)) = int (length buf)"
    using assms(3) int_of_u32_small [of "of_nat (length buf)"] by simp
  moreover have "only_queue ops r s s'" unfolding assms(4) by (rule only_queue_upd)
  ultimately show ?thesis
    using assms linked_only [of ops r s s' sender]
    by (auto simp: fifo_inv_def queue_inv_def queued_def qemu_net_queue_append_def drop_packet_def insert_tail_def packet_bytes_def)
qed

lemma wait_iov:
  assumes "fifo_inv sender r s" "cl_receive_disabled (ns_clients s r)" "op_ok (no_mem ops (ns_world s)) (SendVec cb iov)"
  shows "\<exists>s'. append_iov_to ops r x flags iov (Some cb) s = ret s' \<and> fifo_inv sender r s' \<and> only_queue ops r s s' \<and>
    ns_world s' = ns_world s \<and> queued r s' = queued r s @ [map (\<lambda>a. the (no_mem ops (ns_world s) a)) (addrs_of iov)]"
proof -
  let ?m = "no_mem ops (ns_world s)" and ?l = "length (addrs_of iov)"
  let ?data = "map (\<lambda>a. the (?m a)) (addrs_of iov)"
  have l: "?l < 2 ^ 31" using assms(3) by (simp add: NET_BUFSIZE_def)
  then have "unat (of_nat ?l :: u64) = ?l" by (intro unat_of_nat_small) simp
  then have "append_parts iov 0 (replicate (unat (iov_size iov)) 0) ?m = ret (int ?l, ?data)"
    using append_parts_spec [of 0 iov "replicate ?l 0" ?m] l assms(3) by (simp add: iov_size_addrs)
  then obtain p where p: "append_iov_to ops r x flags iov (Some cb) s = ret (upd_net_queue r (\<lambda>_. insert_tail p (queue_of r s)) s)"
      "np_data p = ?data" "np_size p = int ?l"
    by (simp add: append_iov_to_def qemu_net_queue_append_iov_def drop_packet_def)
  have "only_queue ops r s (upd_net_queue r (\<lambda>_. insert_tail p (queue_of r s)) s)" by (rule only_queue_upd)
  then show ?thesis
    using p assms(1,2) linked_only [of ops r s _ sender]
    by (auto simp: fifo_inv_def queue_inv_def queued_def insert_tail_def packet_bytes_def)
qed

lemma can_send: "plain_receiver ops r dl \<Longrightarrow> linked sender r s \<Longrightarrow> qemu_can_send_packet ops sender s = (\<not> cl_receive_disabled (ns_clients s r))"
  by (simp add: qemu_can_send_packet_def linked_def plain_receiver_def)

lemma flush_after:
  assumes "plain_receiver ops r dl" "fifo_inv sender r s" "only_queue ops r s s1" "queue_of r s1 = queue_of r s"
    "\<not> cl_receive_disabled (ns_clients s1 r)" "\<not> cl_receive_disabled (ns_clients s r)" "dl (ns_world s1) = dl (ns_world s) @ [data]"
  shows "op_result ops sender r dl s [data] (bindE (qemu_net_queue_flush ops r s1) (\<lambda>(_, s). ret s))"
proof -
  have e: "queued r s = []" "queued r s1 = []" using assms(2,4,6) by (auto simp: fifo_inv_def queued_def)
  have "linked sender r s1" using assms(2) linked_only [OF assms(3)] by (simp add: fifo_inv_def)
  moreover have "queue_inv r (queue_of r s1)" using assms(2,4) by (simp add: fifo_inv_def)
  ultimately show ?thesis
    using flush_fifo [OF assms(1) _ assms(5), of sender] e assms(7) only_queue_trans [OF assms(3)] unfolding op_result_def by fastforce
qed

text \<open>Both ways to send have the same shape: \<open>W\<close> appends the packet and \<open>D\<close> passes it to the receiver.\<close>

lemma send_step:
  assumes "plain_receiver ops r dl" "fifo_inv sender r s"
    and wait: "\<And>s1. only_queue ops r s s1 \<Longrightarrow> fifo_inv sender r s1 \<Longrightarrow> cl_receive_disabled (ns_clients s1 r) \<Longrightarrow>
      \<exists>s'. W s1 = ret s' \<and> fifo_inv sender r s' \<and> only_queue ops r s1 s' \<and> ns_world s' = ns_world s1 \<and> queued r s' = queued r s1 @ [data]"
    and del: "\<not> cl_receive_disabled (ns_clients s r) \<Longrightarrow>
      \<exists>a s'. D s = ret (a, s') \<and> only_queue ops r s s' \<and> queue_of r s' = queue_of r s \<and>
        cl_receive_disabled (ns_clients s' r) = (a = 0) \<and> dl (ns_world s') = (if a = 0 then dl (ns_world s) else dl (ns_world s) @ [data])"
  shows "op_result ops sender r dl s [data]
    (bindE (if nq_delivering (queue_of r s) \<or> \<not> qemu_can_send_packet ops sender s then bindE (W s) (\<lambda>s. ret (0 :: int, s))
            else bindE (D s) (\<lambda>(a, s). if a = 0 then bindE (W s) (\<lambda>s. ret (0, s))
              else bindE (qemu_net_queue_flush ops r s) (\<lambda>(_, s). ret (a, s)))) (\<lambda>(_, s). ret s))" (is "op_result _ _ _ _ _ _ ?run")
proof -
  have l: "linked sender r s" and nd: "\<not> nq_delivering (queue_of r s)" using assms(2) by (simp_all add: fifo_inv_def queue_inv_def)
  note cs = can_send [OF assms(1) l]
  show ?thesis
  proof (cases "cl_receive_disabled (ns_clients s r)")
    case True
    then obtain s' where "W s = ret s'" "fifo_inv sender r s'" "only_queue ops r s s'" "ns_world s' = ns_world s" "queued r s' = queued r s @ [data]"
      using wait [OF only_queue_refl assms(2)] by blast
    then show ?thesis using True cs by (simp add: op_result_def)
  next
    case False
    obtain a s1 where s1: "D s = ret (a, s1)" "only_queue ops r s s1" "queue_of r s1 = queue_of r s"
        "cl_receive_disabled (ns_clients s1 r) = (a = 0)" "dl (ns_world s1) = (if a = 0 then dl (ns_world s) else dl (ns_world s) @ [data])"
      using del [OF False] by blast
    show ?thesis
    proof (cases "a = 0")
      case True
      then have "fifo_inv sender r s1" using assms(2) s1(3,4) linked_only [OF s1(2)] by (simp add: fifo_inv_def)
      then obtain s' where "W s1 = ret s'" "fifo_inv sender r s'" "only_queue ops r s1 s'" "ns_world s' = ns_world s1" "queued r s' = queued r s1 @ [data]"
        using wait [OF s1(2)] s1(4) True by blast
      then show ?thesis
        using True False cs nd s1 only_queue_trans [OF s1(2)] by (simp add: op_result_def queued_def)
    next
      case nz: False
      then have "?run = bindE (qemu_net_queue_flush ops r s1) (\<lambda>(_, s). ret s)"
        using s1(1) cs nd False by (simp add: bindE_assoc case_prod_unfold)
      then show ?thesis using flush_after [OF assms(1,2) s1(2,3)] s1(4,5) nz False by simp
    qed
  qed
qed

lemma op_step:
  assumes "plain_receiver ops r dl" "fifo_inv sender r s" "op_ok (no_mem ops (ns_world s)) x"
  shows "op_result ops sender r dl s (op_packets (no_mem ops (ns_world s)) x) (run_op ops sender r x s)"
proof (cases x)
  case (SendBuf cb buf)
  have l: "linked sender r s" "queue_inv r (queue_of r s)" using assms(2) by (simp_all add: fifo_inv_def)
  let ?W = "\<lambda>s. ret (upd_net_queue r (qemu_net_queue_append sender QEMU_NET_PACKET_FLAG_NONE buf (Some cb)) s)"
  let ?D = "qemu_net_queue_deliver ops r QEMU_NET_PACKET_FLAG_NONE buf"
  have run: "run_op ops sender r (SendBuf cb buf) s =
    bindE (if nq_delivering (queue_of r s) \<or> \<not> qemu_can_send_packet ops sender s then bindE (?W s) (\<lambda>s. ret (0 :: int, s))
           else bindE (?D s) (\<lambda>(a, s). if a = 0 then bindE (?W s) (\<lambda>s. ret (0, s))
              else bindE (qemu_net_queue_flush ops r s) (\<lambda>(_, s). ret (a, s)))) (\<lambda>(_, s). ret s)"
    using l(1) by (simp add: qemu_send_packet_async_def qemu_send_packet_async_with_flags_def linked_def qemu_net_queue_send_def case_prod_unfold cong: if_cong)
  have "length buf < 2 ^ 31" using assms(3) SendBuf by simp
  then have "\<exists>s'. ?W s1 = ret s' \<and> fifo_inv sender r s' \<and> only_queue ops r s1 s' \<and> ns_world s' = ns_world s1 \<and> queued r s' = queued r s1 @ [buf]"
    if "fifo_inv sender r s1" "cl_receive_disabled (ns_clients s1 r)" for s1 using wait_buf [OF that _ refl] by simp
  then have "op_result ops sender r dl s [buf] (run_op ops sender r (SendBuf cb buf) s)"
    unfolding run using queue_deliver [OF assms(1) l(1) _ l(2)] by (intro send_step [OF assms(1,2)]) auto
  then show ?thesis by (simp add: SendBuf)
next
  case (SendVec cb iov)
  have l: "linked sender r s" "queue_inv r (queue_of r s)" using assms(2) by (simp_all add: fifo_inv_def)
  have ok: "op_ok (no_mem ops (ns_world s)) (SendVec cb iov)" using assms(3) SendVec by simp
  let ?data = "map (\<lambda>a. the (no_mem ops (ns_world s) a)) (addrs_of iov)"
  have w: "\<exists>s'. append_iov_to ops r sender QEMU_NET_PACKET_FLAG_NONE iov (Some cb) s1 = ret s' \<and> fifo_inv sender r s' \<and> only_queue ops r s1 s' \<and>
      ns_world s' = ns_world s1 \<and> queued r s' = queued r s1 @ [?data]"
    if "only_queue ops r s s1" "fifo_inv sender r s1" "cl_receive_disabled (ns_clients s1 r)" for s1
    using wait_iov [OF that(2,3), of ops cb iov] ok that(1) by (simp add: only_queue_def)
  let ?W = "append_iov_to ops r sender QEMU_NET_PACKET_FLAG_NONE iov (Some cb)" and ?D = "qemu_net_queue_deliver_iov ops r iov"
  have run: "run_op ops sender r (SendVec cb iov) s =
    bindE (if nq_delivering (queue_of r s) \<or> \<not> qemu_can_send_packet ops sender s then bindE (?W s) (\<lambda>s. ret (0 :: int, s))
           else bindE (?D s) (\<lambda>(a, s). if a = 0 then bindE (?W s) (\<lambda>s. ret (0, s))
              else bindE (qemu_net_queue_flush ops r s) (\<lambda>(_, s). ret (a, s)))) (\<lambda>(_, s). ret s)"
    using l(1) by (simp add: qemu_sendv_packet_async_def linked_def qemu_net_queue_send_iov_def)
  have "op_result ops sender r dl s [?data] (run_op ops sender r (SendVec cb iov) s)"
    unfolding run using w queue_deliver_iov [OF assms(1) l(1) _ l(2) ok refl] by (intro send_step [OF assms(1,2)]) auto
  then show ?thesis by (simp add: SendVec)
next
  case FlushQueue
  let ?s = "upd_client r (\<lambda>c. c\<lparr>cl_receive_disabled := False\<rparr>) s"
  have o: "only_queue ops r s ?s" by (rule only_queue_upd)
  have l: "linked sender r ?s" "queue_inv r (queue_of r ?s)" using assms(2) linked_only [OF o] by (simp_all add: fifo_inv_def)
  obtain b s' where s': "qemu_net_queue_flush ops r ?s = ret (b, s')" "only_queue ops r ?s s'" "fifo_inv sender r s'"
      "dl (ns_world s') @ queued r s' = dl (ns_world ?s) @ queued r ?s"
    using flush_fifo [OF assms(1) l(1) _ l(2)] by auto
  have "run_op ops sender r FlushQueue s = ret (notify_event b s')"
    using s'(1) l(1) by (auto simp: qemu_flush_queued_packets_def linked_def Let_def split: option.splits)
  moreover have "only_queue ops r s (notify_event b s')"
    by (rule only_queue_trans [OF o only_queue_trans [OF s'(2) only_queue_upd(4)]])
  moreover have "fifo_inv sender r (notify_event b s')"
    using s'(3) linked_only [OF only_queue_upd(4) [of ops r s' b], of sender] by (simp add: fifo_inv_def)
  ultimately show ?thesis using s'(4) by (simp add: op_result_def FlushQueue queued_def)
qed

text \<open>
  C18. The queue in front of a network client that has no function \<^verbatim>\<open>can_receive\<close> (nor \<^verbatim>\<open>receive_raw\<close> or
  \<^verbatim>\<open>receive_iov\<close>) and whose \<^verbatim>\<open>receive\<close> changes no other client keeps the order and loses nothing: for every
  sequence of packets sent with a callback, from buffers or from vectors of at most 68 kilobytes, and of requests to flush, what
  the receiver has accepted followed by what waits in its queue is what was sent, in order.  Whether the receiver takes a
  packet at once, later, or refuses it for a while is up to the receiver.  The counter of the queue stays exact.  For a client
  with \<^verbatim>\<open>can_receive\<close>, such as the virtio card, the order is not kept by the queue alone: a packet that was
  queued while the client could not receive is overtaken by one that is sent as soon as it can, before the client has asked
  for the packets that wait.
\<close>

theorem net_queue_fifo:
  assumes "plain_receiver ops r dl" "fifo_inv sender r s" "\<forall>x \<in> set xs. op_ok (no_mem ops (ns_world s)) x"
  shows "\<exists>s'. run_ops ops sender r xs s = ret s' \<and> fifo_inv sender r s' \<and>
    dl (ns_world s') @ queued r s' = dl (ns_world s) @ queued r s @ concat (map (op_packets (no_mem ops (ns_world s))) xs)"
  using assms(2,3)
proof (induction xs arbitrary: s)
  case Nil
  then show ?case by simp
next
  case (Cons x xs)
  obtain s1 where s1: "run_op ops sender r x s = ret s1" "fifo_inv sender r s1" "only_queue ops r s s1"
      "dl (ns_world s1) @ queued r s1 = dl (ns_world s) @ queued r s @ op_packets (no_mem ops (ns_world s)) x"
    using op_step [OF assms(1) Cons(2), of x] Cons(3) by (auto simp: op_result_def)
  have m: "no_mem ops (ns_world s1) = no_mem ops (ns_world s)" using s1(3) by (simp add: only_queue_def)
  then obtain s' where s': "run_ops ops sender r xs s1 = ret s'" "fifo_inv sender r s'"
      "dl (ns_world s') @ queued r s' = dl (ns_world s1) @ queued r s1 @ concat (map (op_packets (no_mem ops (ns_world s))) xs)"
    using Cons(1) [OF s1(2)] Cons(3) by auto
  have "dl (ns_world s') @ queued r s' = dl (ns_world s) @ queued r s @ concat (map (op_packets (no_mem ops (ns_world s))) (x # xs))"
    unfolding s'(3) using s1(4) by (metis append.assoc concat.simps(2) list.simps(9))
  then show ?case using s1(1) s'(1,2) by auto
qed

text \<open>The packet \<open>[1]\<close> is sent while the receiver of \<open>picky_ops\<close> cannot receive, and \<open>[2]\<close> when it can.\<close>

lemma can_receive_overtaken:
  "bindE (run_op picky_ops 0 1 (SendBuf 7 [1]) sample_nets) (\<lambda>s.
   bindE (run_op picky_ops 0 1 (SendBuf 7 [2]) (s\<lparr>ns_world := (fst (ns_world s), 1)\<rparr>)) (\<lambda>s. ret (fst (ns_world s), queued 1 s))) =
   ret ([[2], [1]], [])"
  by (simp add: qemu_send_packet_async_def qemu_send_packet_async_with_flags_def qemu_net_queue_send_def qemu_can_send_packet_def picky_ops_def sample_ops_def
    sample_nets_def sample_port_def qemu_new_net_queue_def queue_of_def qemu_net_queue_append_def upd_net_queue_def upd_client_def insert_tail_def
    qemu_net_queue_deliver_def qemu_deliver_packet_def disable_if_zero_def qemu_net_queue_flush.simps packet_bytes_def queued_def Let_def drop_packet_def int_of_u32_def)

section \<open>Examples\<close>

lemma sample_receiver: "plain_receiver sample_ops 1 fst"
proof -
  have "\<exists>a w. no_receive sample_ops 1 bs s = ret (a, s\<lparr>ns_world := w\<rparr>) \<and>
      fst w = (if a = 0 then fst (ns_world s) else fst (ns_world s) @ [bs])" for bs s
    by (cases "ns_world s"; cases "snd (ns_world s)") (auto simp: sample_ops_def)
  moreover have "\<exists>w. no_sent sample_ops cb sender n s = ret (s\<lparr>ns_world := w\<rparr>) \<and> fst w = fst (ns_world s)" for cb sender n s
    by (rule exI [of _ "ns_world s"]) (simp add: sample_ops_def)
  ultimately show ?thesis unfolding plain_receiver_def by (simp add: sample_ops_def)
qed

theorem net_queue_fifo_witness:
  "\<exists>s'. run_ops sample_ops 0 1 [SendBuf 7 [1, 2, 3], SendVec 7 sample_iov, FlushQueue] sample_nets = ret s' \<and>
     fst (ns_world s') @ queued 1 s' = [[1, 2, 3], map (\<lambda>a. the (sample_mem a)) (addrs_of sample_iov)]"
proof -
  have "fifo_inv 0 1 sample_nets"
    by (simp add: fifo_inv_def linked_def queue_inv_def queue_of_def sample_nets_def sample_port_def qemu_new_net_queue_def)
  moreover have m: "no_mem sample_ops (ns_world sample_nets) = sample_mem" by (simp add: sample_ops_def)
  moreover have "\<forall>x \<in> set [SendBuf 7 [1, 2, 3], SendVec 7 sample_iov, FlushQueue]. op_ok (no_mem sample_ops (ns_world sample_nets)) x"
    unfolding m by (simp add: sample_addrs NET_BUFSIZE_def) (simp add: sample_mem_def dom_def)
  ultimately show ?thesis
    using net_queue_fifo [OF sample_receiver, of 0 sample_nets "[SendBuf 7 [1, 2, 3], SendVec 7 sample_iov, FlushQueue]"]
    by (auto simp: queued_def queue_of_def sample_nets_def sample_port_def qemu_new_net_queue_def)
qed

end
