(* ===== verification/Checksum.thy ===== *)
theory Checksum
  imports IoVec
begin

text \<open>
  The Internet checksum, from \<^verbatim>\<open>src/qemu_vhost_user/net/checksum.c\<close>: sums of 16-bit words over buffers and vectors,
  the folding of the carries, and the checksum of TCP and UDP packets.
\<close>

section \<open>Sums\<close>

text \<open>Bytes at odd positions count once, the others 256 times; the sum wraps around at 32 bits.\<close>

fun checksum_loop :: "u32 \<Rightarrow> int \<Rightarrow> u8 list \<Rightarrow> u32" where
  "checksum_loop s i [] = s"
| "checksum_loop s i (b # bs) =
     checksum_loop (s + (if odd i then ucast b else push_bit 8 (ucast b))) (i + 1) bs"

definition net_checksum_add_cont :: "u8 list \<Rightarrow> int \<Rightarrow> u32" where
  "net_checksum_add_cont buf seq = checksum_loop 0 seq buf"

definition net_checksum_add :: "u8 list \<Rightarrow> u32" where
  "net_checksum_add buf = net_checksum_add_cont buf 0"

lemma low_half: "unat (s AND 0xFFFF) = unat s mod 65536" for s :: u32
proof -
  have "s AND 0xFFFF = take_bit 16 s" by (simp add: take_bit_eq_mask mask_eq_exp_minus_1)
  then show ?thesis by (simp add: take_bit_eq_mod unat_mod_distrib)
qed

lemma high_half: "unat (drop_bit 16 s) = unat s div 65536" for s :: u32
  by (simp add: drop_bit_eq_div unat_div_distrib)

lemma fold_sum: "unat ((s AND 0xFFFF) + drop_bit 16 s) = unat s mod 65536 + unat s div 65536" for s :: u32
proof -
  have "unat s < 2 ^ 32" using unsigned_less [of s, where 'a = nat] by simp
  then have "unat s mod 65536 + unat s div 65536 < 2 ^ 32" by simp
  then show ?thesis by (simp add: unat_word_ariths low_half high_half)
qed

text \<open>The loop folds the carries into the low half; it ends because the sum becomes smaller.\<close>

function net_checksum_finish :: "u32 \<Rightarrow> u16" where
  "net_checksum_finish s =
     (if drop_bit 16 s \<noteq> 0 then net_checksum_finish ((s AND 0xFFFF) + drop_bit 16 s) else ucast (NOT s))"
  by auto
termination
proof (relation "measure unat")
  fix s :: u32
  assume "drop_bit 16 s \<noteq> 0"
  then have "unat s div 65536 \<noteq> 0" using high_half [of s] by (metis unsigned_0 unsigned_word_eqI)
  then show "((s AND 0xFFFF) + drop_bit 16 s, s) \<in> measure unat"
    using div_mult_mod_eq [of "unat s" 65536] unfolding in_measure fold_sum by linarith
qed simp

declare net_checksum_finish.simps [simp del]

definition net_checksum_tcpudp :: "u16 \<Rightarrow> u16 \<Rightarrow> u8 list \<Rightarrow> u8 list \<Rightarrow> u16" where
  "net_checksum_tcpudp len proto addrs buf =
     net_checksum_finish (net_checksum_add buf + net_checksum_add addrs + (ucast proto + ucast len))"

section \<open>Packets\<close>

text \<open>Accesses to a packet are accesses to the buffer that holds it.\<close>

definition byte_at :: "u8 list \<Rightarrow> int \<Rightarrow> u8 exec" where
  "byte_at data i = (if 0 \<le> i \<and> nat i < length data then ret (data ! nat i) else fail (BadIndex i))"

definition bytes_at :: "u8 list \<Rightarrow> int \<Rightarrow> int \<Rightarrow> u8 list exec" where
  "bytes_at data i n =
     (if 0 \<le> i \<and> nat (i + n) \<le> length data then ret (peek (nat i) (nat n) data) else fail (BadIndex (int (length data))))"

definition set_byte :: "int \<Rightarrow> u8 \<Rightarrow> u8 list \<Rightarrow> u8 list exec" where
  "set_byte i b data = (if 0 \<le> i \<and> nat i < length data then ret (data[nat i := b]) else fail (BadIndex i))"

definition PROTO_TCP :: u8 where
  "PROTO_TCP = 6"

definition PROTO_UDP :: u8 where
  "PROTO_UDP = 17"

text \<open>The length that is passed beside the packet is not read by the code.\<close>

definition net_checksum_calculate :: "u8 list \<Rightarrow> u8 list exec" where
  "net_checksum_calculate data =
     bindE (byte_at data 14) (\<lambda>d14.
     if d14 AND 0xf0 \<noteq> 0x40 then ret data
     else bindE (byte_at data 16) (\<lambda>d16. bindE (byte_at data 17) (\<lambda>d17. bindE (byte_at data 23) (\<lambda>proto.
       let hlen = uint (d14 AND 0x0f) * 4; plen = (uint d16 * 256 + uint d17) - hlen in
       if proto \<noteq> PROTO_TCP \<and> proto \<noteq> PROTO_UDP then ret data
       else let csum_offset = (if proto = PROTO_TCP then 16 else 6) in
       if plen < csum_offset + 2 then ret data
       else bindE (set_byte (14 + hlen + csum_offset) 0 data) (\<lambda>data.
            bindE (set_byte (14 + hlen + csum_offset + 1) 0 data) (\<lambda>data.
            bindE (bytes_at data (14 + hlen) plen) (\<lambda>seg.
            bindE (bytes_at data (14 + 12) 8) (\<lambda>addrs.
            let csum = net_checksum_tcpudp (word_of_int plen) (ucast proto) addrs seg in
            bindE (set_byte (14 + hlen + csum_offset) (ucast (drop_bit 8 csum)) data) (\<lambda>data.
              set_byte (14 + hlen + csum_offset + 1) (ucast (csum AND 0xff)) data)))))))))"

section \<open>Vectors\<close>

fun checksum_iov :: "iovec list \<Rightarrow> u32 \<Rightarrow> u32 \<Rightarrow> u64 \<Rightarrow> u32 \<Rightarrow> u32 \<Rightarrow> mem \<Rightarrow> u32 exec" where
  "checksum_iov [] iov_off sz iovec_off seq res m = ret res"
| "checksum_iov (v # vs) iov_off sz iovec_off seq res m =
     (if sz = 0 then ret res
      else if ucast iov_off < iovec_off + iov_len v
      then let len = min (iovec_off + iov_len v - ucast iov_off) (ucast sz) in
           bindE (memcpy_from m (iov_base v + (ucast iov_off - iovec_off)) (unat len)) (\<lambda>bs.
             checksum_iov vs (iov_off + ucast len) (sz - ucast len) (iovec_off + iov_len v) (seq + ucast len)
               (res + net_checksum_add_cont bs (int_of_u32 seq)) m)
      else checksum_iov vs iov_off sz (iovec_off + iov_len v) seq res m)"

definition net_checksum_add_iov :: "iovec list \<Rightarrow> u32 \<Rightarrow> u32 \<Rightarrow> mem \<Rightarrow> u32 exec" where
  "net_checksum_add_iov iov iov_off sz m = checksum_iov iov iov_off sz 0 0 0 m"

section \<open>Specification\<close>

text \<open>The sum of a buffer as a number, without wrap-around.\<close>

fun byte_sum :: "int \<Rightarrow> u8 list \<Rightarrow> nat" where
  "byte_sum i [] = 0"
| "byte_sum i (b # bs) = (if odd i then unat b else 256 * unat b) + byte_sum (i + 1) bs"

definition sample_datagram :: "u8 list" where
  "sample_datagram = replicate 12 0 @ [0x08, 0x00] @
     [0x45, 0, 0, 30, 0, 0, 0, 0, 64, 17, 0, 0, 10, 0, 0, 1, 10, 0, 0, 2] @ [0, 67, 0, 68, 0, 10, 0xAA, 0xBB, 0xDE, 0xAD]"

section \<open>Lemmas\<close>

lemma checksum_loop_add: "checksum_loop s i bs = s + checksum_loop 0 i bs"
proof (induction bs arbitrary: s i)
  case (Cons b bs)
  let ?t = "(if odd i then ucast b else push_bit 8 (ucast b)) :: u32"
  show ?case using Cons.IH [of "s + ?t" "i + 1"] Cons.IH [of ?t "i + 1"] by simp
qed simp

lemma checksum_loop_append: "checksum_loop s i (xs @ ys) = checksum_loop (checksum_loop s i xs) (i + int (length xs)) ys"
  by (induction xs arbitrary: s i) (simp_all add: algebra_simps)

lemma add_cont_append: "net_checksum_add_cont (xs @ ys) i = net_checksum_add_cont xs i + net_checksum_add_cont ys (i + int (length xs))"
  unfolding net_checksum_add_cont_def checksum_loop_append by (rule checksum_loop_add)

lemma add_cont_parity: "even (i - j) \<Longrightarrow> net_checksum_add_cont bs i = net_checksum_add_cont bs j"
  unfolding net_checksum_add_cont_def
proof (induction bs arbitrary: i j)
  case (Cons b bs)
  have "even i = even j" using Cons.prems by presburger
  then show ?case
    using Cons.IH [of "i + 1" "j + 1"] Cons.prems
      checksum_loop_add [of "if odd i then ucast b else push_bit 8 (ucast b)" "i + 1" bs]
      checksum_loop_add [of "if odd j then ucast b else push_bit 8 (ucast b)" "j + 1" bs] by simp
qed simp

lemma byte_bound: "unat (b :: u8) \<le> 255"
  using unsigned_less [of b, where 'a = nat] by simp

lemma byte_sum_bound: "byte_sum i bs \<le> 65280 * length bs"
proof (induction bs arbitrary: i)
  case (Cons b bs)
  show ?case using Cons.IH [of "i + 1"] byte_bound [of b] by simp
qed simp

lemma checksum_loop_sum: "checksum_loop s i bs = s + of_nat (byte_sum i bs)"
proof (induction bs arbitrary: s i)
  case (Cons b bs)
  have "(ucast b :: u32) = of_nat (unat b)" by simp
  then have "(if odd i then ucast b else push_bit 8 (ucast b)) = (of_nat (if odd i then unat b else 256 * unat b) :: u32)"
    by (simp add: push_bit_eq_mult)
  then show ?case unfolding checksum_loop.simps byte_sum.simps Cons.IH by (simp only: of_nat_add add.assoc)
qed simp

lemma add_sum: "net_checksum_add bs = of_nat (byte_sum 0 bs)"
  by (simp add: net_checksum_add_def net_checksum_add_cont_def checksum_loop_sum)

text \<open>Folding the carries: the result is congruent modulo 65535 and vanishes only for 0.\<close>

lemma finish_spec:
  "\<exists>k. net_checksum_finish s = NOT (of_nat k) \<and> k < 65536 \<and> k mod 65535 = unat s mod 65535 \<and> (k = 0 \<longleftrightarrow> s = 0)"
proof (induction s rule: net_checksum_finish.induct)
  case (1 s)
  show ?case
  proof (cases "drop_bit 16 s = 0")
    case True
    then have "unat s div 65536 = 0" using high_half [of s] by simp
    then have u: "unat s < 65536" by simp
    have "ucast (NOT s) = (NOT (ucast s) :: u16)" by (rule bit_word_eqI) (simp add: bit_ucast_iff bit_not_iff)
    also have "ucast s = (of_nat (unat s) :: u16)" by simp
    finally have "net_checksum_finish s = NOT (of_nat (unat s))"
      using True by (simp add: net_checksum_finish.simps [of s])
    then show ?thesis using u by (intro exI [of _ "unat s"]) (simp add: unat_eq_zero)
  next
    case False
    let ?s = "(s AND 0xFFFF) + drop_bit 16 s"
    obtain k where k: "net_checksum_finish ?s = NOT (of_nat k)" "k < 65536" "k mod 65535 = unat ?s mod 65535" "k = 0 \<longleftrightarrow> ?s = 0"
      using 1 False by blast
    have e: "unat s = unat s div 65536 * 65535 + unat ?s" unfolding fold_sum using div_mult_mod_eq [of "unat s" 65536] by linarith
    then have "unat s mod 65535 = unat ?s mod 65535" by (metis mod_mult_self3)
    moreover have "unat s div 65536 \<noteq> 0" using high_half [of s] False by (metis unsigned_0 unsigned_word_eqI)
    then have "unat ?s \<noteq> 0" "s \<noteq> 0" unfolding fold_sum by auto
    ultimately show ?thesis
      using k False by (intro exI [of _ k]) (simp add: net_checksum_finish.simps [of s] unat_eq_zero)
  qed
qed

lemma finish_complement:
  assumes "unat (s :: u32) + 65535 < 2 ^ 32" "s \<noteq> 0" "c = net_checksum_finish s"
  shows "net_checksum_finish (s + ucast c) = 0"
proof -
  obtain k where k: "c = NOT (of_nat k)" "k < 65536" "k mod 65535 = unat s mod 65535" "k = 0 \<longleftrightarrow> s = 0"
    using finish_spec [of s] assms(3) by blast
  have "c = of_nat (65535 - k)" using k(1,2) by (simp add: not_eq_complement of_nat_diff)
  then have "unat c = 65535 - k" using unat_of_nat_small [of "65535 - k", where 'a = 16] by simp
  then have u: "unat (s + ucast c) = unat s + (65535 - k)"
    using assms(1) by (simp add: unat_word_ariths)
  have "(unat s + (65535 - k)) mod 65535 = (k + (65535 - k)) mod 65535" using k(3) by (metis mod_add_cong)
  then have "unat (s + ucast c) mod 65535 = 0" using u k(2) by simp
  moreover have "unat s \<noteq> 0" using assms(2) by (simp add: unat_eq_zero)
  then have "s + ucast c \<noteq> 0" using u by (metis add_is_0 unsigned_0)
  moreover obtain j where j: "net_checksum_finish (s + ucast c) = NOT (of_nat j)" "j < 65536"
      "j mod 65535 = unat (s + ucast c) mod 65535" "j = 0 \<longleftrightarrow> s + ucast c = 0"
    using finish_spec by blast
  ultimately have "j mod 65535 = 0" "j \<noteq> 0" "j < 65536" by simp_all
  then obtain q where "j = 65535 * q" "q \<noteq> 0" by (metis dvdE mod_0_imp_dvd mult_0_right)
  then have "j = 65535" using j(2) by (cases q) auto
  then show ?thesis using j by simp
qed

lemma byte_sum_update:
  "k < length bs \<Longrightarrow> byte_sum i (bs[k := b]) + (if odd (i + int k) then unat (bs ! k) else 256 * unat (bs ! k)) =
     byte_sum i bs + (if odd (i + int k) then unat b else 256 * unat b)"
proof (induction bs arbitrary: i k)
  case (Cons c bs)
  show ?case
  proof (cases k)
    case (Suc j)
    have "i + 1 + int j = i + int k" using Suc by simp
    then show ?thesis using Cons.IH [of j "i + 1"] Cons.prems Suc by (simp only: nth_Cons_Suc list_update_code byte_sum.simps) simp
  qed simp
qed simp

lemma halves: "256 * unat (ucast (drop_bit 8 c) :: u8) + unat (ucast (c AND 0xff) :: u8) = unat c" for c :: u16
proof -
  have "c AND 0xff = take_bit 8 c" by (simp add: take_bit_eq_mask mask_eq_exp_minus_1)
  then have "unat (ucast (c AND 0xff) :: u8) = unat c mod 256"
    by (simp add: take_bit_eq_mod unat_mod_distrib unsigned_ucast_eq)
  moreover have "unat c < 65536" using unsigned_less [of c, where 'a = nat] by simp
  then have "unat (ucast (drop_bit 8 c) :: u8) = unat c div 256"
    by (simp add: drop_bit_eq_div unat_div_distrib unsigned_ucast_eq take_bit_eq_mod less_mult_imp_div_less)
  ultimately show ?thesis by simp
qed

lemma checksum_field:
  assumes co: "even co" "co + 1 < length seg" "seg ! co = 0" "seg ! (co + 1) = 0"
    and len: "length seg \<le> 65535" "length addrs \<le> 8" "proto \<noteq> 0"
    and c: "c = net_checksum_tcpudp len' proto addrs seg"
  shows "net_checksum_tcpudp len' proto addrs (seg[co := ucast (drop_bit 8 c), co + 1 := ucast (c AND 0xff)]) = 0"
proof -
  let ?seg = "seg[co := ucast (drop_bit 8 c), co + 1 := ucast (c AND 0xff)]"
  let ?T = "byte_sum 0 addrs + (unat proto + unat len')"
  have "byte_sum 0 ?seg = byte_sum 0 seg + unat c"
    using byte_sum_update [of "co + 1" "seg[co := ucast (drop_bit 8 c)]" 0 "ucast (c AND 0xff)"]
      byte_sum_update [of co seg 0 "ucast (drop_bit 8 c)"] co halves [of c] by simp
  moreover have s: "net_checksum_add xs + net_checksum_add addrs + (ucast proto + ucast len') = of_nat (byte_sum 0 xs + ?T)" for xs
    by (simp add: add_sum)
  ultimately have e: "net_checksum_add ?seg + net_checksum_add addrs + (ucast proto + ucast len') = of_nat (byte_sum 0 seg + ?T) + ucast c"
    by simp
  have "unat proto < 65536" "unat len' < 65536" "0 < unat proto"
    using unsigned_less [of proto, where 'a = nat] unsigned_less [of len', where 'a = nat] len(3) by (simp_all add: unat_gt_0)
  then have b: "byte_sum 0 seg + ?T + 65535 < 2 ^ 32" "0 < byte_sum 0 seg + ?T"
    using byte_sum_bound [of 0 seg] byte_sum_bound [of 0 addrs] len by simp_all
  then have u: "unat (of_nat (byte_sum 0 seg + ?T) :: u32) = byte_sum 0 seg + ?T" by (intro unat_of_nat_small) simp
  then have "(of_nat (byte_sum 0 seg + ?T) :: u32) \<noteq> 0" using b(2) by (metis less_not_refl unsigned_0)
  then show ?thesis
    unfolding net_checksum_tcpudp_def e
    by (intro finish_complement) (use u b c s [of seg] in \<open>simp_all add: net_checksum_tcpudp_def\<close>)
qed

lemma peek_update_in: "k < n \<Longrightarrow> off + n \<le> length xs \<Longrightarrow> peek off n (xs[off + k := b]) = (peek off n xs)[k := b]"
  by (rule nth_equalityI) (auto simp: peek_def nth_list_update)

lemma peek_update_out: "k < off \<or> off + n \<le> k \<Longrightarrow> peek off n (xs[k := b]) = peek off n xs"
  by (rule nth_equalityI) (auto simp: peek_def nth_list_update)

lemma even_int_of_u32: "even (int_of_u32 w) \<longleftrightarrow> even w"
  using bit_0 [of "sint w"] bit_0 [of w] by (simp add: bit_sint_iff int_of_u32_def)

lemma add_cont_seq: "net_checksum_add_cont cs (int_of_u32 (seq + of_nat n)) = net_checksum_add_cont cs (int_of_u32 seq + int n)"
  by (rule add_cont_parity) (simp add: even_int_of_u32)

lemma checksum_iov_spec:
  assumes "pos + length (addrs_of vs) < 2 ^ 32" "sz = 0 \<or> pos \<le> off \<and> off + sz \<le> pos + length (addrs_of vs)"
    "set (window (off - pos) sz (addrs_of vs)) \<subseteq> dom m"
  shows "checksum_iov vs (of_nat off) (of_nat sz) (of_nat pos) seq res m =
    ret (res + net_checksum_add_cont (map (\<lambda>a. the (m a)) (window (off - pos) sz (addrs_of vs))) (int_of_u32 seq))"
  using assms
proof (induction vs arbitrary: off sz pos seq res)
  case Nil
  then show ?case by (simp add: net_checksum_add_cont_def)
next
  case (Cons v vs)
  let ?l = "unat (iov_len v)"
  show ?case
  proof (cases "sz = 0")
    case True
    then show ?thesis by (simp add: net_checksum_add_cont_def)
  next
    case False
    then have o: "pos \<le> off" "off + sz \<le> pos + ?l + length (addrs_of vs)" "off < 2 ^ 32" "sz < 2 ^ 32" "pos + ?l < 2 ^ 32"
      using Cons.prems by auto
    have "unat (of_nat sz :: u32) = sz" using o(4) by (intro unat_of_nat_small) simp
    then have c1: "(of_nat sz :: u32) \<noteq> 0" using False by (metis unsigned_0)
    have w: "(ucast (of_nat n :: u32) :: u64) = of_nat n" "unat (of_nat n :: u64) = n" if "n < 2 ^ 32" for n
      using that by (simp_all add: unsigned_of_nat take_bit_nat_eq_self)
    have e: "of_nat pos + iov_len v = (of_nat (pos + ?l) :: u64)" by simp
    have e': "unat (of_nat pos + iov_len v) = pos + ?l" unfolding e by (rule w(2)) (rule o(5))
    have lt: "(of_nat off :: u64) < of_nat pos + iov_len v \<longleftrightarrow> off < pos + ?l"
      using o by (simp add: w word_less_nat_alt e')
    show ?thesis
    proof (cases "off < pos + ?l")
      case True
      define len where "len = min (pos + ?l - off) sz"
      have le: "off - pos + len \<le> ?l" "len \<le> sz" "len < 2 ^ 32" "off + len < 2 ^ 32" using True o by (auto simp: len_def)
      have df: "(of_nat pos + iov_len v - of_nat off :: u64) = of_nat (pos + ?l - off)" "(of_nat off - of_nat pos :: u64) = of_nat (off - pos)"
        using True o(1) by (simp_all add: of_nat_diff)
      have mn: "min (of_nat (pos + ?l - off)) (of_nat sz) = (of_nat len :: u64)"
        using o(4,5) by (auto simp: len_def min_def word_le_nat_alt w)
      let ?bs = "map (\<lambda>a. the (m a)) (window (off - pos) len (span_of v))"
      have sl: "window (off - pos) sz (addrs_of (v # vs)) = window (off - pos) len (span_of v) @ window 0 (sz - len) (addrs_of vs)"
        using True o(1) by (simp add: window_append len_def add.commute)
      have reg: "region (iov_base v + of_nat (off - pos)) len \<subseteq> dom m"
        using Cons.prems(3) unfolding sl by (simp add: span_region [OF le(1)])
      have m1: "memcpy_from m (iov_base v + of_nat (off - pos)) len = ret ?bs"
        using memcpy_from_at [OF reg] window_span [OF le(1)] by (simp add: o_def)
      have z: "sz - len = 0 \<or> off + len = pos + ?l" using True by (auto simp: len_def)
      have z2: "sz - len = 0 \<or> pos + ?l \<le> off + len \<and> off + len + (sz - len) \<le> pos + ?l + length (addrs_of vs)"
        using z o(2) le(2) by linarith
      have ws: "window (off + len - (pos + ?l)) (sz - len) (addrs_of vs) = window 0 (sz - len) (addrs_of vs)" using z by auto
      have "(ucast (of_nat len :: u64) :: u32) = of_nat (unat (of_nat len :: u64))" by simp
      also have "\<dots> = of_nat len" by (simp only: w(2) [OF le(3)])
      finally have uc: "(ucast (of_nat len :: u64) :: u32) = of_nat len" .
      have ml: "min len (?l - (off - pos)) = len" using le(1) by simp
      have sz1: "(of_nat sz - of_nat len :: u32) = of_nat (sz - len)" using le(2) by (simp add: of_nat_diff)
      have IH: "checksum_iov vs (of_nat (off + len)) (of_nat (sz - len)) (of_nat (pos + ?l)) (seq + of_nat len) res' m =
          ret (res' + net_checksum_add_cont (map (\<lambda>a. the (m a)) (window 0 (sz - len) (addrs_of vs))) (int_of_u32 (seq + of_nat len)))" for res'
        using Cons.IH [of "pos + ?l" "sz - len" "off + len" "seq + of_nat len" res'] Cons.prems(1,3) z2 ws unfolding sl by simp
      have "checksum_iov (v # vs) (of_nat off) (of_nat sz) (of_nat pos) seq res m =
          checksum_iov vs (of_nat off + of_nat len) (of_nat (sz - len)) (of_nat pos + iov_len v) (seq + of_nat len)
            (res + net_checksum_add_cont ?bs (int_of_u32 seq)) m"
        by (simp only: checksum_iov.simps c1 w(1) [OF o(3)] w(1) [OF o(4)] w(2) [OF le(3)] lt True df mn Let_def m1 bindE_ret
            uc sz1 if_True if_False)
      then show ?thesis
        unfolding IH [folded e, unfolded of_nat_add] sl using ml by (simp add: add_cont_append add_cont_seq add.assoc)
    next
      case F: False
      have "checksum_iov (v # vs) (of_nat off) (of_nat sz) (of_nat pos) seq res m =
          checksum_iov vs (of_nat off) (of_nat sz) (of_nat (pos + ?l)) seq res m"
        using c1 F o lt by (simp add: w)
      also have "\<dots> = ret (res + net_checksum_add_cont (map (\<lambda>a. the (m a)) (window (off - (pos + ?l)) sz (addrs_of vs))) (int_of_u32 seq))"
        using Cons.IH [of "pos + ?l" sz off] Cons.prems F o by (simp add: window_append add.commute)
      finally show ?thesis using F o(1) by (simp add: window_append)
    qed
  qed
qed

section \<open>Properties\<close>

text \<open>
  C25. After the checksum of a UDP or TCP packet over IPv4 was computed, the packet passes the check of its receiver:
  the sum over the pseudo header and the segment, with the checksum in it, folds to 0.  Only the two bytes of the
  checksum change.\<close>

theorem checksum_verifies:
  assumes ip: "data ! 14 AND 0xf0 = 0x40" and hlen: "hlen = unat (data ! 14 AND 0x0f) * 4" "20 \<le> hlen"
    and plen: "256 * unat (data ! 16) + unat (data ! 17) = hlen + plen" "14 + hlen + plen \<le> length data"
    and co: "data ! 23 = PROTO_TCP \<and> co = 16 \<or> data ! 23 = PROTO_UDP \<and> co = 6" "co + 2 \<le> plen"
  shows "\<exists>data'. net_checksum_calculate data = ret data' \<and> length data' = length data \<and>
    (\<forall>i. i \<noteq> 14 + hlen + co \<longrightarrow> i \<noteq> 14 + hlen + co + 1 \<longrightarrow> data' ! i = data ! i) \<and>
    net_checksum_tcpudp (of_nat plen) (ucast (data ! 23)) (peek 26 8 data') (peek (14 + hlen) plen data') = 0"
proof -
  define k where "k = 14 + hlen + co"
  define d0 where "d0 = data[k := 0, Suc k := 0]"
  define c where "c = net_checksum_tcpudp (of_nat plen) (ucast (data ! 23)) (peek 26 8 d0) (peek (14 + hlen) plen d0)"
  define d1 where "d1 = d0[k := ucast (drop_bit 8 c), Suc k := ucast (c AND 0xff)]"
  have len: "length d0 = length data" "14 < length data" "23 < length data" "Suc k < length data"
    using hlen(2) plen(2) co(2) unfolding d0_def k_def by simp_all
  have ints: "uint (data ! 14 AND 0x0f) * 4 = int hlen" "uint (data ! 16) * 256 + uint (data ! 17) - int hlen = int plen"
    using arg_cong [OF plen(1), of int] arg_cong [OF hlen(1), of int] by simp_all
  have pr: "\<not> (data ! 23 \<noteq> PROTO_TCP \<and> data ! 23 \<noteq> PROTO_UDP)" "(if data ! 23 = PROTO_TCP then 16 else 6) = int co" "even co"
    using co(1) by (auto simp: PROTO_TCP_def PROTO_UDP_def)
  have b: "byte_at data i = ret (data ! nat i)" if "i \<in> {14, 16, 17, 23}" for i
    using that len by (auto simp: byte_at_def)
  have ik: "14 + int hlen + int co = int k" by (simp add: k_def)
  have z: "set_byte (int k) v xs = ret (xs[k := v])" "set_byte (int k + 1) v xs = ret (xs[Suc k := v])"
    if "length xs = length data" for xs v
    using len(4) that by (simp_all add: set_byte_def nat_add_distrib)
  have sg: "bytes_at d0 (14 + int hlen) (int plen) = ret (peek (14 + hlen) plen d0)" "bytes_at d0 26 8 = ret (peek 26 8 d0)"
    using plen(2) hlen(2) len by (simp_all add: bytes_at_def nat_add_distrib)
  have pl: "\<not> int plen < int co + 2" using co(2) by simp
  have ok: "net_checksum_calculate data = ret d1"
    unfolding net_checksum_calculate_def Let_def
    using ip by (simp only: b [of 14, simplified] b [of 16, simplified] b [of 17, simplified] b [of 23, simplified] bindE_ret ints pr(1,2) pl ik z
      length_list_update d0_def [symmetric] sg if_False not_True_eq_False add_numeral_left numeral_plus_numeral)
      (simp add: b ints pr pl ik z d0_def [symmetric] sg c_def [symmetric] len(1) d1_def)
  have pk: "peek (14 + hlen) plen d1 = (peek (14 + hlen) plen d0)[co := ucast (drop_bit 8 c), co + 1 := ucast (c AND 0xff)]"
      "peek 26 8 d1 = peek 26 8 d0"
    using plen(2) co(2) hlen(2) len(1) peek_update_in [of co plen "14 + hlen" d0]
      peek_update_in [of "Suc co" plen "14 + hlen" "d0[14 + hlen + co := ucast (drop_bit 8 c)]"]
    by (simp_all add: d1_def k_def peek_update_out)
  have "peek (14 + hlen) plen d0 ! co = 0" "peek (14 + hlen) plen d0 ! (co + 1) = 0" "length (peek (14 + hlen) plen d0) = plen"
    using plen(2) co(2) len by (simp_all add: d0_def k_def peek_def add.assoc)
  moreover have "(ucast (data ! 23) :: u16) \<noteq> 0" using pr(1) by (auto simp: PROTO_TCP_def PROTO_UDP_def)
  moreover have "plen \<le> 65535" using plen(1) byte_bound [of "data ! 16"] byte_bound [of "data ! 17"] by linarith
  moreover have "length (peek 26 8 d0) \<le> 8" by (simp add: peek_def)
  ultimately have "net_checksum_tcpudp (of_nat plen) (ucast (data ! 23)) (peek 26 8 d1) (peek (14 + hlen) plen d1) = 0"
    using checksum_field [of co "peek (14 + hlen) plen d0" "peek 26 8 d0" "ucast (data ! 23)" c "of_nat plen"] pr(3) co(2) c_def pk by simp
  then show ?thesis using ok by (intro exI [of _ d1]) (auto simp: d1_def d0_def k_def)
qed

text \<open>
  The length in the header of the packet is not compared with the size of the buffer: a packet that claims more
  bytes than it has makes the computation access memory behind its end.\<close>

theorem checksum_overruns:
  assumes "34 \<le> length data" "data ! 14 = 0x45" "data ! 23 = PROTO_UDP" "28 \<le> 256 * unat (data ! 16) + unat (data ! 17)"
    "length data < 14 + 256 * unat (data ! 16) + unat (data ! 17)"
  shows "\<exists>i. net_checksum_calculate data = fail (BadIndex i) \<and> int (length data) \<le> i"
proof -
  have b: "byte_at data i = ret (data ! nat i)" if "i \<in> {14, 16, 17, 23}" for i
    using that assms(1) by (auto simp: byte_at_def)
  define plen where "plen = uint (data ! 16) * 256 + uint (data ! 17) - 20"
  let ?n = "256 * unat (data ! 16) + unat (data ! 17)"
  have "plen = int ?n - 20" by (simp add: plen_def)
  moreover have "28 \<le> int ?n" "int (length data) < 14 + int ?n" using assms(4,5) by linarith+
  ultimately have pl: "8 \<le> plen" "int (length data) < 34 + plen" by linarith+
  have l28: "28 \<le> uint (data ! 16) * 256 + uint (data ! 17)" using pl(1) by (simp add: plen_def)
  have h: "uint ((0x45 :: u8) AND 0x0f) * 4 = 20" "(0x45 :: u8) AND 0xf0 = 0x40" "PROTO_UDP \<noteq> PROTO_TCP"
    by (simp_all add: PROTO_TCP_def PROTO_UDP_def)
  have "net_checksum_calculate data =
     bindE (set_byte 40 0 data) (\<lambda>data. bindE (set_byte 41 0 data) (\<lambda>data. bindE (bytes_at data 34 plen) (\<lambda>seg. bindE (bytes_at data 26 8) (\<lambda>addrs.
       let csum = net_checksum_tcpudp (word_of_int plen) 17 addrs seg in
       bindE (set_byte 40 (ucast (drop_bit 8 csum)) data) (set_byte 41 (ucast (csum AND 0xff)))))))"
    unfolding net_checksum_calculate_def
    using assms(2,3) h pl(1) l28 by (simp add: b plen_def [symmetric] Let_def) (simp add: PROTO_UDP_def)
  then show ?thesis
    using pl(2) by (cases "length data \<le> 40"; cases "length data \<le> 41") (simp_all add: set_byte_def bytes_at_def)
qed

text \<open>
  The sum over a part of a vector is the sum over the bytes of that part, wherever the buffers are divided.\<close>

theorem checksum_iov_flat:
  assumes "length (addrs_of vs) < 2 ^ 32" "off + n \<le> length (addrs_of vs)" "set (window off n (addrs_of vs)) \<subseteq> dom m"
  shows "\<exists>bs. iov_to_buf vs off n m = ret bs \<and> net_checksum_add_iov vs (of_nat off) (of_nat n) m = ret (net_checksum_add bs)"
  using assms checksum_iov_spec [of 0 vs n off m 0 0] iov_to_buf_spec [of off n vs m]
  by (simp add: net_checksum_add_iov_def net_checksum_add_def int_of_u32_def)

section \<open>Examples\<close>

lemma sample_datagram_simps:
  "length sample_datagram = 44" "sample_datagram ! 14 = 0x45" "sample_datagram ! 16 = 0" "sample_datagram ! 17 = 30" "sample_datagram ! 23 = PROTO_UDP"
  by (simp_all add: sample_datagram_def PROTO_UDP_def nth_append)

theorem checksum_verifies_witness:
  "\<exists>data'. net_checksum_calculate sample_datagram = ret data' \<and> length data' = 44 \<and>
     net_checksum_tcpudp 10 17 (peek 26 8 data') (peek 34 10 data') = 0"
  using checksum_verifies [of sample_datagram 20 10 6] by (auto simp: sample_datagram_simps PROTO_UDP_def)

theorem checksum_overruns_witness:
  "\<exists>i. net_checksum_calculate (sample_datagram[17 := 200]) = fail (BadIndex i) \<and> 44 \<le> i"
  using checksum_overruns [of "sample_datagram[17 := 200]"] by (auto simp: sample_datagram_simps)

theorem checksum_iov_flat_witness:
  "\<exists>bs. iov_to_buf sample_iov 1 6 sample_mem = ret bs \<and> net_checksum_add_iov sample_iov 1 6 sample_mem = ret (net_checksum_add bs)"
proof -
  have "set (window 1 6 (addrs_of sample_iov)) \<subseteq> dom sample_mem"
    by (simp add: sample_addrs window_def sample_mem_def dom_def)
  from checksum_iov_flat [OF _ _ this] show ?thesis by (simp add: sample_addrs)
qed

end
