(* ===== verification/NetDev.thy ===== *)
theory NetDev
  imports VhostNet Checksum Hex
begin

text \<open>
  The virtio network card, from \<^verbatim>\<open>src/qemu_vhost_user/hw/net/virtio-net.c\<close> and
  \<^verbatim>\<open>include/hw/virtio/virtio-net.h\<close>: the state of the card, its status and link and with them the vhost device
  behind it, the features, the receive filter, and the commands of the control queue; with the parts of
  \<^verbatim>\<open>net/tap.c\<close> the card calls.

  The card extends the state of a virtio device.  A pointer to one of its queues is the number of the queue.  The queues
  of packets to and from the back end are reached through the parameters \<open>ne_sendv\<close> and \<open>ne_flush\<close>.
\<close>

section \<open>Constants\<close>

definition ETH_ALEN :: nat where
  "ETH_ALEN = 6"

definition MAC_TABLE_ENTRIES :: nat where
  "MAC_TABLE_ENTRIES = 64"

definition MAX_VLAN :: nat where
  "MAX_VLAN = 4096"

definition VIRTIO_ID_NET :: u16 where
  "VIRTIO_ID_NET = 1"

definition VIRTIO_NET_F_CSUM :: nat where
  "VIRTIO_NET_F_CSUM = 0"

definition VIRTIO_NET_F_GUEST_CSUM :: nat where
  "VIRTIO_NET_F_GUEST_CSUM = 1"

definition VIRTIO_NET_F_CTRL_GUEST_OFFLOADS :: nat where
  "VIRTIO_NET_F_CTRL_GUEST_OFFLOADS = 2"

definition VIRTIO_NET_F_MAC :: nat where
  "VIRTIO_NET_F_MAC = 5"

definition VIRTIO_NET_F_GUEST_TSO4 :: nat where
  "VIRTIO_NET_F_GUEST_TSO4 = 7"

definition VIRTIO_NET_F_GUEST_TSO6 :: nat where
  "VIRTIO_NET_F_GUEST_TSO6 = 8"

definition VIRTIO_NET_F_GUEST_ECN :: nat where
  "VIRTIO_NET_F_GUEST_ECN = 9"

definition VIRTIO_NET_F_GUEST_UFO :: nat where
  "VIRTIO_NET_F_GUEST_UFO = 10"

definition VIRTIO_NET_F_HOST_TSO4 :: nat where
  "VIRTIO_NET_F_HOST_TSO4 = 11"

definition VIRTIO_NET_F_HOST_TSO6 :: nat where
  "VIRTIO_NET_F_HOST_TSO6 = 12"

definition VIRTIO_NET_F_HOST_ECN :: nat where
  "VIRTIO_NET_F_HOST_ECN = 13"

definition VIRTIO_NET_F_HOST_UFO :: nat where
  "VIRTIO_NET_F_HOST_UFO = 14"

definition VIRTIO_NET_F_STATUS :: nat where
  "VIRTIO_NET_F_STATUS = 16"

definition VIRTIO_NET_F_MQ :: nat where
  "VIRTIO_NET_F_MQ = 22"

definition VIRTIO_NET_F_CTRL_MAC_ADDR :: nat where
  "VIRTIO_NET_F_CTRL_MAC_ADDR = 23"

definition VIRTIO_NET_S_LINK_UP :: u16 where
  "VIRTIO_NET_S_LINK_UP = 1"

definition VIRTIO_NET_OK :: u8 where
  "VIRTIO_NET_OK = 0"

definition VIRTIO_NET_ERR :: u8 where
  "VIRTIO_NET_ERR = 1"

text \<open>The sizes of \<^verbatim>\<open>struct virtio_net_hdr\<close> and \<^verbatim>\<open>struct virtio_net_hdr_mrg_rxbuf\<close>.\<close>

definition NET_HDR_LEN :: nat where
  "NET_HDR_LEN = 10"

definition MRG_HDR_LEN :: nat where
  "MRG_HDR_LEN = 12"

section \<open>State\<close>

record VirtIONetQueue =
  xq_rx_vq :: "nat option"
  xq_tx_vq :: "nat option"
  xq_tx_timer :: bool
  xq_tx_bh :: bool
  xq_tx_waiting :: u32
  xq_async_elem :: VirtQueueElement
  xq_async_len :: nat

record mac_table =
  mt_in_use :: int
  mt_first_multi :: int
  mt_multi_overflow :: u8
  mt_uni_overflow :: u8
  mt_macs :: "u8 list"

record VirtIONet =
  xn_mac :: "u8 list"
  xn_status :: u16
  xn_vqs :: "VirtIONetQueue list"
  xn_ctrl_vq :: "nat option"
  xn_tx_timeout :: u32
  xn_tx_burst :: int
  xn_has_vnet_hdr :: bool
  xn_host_hdr_len :: nat
  xn_guest_hdr_len :: nat
  xn_has_ufo :: bool
  xn_mergeable_rx_bufs :: u32
  xn_promisc :: u8
  xn_allmulti :: u8
  xn_alluni :: u8
  xn_nomulti :: u8
  xn_nouni :: u8
  xn_nobcast :: u8
  xn_vhost_started :: bool
  xn_mac_table :: mac_table
  xn_vlans :: "u32 list"
  xn_conf_txtimer :: u32
  xn_conf_txburst :: int
  xn_conf_tx :: "string option"
  xn_conf_macaddr :: "u8 list"
  xn_conf_queues :: int
  xn_multiqueue :: bool
  xn_max_queues :: u16
  xn_curr_queues :: u16
  xn_config_size :: nat
  xn_netclient_name :: "string option"
  xn_netclient_type :: "string option"
  xn_curr_guest_offloads :: u64

text \<open>The back end of a queue: a tap device, a vhost-user client, or another one of which only the link is seen.\<close>

record TAPState =
  ta_link_down :: bool
  ta_fd :: int
  ta_read_poll :: bool
  ta_write_poll :: bool
  ta_using_vnet_hdr :: bool
  ta_has_ufo :: bool
  ta_enabled :: bool
  ta_vhost_net :: "vhost_net option"
  ta_host_vnet_hdr_len :: nat

datatype net_peer = TapPeer TAPState | UserPeer VhostUserState | OtherPeer bool

text \<open>The client of the card for one pair of queues.\<close>

record nic_client =
  sq_link_down :: bool
  sq_rxfilter_notify_enabled :: bool
  sq_peer :: "net_peer option"

record vnet = vio +
  vx_net :: VirtIONet
  vx_ncs :: "nic_client list"
  vx_ram :: RAMList
  vx_view :: "MemoryRegionSection list"
  vx_global_dirty_log :: bool

text \<open>The environment: the answers of the kernel, the bus, the translation between the addresses of the process and
  those of the guest, and the queues of packets.\<close>

record nenv =
  ne_env :: qenv
  ne_bus :: "unit vnet_ext VirtioBusClass"
  ne_probe_vnet_hdr_len :: "qio list \<Rightarrow> bool"
  ne_tap_enable :: "qio list \<Rightarrow> int"
  ne_gpa :: "u64 \<Rightarrow> u64 option"
  ne_hva :: "u64 \<Rightarrow> u64 option"
  ne_sendv :: "nat \<Rightarrow> iovec list \<Rightarrow> vnet \<Rightarrow> (int \<times> vnet) exec"
  ne_flush :: "nat \<Rightarrow> vnet \<Rightarrow> vnet exec"
  ne_purge :: "nat \<Rightarrow> vnet \<Rightarrow> vnet"

text \<open>Guest memory as the process sees it.\<close>

definition host_mem :: "nenv \<Rightarrow> phys \<Rightarrow> mem" where
  "host_mem env ph = (\<lambda>h. case ne_gpa env h of Some g \<Rightarrow> ph_ram ph g | None \<Rightarrow> None)"

definition put_host_mem :: "nenv \<Rightarrow> mem \<Rightarrow> phys \<Rightarrow> phys" where
  "put_host_mem env m ph = ph\<lparr>ph_ram := (\<lambda>g. case ne_hva env g of Some h \<Rightarrow> m h | None \<Rightarrow> ph_ram ph g)\<rparr>"

definition log_net :: "qio list \<Rightarrow> vnet \<Rightarrow> vnet" where
  "log_net es s = s\<lparr>vi_io := vi_io s @ es\<rparr>"

definition upd_net :: "(VirtIONet \<Rightarrow> VirtIONet) \<Rightarrow> vnet \<Rightarrow> vnet" where
  "upd_net f s = s\<lparr>vx_net := f (vx_net s)\<rparr>"

definition get_netq :: "nat \<Rightarrow> vnet \<Rightarrow> VirtIONetQueue exec" where
  "get_netq i s = (if i < length (xn_vqs (vx_net s)) then ret (xn_vqs (vx_net s) ! i) else fail (BadIndex (int i)))"

definition put_netq :: "nat \<Rightarrow> VirtIONetQueue \<Rightarrow> vnet \<Rightarrow> vnet" where
  "put_netq i q = upd_net (\<lambda>n. n\<lparr>xn_vqs := (xn_vqs n)[i := q]\<rparr>)"

definition upd_netq :: "nat \<Rightarrow> (VirtIONetQueue \<Rightarrow> VirtIONetQueue) \<Rightarrow> vnet \<Rightarrow> vnet exec" where
  "upd_netq i f s = bindE (get_netq i s) (\<lambda>q. ret (put_netq i (f q) s))"

definition qemu_get_subqueue :: "nat \<Rightarrow> vnet \<Rightarrow> nic_client exec" where
  "qemu_get_subqueue i s = (if i < length (vx_ncs s) then ret (vx_ncs s ! i) else fail (BadIndex (int i)))"

definition put_client :: "nat \<Rightarrow> nic_client \<Rightarrow> vnet \<Rightarrow> vnet" where
  "put_client i c s = s\<lparr>vx_ncs := (vx_ncs s)[i := c]\<rparr>"

definition qemu_get_queue :: "vnet \<Rightarrow> nic_client exec" where
  "qemu_get_queue s = qemu_get_subqueue 0 s"

definition vq2q :: "nat \<Rightarrow> nat" where
  "vq2q queue_index = queue_index div 2"

section \<open>Tap devices\<close>

text \<open>The functions of \<^verbatim>\<open>net/tap.c\<close> on the peer of a client; they assert that it is a tap device.\<close>

definition tap_of :: "net_peer option \<Rightarrow> TAPState exec" where
  "tap_of p = (case p of Some (TapPeer t) \<Rightarrow> ret t | Some _ \<Rightarrow> fail AssertFail | None \<Rightarrow> fail (Segv 0))"

definition put_tap :: "nat \<Rightarrow> TAPState \<Rightarrow> vnet \<Rightarrow> vnet" where
  "put_tap i t s = s\<lparr>vx_ncs := (vx_ncs s)[i := (vx_ncs s ! i)\<lparr>sq_peer := Some (TapPeer t)\<rparr>]\<rparr>"

definition tap_update_fd_handler :: "TAPState \<Rightarrow> vnet \<Rightarrow> vnet" where
  "tap_update_fd_handler t = log_net [QFdHandler (ta_fd t) (ta_enabled t \<and> (ta_read_poll t \<or> ta_write_poll t))]"

definition tap_has_ufo :: "net_peer option \<Rightarrow> bool exec" where
  "tap_has_ufo p = bindE (tap_of p) (\<lambda>t. ret (ta_has_ufo t))"

definition tap_has_vnet_hdr :: "net_peer option \<Rightarrow> bool exec" where
  "tap_has_vnet_hdr p = bindE (tap_of p) (\<lambda>t. ret (ta_host_vnet_hdr_len t \<noteq> 0))"

definition tap_has_vnet_hdr_len :: "nenv \<Rightarrow> net_peer option \<Rightarrow> nat \<Rightarrow> vnet \<Rightarrow> (bool \<times> vnet) exec" where
  "tap_has_vnet_hdr_len env p len s =
     bindE (tap_of p) (\<lambda>t. let s = log_net [QTapProbe (ta_fd t) len] s in ret (ne_probe_vnet_hdr_len env (vi_io s), s))"

definition tap_set_vnet_hdr_len :: "nat \<Rightarrow> nat \<Rightarrow> vnet \<Rightarrow> vnet exec" where
  "tap_set_vnet_hdr_len i len s =
     bindE (qemu_get_subqueue i s) (\<lambda>nc.
     bindE (tap_of (sq_peer nc)) (\<lambda>t.
     bindE (ensure (len = MRG_HDR_LEN \<or> len = NET_HDR_LEN) AssertFail) (\<lambda>_.
       ret (put_tap i (t\<lparr>ta_host_vnet_hdr_len := len\<rparr>) (log_net [QTapHdrLen (ta_fd t) len] s)))))"

definition tap_using_vnet_hdr :: "nat \<Rightarrow> bool \<Rightarrow> vnet \<Rightarrow> vnet exec" where
  "tap_using_vnet_hdr i using_hdr s =
     bindE (qemu_get_subqueue i s) (\<lambda>nc.
     bindE (tap_of (sq_peer nc)) (\<lambda>t.
     bindE (ensure ((ta_host_vnet_hdr_len t \<noteq> 0) = using_hdr) AssertFail) (\<lambda>_.
       ret (put_tap i (t\<lparr>ta_using_vnet_hdr := using_hdr\<rparr>) s))))"

definition tap_enable :: "nenv \<Rightarrow> nat \<Rightarrow> TAPState \<Rightarrow> vnet \<Rightarrow> int \<times> vnet" where
  "tap_enable env i t s =
     (if ta_enabled t then (0, s)
      else let s = log_net [QTapEnable (ta_fd t) True] s; r = ne_tap_enable env (vi_io s); t = t\<lparr>ta_enabled := True\<rparr> in
        if r = 0 then (0, tap_update_fd_handler t (put_tap i t s)) else (r, s))"

definition tap_disable :: "nenv \<Rightarrow> nat \<Rightarrow> TAPState \<Rightarrow> vnet \<Rightarrow> int \<times> vnet" where
  "tap_disable env i t s =
     (if \<not> ta_enabled t then (0, s)
      else let s = log_net [QTapEnable (ta_fd t) False] s; r = ne_tap_enable env (vi_io s); t = t\<lparr>ta_enabled := False\<rparr> in
        if r = 0 then (0, tap_update_fd_handler t (put_tap i t (log_net [QPurge] s))) else (r, s))"

section \<open>Configuration space\<close>

text \<open>The packed \<^verbatim>\<open>struct virtio_net_config\<close>; the guest is little endian.\<close>

definition net_config :: "VirtIONet \<Rightarrow> u8 list" where
  "net_config n = take 6 (xn_mac n) @ le_bytes 2 (xn_status n) @ le_bytes 2 (xn_max_queues n)"

definition virtio_net_get_config :: "vnet \<Rightarrow> u8 list \<Rightarrow> u8 list" where
  "virtio_net_get_config s config = poke 0 (take (xn_config_size (vx_net s)) (net_config (vx_net s))) config"

definition virtio_net_set_config :: "vnet \<Rightarrow> vnet exec" where
  "virtio_net_set_config s =
     (let n = vx_net s; d = vi_dev s; mac = take ETH_ALEN (poke 0 (take (xn_config_size n) (vd_config d)) (replicate 10 0)) in
      ret (if \<not> bit (vd_guest_features d) VIRTIO_NET_F_CTRL_MAC_ADDR \<and> mac \<noteq> xn_mac n then upd_net (\<lambda>n. n\<lparr>xn_mac := mac\<rparr>) s else s))"

definition feature_sizes :: "(nat \<times> nat) list" where
  "feature_sizes = [(VIRTIO_NET_F_MAC, 6), (VIRTIO_NET_F_STATUS, 8), (VIRTIO_NET_F_MQ, 10)]"

definition virtio_net_set_config_size :: "u32 \<Rightarrow> VirtIONet \<Rightarrow> VirtIONet" where
  "virtio_net_set_config_size host_features n =
     (let feat = host_features OR push_bit VIRTIO_NET_F_MAC 1 in
      n\<lparr>xn_config_size := fold (\<lambda>(b, e) size. if bit feat b then max e size else size) feature_sizes 0\<rparr>)"

definition virtio_net_set_netclient_name :: "string option \<Rightarrow> string \<Rightarrow> VirtIONet \<Rightarrow> VirtIONet" where
  "virtio_net_set_netclient_name name type n = n\<lparr>xn_netclient_name := name, xn_netclient_type := Some type\<rparr>"

section \<open>Status and the vhost device\<close>

definition get_vhost_net :: "net_peer option \<Rightarrow> vhost_net option exec" where
  "get_vhost_net p =
     (case p of
        None \<Rightarrow> ret None
      | Some (TapPeer t) \<Rightarrow> ret (ta_vhost_net t)
      | Some (UserPeer u) \<Rightarrow> vhost_user_get_vhost_net u
      | Some (OtherPeer _) \<Rightarrow> ret None)"

definition peer_link_down :: "net_peer \<Rightarrow> bool" where
  "peer_link_down p = (case p of TapPeer t \<Rightarrow> ta_link_down t | UserPeer u \<Rightarrow> nc_link_down (us_nc u) | OtherPeer b \<Rightarrow> b)"

definition put_vhost_net :: "vhost_net \<Rightarrow> nic_client \<Rightarrow> nic_client" where
  "put_vhost_net net c =
     c\<lparr>sq_peer := map_option (\<lambda>p. case p of
         TapPeer t \<Rightarrow> TapPeer (t\<lparr>ta_vhost_net := Some net\<rparr>)
       | UserPeer u \<Rightarrow> UserPeer (u\<lparr>us_vhost_net := Some net\<rparr>)
       | OtherPeer b \<Rightarrow> OtherPeer b) (sq_peer c)\<rparr>"

text \<open>The vhost devices of the first clients, up to the first client that has none: reaching for a missing one is a
  fault of the functions that take the list.\<close>

fun leading_nets :: "nic_client list \<Rightarrow> vhost_net list exec" where
  "leading_nets [] = ret []"
| "leading_nets (c # cs) =
     bindE (get_vhost_net (sq_peer c)) (\<lambda>net. case net of
         None \<Rightarrow> ret []
       | Some n \<Rightarrow> bindE (leading_nets cs) (\<lambda>ns. ret (n # ns)))"

definition put_nets :: "vhost_net list \<Rightarrow> nic_client list \<Rightarrow> nic_client list" where
  "put_nets nets cs = map2 put_vhost_net nets cs @ drop (length nets) cs"

definition to_qemu :: "vhost_dev \<Rightarrow> vnet \<Rightarrow> qemu" where
  "to_qemu d s = \<lparr>q_dev = d, q_vdev = vi_dev s, q_ram = vx_ram s, q_view = vx_view s, q_global_dirty_log = vx_global_dirty_log s, q_io = vi_io s\<rparr>"

definition of_qemu :: "qemu \<Rightarrow> vnet \<Rightarrow> vnet" where
  "of_qemu q s = s\<lparr>vi_dev := q_vdev q, vi_io := q_io q, vx_ram := q_ram q, vx_view := q_view q, vx_global_dirty_log := q_global_dirty_log q\<rparr>"

definition virtio_net_started :: "u8 \<Rightarrow> vnet \<Rightarrow> bool" where
  "virtio_net_started status s \<longleftrightarrow>
     bit status VIRTIO_CONFIG_S_DRIVER_OK \<and> xn_status (vx_net s) AND VIRTIO_NET_S_LINK_UP \<noteq> 0 \<and> vd_vm_running (vi_dev s)"

definition set_started :: "bool \<Rightarrow> vnet \<Rightarrow> vnet" where
  "set_started b = upd_net (\<lambda>n. n\<lparr>xn_vhost_started := b\<rparr>)"

definition virtio_net_vhost_status :: "nenv \<Rightarrow> u8 \<Rightarrow> vnet \<Rightarrow> vnet exec" where
  "virtio_net_vhost_status env status s =
     bindE (qemu_get_queue s) (\<lambda>nc.
     let queues = (if xn_multiqueue (vx_net s) then unat (xn_max_queues (vx_net s)) else 1) in
     bindE (get_vhost_net (sq_peer nc)) (\<lambda>net.
     case net of
       None \<Rightarrow> ret s
     | Some net \<Rightarrow>
         if xn_vhost_started (vx_net s) = (virtio_net_started status s \<and> \<not> (case sq_peer nc of Some p \<Rightarrow> peer_link_down p | None \<Rightarrow> False))
         then ret s
         else if \<not> xn_vhost_started (vx_net s)
         then let (ok, q) = vhost_net_query (ne_env env) (ne_bus env) (to_qemu (vn_dev net) s); s = of_qemu q s in
           if \<not> ok then ret s
           else let s = set_started True s in
             bindE (leading_nets (vx_ncs s)) (\<lambda>nets.
             bindE (vhost_net_start (ne_env env) (ne_bus env) queues (nets, to_qemu (vn_dev net) s)) (\<lambda>(r, nets, q).
             let s = (of_qemu q s)\<lparr>vx_ncs := put_nets nets (vx_ncs s)\<rparr> in
               ret (if r < 0 then set_started False s else s)))
         else
           bindE (leading_nets (vx_ncs s)) (\<lambda>nets.
           bindE (vhost_net_stop (ne_env env) (ne_bus env) queues (nets, to_qemu (vn_dev net) s)) (\<lambda>(nets, q).
             ret (set_started False ((of_qemu q s)\<lparr>vx_ncs := put_nets nets (vx_ncs s)\<rparr>))))))"

text \<open>Starting or stopping the transmit timer or bottom half of the next \<open>k\<close> queues from \<open>i\<close>, where packets wait.\<close>

fun status_queues :: "nenv \<Rightarrow> u8 \<Rightarrow> nat \<Rightarrow> nat \<Rightarrow> vnet \<Rightarrow> vnet exec" where
  "status_queues env status 0 i s = ret s"
| "status_queues env status (Suc k) i s =
     (let n = vx_net s;
          queue_status = (if (\<not> xn_multiqueue n \<and> i \<noteq> 0) \<or> i \<ge> unat (xn_curr_queues n) then 0 else status) in
      bindE (get_netq i s) (\<lambda>q.
      if xq_tx_waiting q = 0 then status_queues env status k (Suc i) s
      else
        let on = (virtio_net_started queue_status s \<and> \<not> xn_vhost_started n) in
        if xq_tx_timer q
        then status_queues env status k (Suc i)
               (log_net [QTxTimer i (if on then Some (qe_clock (ne_env env) (vi_io s) + int (unat (xn_tx_timeout n))) else None)] s)
        else bindE (ensure (xq_tx_bh q) (Segv 0)) (\<lambda>_. status_queues env status k (Suc i) (log_net [QBh i on] s))))"

definition virtio_net_set_status :: "nenv \<Rightarrow> u8 \<Rightarrow> vnet \<Rightarrow> vnet exec" where
  "virtio_net_set_status env status s =
     bindE (virtio_net_vhost_status env status s) (\<lambda>s. status_queues env status (unat (xn_max_queues (vx_net s))) 0 s)"

definition virtio_net_set_link_status :: "nenv \<Rightarrow> nat \<Rightarrow> vnet \<Rightarrow> vnet exec" where
  "virtio_net_set_link_status env i s =
     bindE (qemu_get_subqueue i s) (\<lambda>nc.
     let old_status = xn_status (vx_net s);
         s = upd_net (\<lambda>n. n\<lparr>xn_status := (if sq_link_down nc then xn_status n AND NOT VIRTIO_NET_S_LINK_UP else xn_status n OR VIRTIO_NET_S_LINK_UP)\<rparr>) s;
         s = (if xn_status (vx_net s) \<noteq> old_status then virtio_notify_config (ne_bus env) s else s) in
     virtio_net_set_status env (vd_status (vi_dev s)) s)"

definition virtio_net_guest_notifier_pending :: "nenv \<Rightarrow> nat \<Rightarrow> vnet \<Rightarrow> (bool \<times> vnet) exec" where
  "virtio_net_guest_notifier_pending env idx s =
     bindE (qemu_get_subqueue (vq2q idx) s) (\<lambda>nc.
     bindE (ensure (xn_vhost_started (vx_net s)) AssertFail) (\<lambda>_.
     bindE (get_vhost_net (sq_peer nc)) (\<lambda>net. case net of
         None \<Rightarrow> fail (Segv 0)
       | Some net \<Rightarrow> bindE (vhost_net_virtqueue_pending (ne_env env) (int idx) (to_qemu (vn_dev net) s)) (\<lambda>(r, q).
           ret (r, put_client (vq2q idx) (put_vhost_net (net\<lparr>vn_dev := q_dev q\<rparr>) nc) (of_qemu q s))))))"

definition virtio_net_guest_notifier_mask :: "nenv \<Rightarrow> nat \<Rightarrow> bool \<Rightarrow> vnet \<Rightarrow> vnet exec" where
  "virtio_net_guest_notifier_mask env idx msk s =
     bindE (qemu_get_subqueue (vq2q idx) s) (\<lambda>nc.
     bindE (ensure (xn_vhost_started (vx_net s)) AssertFail) (\<lambda>_.
     bindE (get_vhost_net (sq_peer nc)) (\<lambda>net. case net of
         None \<Rightarrow> fail (Segv 0)
       | Some net \<Rightarrow> bindE (vhost_net_virtqueue_mask (ne_env env) (int idx) msk (to_qemu (vn_dev net) s)) (\<lambda>q.
           ret (put_client (vq2q idx) (put_vhost_net (net\<lparr>vn_dev := q_dev q\<rparr>) nc) (of_qemu q s))))))"

end
