(* ===== verification/NetCtrl.thy ===== *)
theory NetCtrl
  imports NetDev
begin

text \<open>
  The features of the network card, its receive filter, and the commands by which the guest changes them, from
  \<^verbatim>\<open>src/qemu_vhost_user/hw/net/virtio-net.c\<close>.
\<close>

section \<open>Handlers of queues\<close>

definition HANDLE_RX :: nat where
  "HANDLE_RX = 0"

definition HANDLE_TX_TIMER :: nat where
  "HANDLE_TX_TIMER = 1"

definition HANDLE_TX_BH :: nat where
  "HANDLE_TX_BH = 2"

definition HANDLE_CTRL :: nat where
  "HANDLE_CTRL = 3"

section \<open>Queues and features\<close>

definition peer_test_vnet_hdr :: "vnet \<Rightarrow> vnet exec" where
  "peer_test_vnet_hdr s =
     bindE (qemu_get_queue s) (\<lambda>nc. case sq_peer nc of
         Some (TapPeer t) \<Rightarrow> bindE (tap_has_vnet_hdr (sq_peer nc)) (\<lambda>b. ret (upd_net (\<lambda>n. n\<lparr>xn_has_vnet_hdr := b\<rparr>) s))
       | Some (UserPeer u) \<Rightarrow> ret (upd_net (\<lambda>n. n\<lparr>xn_has_vnet_hdr := False\<rparr>) s)
       | _ \<Rightarrow> ret s)"

definition peer_has_ufo :: "vnet \<Rightarrow> (bool \<times> vnet) exec" where
  "peer_has_ufo s =
     (if \<not> xn_has_vnet_hdr (vx_net s) then ret (False, s)
      else bindE (qemu_get_queue s) (\<lambda>nc. bindE (tap_has_ufo (sq_peer nc)) (\<lambda>b. ret (b, upd_net (\<lambda>n. n\<lparr>xn_has_ufo := b\<rparr>) s))))"

fun hdr_len_queues :: "nenv \<Rightarrow> nat \<Rightarrow> nat \<Rightarrow> vnet \<Rightarrow> vnet exec" where
  "hdr_len_queues env 0 i s = ret s"
| "hdr_len_queues env (Suc k) i s =
     bindE (qemu_get_subqueue i s) (\<lambda>nc.
     if \<not> xn_has_vnet_hdr (vx_net s) then hdr_len_queues env k (Suc i) s
     else bindE (tap_has_vnet_hdr_len env (sq_peer nc) (xn_guest_hdr_len (vx_net s)) s) (\<lambda>(b, s).
       if \<not> b then hdr_len_queues env k (Suc i) s
       else bindE (tap_set_vnet_hdr_len i (xn_guest_hdr_len (vx_net s)) s) (\<lambda>s.
         hdr_len_queues env k (Suc i) (upd_net (\<lambda>n. n\<lparr>xn_host_hdr_len := xn_guest_hdr_len n\<rparr>) s))))"

definition virtio_net_set_mrg_rx_bufs :: "nenv \<Rightarrow> u32 \<Rightarrow> vnet \<Rightarrow> vnet exec" where
  "virtio_net_set_mrg_rx_bufs env mergeable s =
     (let s = upd_net (\<lambda>n. n\<lparr>xn_mergeable_rx_bufs := mergeable, xn_guest_hdr_len := (if mergeable \<noteq> 0 then MRG_HDR_LEN else NET_HDR_LEN)\<rparr>) s in
      hdr_len_queues env (unat (xn_max_queues (vx_net s))) 0 s)"

definition peer_attach :: "nenv \<Rightarrow> nat \<Rightarrow> vnet \<Rightarrow> (int \<times> vnet) exec" where
  "peer_attach env i s =
     bindE (qemu_get_subqueue i s) (\<lambda>nc. case sq_peer nc of
         Some (TapPeer t) \<Rightarrow> ret (tap_enable env i t s)
       | _ \<Rightarrow> ret (0, s))"

definition peer_detach :: "nenv \<Rightarrow> nat \<Rightarrow> vnet \<Rightarrow> (int \<times> vnet) exec" where
  "peer_detach env i s =
     bindE (qemu_get_subqueue i s) (\<lambda>nc. case sq_peer nc of
         Some (TapPeer t) \<Rightarrow> ret (tap_disable env i t s)
       | _ \<Rightarrow> ret (0, s))"

fun set_queues :: "nenv \<Rightarrow> nat \<Rightarrow> nat \<Rightarrow> vnet \<Rightarrow> vnet exec" where
  "set_queues env 0 i s = ret s"
| "set_queues env (Suc k) i s =
     bindE (if i < unat (xn_curr_queues (vx_net s)) then peer_attach env i s else peer_detach env i s) (\<lambda>(r, s).
     bindE (ensure (r = 0) AssertFail) (\<lambda>_. set_queues env k (Suc i) s))"

definition virtio_net_set_queues :: "nenv \<Rightarrow> vnet \<Rightarrow> vnet exec" where
  "virtio_net_set_queues env s = set_queues env (unat (xn_max_queues (vx_net s))) 0 s"

definition OFFLOAD_FEATURES :: "nat list" where
  "OFFLOAD_FEATURES =
     [VIRTIO_NET_F_CSUM, VIRTIO_NET_F_HOST_TSO4, VIRTIO_NET_F_HOST_TSO6, VIRTIO_NET_F_HOST_ECN,
      VIRTIO_NET_F_GUEST_CSUM, VIRTIO_NET_F_GUEST_TSO4, VIRTIO_NET_F_GUEST_TSO6, VIRTIO_NET_F_GUEST_ECN]"

definition clear_features :: "nat list \<Rightarrow> u32 \<Rightarrow> u32" where
  "clear_features bs features = fold (\<lambda>b f. f AND NOT (push_bit b 1)) bs features"

definition virtio_net_get_features :: "u32 \<Rightarrow> vnet \<Rightarrow> (u32 \<times> vnet) exec" where
  "virtio_net_get_features features s =
     bindE (qemu_get_queue s) (\<lambda>nc.
     let features = features OR push_bit VIRTIO_NET_F_MAC 1;
         features = (if xn_has_vnet_hdr (vx_net s) then features else clear_features OFFLOAD_FEATURES features) in
     bindE (peer_has_ufo s) (\<lambda>(ufo, s).
     let features = (if ufo then features else clear_features [VIRTIO_NET_F_GUEST_UFO, VIRTIO_NET_F_HOST_UFO] features) in
     bindE (get_vhost_net (sq_peer nc)) (\<lambda>net. case net of
         None \<Rightarrow> ret (features, s)
       | Some net \<Rightarrow> ret (vhost_net_get_features (vn_dev net) features, s))))"

definition virtio_net_bad_features :: u32 where
  "virtio_net_bad_features =
     push_bit VIRTIO_NET_F_MAC 1 OR push_bit VIRTIO_NET_F_CSUM 1 OR push_bit VIRTIO_NET_F_HOST_TSO4 1 OR
     push_bit VIRTIO_NET_F_HOST_TSO6 1 OR push_bit VIRTIO_NET_F_HOST_ECN 1"

text \<open>\<^verbatim>\<open>tap_set_offload\<close> does not check the kind of the client; a client that is not a tap device has no descriptor
  here.\<close>

definition virtio_net_apply_guest_offloads :: "vnet \<Rightarrow> vnet exec" where
  "virtio_net_apply_guest_offloads s =
     bindE (qemu_get_subqueue 0 s) (\<lambda>nc.
     bindE (tap_of (sq_peer nc)) (\<lambda>t.
     let ol = xn_curr_guest_offloads (vx_net s) in
     ret (if ta_fd t < 0 then s
          else log_net [QTapOffload (ta_fd t) (bit ol VIRTIO_NET_F_GUEST_CSUM) (bit ol VIRTIO_NET_F_GUEST_TSO4)
                 (bit ol VIRTIO_NET_F_GUEST_TSO6) (bit ol VIRTIO_NET_F_GUEST_ECN) (bit ol VIRTIO_NET_F_GUEST_UFO)] s)))"

definition virtio_net_guest_offloads_by_features :: "u32 \<Rightarrow> u64" where
  "virtio_net_guest_offloads_by_features features =
     (push_bit VIRTIO_NET_F_GUEST_CSUM 1 OR push_bit VIRTIO_NET_F_GUEST_TSO4 1 OR push_bit VIRTIO_NET_F_GUEST_TSO6 1 OR
      push_bit VIRTIO_NET_F_GUEST_ECN 1 OR push_bit VIRTIO_NET_F_GUEST_UFO 1) AND ucast features"

definition virtio_net_supported_guest_offloads :: "vnet \<Rightarrow> u64" where
  "virtio_net_supported_guest_offloads s = virtio_net_guest_offloads_by_features (vd_guest_features (vi_dev s))"

definition add_net_queue :: "int \<Rightarrow> nat \<Rightarrow> vnet \<Rightarrow> (nat \<times> vnet) exec" where
  "add_net_queue num handler s = bindE (virtio_add_queue num handler (vi_dev s)) (\<lambda>(i, d). ret (i, s\<lparr>vi_dev := d\<rparr>))"

fun del_queues :: "nat \<Rightarrow> nat \<Rightarrow> vnet \<Rightarrow> vnet exec" where
  "del_queues 0 i s = ret s"
| "del_queues (Suc k) i s = bindE (virtio_del_queue (int i) (vi_dev s)) (\<lambda>d. del_queues k (Suc i) (s\<lparr>vi_dev := d\<rparr>))"

fun add_pairs :: "nat \<Rightarrow> nat \<Rightarrow> vnet \<Rightarrow> vnet exec" where
  "add_pairs 0 i s = ret s"
| "add_pairs (Suc k) i s =
     bindE (add_net_queue 256 HANDLE_RX s) (\<lambda>(rx, s).
     bindE (upd_netq i (\<lambda>q. q\<lparr>xq_rx_vq := Some rx\<rparr>) s) (\<lambda>s.
     bindE (get_netq i s) (\<lambda>q.
     bindE (add_net_queue 256 (if xq_tx_timer q then HANDLE_TX_TIMER else HANDLE_TX_BH) s) (\<lambda>(tx, s).
       add_pairs k (Suc i)
         (put_netq i (q\<lparr>xq_tx_vq := Some tx, xq_tx_bh := (if xq_tx_timer q then xq_tx_bh q else True), xq_tx_waiting := 0\<rparr>) s)))))"

definition virtio_net_set_multiqueue :: "nenv \<Rightarrow> bool \<Rightarrow> vnet \<Rightarrow> vnet exec" where
  "virtio_net_set_multiqueue env multiqueue s =
     (let max_queues = unat (xn_max_queues (vx_net s)); mx = (if multiqueue then max_queues else 1);
          s = upd_net (\<lambda>n. n\<lparr>xn_multiqueue := multiqueue\<rparr>) s in
      bindE (del_queues (max_queues * 2) 2 s) (\<lambda>s.
      bindE (add_pairs (mx - 1) 1 s) (\<lambda>s.
      bindE (add_net_queue 64 HANDLE_CTRL s) (\<lambda>(c, s).
        virtio_net_set_queues env (upd_net (\<lambda>n. n\<lparr>xn_ctrl_vq := Some c\<rparr>) s)))))"

fun ack_features :: "u32 \<Rightarrow> nat \<Rightarrow> nat \<Rightarrow> vnet \<Rightarrow> vnet exec" where
  "ack_features features 0 i s = ret s"
| "ack_features features (Suc k) i s =
     bindE (qemu_get_subqueue i s) (\<lambda>nc.
     bindE (get_vhost_net (sq_peer nc)) (\<lambda>net. case net of
         None \<Rightarrow> ack_features features k (Suc i) s
       | Some net \<Rightarrow> ack_features features k (Suc i)
           (put_client i (put_vhost_net (net\<lparr>vn_dev := vhost_net_ack_features features (vn_dev net)\<rparr>) nc) s)))"

definition virtio_net_set_features :: "nenv \<Rightarrow> u32 \<Rightarrow> vnet \<Rightarrow> vnet exec" where
  "virtio_net_set_features env features s =
     bindE (virtio_net_set_multiqueue env (bit features VIRTIO_NET_F_MQ) s) (\<lambda>s.
     bindE (virtio_net_set_mrg_rx_bufs env (if bit features VIRTIO_NET_F_MRG_RXBUF then 1 else 0) s) (\<lambda>s.
     bindE (if xn_has_vnet_hdr (vx_net s)
            then virtio_net_apply_guest_offloads
                   (upd_net (\<lambda>n. n\<lparr>xn_curr_guest_offloads := virtio_net_guest_offloads_by_features features\<rparr>) s)
            else ret s) (\<lambda>s.
       ack_features features (unat (xn_max_queues (vx_net s))) 0 s)))"

section \<open>The receive filter\<close>

definition virtio_net_reset :: "vnet \<Rightarrow> vnet exec" where
  "virtio_net_reset s =
     ret (upd_net (\<lambda>n. n\<lparr>xn_promisc := 1, xn_allmulti := 0, xn_alluni := 0, xn_nomulti := 0, xn_nouni := 0, xn_nobcast := 0,
       xn_curr_queues := 1,
       xn_mac_table := \<lparr>mt_in_use = 0, mt_first_multi = 0, mt_multi_overflow = 0, mt_uni_overflow = 0,
                        mt_macs = replicate (MAC_TABLE_ENTRIES * ETH_ALEN) 0\<rparr>,
       xn_mac := xn_conf_macaddr n, xn_vlans := replicate (MAX_VLAN div 32) 0\<rparr>) s)"

definition rxfilter_notify :: "vnet \<Rightarrow> vnet exec" where
  "rxfilter_notify s =
     bindE (qemu_get_queue s) (\<lambda>nc.
       ret (if sq_rxfilter_notify_enabled nc
            then put_client 0 (nc\<lparr>sq_rxfilter_notify_enabled := False\<rparr>) (log_net [QRxFilterChanged] s) else s))"

datatype RxState = RX_STATE_NORMAL | RX_STATE_NONE | RX_STATE_ALL

record RxFilterInfo =
  rf_promiscuous :: bool
  rf_unicast :: RxState
  rf_multicast :: RxState
  rf_broadcast_allowed :: bool
  rf_multicast_overflow :: bool
  rf_unicast_overflow :: bool
  rf_main_mac :: string
  rf_unicast_table :: "string list"
  rf_multicast_table :: "string list"
  rf_vlan_table :: "int list"

fun mac_strdup_printf :: "u8 list \<Rightarrow> string" where
  "mac_strdup_printf [] = []"
| "mac_strdup_printf [b] = hexpad 2 (unat b)"
| "mac_strdup_printf (b # bs) = hexpad 2 (unat b) @ '':'' @ mac_strdup_printf bs"

definition mac_at :: "mac_table \<Rightarrow> int \<Rightarrow> u8 list exec" where
  "mac_at t i = bytes_at (mt_macs t) (i * int ETH_ALEN) (int ETH_ALEN)"

text \<open>New entries are put in front of a list.\<close>

fun mac_strings :: "mac_table \<Rightarrow> nat \<Rightarrow> int \<Rightarrow> string list \<Rightarrow> string list exec" where
  "mac_strings t 0 i ms = ret ms"
| "mac_strings t (Suc k) i ms = bindE (mac_at t i) (\<lambda>mac. mac_strings t k (i + 1) (mac_strdup_printf mac # ms))"

definition vlan_ids :: "u32 list \<Rightarrow> int list" where
  "vlan_ids vlans =
     rev (concat (map (\<lambda>i. map (\<lambda>j. int (32 * i + j)) (filter (\<lambda>j. vlans ! i \<noteq> 0 \<and> bit (vlans ! i) j) [0 ..< 31])) [0 ..< length vlans]))"

definition rx_state :: "u8 \<Rightarrow> u8 \<Rightarrow> RxState" where
  "rx_state no all = (if no \<noteq> 0 then RX_STATE_NONE else if all \<noteq> 0 then RX_STATE_ALL else RX_STATE_NORMAL)"

definition virtio_net_query_rxfilter :: "vnet \<Rightarrow> (RxFilterInfo \<times> vnet) exec" where
  "virtio_net_query_rxfilter s =
     (let n = vx_net s; t = xn_mac_table n in
      bindE (mac_strings t (nat (mt_first_multi t)) 0 []) (\<lambda>uni.
      bindE (mac_strings t (nat (mt_in_use t - mt_first_multi t)) (mt_first_multi t) []) (\<lambda>multi.
      bindE (ensure (length (xn_vlans n) = MAX_VLAN div 32) (BadIndex (int (length (xn_vlans n))))) (\<lambda>_.
      bindE (qemu_get_queue s) (\<lambda>nc.
        ret (\<lparr>rf_promiscuous = (xn_promisc n \<noteq> 0), rf_unicast = rx_state (xn_nouni n) (xn_alluni n),
              rf_multicast = rx_state (xn_nomulti n) (xn_allmulti n), rf_broadcast_allowed = (xn_nobcast n \<noteq> 0),
              rf_multicast_overflow = (mt_multi_overflow t \<noteq> 0), rf_unicast_overflow = (mt_uni_overflow t \<noteq> 0),
              rf_main_mac = mac_strdup_printf (xn_mac n), rf_unicast_table = uni, rf_multicast_table = multi,
              rf_vlan_table = vlan_ids (xn_vlans n)\<rparr>,
             put_client 0 (nc\<lparr>sq_rxfilter_notify_enabled := True\<rparr>) s))))))"

text \<open>Whether one of the next \<open>k\<close> entries from \<open>i\<close> is the address.\<close>

fun find_mac :: "mac_table \<Rightarrow> u8 list \<Rightarrow> nat \<Rightarrow> int \<Rightarrow> bool exec" where
  "find_mac t mac 0 i = ret False"
| "find_mac t mac (Suc k) i = bindE (mac_at t i) (\<lambda>m. if mac = m then ret True else find_mac t mac k (i + 1))"

definition vlan_member :: "VirtIONet \<Rightarrow> nat \<Rightarrow> bool exec" where
  "vlan_member n vid =
     (if vid div 32 < length (xn_vlans n) then ret (bit (xn_vlans n ! (vid div 32)) (vid mod 32)) else fail (BadIndex (int (vid div 32))))"

definition receive_filter :: "VirtIONet \<Rightarrow> u8 list \<Rightarrow> bool exec" where
  "receive_filter n buf =
     (if xn_promisc n \<noteq> 0 then ret True
      else let off = int (xn_host_hdr_len n); t = xn_mac_table n in
      bindE (bytes_at buf (off + 12) 2) (\<lambda>proto.
      bindE (if proto = [0x81, 0x00]
             then bindE (bytes_at buf (off + 14) 2) (\<lambda>tci. vlan_member n (unat ((of_le (rev tci) :: u16) AND 0xfff)))
             else ret True) (\<lambda>ok.
      if \<not> ok then ret False
      else bindE (bytes_at buf off 6) (\<lambda>dst.
      if bit (hd dst) 0
      then if dst = replicate 6 0xff then ret (xn_nobcast n = 0)
           else if xn_nomulti n \<noteq> 0 then ret False
           else if xn_allmulti n \<noteq> 0 \<or> mt_multi_overflow t \<noteq> 0 then ret True
           else find_mac t dst (nat (mt_in_use t - mt_first_multi t)) (mt_first_multi t)
      else if xn_nouni n \<noteq> 0 then ret False
           else if xn_alluni n \<noteq> 0 \<or> mt_uni_overflow t \<noteq> 0 then ret True
           else if dst = xn_mac n then ret True
           else find_mac t dst (nat (mt_first_multi t)) 0))))"

section \<open>Commands\<close>

definition host_of :: "nenv \<Rightarrow> vnet \<Rightarrow> mem" where
  "host_of env s = host_mem env (vi_phys s)"

definition virtio_net_handle_rx_mode :: "nenv \<Rightarrow> u8 \<Rightarrow> iovec list \<Rightarrow> vnet \<Rightarrow> (u8 \<times> vnet) exec" where
  "virtio_net_handle_rx_mode env cmd iov s =
     bindE (iov_to_buf iov 0 1 (host_of env s)) (\<lambda>bs.
     if length bs \<noteq> 1 then ret (VIRTIO_NET_ERR, s)
     else let on = hd bs; s' = upd_net (\<lambda>n.
         if cmd = 0 then n\<lparr>xn_promisc := on\<rparr>
         else if cmd = 1 then n\<lparr>xn_allmulti := on\<rparr>
         else if cmd = 2 then n\<lparr>xn_alluni := on\<rparr>
         else if cmd = 3 then n\<lparr>xn_nomulti := on\<rparr>
         else if cmd = 4 then n\<lparr>xn_nouni := on\<rparr>
         else n\<lparr>xn_nobcast := on\<rparr>) s in
     if cmd > 5 then ret (VIRTIO_NET_ERR, s)
     else bindE (rxfilter_notify s') (\<lambda>s. ret (VIRTIO_NET_OK, s)))"

definition virtio_net_handle_offloads :: "nenv \<Rightarrow> u8 \<Rightarrow> iovec list \<Rightarrow> vnet \<Rightarrow> (u8 \<times> vnet) exec" where
  "virtio_net_handle_offloads env cmd iov s =
     (if \<not> bit (vd_guest_features (vi_dev s)) VIRTIO_NET_F_CTRL_GUEST_OFFLOADS then ret (VIRTIO_NET_ERR, s)
      else bindE (iov_to_buf iov 0 8 (host_of env s)) (\<lambda>bs.
      if length bs \<noteq> 8 \<or> cmd \<noteq> 0 \<or> \<not> xn_has_vnet_hdr (vx_net s) then ret (VIRTIO_NET_ERR, s)
      else let offloads = of_le bs in
      if offloads AND NOT (virtio_net_supported_guest_offloads s) \<noteq> 0 then ret (VIRTIO_NET_ERR, s)
      else bindE (virtio_net_apply_guest_offloads (upd_net (\<lambda>n. n\<lparr>xn_curr_guest_offloads := offloads\<rparr>) s)) (\<lambda>s. ret (VIRTIO_NET_OK, s))))"

text \<open>One list of addresses of a table: the number of entries, and then the entries, as far as they are stored.  The
  result is none if the command is malformed, or the number of entries in use, whether the list did not fit, and the
  table; with it the vector as \<^verbatim>\<open>iov_discard_front\<close> leaves it, and how many of its entries are consumed.  \<open>exact\<close>
  is true for the second list, which has to end the command.\<close>

definition read_entries :: "mem \<Rightarrow> iovec list \<Rightarrow> u32 option exec" where
  "read_entries m iov = bindE (iov_to_buf iov 0 4 m) (\<lambda>bs. ret (if length bs = 4 then Some (of_le bs) else None))"

definition read_macs :: "mem \<Rightarrow> bool \<Rightarrow> iovec list \<Rightarrow> int \<Rightarrow> u32 \<Rightarrow> u8 list \<Rightarrow> (int \<times> bool \<times> u8 list) option exec" where
  "read_macs m exact iov in_use entries macs =
     (let bytes = unat (entries * of_nat ETH_ALEN :: u32) in
      if (if exact then of_nat bytes \<noteq> iov_size iov else of_nat bytes > iov_size iov) then ret None
      else if word_of_int in_use + entries \<le> of_nat MAC_TABLE_ENTRIES
      then bindE (iov_to_buf iov 0 bytes m) (\<lambda>bs.
           bindE (ensure (nat in_use * ETH_ALEN + length bs \<le> length macs) Overrun) (\<lambda>_.
             ret (if length bs \<noteq> bytes then None
                  else Some (in_use + int_of_u32 entries, False, poke (nat in_use * ETH_ALEN) bs macs))))
      else ret (Some (in_use, True, macs)))"

definition advance :: "iovec list \<Rightarrow> nat \<Rightarrow> iovec list \<times> iovec list" where
  "advance iov bytes = (let (_, n, arr) = iov_discard_front iov bytes in (take n arr, drop n arr))"

text \<open>The commands on addresses; the vector as it is changed in place is returned as well.\<close>

definition set_mac_table :: "int \<Rightarrow> int \<Rightarrow> bool \<Rightarrow> bool \<Rightarrow> u8 list \<Rightarrow> vnet \<Rightarrow> vnet" where
  "set_mac_table in_use first uni multi macs =
     upd_net (\<lambda>n. n\<lparr>xn_mac_table := \<lparr>mt_in_use = in_use, mt_first_multi = first, mt_multi_overflow = (if multi then 1 else 0),
                                     mt_uni_overflow = (if uni then 1 else 0), mt_macs = macs\<rparr>\<rparr>)"

definition mac_table_set :: "nenv \<Rightarrow> iovec list \<Rightarrow> vnet \<Rightarrow> (u8 \<times> iovec list \<times> vnet) exec" where
  "mac_table_set env iov s =
     (let m = host_of env s in
      bindE (read_entries m iov) (\<lambda>e. case e of None \<Rightarrow> ret (VIRTIO_NET_ERR, iov, s) | Some entries \<Rightarrow>
      let (a1, iov1) = advance iov 4 in
      bindE (read_macs m False iov1 0 entries (replicate (MAC_TABLE_ENTRIES * ETH_ALEN) 0)) (\<lambda>r.
      case r of None \<Rightarrow> ret (VIRTIO_NET_ERR, a1 @ iov1, s) | Some (first_multi, uni, macs) \<Rightarrow>
      let (a2, iov2) = advance iov1 (unat (entries * of_nat ETH_ALEN :: u32)) in
      bindE (read_entries m iov2) (\<lambda>e. case e of None \<Rightarrow> ret (VIRTIO_NET_ERR, a1 @ a2 @ iov2, s) | Some entries \<Rightarrow>
      let (a3, iov3) = advance iov2 4 in
      bindE (read_macs m True iov3 first_multi entries macs) (\<lambda>r.
      case r of None \<Rightarrow> ret (VIRTIO_NET_ERR, a1 @ a2 @ a3 @ iov3, s) | Some (in_use, multi, macs) \<Rightarrow>
      bindE (rxfilter_notify (set_mac_table in_use first_multi uni multi macs s)) (\<lambda>s.
        ret (VIRTIO_NET_OK, a1 @ a2 @ a3 @ iov3, s)))))))"

definition virtio_net_handle_mac :: "nenv \<Rightarrow> u8 \<Rightarrow> iovec list \<Rightarrow> vnet \<Rightarrow> (u8 \<times> iovec list \<times> vnet) exec" where
  "virtio_net_handle_mac env cmd iov s =
     (if cmd = 1
      then if iov_size iov \<noteq> of_nat ETH_ALEN then ret (VIRTIO_NET_ERR, iov, s)
           else bindE (iov_to_buf iov 0 ETH_ALEN (host_of env s)) (\<lambda>bs.
                bindE (ensure (length bs = ETH_ALEN) AssertFail) (\<lambda>_.
                bindE (rxfilter_notify (upd_net (\<lambda>n. n\<lparr>xn_mac := bs\<rparr>) s)) (\<lambda>s. ret (VIRTIO_NET_OK, iov, s))))
      else if cmd \<noteq> 0 then ret (VIRTIO_NET_ERR, iov, s)
      else mac_table_set env iov s)"

definition set_vlan :: "(u32 \<Rightarrow> u32) \<Rightarrow> nat \<Rightarrow> vnet \<Rightarrow> vnet exec" where
  "set_vlan f i s =
     (if i < length (xn_vlans (vx_net s)) then ret (upd_net (\<lambda>n. n\<lparr>xn_vlans := (xn_vlans n)[i := f (xn_vlans n ! i)]\<rparr>) s)
      else fail (BadIndex (int i)))"

definition virtio_net_handle_vlan_table :: "nenv \<Rightarrow> u8 \<Rightarrow> iovec list \<Rightarrow> vnet \<Rightarrow> (u8 \<times> vnet) exec" where
  "virtio_net_handle_vlan_table env cmd iov s =
     bindE (iov_to_buf iov 0 2 (host_of env s)) (\<lambda>bs.
     if length bs \<noteq> 2 then ret (VIRTIO_NET_ERR, s)
     else let vid = unat (of_le bs :: u16) in
     if vid \<ge> MAX_VLAN \<or> cmd > 1 then ret (VIRTIO_NET_ERR, s)
     else bindE (set_vlan (\<lambda>w. if cmd = 0 then w OR push_bit (vid mod 32) 1 else w AND NOT (push_bit (vid mod 32) 1)) (vid div 32) s) (\<lambda>s.
          bindE (rxfilter_notify s) (\<lambda>s. ret (VIRTIO_NET_OK, s))))"

definition virtio_net_handle_mq :: "nenv \<Rightarrow> u8 \<Rightarrow> iovec list \<Rightarrow> vnet \<Rightarrow> (u8 \<times> vnet) exec" where
  "virtio_net_handle_mq env cmd iov s =
     bindE (iov_to_buf iov 0 2 (host_of env s)) (\<lambda>bs.
     if length bs \<noteq> 2 \<or> cmd \<noteq> 0 then ret (VIRTIO_NET_ERR, s)
     else let queues = of_le bs :: u16 in
     if queues < 1 \<or> queues > 0x8000 \<or> queues > xn_max_queues (vx_net s) \<or> \<not> xn_multiqueue (vx_net s) then ret (VIRTIO_NET_ERR, s)
     else let s = upd_net (\<lambda>n. n\<lparr>xn_curr_queues := queues\<rparr>) s in
          bindE (virtio_net_set_status env (vd_status (vi_dev s)) s) (\<lambda>s.
          bindE (virtio_net_set_queues env s) (\<lambda>s. ret (VIRTIO_NET_OK, s))))"

end
