(* ===== verification/NetPath.thy ===== *)
theory NetPath
  imports NetCtrl
begin

text \<open>
  The queues of the network card, from \<^verbatim>\<open>src/qemu_vhost_user/hw/net/virtio-net.c\<close>: the loop over the control queue,
  receiving a packet into the buffers of the guest, and transmitting the packets of the guest.

  A packet is passed with the memory behind its pointer, \<open>buf\<close>, and its length, \<open>size\<close>: the code also reads bytes
  behind short packets.
\<close>

section \<open>Queues of the card\<close>

text \<open>The element a loop declares without initialising it; it is filled before it is used.\<close>

definition no_elem :: VirtQueueElement where
  "no_elem = \<lparr>el_index = 0, el_in_addr = [], el_in_sg = [], el_out_addr = [], el_out_sg = []\<rparr>"

definition the_vq :: "nat option \<Rightarrow> nat exec" where
  "the_vq p = (case p of Some n \<Rightarrow> ret n | None \<Rightarrow> fail (Segv 0))"

definition net_pop :: "nenv \<Rightarrow> nat \<Rightarrow> vnet \<Rightarrow> (nat \<times> VirtQueueElement \<times> vnet) exec" where
  "net_pop env j s =
     bindE (virtio_get_queue (vi_dev s) (int j)) (\<lambda>vq.
     bindE (virtqueue_pop (ne_env env) (vd_guest_features (vi_dev s)) no_elem vq (vi_phys s, vi_io s)) (\<lambda>(n, el, vq, ph, io).
       ret (n, el, s\<lparr>vi_dev := put_queue (int j) vq (vi_dev s), vi_phys := ph, vi_io := io\<rparr>)))"

definition net_fill :: "nat \<Rightarrow> VirtQueueElement \<Rightarrow> u32 \<Rightarrow> u32 \<Rightarrow> vnet \<Rightarrow> vnet exec" where
  "net_fill j el len idx s =
     bindE (virtio_get_queue (vi_dev s) (int j)) (\<lambda>vq.
     bindE (virtqueue_fill vq el len idx (vi_phys s, vi_io s)) (\<lambda>(ph, io). ret (s\<lparr>vi_phys := ph, vi_io := io\<rparr>)))"

definition net_flush :: "nat \<Rightarrow> u32 \<Rightarrow> vnet \<Rightarrow> vnet exec" where
  "net_flush j num s =
     bindE (virtio_get_queue (vi_dev s) (int j)) (\<lambda>vq.
     let (vq, ph) = virtqueue_flush num vq (vi_phys s) in ret (s\<lparr>vi_dev := put_queue (int j) vq (vi_dev s), vi_phys := ph\<rparr>))"

definition net_push :: "nat \<Rightarrow> VirtQueueElement \<Rightarrow> u32 \<Rightarrow> vnet \<Rightarrow> vnet exec" where
  "net_push j el len s =
     bindE (virtio_get_queue (vi_dev s) (int j)) (\<lambda>vq.
     bindE (virtqueue_push el len vq (vi_phys s, vi_io s)) (\<lambda>(vq, ph, io).
       ret (s\<lparr>vi_dev := put_queue (int j) vq (vi_dev s), vi_phys := ph, vi_io := io\<rparr>)))"

definition net_set_notification :: "nat \<Rightarrow> bool \<Rightarrow> vnet \<Rightarrow> vnet exec" where
  "net_set_notification j enable s =
     bindE (virtio_get_queue (vi_dev s) (int j)) (\<lambda>vq.
     let (vq, ph) = virtio_queue_set_notification (vd_guest_features (vi_dev s)) enable vq (vi_phys s) in
       ret (s\<lparr>vi_dev := put_queue (int j) vq (vi_dev s), vi_phys := ph\<rparr>))"

definition write_iov :: "nenv \<Rightarrow> iovec list \<Rightarrow> nat \<Rightarrow> u8 list \<Rightarrow> vnet \<Rightarrow> (nat \<times> vnet) exec" where
  "write_iov env iov offset bs s =
     bindE (iov_from_buf iov offset bs (host_of env s)) (\<lambda>(n, m). ret (n, s\<lparr>vi_phys := put_host_mem env m (vi_phys s)\<rparr>))"

section \<open>The control queue\<close>

definition handle_command :: "nenv \<Rightarrow> u8 \<Rightarrow> u8 \<Rightarrow> u8 \<Rightarrow> iovec list \<Rightarrow> vnet \<Rightarrow> (u8 \<times> iovec list \<times> vnet) exec" where
  "handle_command env status cls cmd iov s =
     (if cls = 0 then bindE (virtio_net_handle_rx_mode env cmd iov s) (\<lambda>(st, s). ret (st, iov, s))
      else if cls = 1 then virtio_net_handle_mac env cmd iov s
      else if cls = 2 then bindE (virtio_net_handle_vlan_table env cmd iov s) (\<lambda>(st, s). ret (st, iov, s))
      else if cls = 4 then bindE (virtio_net_handle_mq env cmd iov s) (\<lambda>(st, s). ret (st, iov, s))
      else if cls = 5 then bindE (virtio_net_handle_offloads env cmd iov s) (\<lambda>(st, s). ret (st, iov, s))
      else ret (status, iov, s))"

text \<open>One element: the header is read and skipped, the command is run, and the status is written and returned.
  \<open>status\<close> is the status of the previous command.\<close>

definition ctrl_element :: "nenv \<Rightarrow> nat \<Rightarrow> u8 \<Rightarrow> VirtQueueElement \<Rightarrow> vnet \<Rightarrow> (u8 \<times> vnet) exec" where
  "ctrl_element env j status el s =
     bindE (ensure (\<not> (iov_size (el_in_sg el) < 1 \<or> iov_size (el_out_sg el) < 2)) (ExitFailure ''virtio-net ctrl missing headers'')) (\<lambda>_.
     bindE (iov_to_buf (el_out_sg el) 0 2 (host_of env s)) (\<lambda>ctrl.
     let (a, iov) = advance (el_out_sg el) 2 in
     bindE (if length ctrl \<noteq> 2 then ret (VIRTIO_NET_ERR, iov, s) else handle_command env status (ctrl ! 0) (ctrl ! 1) iov s) (\<lambda>(status, iov, s).
     bindE (write_iov env (el_in_sg el) 0 [status] s) (\<lambda>(n, s).
     bindE (ensure (n = 1) AssertFail) (\<lambda>_.
     bindE (net_push j (el\<lparr>el_out_sg := a @ iov\<rparr>) 1 s) (\<lambda>s.
     bindE (virtio_notify (ne_bus env) (int j) s) (\<lambda>s. ret (status, s))))))))"

partial_function (option) ctrl_loop :: "nenv \<Rightarrow> nat \<Rightarrow> u8 \<Rightarrow> vnet \<Rightarrow> vnet exec" where
  "ctrl_loop env j status s =
     bindE (net_pop env j s) (\<lambda>(n, el, s).
     if n = 0 then ret s
     else bindE (ctrl_element env j status el s) (\<lambda>(status, s). ctrl_loop env j status s))"

definition virtio_net_handle_ctrl :: "nenv \<Rightarrow> nat \<Rightarrow> vnet \<Rightarrow> vnet exec" where
  "virtio_net_handle_ctrl env j s = ctrl_loop env j VIRTIO_NET_ERR s"

section \<open>Receiving\<close>

definition virtio_net_handle_rx :: "nenv \<Rightarrow> nat \<Rightarrow> vnet \<Rightarrow> vnet exec" where
  "virtio_net_handle_rx env j s = ne_flush env (vq2q j) s"

definition virtio_net_can_receive :: "nat \<Rightarrow> vnet \<Rightarrow> bool exec" where
  "virtio_net_can_receive i s =
     bindE (get_netq i s) (\<lambda>q.
     if \<not> vd_vm_running (vi_dev s) \<or> i \<ge> unat (xn_curr_queues (vx_net s)) then ret False
     else bindE (the_vq (xq_rx_vq q)) (\<lambda>j.
          bindE (virtio_get_queue (vi_dev s) (int j)) (\<lambda>vq.
            ret (virtio_queue_ready vq \<and> bit (vd_status (vi_dev s)) VIRTIO_CONFIG_S_DRIVER_OK))))"

definition lacks_buffers :: "nat \<Rightarrow> u32 \<Rightarrow> vnet \<Rightarrow> bool exec" where
  "lacks_buffers j bufsize s =
     bindE (virtio_get_queue (vi_dev s) (int j)) (\<lambda>vq.
     if virtio_queue_empty (vi_phys s) vq then ret True
     else if xn_mergeable_rx_bufs (vx_net s) = 0 then ret False
     else bindE (virtqueue_avail_bytes (vi_phys s) vq bufsize 0) (\<lambda>b. ret (\<not> b)))"

definition virtio_net_has_buffers :: "nat \<Rightarrow> u32 \<Rightarrow> vnet \<Rightarrow> (bool \<times> vnet) exec" where
  "virtio_net_has_buffers j bufsize s =
     bindE (lacks_buffers j bufsize s) (\<lambda>b.
     bindE (if b then bindE (net_set_notification j True s) (\<lambda>s. bindE (lacks_buffers j bufsize s) (\<lambda>b. ret (b, s))) else ret (False, s)) (\<lambda>(b, s).
     if b then ret (False, s) else bindE (net_set_notification j False s) (\<lambda>s. ret (True, s))))"

text \<open>The conditions are evaluated one after the other; the difference of the lengths is a \<^verbatim>\<open>size_t\<close>.\<close>

definition work_around_broken_dhclient :: "nat \<Rightarrow> u8 list \<Rightarrow> nat \<Rightarrow> u8 list exec" where
  "work_around_broken_dhclient hlen buf sz =
     (let len = (of_nat sz - of_nat hlen :: u64); off = int hlen; check = (\<lambda>i b. bindE (byte_at buf (off + i)) (\<lambda>x. ret (x = b))) in
      bindE (byte_at buf 0) (\<lambda>flags.
      if \<not> bit flags 0 \<or> \<not> (len > 27 \<and> len < 1500) then ret buf
      else bindE (check 12 0x08) (\<lambda>c1. if \<not> c1 then ret buf
      else bindE (check 13 0x00) (\<lambda>c2. if \<not> c2 then ret buf
      else bindE (check 23 17) (\<lambda>c3. if \<not> c3 then ret buf
      else bindE (check 34 0) (\<lambda>c4. if \<not> c4 then ret buf
      else bindE (check 35 67) (\<lambda>c5. if \<not> c5 then ret buf
      else bindE (net_checksum_calculate (drop hlen buf)) (\<lambda>pkt. ret ((take hlen buf @ pkt)[0 := flags AND NOT 1])))))))))"

definition receive_header :: "nenv \<Rightarrow> iovec list \<Rightarrow> u8 list \<Rightarrow> nat \<Rightarrow> vnet \<Rightarrow> (u8 list \<times> vnet) exec" where
  "receive_header env iov buf sz s =
     (let n = vx_net s in
      if xn_has_vnet_hdr n
      then bindE (work_around_broken_dhclient (xn_host_hdr_len n) buf sz) (\<lambda>buf.
           bindE (bytes_at buf 0 (int NET_HDR_LEN)) (\<lambda>hdr.
           bindE (write_iov env iov 0 hdr s) (\<lambda>(_, s). ret (buf, s))))
      else bindE (write_iov env iov 0 (replicate NET_HDR_LEN 0) s) (\<lambda>(_, s). ret (buf, s)))"

text \<open>The loop over the buffers: \<open>i\<close> of them are filled and \<open>offset\<close> bytes of the packet are consumed.  \<open>mhdr\<close> is where
  the number of buffers is to be written.  The result is a return value, if the function returns from within the loop,
  or the number of buffers.\<close>

definition receive_first :: "nenv \<Rightarrow> iovec list \<Rightarrow> u8 list \<Rightarrow> nat \<Rightarrow> vnet \<Rightarrow> (iovec list \<times> u8 list \<times> vnet) exec" where
  "receive_first env sg buf sz s =
     bindE (if xn_mergeable_rx_bufs (vx_net s) \<noteq> 0 then iov_copy VIRTQUEUE_MAX_SIZE sg NET_HDR_LEN 2 else ret []) (\<lambda>mhdr.
     bindE (receive_header env sg buf sz s) (\<lambda>(buf, s). ret (mhdr, buf, s)))"

partial_function (option) receive_loop ::
  "nenv \<Rightarrow> nat \<Rightarrow> u8 list \<Rightarrow> nat \<Rightarrow> nat \<Rightarrow> nat \<Rightarrow> iovec list \<Rightarrow> vnet \<Rightarrow> (int option \<times> nat \<times> iovec list \<times> vnet) exec" where
  "receive_loop env j buf sz offset i mhdr s =
     (if \<not> offset < sz then ret (None, i, mhdr, s)
      else
        bindE (net_pop env j s) (\<lambda>(n, el, s).
        if n = 0 then if i = 0 then ret (Some (-1), i, mhdr, s) else fail (ExitFailure ''virtio-net unexpected empty queue'')
        else if el_in_sg el = [] then fail (ExitFailure ''virtio-net receive queue contains no in buffers'')
        else
          let sg = el_in_sg el; net = vx_net s in
          bindE (if i = 0 then receive_first env sg buf sz s else ret (mhdr, buf, s)) (\<lambda>(mhdr, buf, s).
          let offset = (if i = 0 then xn_host_hdr_len net else offset); guest_offset = (if i = 0 then xn_guest_hdr_len net else 0) in
          bindE (ensure (offset \<le> sz) Overrun) (\<lambda>_.
          bindE (bytes_at buf (int offset) (int (sz - offset))) (\<lambda>bs.
          bindE (write_iov env sg guest_offset bs s) (\<lambda>(len, s).
          let total = guest_offset + len; offset = offset + len in
          if xn_mergeable_rx_bufs net = 0 \<and> offset < sz then ret (Some (int sz), i, mhdr, s)
          else bindE (net_fill j el (of_nat total) (of_nat i) s) (\<lambda>s. receive_loop env j buf sz offset (Suc i) mhdr s)))))))"

definition virtio_net_receive :: "nenv \<Rightarrow> nat \<Rightarrow> u8 list \<Rightarrow> nat \<Rightarrow> vnet \<Rightarrow> (int \<times> vnet) exec" where
  "virtio_net_receive env i buf sz s =
     bindE (virtio_net_can_receive i s) (\<lambda>ok.
     if \<not> ok then ret (-1, s)
     else bindE (get_netq i s) (\<lambda>q. bindE (the_vq (xq_rx_vq q)) (\<lambda>j.
     let n = vx_net s in
     bindE (virtio_net_has_buffers j (of_nat sz + of_nat (xn_guest_hdr_len n) - of_nat (xn_host_hdr_len n)) s) (\<lambda>(ok, s).
     if \<not> ok then ret (0, s)
     else bindE (receive_filter (vx_net s) buf) (\<lambda>ok.
     if \<not> ok then ret (int sz, s)
     else bindE (receive_loop env j buf sz 0 0 [] s) (\<lambda>(r, cnt, mhdr, s).
     case r of
       Some v \<Rightarrow> ret (v, s)
     | None \<Rightarrow>
         bindE (if mhdr = [] then ret (0, s) else write_iov env mhdr 0 (le_bytes 2 (of_nat cnt :: u16)) s) (\<lambda>(_, s).
         bindE (net_flush j (of_nat cnt) s) (\<lambda>s.
         bindE (virtio_notify (ne_bus env) (int j) s) (\<lambda>s. ret (int sz, s)))))))))) "

section \<open>Transmitting\<close>

text \<open>The vector that is sent: the header of the guest is cut to the part that the host wants.\<close>

definition tx_vector :: "VirtIONet \<Rightarrow> iovec list \<Rightarrow> iovec list exec" where
  "tx_vector n sg =
     bindE (ensure (xn_host_hdr_len n \<le> xn_guest_hdr_len n) AssertFail) (\<lambda>_.
     if xn_host_hdr_len n = xn_guest_hdr_len n then ret sg
     else bindE (iov_copy VIRTQUEUE_MAX_SIZE sg 0 (xn_host_hdr_len n)) (\<lambda>h.
          bindE (iov_copy (VIRTQUEUE_MAX_SIZE - length h) sg (xn_guest_hdr_len n) (2 ^ 64 - 1)) (\<lambda>d. ret (h @ d))))"

partial_function (option) flush_tx_loop :: "nenv \<Rightarrow> nat \<Rightarrow> nat \<Rightarrow> nat \<Rightarrow> vnet \<Rightarrow> (int \<times> vnet) exec" where
  "flush_tx_loop env i j num_packets s =
     bindE (net_pop env j s) (\<lambda>(n, el, s).
     if n = 0 then ret (int num_packets, s)
     else
       bindE (ensure (el_out_sg el \<noteq> []) (ExitFailure ''virtio-net header not in first element'')) (\<lambda>_.
       bindE (tx_vector (vx_net s) (el_out_sg el)) (\<lambda>sg.
       bindE (ne_sendv env (vq2q j) sg s) (\<lambda>(r, s).
       if r = 0
       then bindE (net_set_notification j False s) (\<lambda>s.
            bindE (upd_netq i (\<lambda>q. q\<lparr>xq_async_elem := el, xq_async_len := xn_guest_hdr_len (vx_net s)\<rparr>) s) (\<lambda>s. ret (- EBUSY, s)))
       else
         bindE (net_push j el 0 s) (\<lambda>s.
         bindE (virtio_notify (ne_bus env) (int j) s) (\<lambda>s.
         if int num_packets + 1 \<ge> xn_tx_burst (vx_net s) then ret (int num_packets + 1, s)
         else flush_tx_loop env i j (Suc num_packets) s))))))"

definition virtio_net_flush_tx :: "nenv \<Rightarrow> nat \<Rightarrow> vnet \<Rightarrow> (int \<times> vnet) exec" where
  "virtio_net_flush_tx env i s =
     bindE (get_netq i s) (\<lambda>q. bindE (the_vq (xq_tx_vq q)) (\<lambda>j.
     if \<not> bit (vd_status (vi_dev s)) VIRTIO_CONFIG_S_DRIVER_OK then ret (0, s)
     else bindE (ensure (vd_vm_running (vi_dev s)) AssertFail) (\<lambda>_.
     if el_out_sg (xq_async_elem q) \<noteq> [] then bindE (net_set_notification j False s) (\<lambda>s. ret (0, s))
     else flush_tx_loop env i j 0 s)))"

definition virtio_net_tx_complete :: "nenv \<Rightarrow> nat \<Rightarrow> vnet \<Rightarrow> vnet exec" where
  "virtio_net_tx_complete env i s =
     bindE (get_netq i s) (\<lambda>q. bindE (the_vq (xq_tx_vq q)) (\<lambda>j.
     bindE (net_push j (xq_async_elem q) 0 s) (\<lambda>s.
     bindE (virtio_notify (ne_bus env) (int j) s) (\<lambda>s.
     bindE (upd_netq i (\<lambda>q. q\<lparr>xq_async_elem := (xq_async_elem q)\<lparr>el_out_addr := [], el_out_sg := []\<rparr>, xq_async_len := 0\<rparr>) s) (\<lambda>s.
     bindE (net_set_notification j True s) (\<lambda>s.
     bindE (virtio_net_flush_tx env i s) (\<lambda>(_, s). ret s)))))))"

definition set_waiting :: "nat \<Rightarrow> u32 \<Rightarrow> vnet \<Rightarrow> vnet exec" where
  "set_waiting i w = upd_netq i (\<lambda>q. q\<lparr>xq_tx_waiting := w\<rparr>)"

definition virtio_net_handle_tx_timer :: "nenv \<Rightarrow> nat \<Rightarrow> vnet \<Rightarrow> vnet exec" where
  "virtio_net_handle_tx_timer env j s =
     (let i = vq2q j in
      bindE (get_netq i s) (\<lambda>q.
      if \<not> vd_vm_running (vi_dev s) then set_waiting i 1 s
      else if xq_tx_waiting q \<noteq> 0
      then bindE (net_set_notification j True s) (\<lambda>s.
           bindE (set_waiting i 0 (log_net [QTxTimer i None] s)) (\<lambda>s.
           bindE (virtio_net_flush_tx env i s) (\<lambda>(_, s). ret s)))
      else bindE (set_waiting i 1 (log_net [QTxTimer i (Some (qe_clock (ne_env env) (vi_io s) + int (unat (xn_tx_timeout (vx_net s)))))] s))
             (net_set_notification j False)))"

definition virtio_net_handle_tx_bh :: "nenv \<Rightarrow> nat \<Rightarrow> vnet \<Rightarrow> vnet exec" where
  "virtio_net_handle_tx_bh env j s =
     (let i = vq2q j in
      bindE (get_netq i s) (\<lambda>q.
      if xq_tx_waiting q \<noteq> 0 then ret s
      else bindE (set_waiting i 1 s) (\<lambda>s.
      if \<not> vd_vm_running (vi_dev s) then ret s
      else bindE (net_set_notification j False s) (\<lambda>s. ret (log_net [QBh i True] s)))))"

definition virtio_net_tx_timer :: "nenv \<Rightarrow> nat \<Rightarrow> vnet \<Rightarrow> vnet exec" where
  "virtio_net_tx_timer env i s =
     bindE (ensure (vd_vm_running (vi_dev s)) AssertFail) (\<lambda>_.
     bindE (set_waiting i 0 s) (\<lambda>s.
     if \<not> bit (vd_status (vi_dev s)) VIRTIO_CONFIG_S_DRIVER_OK then ret s
     else bindE (get_netq i s) (\<lambda>q. bindE (the_vq (xq_tx_vq q)) (\<lambda>j.
          bindE (net_set_notification j True s) (\<lambda>s.
          bindE (virtio_net_flush_tx env i s) (\<lambda>(_, s). ret s))))))"

definition virtio_net_tx_bh :: "nenv \<Rightarrow> nat \<Rightarrow> vnet \<Rightarrow> vnet exec" where
  "virtio_net_tx_bh env i s =
     bindE (ensure (vd_vm_running (vi_dev s)) AssertFail) (\<lambda>_.
     bindE (set_waiting i 0 s) (\<lambda>s.
     if \<not> bit (vd_status (vi_dev s)) VIRTIO_CONFIG_S_DRIVER_OK then ret s
     else bindE (virtio_net_flush_tx env i s) (\<lambda>(r, s).
     if r = - EBUSY then ret s
     else if r \<ge> xn_tx_burst (vx_net s) then set_waiting i 1 (log_net [QBh i True] s)
     else bindE (get_netq i s) (\<lambda>q. bindE (the_vq (xq_tx_vq q)) (\<lambda>j.
          bindE (net_set_notification j True s) (\<lambda>s.
          bindE (virtio_net_flush_tx env i s) (\<lambda>(r, s).
          if r > 0 then bindE (net_set_notification j False s) (\<lambda>s. set_waiting i 1 (log_net [QBh i True] s)) else ret s)))))))"

text \<open>The handlers of the queues.\<close>

definition net_handle_output :: "nenv \<Rightarrow> nat \<Rightarrow> nat \<Rightarrow> vnet \<Rightarrow> vnet exec" where
  "net_handle_output env h j s =
     (if h = HANDLE_RX then virtio_net_handle_rx env j s
      else if h = HANDLE_TX_TIMER then virtio_net_handle_tx_timer env j s
      else if h = HANDLE_TX_BH then virtio_net_handle_tx_bh env j s
      else virtio_net_handle_ctrl env j s)"

definition virtio_net_class :: "nenv \<Rightarrow> unit vnet_ext VirtioDeviceClass" where
  "virtio_net_class env =
     \<lparr>dc_set_status = Some (virtio_net_set_status env), dc_reset = Some virtio_net_reset, dc_get_config = virtio_net_get_config,
      dc_set_config = Some virtio_net_set_config, dc_set_features = Some (virtio_net_set_features env),
      dc_handle_output = net_handle_output env\<rparr>"

end
