(* ===== verification/NetSave.thy ===== *)
theory NetSave
  imports NetPath
begin

text \<open>
  Creation, removal and migration of the network card, from \<^verbatim>\<open>src/qemu_vhost_user/hw/net/virtio-net.c\<close>.
\<close>

section \<open>Creation and removal\<close>

text \<open>\<open>idx\<close> is the static counter of the addresses that were made up before.\<close>

definition qemu_macaddr_default_if_unset :: "u8 \<Rightarrow> u8 list \<Rightarrow> u8 list" where
  "qemu_macaddr_default_if_unset idx mac =
     (if mac \<noteq> replicate 6 0 then mac else [0x52, 0x54, 0x00, 0x12, 0x34, 0x56 + idx])"

definition virtio_net_instance_init :: "VirtIONet \<Rightarrow> VirtIONet" where
  "virtio_net_instance_init n = n\<lparr>xn_config_size := 10\<rparr>"

definition zero_netq :: VirtIONetQueue where
  "zero_netq =
     \<lparr>xq_rx_vq = None, xq_tx_vq = None, xq_tx_timer = False, xq_tx_bh = False, xq_tx_waiting = 0, xq_async_elem = no_elem, xq_async_len = 0\<rparr>"

fun using_hdr_queues :: "nat \<Rightarrow> nat \<Rightarrow> vnet \<Rightarrow> vnet exec" where
  "using_hdr_queues 0 i s = ret s"
| "using_hdr_queues (Suc k) i s = bindE (tap_using_vnet_hdr i True s) (using_hdr_queues k (Suc i))"

definition realize_queues :: "vnet \<Rightarrow> vnet exec" where
  "realize_queues s =
     bindE (add_net_queue 256 HANDLE_RX s) (\<lambda>(rx, s).
     let timer = (xn_conf_tx (vx_net s) = Some ''timer'') in
     bindE (add_net_queue 256 (if timer then HANDLE_TX_TIMER else HANDLE_TX_BH) s) (\<lambda>(tx, s).
     bindE (upd_netq 0 (\<lambda>q. q\<lparr>xq_rx_vq := Some rx, xq_tx_vq := Some tx, xq_tx_timer := timer, xq_tx_bh := \<not> timer\<rparr>) s) (\<lambda>s.
     bindE (add_net_queue 64 HANDLE_CTRL s) (\<lambda>(c, s). ret (upd_net (\<lambda>n. n\<lparr>xn_ctrl_vq := Some c\<rparr>) s)))))"

definition realize_header :: "vnet \<Rightarrow> vnet exec" where
  "realize_header s =
     bindE (peer_test_vnet_hdr s) (\<lambda>s.
     if xn_has_vnet_hdr (vx_net s)
     then bindE (using_hdr_queues (unat (xn_max_queues (vx_net s))) 0 s) (\<lambda>s. ret (upd_net (\<lambda>n. n\<lparr>xn_host_hdr_len := NET_HDR_LEN\<rparr>) s))
     else ret (upd_net (\<lambda>n. n\<lparr>xn_host_hdr_len := 0\<rparr>) s))"

text \<open>\<open>peers\<close> are the back ends of the clients, in the order of the configuration; the storage of a new card is
  cleared.\<close>

definition virtio_net_device_realize :: "nenv \<Rightarrow> bool \<Rightarrow> u8 \<Rightarrow> (nat \<Rightarrow> net_peer option) \<Rightarrow> vnet \<Rightarrow> vnet exec" where
  "virtio_net_device_realize env running idx peers s =
     (let n = vx_net s; max_queues = word_of_int (max (xn_conf_queues n) 1) :: u16;
          mac = qemu_macaddr_default_if_unset idx (xn_conf_macaddr n);
          s = s\<lparr>vi_dev := virtio_init running ''virtio-net'' VIRTIO_ID_NET (of_nat (xn_config_size n)) (vi_dev s)\<rparr>;
          s = upd_net (\<lambda>n. n\<lparr>xn_max_queues := max_queues, xn_vqs := replicate (unat max_queues) zero_netq, xn_curr_queues := 1,
                             xn_tx_timeout := xn_conf_txtimer n\<rparr>) s in
      bindE (realize_queues s) (\<lambda>s.
      let s = upd_net (\<lambda>n. n\<lparr>xn_conf_macaddr := mac, xn_mac := mac, xn_status := VIRTIO_NET_S_LINK_UP\<rparr>) s;
          s = s\<lparr>vx_ncs := map (\<lambda>i. \<lparr>sq_link_down = False, sq_rxfilter_notify_enabled = False, sq_peer = peers i\<rparr>) [0 ..< nat (max 1 (xn_conf_queues n))]\<rparr> in
      bindE (realize_header s) (\<lambda>s.
      bindE (set_waiting 0 0 s) (\<lambda>s.
      bindE (virtio_net_set_mrg_rx_bufs env 0 (upd_net (\<lambda>n. n\<lparr>xn_tx_burst := xn_conf_txburst n\<rparr>) s)) (\<lambda>s.
      let s = upd_net (\<lambda>n. n\<lparr>xn_promisc := 1, xn_mac_table := (xn_mac_table n)\<lparr>mt_macs := replicate (MAC_TABLE_ENTRIES * ETH_ALEN) 0\<rparr>,
                             xn_vlans := replicate (MAX_VLAN div 32) 0\<rparr>) s in
      bindE (qemu_get_queue s) (\<lambda>nc. ret (put_client 0 (nc\<lparr>sq_rxfilter_notify_enabled := True\<rparr>) s)))))))"

fun release_queues :: "nenv \<Rightarrow> nat \<Rightarrow> nat \<Rightarrow> vnet \<Rightarrow> vnet exec" where
  "release_queues env 0 i s = ret s"
| "release_queues env (Suc k) i s =
     bindE (get_netq i s) (\<lambda>q.
     bindE (qemu_get_subqueue i s) (\<lambda>_.
     let s = ne_purge env i s in
       release_queues env k (Suc i) (if xq_tx_timer q then log_net [QTxTimer i None] s else if xq_tx_bh q then log_net [QBh i False] s else s)))"

definition virtio_net_device_unrealize :: "nenv \<Rightarrow> vnet \<Rightarrow> vnet exec" where
  "virtio_net_device_unrealize env s =
     bindE (virtio_net_set_status env 0 s) (\<lambda>s.
     let s = upd_net (\<lambda>n. n\<lparr>xn_netclient_name := None, xn_netclient_type := None, xn_mac_table := (xn_mac_table n)\<lparr>mt_macs := []\<rparr>, xn_vlans := []\<rparr>) s in
     bindE (release_queues env (unat (xn_max_queues (vx_net s))) 0 s) (\<lambda>s.
       ret ((upd_net (\<lambda>n. n\<lparr>xn_vqs := []\<rparr>) s)\<lparr>vx_ncs := [], vi_dev := (vi_dev s)\<lparr>vd_config := [], vd_vq := []\<rparr>\<rparr>)))"

section \<open>Saving\<close>

definition EINVAL :: int where
  "EINVAL = 22"

definition VIRTIO_NET_VM_VERSION :: int where
  "VIRTIO_NET_VM_VERSION = 11"

definition waiting_words :: "VirtIONetQueue list \<Rightarrow> u8 list" where
  "waiting_words qs = concat (map (\<lambda>q. put_be 4 (xq_tx_waiting q)) qs)"

definition flag_byte :: "bool \<Rightarrow> u8" where
  "flag_byte b = (if b then 1 else 0)"

text \<open>The parts of the stream: the addresses and modes, the filter, and the queues.\<close>

definition save_modes :: "VirtIONet \<Rightarrow> u8 list" where
  "save_modes n =
     xn_mac n @ waiting_words (take 1 (xn_vqs n)) @ put_be 4 (xn_mergeable_rx_bufs n) @ put_be 2 (xn_status n) @ [xn_promisc n, xn_allmulti n]"

definition save_filter :: "VirtIONet \<Rightarrow> u8 list \<Rightarrow> u8 list" where
  "save_filter n macs =
     put_be 4 (word_of_int (mt_in_use (xn_mac_table n)) :: u32) @ macs @ concat (map (le_bytes 4) (xn_vlans n)) @
     put_be 4 (ucast (flag_byte (xn_has_vnet_hdr n)) :: u32) @
     [mt_multi_overflow (xn_mac_table n), mt_uni_overflow (xn_mac_table n), xn_alluni n, xn_nomulti n, xn_nouni n, xn_nobcast n,
      flag_byte (xn_has_ufo n)]"

definition save_pairs :: "VirtIONet \<Rightarrow> u8 list exec" where
  "save_pairs n =
     (if xn_max_queues n \<le> 1 then ret []
      else if unat (xn_curr_queues n) > length (xn_vqs n) then fail (BadIndex (int (length (xn_vqs n))))
      else ret (put_be 2 (xn_max_queues n) @ put_be 2 (xn_curr_queues n) @ waiting_words (drop 1 (take (unat (xn_curr_queues n)) (xn_vqs n)))))"

definition virtio_net_save :: "nenv \<Rightarrow> vnet \<Rightarrow> u8 list exec" where
  "virtio_net_save env s =
     (let n = vx_net s; t = xn_mac_table n in
      bindE (ensure (\<not> xn_vhost_started n) AssertFail) (\<lambda>_.
      bindE (get_netq 0 s) (\<lambda>_.
      bindE (bytes_at (mt_macs t) 0 (mt_in_use t * int ETH_ALEN)) (\<lambda>macs.
      bindE (save_pairs n) (\<lambda>pairs.
        ret (virtio_save (ne_bus env) (vi_dev s) @ save_modes n @ save_filter n macs @ pairs @
             (if bit (vd_guest_features (vi_dev s)) VIRTIO_NET_F_CTRL_GUEST_OFFLOADS then put_be 8 (xn_curr_guest_offloads n) else [])))))))"

section \<open>Loading\<close>

text \<open>A step of loading takes the state and the stream.\<close>

definition load_modes :: "nenv \<Rightarrow> int \<Rightarrow> vnet \<times> u8 list \<Rightarrow> (vnet \<times> u8 list) exec" where
  "load_modes env ver = (\<lambda>(s, f).
     bindE (qemu_get_buffer (xn_mac (vx_net s)) (int ETH_ALEN) f) (\<lambda>(mac, f).
     let (w, f) = get_be 4 f; (mrg, f) = get_be 4 f in
     bindE (set_waiting 0 w (upd_net (\<lambda>n. n\<lparr>xn_mac := mac\<rparr>) s)) (\<lambda>s.
     bindE (virtio_net_set_mrg_rx_bufs env mrg s) (\<lambda>s.
     let (status, f) = (if ver \<ge> 3 then get_be 2 f else (xn_status (vx_net s), f));
         (promisc, f) = (if ver < 4 then (xn_promisc (vx_net s), f)
                         else if ver < 8 then (let (w, f) = get_be 4 f in (ucast (w :: u32), f)) else get_be 1 f);
         (allmulti, f) = (if ver < 4 then (xn_allmulti (vx_net s), f)
                          else if ver < 8 then (let (w, f) = get_be 4 f in (ucast (w :: u32), f)) else get_be 1 f) in
       ret (upd_net (\<lambda>n. n\<lparr>xn_status := status, xn_promisc := promisc, xn_allmulti := allmulti\<rparr>) s, f)))))"

definition load_macs :: "int \<Rightarrow> VirtIONet \<times> u8 list \<Rightarrow> (VirtIONet \<times> u8 list) exec" where
  "load_macs ver = (\<lambda>(n, f).
     if ver < 5 then ret (n, f)
     else let (w, f) = get_be 4 f; in_use = int_of_u32 w; len = int_of_u32 (w * of_nat ETH_ALEN); t = xn_mac_table n in
       if in_use \<le> int MAC_TABLE_ENTRIES
       then bindE (qemu_get_buffer (mt_macs t) len f) (\<lambda>(macs, f).
              ret (n\<lparr>xn_mac_table := t\<lparr>mt_in_use := in_use, mt_macs := macs\<rparr>\<rparr>, f))
       else bindE (qemu_get_buffer (replicate (nat in_use) 0) len f) (\<lambda>(_, f).
              ret (n\<lparr>xn_mac_table := t\<lparr>mt_in_use := 0, mt_multi_overflow := 1, mt_uni_overflow := 1\<rparr>\<rparr>, f)))"

fun words_of :: "u8 list \<Rightarrow> u32 list" where
  "words_of (a # b # c # d # bs) = of_le [a, b, c, d] # words_of bs"
| "words_of bs = []"

definition load_vlans :: "int \<Rightarrow> VirtIONet \<times> u8 list \<Rightarrow> (VirtIONet \<times> u8 list) exec" where
  "load_vlans ver = (\<lambda>(n, f).
     if ver < 6 then ret (n, f)
     else bindE (qemu_get_buffer (concat (map (le_bytes 4) (xn_vlans n))) (int (MAX_VLAN div 8)) f) (\<lambda>(bs, f).
       ret (n\<lparr>xn_vlans := words_of bs\<rparr>, f)))"

text \<open>The flags that follow, and the two requirements on the back end: the first result is false if one is not met.\<close>

definition load_flags :: "int \<Rightarrow> vnet \<times> u8 list \<Rightarrow> (bool \<times> vnet \<times> u8 list) exec" where
  "load_flags ver = (\<lambda>(s, f).
     let (need_hdr, f) = (if ver \<ge> 7 then get_be 4 f else (0 :: u32, f)) in
     if need_hdr \<noteq> 0 \<and> \<not> xn_has_vnet_hdr (vx_net s) then ret (False, s, f)
     else
       let t = xn_mac_table (vx_net s);
           (mo, f) = (if ver \<ge> 9 then get_be 1 f else (mt_multi_overflow t, f));
           (uo, f) = (if ver \<ge> 9 then get_be 1 f else (mt_uni_overflow t, f));
           n = vx_net s;
           (alluni, f) = (if ver \<ge> 10 then get_be 1 f else (xn_alluni n, f));
           (nomulti, f) = (if ver \<ge> 10 then get_be 1 f else (xn_nomulti n, f));
           (nouni, f) = (if ver \<ge> 10 then get_be 1 f else (xn_nouni n, f));
           (nobcast, f) = (if ver \<ge> 10 then get_be 1 f else (xn_nobcast n, f));
           s = upd_net (\<lambda>n. n\<lparr>xn_mac_table := t\<lparr>mt_multi_overflow := mo, mt_uni_overflow := uo\<rparr>, xn_alluni := alluni,
                              xn_nomulti := nomulti, xn_nouni := nouni, xn_nobcast := nobcast\<rparr>) s;
           (need_ufo, f) = (if ver \<ge> 11 then get_be 1 f else (0 :: u8, f)) in
       if need_ufo = 0 then ret (True, s, f) else bindE (peer_has_ufo s) (\<lambda>(ufo, s). ret (ufo, s, f)))"

fun load_waiting :: "nat \<Rightarrow> nat \<Rightarrow> vnet \<times> u8 list \<Rightarrow> (vnet \<times> u8 list) exec" where
  "load_waiting 0 i sf = ret sf"
| "load_waiting (Suc k) i sf =
     (let (w, f) = get_be 4 (snd sf) in bindE (set_waiting i w (fst sf)) (\<lambda>s. load_waiting k (Suc i) (s, f)))"

definition load_pairs :: "vnet \<times> u8 list \<Rightarrow> (bool \<times> vnet \<times> u8 list) exec" where
  "load_pairs = (\<lambda>(s, f).
     if xn_max_queues (vx_net s) \<le> 1 then ret (True, s, f)
     else let (mx, f) = get_be 2 f in
       if xn_max_queues (vx_net s) \<noteq> mx then ret (False, s, f)
       else let (curr, f) = get_be 2 f; s = upd_net (\<lambda>n. n\<lparr>xn_curr_queues := curr\<rparr>) s in
         bindE (load_waiting (unat curr - 1) 1 (s, f)) (\<lambda>(s, f). ret (True, s, f)))"

definition load_offloads :: "vnet \<times> u8 list \<Rightarrow> (vnet \<times> u8 list) exec" where
  "load_offloads = (\<lambda>(s, f).
     let (ol, f) = (if bit (vd_guest_features (vi_dev s)) VIRTIO_NET_F_CTRL_GUEST_OFFLOADS then get_be 8 f
                    else (virtio_net_supported_guest_offloads s, f));
         s = upd_net (\<lambda>n. n\<lparr>xn_curr_guest_offloads := ol\<rparr>) s in
     bindE (if xn_has_vnet_hdr (vx_net s) then virtio_net_apply_guest_offloads s else ret s) (\<lambda>s. ret (s, f)))"

text \<open>The first multicast address of the table, searched for among the next \<open>k\<close> entries from \<open>i\<close>.\<close>

fun first_multi :: "mac_table \<Rightarrow> nat \<Rightarrow> int \<Rightarrow> int exec" where
  "first_multi t 0 i = ret i"
| "first_multi t (Suc k) i =
     bindE (byte_at (mt_macs t) (i * int ETH_ALEN)) (\<lambda>b. if bit b 0 then ret i else first_multi t k (i + 1))"

definition finish_load :: "vnet \<Rightarrow> vnet exec" where
  "finish_load s =
     (let t = xn_mac_table (vx_net s) in
      bindE (first_multi t (nat (mt_in_use t)) 0) (\<lambda>i.
      let s = upd_net (\<lambda>n. n\<lparr>xn_mac_table := t\<lparr>mt_first_multi := i\<rparr>\<rparr>) s; k = unat (xn_max_queues (vx_net s));
          down = (xn_status (vx_net s) AND VIRTIO_NET_S_LINK_UP = 0) in
      if k > length (vx_ncs s) then fail (BadIndex (int (length (vx_ncs s))))
      else ret (s\<lparr>vx_ncs := map (\<lambda>c. c\<lparr>sq_link_down := down\<rparr>) (take k (vx_ncs s)) @ drop k (vx_ncs s)\<rparr>)))"

definition virtio_net_load :: "nenv \<Rightarrow> int \<Rightarrow> u8 list \<Rightarrow> vnet \<Rightarrow> (int \<times> vnet) exec" where
  "virtio_net_load env ver f s =
     (if ver < 2 \<or> ver > VIRTIO_NET_VM_VERSION then ret (- EINVAL, s)
      else bindE (virtio_load (ne_bus env) (virtio_net_class env) f s) (\<lambda>(r, s, f).
      if r \<noteq> 0 then ret (r, s)
      else bindE (load_modes env ver (s, f)) (\<lambda>(s, f).
           bindE (load_macs ver (vx_net s, f)) (\<lambda>(n, f).
           bindE (load_vlans ver (n, f)) (\<lambda>(n, f).
           bindE (load_flags ver (upd_net (\<lambda>_. n) s, f)) (\<lambda>(ok, s, f).
           if \<not> ok then ret (-1, s)
           else bindE (load_pairs (s, f)) (\<lambda>(ok, s, f).
           if \<not> ok then ret (-1, s)
           else bindE (load_offloads (s, f)) (\<lambda>(s, f).
                bindE (virtio_net_set_queues env s) (\<lambda>s.
                bindE (finish_load s) (\<lambda>s. ret (0, s)))))))))))"

end
