(* ===== verification/NetSample.thy ===== *)
theory NetSample
  imports NetSave QemuSample
begin

text \<open>
  A small network card, on which the properties of the card are evaluated: one pair of queues, a vhost-user client as
  its back end, and the buffers of the guest in a memory that is given.
\<close>

definition sample_net_bus :: "unit vnet_ext VirtioBusClass" where
  "sample_net_bus =
     \<lparr>bc_notify = True, bc_save_config = Some [1, 2], bc_save_queue = None, bc_load_config = Some (\<lambda>f. (0, drop 2 f)),
      bc_load_queue = None, bc_get_features = 0x21000000, bc_query_guest_notifiers = True, bc_set_guest_notifiers = True,
      bc_set_host_notifier = True, bc_vmstate_change = None, bc_has_variable_vring_alignment = False\<rparr>"

text \<open>Every packet is taken by the back end.\<close>

definition sample_net_env :: nenv where
  "sample_net_env =
     \<lparr>ne_env = sample_env, ne_bus = sample_net_bus, ne_probe_vnet_hdr_len = (\<lambda>_. False), ne_tap_enable = (\<lambda>_. 0),
      ne_gpa = Some, ne_hva = Some, ne_sendv = (\<lambda>i iov s. ret (1, s)), ne_flush = (\<lambda>i s. ret s), ne_purge = (\<lambda>i s. s)\<rparr>"

definition sample_nic :: VirtIONet where
  "sample_nic =
     \<lparr>xn_mac = [0x52, 0x54, 0, 0x12, 0x34, 0x56], xn_status = 1, xn_vqs = [zero_netq\<lparr>xq_rx_vq := Some 0, xq_tx_vq := Some 1, xq_tx_bh := True\<rparr>],
      xn_ctrl_vq = Some 2, xn_tx_timeout = 150000, xn_tx_burst = 256, xn_has_vnet_hdr = False, xn_host_hdr_len = 0, xn_guest_hdr_len = 10,
      xn_has_ufo = False, xn_mergeable_rx_bufs = 0, xn_promisc = 0, xn_allmulti = 0, xn_alluni = 0, xn_nomulti = 0, xn_nouni = 0,
      xn_nobcast = 0, xn_vhost_started = False,
      xn_mac_table = \<lparr>mt_in_use = 0, mt_first_multi = 0, mt_multi_overflow = 0, mt_uni_overflow = 0, mt_macs = replicate 384 0\<rparr>,
      xn_vlans = replicate 128 0, xn_conf_txtimer = 150000, xn_conf_txburst = 256, xn_conf_tx = None,
      xn_conf_macaddr = [0x52, 0x54, 0, 0x12, 0x34, 0x56], xn_conf_queues = 1, xn_multiqueue = False, xn_max_queues = 1, xn_curr_queues = 1,
      xn_config_size = 8, xn_netclient_name = None, xn_netclient_type = None, xn_curr_guest_offloads = 0\<rparr>"

definition sample_card :: "mem \<Rightarrow> vnet" where
  "sample_card m =
     \<lparr>vi_dev = sample_vdev, vi_phys = \<lparr>ph_ram = m, ph_mmio = (\<lambda>_ _. 0)\<rparr>, vi_io = [], vx_net = sample_nic,
      vx_ncs = [\<lparr>sq_link_down = False, sq_rxfilter_notify_enabled = True, sq_peer = Some (UserPeer sample_lost)\<rparr>],
      vx_ram = sample_ram, vx_view = [sample_section], vx_global_dirty_log = False\<rparr>"

text \<open>A buffer at the start of memory.\<close>

definition buffer_mem :: "u8 list \<Rightarrow> mem" where
  "buffer_mem bs a = (if unat a < length bs then Some (bs ! unat a) else None)"

definition buffer_iov :: "u8 list \<Rightarrow> iovec list" where
  "buffer_iov bs = [\<lparr>iov_base = 0, iov_len = of_nat (length bs)\<rparr>]"

lemma sample_nic_simps [simp]:
  "xn_host_hdr_len sample_nic = 0" "xn_guest_hdr_len sample_nic = 10" "xn_promisc sample_nic = 0" "xn_mac sample_nic = [0x52, 0x54, 0, 0x12, 0x34, 0x56]"
  "xn_nouni sample_nic = 0" "xn_alluni sample_nic = 0" "xn_nobcast sample_nic = 0" "xn_nomulti sample_nic = 0" "xn_vlans sample_nic = replicate 128 0"
  "xn_mac_table sample_nic = \<lparr>mt_in_use = 0, mt_first_multi = 0, mt_multi_overflow = 0, mt_uni_overflow = 0, mt_macs = replicate 384 0\<rparr>"
  by (simp_all add: sample_nic_def)

lemma sample_card_host [simp]: "host_of sample_net_env (sample_card m) = m"
  by (simp add: host_of_def host_mem_def sample_net_env_def sample_card_def)

lemma buffer_addrs:
  assumes "length bs < 2 ^ 64"
  shows "addrs_of (buffer_iov bs) = map of_nat [0 ..< length bs]"
  using assms by (simp add: buffer_iov_def span_of_def unat_of_nat_small)

lemma buffer_bytes:
  assumes "length bs < 2 ^ 64"
  shows "map (\<lambda>a. the (buffer_mem bs a)) (addrs_of (buffer_iov bs)) = bs" "set (addrs_of (buffer_iov bs)) \<subseteq> dom (buffer_mem bs)"
proof -
  have "i < length bs \<Longrightarrow> unat (of_nat i :: u64) = i" for i using assms by (intro unat_of_nat_small) simp
  then show "map (\<lambda>a. the (buffer_mem bs a)) (addrs_of (buffer_iov bs)) = bs" "set (addrs_of (buffer_iov bs)) \<subseteq> dom (buffer_mem bs)"
    unfolding buffer_addrs [OF assms] by (auto simp: buffer_mem_def intro: nth_equalityI)
qed

end
