(* ===== verification/NetCtrlSpec.thy ===== *)
theory NetCtrlSpec
  imports NetSample
begin

text \<open>
  The receive filter of the network card and the commands that change it.  The filter is related to sets of addresses
  and of VLANs; the commands are shown to change these sets as they should, and, whatever the guest sends, to keep the
  card well-formed, as long as the command is shorter than four gigabytes.
\<close>

section \<open>Specification\<close>

definition net_ok :: "VirtIONet \<Rightarrow> bool" where
  "net_ok n \<longleftrightarrow>
     0 \<le> mt_first_multi (xn_mac_table n) \<and> mt_first_multi (xn_mac_table n) \<le> mt_in_use (xn_mac_table n) \<and>
     mt_in_use (xn_mac_table n) \<le> int MAC_TABLE_ENTRIES \<and> length (mt_macs (xn_mac_table n)) = MAC_TABLE_ENTRIES * ETH_ALEN \<and>
     length (xn_vlans n) = MAX_VLAN div 32 \<and> length (xn_mac n) = ETH_ALEN"

definition card_ok :: "vnet \<Rightarrow> bool" where
  "card_ok s \<longleftrightarrow>
     net_ok (vx_net s) \<and> vx_ncs s \<noteq> [] \<and> (xn_has_vnet_hdr (vx_net s) \<longrightarrow> (\<exists>t. sq_peer (vx_ncs s ! 0) = Some (TapPeer t)))"

text \<open>The addresses of the table.\<close>

definition mac_entry :: "mac_table \<Rightarrow> nat \<Rightarrow> u8 list" where
  "mac_entry t i = peek (i * ETH_ALEN) ETH_ALEN (mt_macs t)"

definition uni_macs :: "mac_table \<Rightarrow> u8 list list" where
  "uni_macs t = map (mac_entry t) [0 ..< nat (mt_first_multi t)]"

definition multi_macs :: "mac_table \<Rightarrow> u8 list list" where
  "multi_macs t = map (mac_entry t) [nat (mt_first_multi t) ..< nat (mt_in_use t)]"

definition vlan_set :: "VirtIONet \<Rightarrow> nat set" where
  "vlan_set n = {vid. vid < MAX_VLAN \<and> bit (xn_vlans n ! (vid div 32)) (vid mod 32)}"

text \<open>Which frames the guest wants.\<close>

definition frame_vlan :: "u8 list \<Rightarrow> nat option" where
  "frame_vlan fr = (if peek 12 2 fr = [0x81, 0x00] then Some ((unat (fr ! 14) * 256 + unat (fr ! 15)) mod 4096) else None)"

definition accepts :: "VirtIONet \<Rightarrow> u8 list \<Rightarrow> bool" where
  "accepts n fr \<longleftrightarrow>
     (let dst = take 6 fr; t = xn_mac_table n in
      xn_promisc n \<noteq> 0 \<or>
      (case frame_vlan fr of Some vid \<Rightarrow> vid \<in> vlan_set n | None \<Rightarrow> True) \<and>
      (if bit (hd fr) 0
       then if dst = replicate 6 0xff then xn_nobcast n = 0
            else xn_nomulti n = 0 \<and> (xn_allmulti n \<noteq> 0 \<or> mt_multi_overflow t \<noteq> 0 \<or> dst \<in> set (multi_macs t))
       else xn_nouni n = 0 \<and> (xn_alluni n \<noteq> 0 \<or> mt_uni_overflow t \<noteq> 0 \<or> dst = xn_mac n \<or> dst \<in> set (uni_macs t))))"

text \<open>The bytes of a vector, and the command that sets the table.\<close>

definition iov_bytes :: "mem \<Rightarrow> iovec list \<Rightarrow> u8 list" where
  "iov_bytes m iov = map (\<lambda>a. the (m a)) (addrs_of iov)"

definition readable :: "mem \<Rightarrow> iovec list \<Rightarrow> bool" where
  "readable m iov \<longleftrightarrow> set (addrs_of iov) \<subseteq> dom m"

definition mac_command :: "u8 list list \<Rightarrow> u8 list list \<Rightarrow> u8 list" where
  "mac_command us ms =
     le_bytes 4 (of_nat (length us) :: u32) @ concat us @ le_bytes 4 (of_nat (length ms) :: u32) @ concat ms"

text \<open>The frames that pass after the two lists were set: as before, with the lists of the command in place of the table.  A
  list that does not fit into the table lets every address of its kind pass.\<close>

definition uni_fits :: "u8 list list \<Rightarrow> bool" where
  "uni_fits us \<longleftrightarrow> length us \<le> MAC_TABLE_ENTRIES"

definition multi_fits :: "u8 list list \<Rightarrow> u8 list list \<Rightarrow> bool" where
  "multi_fits us ms \<longleftrightarrow> (if uni_fits us then length us else 0) + length ms \<le> MAC_TABLE_ENTRIES"

definition wants :: "u8 list list \<Rightarrow> u8 list list \<Rightarrow> VirtIONet \<Rightarrow> u8 list \<Rightarrow> bool" where
  "wants us ms n fr \<longleftrightarrow>
     xn_promisc n \<noteq> 0 \<or>
     (case frame_vlan fr of Some vid \<Rightarrow> vid \<in> vlan_set n | None \<Rightarrow> True) \<and>
     (if bit (hd fr) 0
      then if take 6 fr = replicate 6 0xff then xn_nobcast n = 0
           else xn_nomulti n = 0 \<and> (xn_allmulti n \<noteq> 0 \<or> \<not> multi_fits us ms \<or> take 6 fr \<in> set ms)
      else xn_nouni n = 0 \<and> (xn_alluni n \<noteq> 0 \<or> \<not> uni_fits us \<or> take 6 fr = xn_mac n \<or> take 6 fr \<in> set us))"

definition is_mac :: "u8 list \<Rightarrow> bool" where
  "is_mac m \<longleftrightarrow> length m = ETH_ALEN"

text \<open>A command ends with the card well-formed, and changes nothing unless it succeeds.\<close>

definition ended :: "vnet \<Rightarrow> (u8 \<times> vnet) exec \<Rightarrow> bool" where
  "ended s r \<longleftrightarrow> (\<exists>st s'. r = ret (st, s') \<and> card_ok s' \<and> (st = VIRTIO_NET_OK \<or> st = VIRTIO_NET_ERR \<and> s' = s))"

text \<open>The same for the two lists of a table.\<close>

definition vector_ended :: "vnet \<Rightarrow> (u8 \<times> iovec list \<times> vnet) exec \<Rightarrow> bool" where
  "vector_ended s r \<longleftrightarrow> (\<exists>st iov' s'. r = ret (st, iov', s') \<and> card_ok s' \<and> (st = VIRTIO_NET_OK \<or> st = VIRTIO_NET_ERR \<and> s' = s))"

section \<open>Lemmas\<close>

lemma mac_at_entry:
  assumes "net_ok n" "i < MAC_TABLE_ENTRIES"
  shows "mac_at (xn_mac_table n) (int i) = ret (mac_entry (xn_mac_table n) i)"
proof -
  have "nat (int i * int ETH_ALEN) = i * ETH_ALEN" "nat (int i * int ETH_ALEN + int ETH_ALEN) = i * ETH_ALEN + ETH_ALEN"
    by (simp_all add: nat_add_distrib nat_mult_distrib)
  moreover have "i * ETH_ALEN + ETH_ALEN \<le> MAC_TABLE_ENTRIES * ETH_ALEN"
    using assms(2) by (simp add: ETH_ALEN_def MAC_TABLE_ENTRIES_def)
  ultimately show ?thesis using assms(1) by (simp add: mac_at_def bytes_at_def mac_entry_def net_ok_def)
qed

lemma find_mac_spec:
  assumes "net_ok n" "i + k \<le> MAC_TABLE_ENTRIES"
  shows "find_mac (xn_mac_table n) mac k (int i) = ret (mac \<in> set (map (mac_entry (xn_mac_table n)) [i ..< i + k]))"
  using assms(2)
proof (induction k arbitrary: i)
  case (Suc k)
  have "find_mac (xn_mac_table n) mac k (int (Suc i)) = ret (mac \<in> set (map (mac_entry (xn_mac_table n)) [Suc i ..< Suc i + k]))"
    by (rule Suc.IH) (use Suc.prems in simp)
  then show ?case
    using mac_at_entry [OF assms(1), of i] Suc.prems by (auto simp: upt_conv_Cons add.commute simp del: upt_Suc)
qed simp

lemma unat_be16: "unat (of_le [b, a] :: u16) = unat a * 256 + unat b" for a b :: u8
proof -
  have "(ucast b :: u16) OR push_bit 8 (ucast a) = ucast b + push_bit 8 (ucast a)"
    by (rule disjunctive_add [symmetric]) (auto simp: bit_simps dest: bit_imp_le_length)
  moreover have "unat (ucast b + push_bit 8 (ucast a) :: u16) = unat b + unat a * 256"
    using unsigned_less [of a, where 'a = nat] unsigned_less [of b, where 'a = nat]
    by (simp add: push_bit_eq_mult unat_word_ariths unsigned_ucast_eq take_bit_nat_eq_self)
  ultimately show ?thesis by simp
qed

lemma tci_vid: "unat ((of_le (rev [a, b]) :: u16) AND 0xfff) = (unat a * 256 + unat b) mod 4096" for a b :: u8
proof -
  have "(w :: u16) AND 0xfff = take_bit 12 w" for w by (simp add: take_bit_eq_mask mask_numeral)
  then have "unat ((of_le (rev [a, b]) :: u16) AND 0xfff) = take_bit 12 (unat (of_le [b, a] :: u16))"
    by (simp only: unsigned_take_bit_eq rev.simps append.simps)
  then show ?thesis by (simp only: unat_be16) (simp add: take_bit_eq_mod)
qed

lemma vlan_member_spec: "net_ok n \<Longrightarrow> vid < MAX_VLAN \<Longrightarrow> vlan_member n vid = ret (vid \<in> vlan_set n)"
  by (simp add: vlan_member_def net_ok_def vlan_set_def MAX_VLAN_def less_mult_imp_div_less)

text \<open>Vectors and their bytes.\<close>

lemma length_iov_bytes [simp]: "length (iov_bytes m iov) = length (addrs_of iov)"
  by (simp add: iov_bytes_def)

lemma read_iov: "readable m iov \<Longrightarrow> iov_to_buf iov 0 k m = ret (take k (iov_bytes m iov))"
  using set_take_subset [of k "addrs_of iov"]
  by (subst iov_to_buf_spec) (auto simp: readable_def iov_bytes_def window_def take_map)

lemma advance_bytes:
  assumes "advance iov k = (a, iov')"
  shows "iov_bytes m iov' = drop k (iov_bytes m iov)" "readable m iov \<Longrightarrow> readable m iov'" "length (addrs_of iov') = length (addrs_of iov) - k"
proof -
  obtain t n arr where "iov_discard_front iov k = (t, n, arr)" by (metis prod_cases3)
  then have d: "addrs_of iov' = drop k (addrs_of iov)"
    using assms discard_front_spec by (fastforce simp: advance_def)
  show "iov_bytes m iov' = drop k (iov_bytes m iov)" "length (addrs_of iov') = length (addrs_of iov) - k" by (simp_all add: iov_bytes_def d drop_map)
  show "readable m iov \<Longrightarrow> readable m iov'" using set_drop_subset [of k "addrs_of iov"] by (auto simp: readable_def d)
qed

lemma unat_iov_size: "length (addrs_of iov) < 2 ^ 64 \<Longrightarrow> unat (iov_size iov) = length (addrs_of iov)"
  by (simp add: iov_size_addrs unat_of_nat_small)

lemma wrapped_entries:
  assumes "U \<le> 64" "E < 2 ^ 32" "(U + E) mod 2 ^ 32 \<le> 64" "E * 6 mod 2 ^ 32 < (2 :: nat) ^ 32 - 384"
  shows "U + E \<le> 64"
proof (rule ccontr)
  assume "\<not> U + E \<le> 64"
  have "2 ^ 32 \<le> U + E" using \<open>\<not> U + E \<le> 64\<close> assms(3) by (cases "U + E < 2 ^ 32") simp_all
  moreover obtain k where "k = 2 ^ 32 - E" by blast
  ultimately have k: "E = 2 ^ 32 - k" "k \<le> 64" "0 < k" using assms(1,2) by linarith+
  then have "E * 6 = 5 * 2 ^ 32 + (2 ^ 32 - 6 * k)" by simp
  then have "E * 6 mod 2 ^ 32 = (2 ^ 32 - 6 * k) mod 2 ^ 32" by (simp only: mod_mult_self3)
  moreover have "(2 ^ 32 - 6 * k) mod 2 ^ 32 = (2 ^ 32 - 6 * k :: nat)" by (rule mod_less) (use k in simp)
  ultimately show False using assms(4) k by linarith
qed

lemma read_macs_fits:
  assumes "readable m iov"
    "\<not> (if exact then (of_nat (unat (e * of_nat ETH_ALEN :: u32)) :: u64) \<noteq> iov_size iov else of_nat (unat (e * of_nat ETH_ALEN :: u32)) > iov_size iov)"
    "unat e * 6 \<le> length (addrs_of iov)" "nat u + unat e \<le> 64" "0 \<le> u" "length macs = 384"
  shows "read_macs m exact iov u e macs =
    ret (Some (u + int (unat e), False, poke (nat u * 6) (take (unat e * 6) (iov_bytes m iov)) macs))"
proof -
  have n: "unat (e * of_nat ETH_ALEN :: u32) = unat e * 6" using assms(4) by (simp add: ETH_ALEN_def unat_word_ariths)
  have u: "u \<le> 64" using assms(4) by linarith
  have "unat (word_of_int u :: u32) = nat u" using assms(5) u by (simp add: unat_eq_nat_uint uint_word_of_int)
  then have "unat (word_of_int u + e) = nat u + unat e" using assms(4) by (simp add: unat_word_ariths)
  then have le: "word_of_int u + e \<le> of_nat MAC_TABLE_ENTRIES" using assms(4) by (simp add: word_le_nat_alt MAC_TABLE_ENTRIES_def)
  have ie: "int_of_u32 e = int (unat e)" using assms(4) by (intro int_of_u32_small) simp
  have b: "iov_to_buf iov 0 (unat e * 6) m = ret (take (unat e * 6) (iov_bytes m iov))" by (rule read_iov [OF assms(1)])
  show ?thesis
    unfolding read_macs_def Let_def if_not_P [OF assms(2)] if_P [OF le]
    unfolding n b ie bindE_ret
    using assms(3,4,6) by (simp add: ETH_ALEN_def)
qed

text \<open>Reading one list of addresses, for any number of entries the guest gives.\<close>

lemma read_macs_safe:
  assumes "readable m iov" "length (addrs_of iov) < 2 ^ 32 - 384" "0 \<le> u" "u \<le> 64" "length macs = 384"
  shows "\<exists>r. read_macs m exact iov u e macs = ret r \<and>
    (case r of None \<Rightarrow> True | Some (u', ov, macs') \<Rightarrow> u \<le> u' \<and> u' \<le> 64 \<and> length macs' = 384)"
proof -
  let ?n = "unat (e * of_nat ETH_ALEN :: u32)" and ?L = "length (addrs_of iov)"
  have n64: "unat (of_nat ?n :: u64) = ?n"
    using unsigned_less [of "e * of_nat ETH_ALEN :: u32", where 'a = nat] by (intro unat_of_nat_small) simp
  have sz: "unat (iov_size iov) = ?L" using assms(2) by (intro unat_iov_size) simp
  show ?thesis
  proof (cases "if exact then (of_nat ?n :: u64) \<noteq> iov_size iov else of_nat ?n > iov_size iov")
    case True
    then have "read_macs m exact iov u e macs = ret None" unfolding read_macs_def Let_def by (rule if_P)
    then show ?thesis by simp
  next
    case in_range: False
    then have "(of_nat ?n :: u64) \<le> iov_size iov" by (metis not_less order_refl)
    then have nl: "?n \<le> ?L" using n64 sz by (simp only: word_le_nat_alt)
    show ?thesis
    proof (cases "word_of_int u + e \<le> of_nat MAC_TABLE_ENTRIES")
      case False
      then show ?thesis using in_range assms(3-5) by (simp add: read_macs_def Let_def)
    next
      case True
      have uu: "unat (word_of_int u :: u32) = nat u" using assms(3,4) by (simp add: unat_eq_nat_uint uint_word_of_int)
      have n: "?n = unat e * 6 mod 2 ^ 32" by (simp add: ETH_ALEN_def unat_word_ariths)
      have "unat (word_of_int u + e) = (nat u + unat e) mod 2 ^ 32" using uu by (simp add: unat_word_ariths)
      moreover have "unat (of_nat MAC_TABLE_ENTRIES :: u32) = 64" by (simp add: MAC_TABLE_ENTRIES_def)
      ultimately have e: "nat u + unat e \<le> 64"
        using True nl n assms(2,4) unsigned_less [of e, where 'a = nat] by (intro wrapped_entries) (auto simp: word_le_nat_alt)
      then have e6: "?n = unat e * 6" using n by simp
      have e2: "u + uint e \<le> 64" using e assms(3) by (simp add: nat_plus_as_int)
      show ?thesis
        using read_macs_fits [OF assms(1) in_range _ e assms(3,5)] nl e assms(3-5) e2 by (auto simp: e6 poke_def)
    qed
  qed
qed

lemma notify_ok:
  assumes "card_ok s"
  shows "\<exists>s'. rxfilter_notify s = ret s' \<and> card_ok s' \<and> vx_net s' = vx_net s"
  using assms
  by (cases "vx_ncs s") (auto simp: rxfilter_notify_def qemu_get_queue_def qemu_get_subqueue_def card_ok_def put_client_def log_net_def)

lemma card_ok_net: "card_ok s \<Longrightarrow> net_ok n \<Longrightarrow> (xn_has_vnet_hdr n \<longrightarrow> xn_has_vnet_hdr (vx_net s)) \<Longrightarrow> card_ok (s\<lparr>vx_net := n\<rparr>)"
  by (auto simp: card_ok_def)

lemma ended_err [simp]: "card_ok s \<Longrightarrow> ended s (ret (VIRTIO_NET_ERR, s))"
  by (simp add: ended_def)

lemma ended_ok: "\<exists>s'. r = ret s' \<and> card_ok s' \<Longrightarrow> ended s (bindE r (\<lambda>s. ret (VIRTIO_NET_OK, s)))"
  by (auto simp: ended_def)

lemma ended_notify: "card_ok s' \<Longrightarrow> ended s (bindE (rxfilter_notify s') (\<lambda>s. ret (VIRTIO_NET_OK, s)))"
  using notify_ok [of s'] by (auto intro!: ended_ok)

lemma rx_mode_ends:
  assumes "card_ok s" "readable (host_of env s) iov"
  shows "ended s (virtio_net_handle_rx_mode env cmd iov s)"
proof -
  have "net_ok ((\<lambda>n. if cmd = 0 then n\<lparr>xn_promisc := on\<rparr> else if cmd = 1 then n\<lparr>xn_allmulti := on\<rparr>
      else if cmd = 2 then n\<lparr>xn_alluni := on\<rparr> else if cmd = 3 then n\<lparr>xn_nomulti := on\<rparr>
      else if cmd = 4 then n\<lparr>xn_nouni := on\<rparr> else n\<lparr>xn_nobcast := on\<rparr>) (vx_net s))" for on
    using assms(1) by (simp add: card_ok_def net_ok_def)
  then show ?thesis
    unfolding virtio_net_handle_rx_mode_def read_iov [OF assms(2)] bindE_ret Let_def upd_net_def
    using assms(1) by (auto intro!: ended_notify card_ok_net split: if_splits)
qed

lemma vlan_table_ends:
  assumes "card_ok s" "readable (host_of env s) iov"
  shows "ended s (virtio_net_handle_vlan_table env cmd iov s)"
proof -
  have "net_ok ((vx_net s)\<lparr>xn_vlans := (xn_vlans (vx_net s))[i := w]\<rparr>)" for i w
    using assms(1) by (simp add: card_ok_def net_ok_def)
  moreover have "vid < MAX_VLAN \<Longrightarrow> vid div 32 < length (xn_vlans (vx_net s))" for vid
    using assms(1) by (simp add: card_ok_def net_ok_def MAX_VLAN_def less_mult_imp_div_less)
  ultimately show ?thesis
    unfolding virtio_net_handle_vlan_table_def read_iov [OF assms(2)] bindE_ret Let_def set_vlan_def upd_net_def
    using assms(1) by (auto intro!: ended_notify card_ok_net split: if_splits)
qed

lemma offloads_end:
  assumes "card_ok s" "readable (host_of env s) iov"
  shows "ended s (virtio_net_handle_offloads env cmd iov s)"
proof -
  have "\<exists>s'. virtio_net_apply_guest_offloads (s\<lparr>vx_net := (vx_net s)\<lparr>xn_curr_guest_offloads := ol\<rparr>\<rparr>) = ret s' \<and> card_ok s'"
    if "xn_has_vnet_hdr (vx_net s)" for ol
    using assms(1) that
    by (auto simp: card_ok_def net_ok_def virtio_net_apply_guest_offloads_def qemu_get_subqueue_def tap_of_def Let_def log_net_def)
  then show ?thesis
    unfolding virtio_net_handle_offloads_def read_iov [OF assms(2)] bindE_ret Let_def upd_net_def
    using assms(1) by (auto intro!: ended_ok)
qed

lemma vector_ended_err [simp]: "card_ok s \<Longrightarrow> vector_ended s (ret (VIRTIO_NET_ERR, iov, s))"
  by (simp add: vector_ended_def)

lemma set_table_ends:
  assumes "card_ok s" "0 \<le> fm" "fm \<le> iu" "iu \<le> 64" "length macs = 384"
  shows "vector_ended s (bindE (rxfilter_notify (set_mac_table iu fm a b macs s)) (\<lambda>s. ret (VIRTIO_NET_OK, iov, s)))"
proof -
  have "card_ok (set_mac_table iu fm a b macs s)"
    unfolding set_mac_table_def upd_net_def using assms
    by (intro card_ok_net) (auto simp: card_ok_def net_ok_def MAC_TABLE_ENTRIES_def ETH_ALEN_def)
  then show ?thesis using notify_ok [of "set_mac_table iu fm a b macs s"] by (auto simp: vector_ended_def)
qed

lemma read_entries_returns: "readable m v \<Longrightarrow> \<exists>x. read_entries m v = ret x"
  by (simp add: read_entries_def read_iov)

lemma advance_bound: "advance iov k = (a, iov') \<Longrightarrow> length (addrs_of iov') \<le> length (addrs_of iov)"
  using advance_bytes(3) by fastforce

lemma second_list_ends:
  assumes "card_ok s" "readable m v" "length (addrs_of v) < 2 ^ 32 - 384" "0 \<le> fm" "fm \<le> 64" "length macs = 384"
  shows "vector_ended s
    (bindE (read_entries m v) (\<lambda>e. case e of None \<Rightarrow> ret (VIRTIO_NET_ERR, b @ c @ v, s) | Some entries \<Rightarrow>
      let (d, v') = advance v 4 in
      bindE (read_macs m True v' fm entries macs) (\<lambda>r.
      case r of None \<Rightarrow> ret (VIRTIO_NET_ERR, b @ c @ d @ v', s) | Some (in_use, multi, macs) \<Rightarrow>
      bindE (rxfilter_notify (set_mac_table in_use fm uni multi macs s)) (\<lambda>s. ret (VIRTIO_NET_OK, b @ c @ d @ v', s)))))"
proof -
  obtain e where e: "read_entries m v = ret e" using read_entries_returns assms(2) by blast
  obtain d v' where d: "advance v 4 = (d, v')" by fastforce
  have v': "readable m v'" "length (addrs_of v') < 2 ^ 32 - 384"
    using advance_bytes(2) [OF d] advance_bound [OF d] assms(2,3) by auto
  show ?thesis
  proof (cases e)
    case (Some k)
    obtain r where "read_macs m True v' fm k macs = ret r"
        "case r of None \<Rightarrow> True | Some (u', ov, macs') \<Rightarrow> fm \<le> u' \<and> u' \<le> 64 \<and> length macs' = 384"
      using read_macs_safe [OF v' assms(4-6)] by blast
    then show ?thesis using Some e d assms(1,4) by (cases r) (auto intro!: set_table_ends)
  qed (use e assms(1) in simp)
qed

lemma mac_table_ends:
  assumes "card_ok s" "readable (host_of env s) iov" "length (addrs_of iov) < 2 ^ 32 - 384"
  shows "vector_ended s (mac_table_set env iov s)"
proof -
  let ?m = "host_of env s" and ?z = "replicate (MAC_TABLE_ENTRIES * ETH_ALEN) 0"
  obtain e where e: "read_entries ?m iov = ret e" using read_entries_returns assms(2) by blast
  obtain b v where b: "advance iov 4 = (b, v)" by fastforce
  have v: "readable ?m v" "length (addrs_of v) < 2 ^ 32 - 384"
    using advance_bytes(2) [OF b] advance_bound [OF b] assms(2,3) by auto
  show ?thesis
  proof (cases e)
    case (Some k)
    have nil: "poke k [] zs = zs" for k and zs :: "u8 list" by (simp add: poke_def)
  have z: "length ?z = 384" by (simp add: MAC_TABLE_ENTRIES_def ETH_ALEN_def)
    obtain r where r: "read_macs ?m False v 0 k ?z = ret r"
        "case r of None \<Rightarrow> True | Some (u', ov, macs') \<Rightarrow> 0 \<le> u' \<and> u' \<le> 64 \<and> length macs' = 384"
      using read_macs_safe [OF v _ _ z, of 0 False k] by auto
    obtain c v' where c: "advance v (unat (k * of_nat ETH_ALEN :: u32)) = (c, v')" by fastforce
    have v': "readable ?m v'" "length (addrs_of v') < 2 ^ 32 - 384"
      using advance_bytes(2) [OF c] advance_bound [OF c] v by auto
    show ?thesis
      unfolding mac_table_set_def Let_def e b Some
      using r c assms(1) second_list_ends [OF assms(1) v', unfolded Let_def] by (cases r) auto
  qed (use e assms(1) in \<open>simp add: mac_table_set_def\<close>)
qed

text \<open>The lists of a well-formed command.\<close>

lemma length_concat_macs: "\<forall>x \<in> set us. is_mac x \<Longrightarrow> length (concat us) = 6 * length us"
  by (induction us) (auto simp: is_mac_def ETH_ALEN_def)

lemma read_macs_list:
  assumes "readable m v" "length (addrs_of v) < 2 ^ 32 - 384" "iov_bytes m v = concat us @ rest" "exact \<Longrightarrow> rest = []"
    "\<forall>x \<in> set us. is_mac x" "0 \<le> u" "u \<le> 64" "length macs = 384"
  shows "unat (of_nat (length us) * of_nat ETH_ALEN :: u32) = length us * 6"
    "read_macs m exact v u (of_nat (length us)) macs =
      ret (Some (if nat u + length us \<le> 64 then (u + int (length us), False, poke (nat u * 6) (concat us) macs) else (u, True, macs)))"
proof -
  let ?e = "of_nat (length us) :: u32"
  have l: "length (addrs_of v) = 6 * length us + length rest"
    using arg_cong [OF assms(3), of length] length_concat_macs [OF assms(5)] by simp
  then have e: "unat ?e = length us" using assms(2) by (intro unat_of_nat_small) simp
  show n: "unat (?e * of_nat ETH_ALEN) = length us * 6" using l assms(2) e by (simp add: ETH_ALEN_def unat_word_ariths)
  have r: "\<not> (if exact then (of_nat (unat (?e * of_nat ETH_ALEN)) :: u64) \<noteq> iov_size v else of_nat (unat (?e * of_nat ETH_ALEN)) > iov_size v)"
  proof -
    have "iov_size v = of_nat (6 * length us + length rest)" by (simp only: iov_size_addrs l)
    moreover have "(of_nat (length us * 6) :: u64) \<le> of_nat (6 * length us + length rest)"
      using l assms(2) by (simp add: word_le_nat_alt unat_of_nat_small del: of_nat_add of_nat_mult)
    ultimately show ?thesis using assms(4) unfolding n by (auto simp: mult.commute simp del: of_nat_add of_nat_mult)
  qed
  show "read_macs m exact v u ?e macs =
      ret (Some (if nat u + length us \<le> 64 then (u + int (length us), False, poke (nat u * 6) (concat us) macs) else (u, True, macs)))"
  proof (cases "nat u + length us \<le> 64")
    case True
    then show ?thesis
      using read_macs_fits [OF assms(1) r _ _ assms(6,8)] l assms(3) length_concat_macs [OF assms(5)] by (simp add: e)
  next
    case False
    have "unat (word_of_int u :: u32) = nat u" using assms(6,7) by (simp add: unat_eq_nat_uint uint_word_of_int)
    then have "unat (word_of_int u + ?e) = nat u + length us" using e l assms(2,7) by (simp add: unat_word_ariths)
    then have "\<not> word_of_int u + ?e \<le> of_nat MAC_TABLE_ENTRIES" using False by (simp add: word_le_nat_alt MAC_TABLE_ENTRIES_def)
    then show ?thesis unfolding read_macs_def Let_def if_not_P [OF r] using False by simp
  qed
qed

lemma chunk_concat: "\<forall>x \<in> set us. is_mac x \<Longrightarrow> i < length us \<Longrightarrow> take 6 (drop (i * 6) (concat us)) = us ! i"
proof (induction us arbitrary: i)
  case (Cons a us)
  then show ?case by (cases i) (auto simp: is_mac_def ETH_ALEN_def)
qed simp

lemma entries_new:
  assumes "\<forall>x \<in> set us. is_mac x" "k + length us \<le> 64" "length macs = 384"
  shows "map (\<lambda>i. peek (i * 6) 6 (poke (k * 6) (concat us) macs)) [k ..< k + length us] = us"
proof (rule nth_equalityI)
  fix i assume "i < length (map (\<lambda>i. peek (i * 6) 6 (poke (k * 6) (concat us) macs)) [k ..< k + length us])"
  then have i: "i < length us" by simp
  have "peek ((k + i) * 6) 6 (poke (k * 6) (concat us) macs) = take 6 (drop (i * 6) (concat us))"
    using i assms(2,3) length_concat_macs [OF assms(1)] by (simp add: peek_def poke_def)
  then show "map (\<lambda>i. peek (i * 6) 6 (poke (k * 6) (concat us) macs)) [k ..< k + length us] ! i = us ! i"
    using i chunk_concat [OF assms(1)] by simp
qed simp

lemma entries_old:
  assumes "\<forall>x \<in> set us. is_mac x" "k + length us \<le> 64" "length macs = 384"
  shows "map (\<lambda>i. peek (i * 6) 6 (poke (k * 6) (concat us) macs)) [0 ..< k] = map (\<lambda>i. peek (i * 6) 6 macs) [0 ..< k]"
  using assms length_concat_macs [OF assms(1)] by (auto intro!: peek_poke_before)


lemma read_count:
  assumes "readable m v" "iov_bytes m v = le_bytes 4 (w :: u32) @ rest" "advance v 4 = (a, v')"
  shows "read_entries m v = ret (Some w)" "iov_bytes m v' = rest" "readable m v'"
  using assms advance_bytes(1,2) [OF assms(3), of m] by (simp_all add: read_entries_def read_iov)

lemma mac_table_stored:
  assumes "readable (host_of env s) iov" "length (addrs_of iov) < 2 ^ 32 - 384"
    "iov_bytes (host_of env s) iov = mac_command us ms" "\<forall>x \<in> set us \<union> set ms. is_mac x"
    "us' = (if length us \<le> 64 then us else [])" "fit \<longleftrightarrow> length us' + length ms \<le> 64" "ms' = (if fit then ms else [])"
  shows "\<exists>v macs. mac_table_set env iov s =
      bindE (rxfilter_notify (set_mac_table (int (length us' + length ms')) (int (length us')) (64 < length us) (\<not> fit) macs s))
        (\<lambda>s. ret (VIRTIO_NET_OK, v, s)) \<and>
    length macs = 384 \<and> map (\<lambda>i. peek (i * 6) 6 macs) [0 ..< length us' + length ms'] = us' @ ms'"
proof -
  let ?m = "host_of env s" and ?z = "replicate (MAC_TABLE_ENTRIES * ETH_ALEN) 0 :: u8 list"
  have nil: "poke k [] zs = zs" for k and zs :: "u8 list" by (simp add: poke_def)
  have z: "length ?z = 384" by (simp add: MAC_TABLE_ENTRIES_def ETH_ALEN_def)
  obtain a v where v: "advance iov 4 = (a, v)" by fastforce
  note c1 = read_count [OF assms(1) assms(3) [unfolded mac_command_def] v]
  have lv: "length (addrs_of v) < 2 ^ 32 - 384" using advance_bound [OF v] assms(2) by linarith
  note r1 = read_macs_list [OF c1(3) lv c1(2), of False 0 ?z, OF _ _ _ _ z]
  have um: "\<forall>x \<in> set us. is_mac x" "\<forall>x \<in> set ms. is_mac x" "\<forall>x \<in> set us'. is_mac x" using assms(4,5) by auto
  let ?y = "poke 0 (concat us') ?z"
  have "read_macs ?m False v 0 (of_nat (length us)) ?z = ret (Some (int (length us'), 64 < length us, ?y))"
    using r1(2) um(1) assms(5) by (simp add: nil)
  moreover obtain b w where w: "advance v (unat (of_nat (length us) * of_nat ETH_ALEN :: u32)) = (b, w)" by fastforce
  moreover have bw: "iov_bytes ?m w = le_bytes 4 (of_nat (length ms) :: u32) @ concat ms"
    using advance_bytes(1) [OF w, of ?m] r1(1) um(1) c1(2) length_concat_macs [OF um(1)] by simp
  moreover have rw: "readable ?m w" "length (addrs_of w) < 2 ^ 32 - 384"
    using advance_bytes(2) [OF w c1(3)] advance_bound [OF w] lv by auto
  moreover obtain d x where x: "advance w 4 = (d, x)" by fastforce
  note c2 = read_count [OF rw(1) bw x]
  have "length us' \<le> 64" using assms(5) by simp
  then have y: "length ?y = 384" "map (\<lambda>i. peek (i * 6) 6 ?y) [0 ..< length us'] = us'"
    using length_concat_macs [OF um(3)] z entries_new [OF um(3), of 0 ?z] by simp_all
  let ?x = "poke (length us' * 6) (concat ms') ?y"
  have lx: "length (addrs_of x) < 2 ^ 32 - 384" using advance_bound [OF x] rw(2) by linarith
  have "read_macs ?m True x (int (length us')) (of_nat (length ms)) ?y = ret (Some (int (length us' + length ms'), \<not> fit, ?x))"
    using read_macs_list(2) [OF c2(3) lx, of ms "[]" True "int (length us')" ?y] c2(2) um(2) y(1) assms(6,7) \<open>length us' \<le> 64\<close>
    by (simp add: nil)
  ultimately have "mac_table_set env iov s =
      bindE (rxfilter_notify (set_mac_table (int (length us' + length ms')) (int (length us')) (64 < length us) (\<not> fit) ?x s))
        (\<lambda>s. ret (VIRTIO_NET_OK, a @ b @ d @ x, s))"
    unfolding mac_table_set_def Let_def using c1(1) c2(1) v x by simp
  moreover have le: "length us' + length ms' \<le> 64" and ms': "\<forall>x \<in> set ms'. is_mac x"
    using assms(6,7) um \<open>length us' \<le> 64\<close> by auto
  have "length ?x = 384" using y(1) le length_concat_macs [OF ms'] by simp
  moreover have "map (\<lambda>i. peek (i * 6) 6 ?x) [0 ..< length us' + length ms'] = us' @ ms'"
    unfolding upt_add_eq_append [OF le0, of "length us'" "length ms'"] map_append entries_new [OF ms' le y(1)] entries_old [OF ms' le y(1)] y(2) ..
  ultimately show ?thesis by blast
qed


lemma set_vlan_words:
  fixes ws :: "u32 list"
  assumes "length ws = 128" "vid < 4096" "v < 4096"
  shows "bit (ws[vid div 32 := ws ! (vid div 32) OR push_bit (vid mod 32) 1] ! (v div 32)) (v mod 32) \<longleftrightarrow>
      bit (ws ! (v div 32)) (v mod 32) \<or> v = vid" (is ?a)
    "bit (ws[vid div 32 := ws ! (vid div 32) AND NOT (push_bit (vid mod 32) 1)] ! (v div 32)) (v mod 32) \<longleftrightarrow>
      bit (ws ! (v div 32)) (v mod 32) \<and> v \<noteq> vid" (is ?b)
proof -
  have l: "vid div 32 < length ws" "v div 32 < length ws" using assms by simp_all
  have e: "v = vid \<longleftrightarrow> v div 32 = vid div 32 \<and> v mod 32 = vid mod 32" by (metis div_mult_mod_eq)
  show ?a ?b
    using l by (cases "v div 32 = vid div 32"; auto simp: e bit_simps nth_list_update)+
qed

lemma mac_strings_spec:
  assumes "net_ok n" "i + k \<le> MAC_TABLE_ENTRIES"
  shows "mac_strings (xn_mac_table n) k (int i) ms =
    ret (rev (map (\<lambda>j. mac_strdup_printf (mac_entry (xn_mac_table n) j)) [i ..< i + k]) @ ms)"
  using assms(2)
proof (induction k arbitrary: i ms)
  case (Suc k)
  have "mac_strings (xn_mac_table n) k (int (Suc i)) ms' =
      ret (rev (map (\<lambda>j. mac_strdup_printf (mac_entry (xn_mac_table n) j)) [Suc i ..< Suc i + k]) @ ms')" for ms'
    by (rule Suc.IH) (use Suc.prems in simp)
  then show ?case
    using mac_at_entry [OF assms(1), of i] Suc.prems by (simp add: upt_conv_Cons add.commute del: upt_Suc)
qed simp

lemma vlan_ids_set:
  assumes "length (xn_vlans n) = 128"
  shows "set (vlan_ids (xn_vlans n)) = int ` {v \<in> vlan_set n. v mod 32 \<noteq> 31}"
proof (intro equalityI subsetI)
  fix x assume "x \<in> set (vlan_ids (xn_vlans n))"
  then obtain i j where ij: "x = int (32 * i + j)" "i < 128" "j < 31" "bit (xn_vlans n ! i) j"
    using assms by (auto simp: vlan_ids_def)
  then have "(32 * i + j) div 32 = i" "(32 * i + j) mod 32 = j" by simp_all
  then show "x \<in> int ` {v \<in> vlan_set n. v mod 32 \<noteq> 31}"
    using ij by (intro image_eqI [of _ _ "32 * i + j"]) (simp_all add: vlan_set_def MAX_VLAN_def)
next
  fix x assume "x \<in> int ` {v \<in> vlan_set n. v mod 32 \<noteq> 31}"
  then obtain v where v: "x = int v" "v < 4096" "bit (xn_vlans n ! (v div 32)) (v mod 32)" "v mod 32 \<noteq> 31"
    by (auto simp: vlan_set_def MAX_VLAN_def)
  have "v mod 32 < 32" by simp
  then have "v mod 32 < 31" "v div 32 < 128" using v(2,4) by linarith+
  moreover have "int v = 32 * int (v div 32) + int (v mod 32)" by (metis mult_div_mod_eq of_nat_add of_nat_mult of_nat_numeral)
  moreover have "xn_vlans n ! (v div 32) \<noteq> 0" using v(3) by (metis bit_0_eq bot_apply bot_bool_def)
  ultimately show "x \<in> set (vlan_ids (xn_vlans n))"
    unfolding vlan_ids_def using v(1,3) assms
    by (auto intro!: bexI [of _ "v div 32"] image_eqI [of _ _ "v mod 32"])
qed


section \<open>Properties\<close>

text \<open>
  C13. The receive filter of the card decides as specified: with the promiscuous mode off, a frame is accepted exactly
  if its VLAN, when it has one, is in the VLAN table, and its destination is wanted: the broadcast address unless it is
  disabled, a multicast address when all of them are allowed, the list overflowed or the address is in the multicast
  list, and a unicast address when all of them are allowed, the list overflowed, or it is the address of the card or in
  the unicast list.  The code reads sixteen bytes of the frame, however long it is.
\<close>

theorem filter_refines:
  assumes "net_ok n" "xn_host_hdr_len n + 16 \<le> length buf"
  shows "receive_filter n buf = ret (accepts n (drop (xn_host_hdr_len n) buf))"
proof -
  let ?h = "xn_host_hdr_len n" and ?t = "xn_mac_table n"
  define fr where "fr = drop ?h buf"
  have len: "16 \<le> length fr" using assms(2) by (simp add: fr_def)
  have rd: "bytes_at buf (int ?h + int i) (int k) = ret (peek i k fr)" if "i + k \<le> 16" for i k
    using assms(2) that by (simp add: bytes_at_def peek_def fr_def nat_add_distrib add.commute flip: of_nat_add)
  have p12: "bytes_at buf (int ?h + 12) 2 = ret (peek 12 2 fr)" and p14: "bytes_at buf (int ?h + 14) 2 = ret (peek 14 2 fr)"
    and p0: "bytes_at buf (int ?h) 6 = ret (take 6 fr)"
    using rd [of 12 2] rd [of 14 2] rd [of 0 6] by (simp_all add: peek_def)
  have "peek 14 2 fr = [fr ! 14, fr ! 15]"
    using len by (intro nth_equalityI) (auto simp: peek_def less_Suc_eq numeral_2_eq_2)
  then have vid: "unat ((of_le (rev (peek 14 2 fr)) :: u16) AND 0xfff) = (unat (fr ! 14) * 256 + unat (fr ! 15)) mod 4096"
    by (simp only: tci_vid)
  have vl: "vlan_member n ((unat (fr ! 14) * 256 + unat (fr ! 15)) mod 4096) = ret ((unat (fr ! 14) * 256 + unat (fr ! 15)) mod 4096 \<in> vlan_set n)"
    by (rule vlan_member_spec [OF assms(1)]) (simp add: MAX_VLAN_def)
  have hd: "hd (take 6 fr) = hd fr" using len by (cases fr) auto
  have t: "0 \<le> mt_first_multi ?t" "mt_first_multi ?t \<le> mt_in_use ?t" "mt_in_use ?t \<le> int MAC_TABLE_ENTRIES"
    using assms(1) by (simp_all add: net_ok_def)
  have u: "find_mac ?t dst (nat (mt_first_multi ?t)) 0 = ret (dst \<in> set (uni_macs ?t))" for dst
    using find_mac_spec [OF assms(1), of 0 "nat (mt_first_multi ?t)" dst] t by (simp add: uni_macs_def)
  have "find_mac ?t dst (nat (mt_in_use ?t - mt_first_multi ?t)) (int (nat (mt_first_multi ?t))) = ret (dst \<in> set (multi_macs ?t))" for dst
    unfolding multi_macs_def using find_mac_spec [OF assms(1), of "nat (mt_first_multi ?t)" "nat (mt_in_use ?t - mt_first_multi ?t)" dst] t
    by (simp add: nat_diff_distrib)
  then have m: "find_mac ?t dst (nat (mt_in_use ?t - mt_first_multi ?t)) (mt_first_multi ?t) = ret (dst \<in> set (multi_macs ?t))" for dst
    using t(1) by simp
  let ?ok = "peek 12 2 fr = [0x81, 0x00] \<longrightarrow> (unat (fr ! 14) * 256 + unat (fr ! 15)) mod 4096 \<in> vlan_set n"
  have v: "(if peek 12 2 fr = [0x81, 0x00] then bindE (bytes_at buf (int ?h + 14) 2) (\<lambda>tci. vlan_member n (unat ((of_le (rev tci) :: u16) AND 0xfff)))
      else ret True) = ret ?ok" by (simp add: p14 vid vl)
  have w: "(case frame_vlan fr of Some vid \<Rightarrow> vid \<in> vlan_set n | None \<Rightarrow> True) = ?ok" by (simp add: frame_vlan_def)
  show ?thesis
    unfolding receive_filter_def accepts_def fr_def [symmetric] w Let_def p12 bindE_ret v p0 hd u m
    by (cases "xn_promisc n = 0"; cases ?ok; cases "bit (hd fr) 0"; cases "take 6 fr = replicate 6 0xff") auto
qed


text \<open>
  C17. Whatever the guest writes into a command of the control queue, other than one that changes the number of queues,
  the command ends, the card stays well-formed (the table has at most 64 addresses, and its tables have their sizes), and
  a command that does not succeed changes nothing.  The command has to be shorter than four gigabytes, and its buffers
  have to be in the memory of the guest.
\<close>

theorem commands_safe:
  assumes "card_ok s" "readable (host_of env s) iov" "length (addrs_of iov) < 2 ^ 32 - 384" "cls \<noteq> 4"
  shows "\<exists>st iov' s'. handle_command env status cls cmd iov s = ret (st, iov', s') \<and> card_ok s' \<and> (st = VIRTIO_NET_OK \<or> s' = s)"
proof -
  have "vector_ended s (virtio_net_handle_mac env cmd iov s)"
  proof (cases "cmd = 1 \<and> iov_size iov = of_nat ETH_ALEN")
    case True
    then have l: "length (addrs_of iov) = 6"
      using unat_iov_size [of iov] assms(3) by (simp add: ETH_ALEN_def)
    let ?s = "upd_net (\<lambda>n. n\<lparr>xn_mac := take 6 (iov_bytes (host_of env s) iov)\<rparr>) s"
    have "card_ok ?s" using assms(1) l unfolding upd_net_def by (intro card_ok_net) (auto simp: card_ok_def net_ok_def ETH_ALEN_def)
    then show ?thesis
      using True l notify_ok [of ?s] by (auto simp: virtio_net_handle_mac_def read_iov [OF assms(2)] ETH_ALEN_def vector_ended_def)
  next
    case False
    then show ?thesis using assms(1) mac_table_ends [OF assms(1-3)] by (auto simp: virtio_net_handle_mac_def)
  qed
  then show ?thesis
    using rx_mode_ends [OF assms(1,2), of cmd] vlan_table_ends [OF assms(1,2), of cmd] offloads_end [OF assms(1,2), of cmd] assms(1,4)
    by (auto simp: handle_command_def ended_def vector_ended_def)
qed

text \<open>
  C14. The command that sets the table of addresses stores the two lists of the guest, and the filter follows them:
  afterwards the unicast list of the card is the first list, and the multicast list is the second one, where a list
  that does not fit into the 64 entries is dropped.  The frames that then pass the filter are exactly these, besides all
  frames in the promiscuous mode: the VLAN of the frame, when it has one, is in the VLAN table, and the destination
  is the broadcast address, unless disabled; or a multicast address, unless those are disabled, that is in the second
  list, or any of them when that list was dropped or all are allowed; or a unicast address, unless those are disabled,
  that is the one of the card or in the first list, or any of them when that list was dropped or all are allowed.  So a
  multicast address in the first list or a unicast address in the second one has no effect.
\<close>

theorem mac_table_filters:
  assumes "card_ok s" "readable (host_of env s) iov" "length (addrs_of iov) < 2 ^ 32 - 384"
    "iov_bytes (host_of env s) iov = mac_command us ms" "\<forall>x \<in> set us \<union> set ms. is_mac x"
  shows "\<exists>iov' s'. virtio_net_handle_mac env 0 iov s = ret (VIRTIO_NET_OK, iov', s') \<and> card_ok s' \<and>
    uni_macs (xn_mac_table (vx_net s')) = (if uni_fits us then us else []) \<and>
    multi_macs (xn_mac_table (vx_net s')) = (if multi_fits us ms then ms else []) \<and>
    accepts (vx_net s') = wants us ms (vx_net s)"
proof -
  define us' where "us' = (if length us \<le> 64 then us else [])"
  define fit where "fit \<longleftrightarrow> length us' + length ms \<le> 64"
  define ms' where "ms' = (if fit then ms else [])"
  obtain v macs where st: "mac_table_set env iov s =
      bindE (rxfilter_notify (set_mac_table (int (length us' + length ms')) (int (length us')) (64 < length us) (\<not> fit) macs s))
        (\<lambda>s. ret (VIRTIO_NET_OK, v, s))"
    and macs: "length macs = 384" "map (\<lambda>i. peek (i * 6) 6 macs) [0 ..< length us' + length ms'] = us' @ ms'"
    using mac_table_stored [OF assms(2-5) us'_def fit_def ms'_def] by blast
  let ?s = "set_mac_table (int (length us' + length ms')) (int (length us')) (64 < length us) (\<not> fit) macs s"
  let ?t = "xn_mac_table (vx_net ?s)"
  have le: "length us' + length ms' \<le> 64" by (simp add: us'_def ms'_def fit_def)
  have "map (\<lambda>i. peek (i * 6) 6 macs) [0 ..< length us'] = us'"
      "map (\<lambda>i. peek (i * 6) 6 macs) [length us' ..< length us' + length ms'] = ms'"
    using macs(2) unfolding upt_add_eq_append [OF le0, of "length us'" "length ms'"] map_append
    by (simp_all add: append_eq_append_conv)
  then have t: "uni_macs ?t = us'" "multi_macs ?t = ms'"
    by (simp_all add: uni_macs_def multi_macs_def mac_entry_def [abs_def] set_mac_table_def upd_net_def ETH_ALEN_def nat_add_distrib)
  have "card_ok ?s"
    unfolding set_mac_table_def upd_net_def using assms(1) le macs(1)
    by (intro card_ok_net) (auto simp: card_ok_def net_ok_def MAC_TABLE_ENTRIES_def ETH_ALEN_def)
  then obtain s' where s': "rxfilter_notify ?s = ret s'" "card_ok s'" "vx_net s' = vx_net ?s" using notify_ok by blast
  have "accepts (vx_net s') fr = wants us ms (vx_net s) fr" for fr
    using t unfolding accepts_def wants_def s'(3) Let_def
    by (auto simp: us'_def ms'_def fit_def set_mac_table_def upd_net_def uni_fits_def multi_fits_def MAC_TABLE_ENTRIES_def vlan_set_def
      split: if_splits option.splits)
  then show ?thesis
    using st s' t by (auto simp: virtio_net_handle_mac_def us'_def ms'_def fit_def uni_fits_def multi_fits_def MAC_TABLE_ENTRIES_def fun_eq_iff)
qed

text \<open>
  C32. The number of entries of the second list is added to the number in use in 32 bits: after 64 entries in the first
  list, a command of four gigabytes whose second number wraps the sum passes the check and is copied past the end of the
  table.
\<close>

theorem mac_table_overflows:
  assumes "readable (host_of env s) iov" "iov_bytes (host_of env s) iov = le_bytes 4 (64 :: u32) @ as @ le_bytes 4 (- 64 :: u32) @ bs"
    "length as = 384" "length bs = 2 ^ 32 - 384"
  shows "virtio_net_handle_mac env 0 iov s = fail Overrun"
proof -
  let ?m = "host_of env s" and ?z = "replicate (MAC_TABLE_ENTRIES * ETH_ALEN) 0 :: u8 list"
  have z: "length ?z = 384" by (simp add: MAC_TABLE_ENTRIES_def ETH_ALEN_def)
  obtain a v where v: "advance iov 4 = (a, v)" by fastforce
  note c1 = read_count [OF assms(1,2) v]
  have lv: "length (addrs_of v) = 2 ^ 32 + 4" using arg_cong [OF c1(2), of length] assms(3,4) by simp
  have n1: "unat (64 * of_nat ETH_ALEN :: u32) = 384" by (simp add: ETH_ALEN_def)
  have "\<not> (if False then (of_nat (unat (64 * of_nat ETH_ALEN :: u32)) :: u64) \<noteq> iov_size v else of_nat (unat (64 * of_nat ETH_ALEN :: u32)) > iov_size v)"
    using unat_iov_size [of v] lv unfolding n1 by (simp add: word_less_nat_alt)
  from read_macs_fits [OF c1(3) this _ _ _ z, of 0]
  have r1: "read_macs ?m False v 0 64 ?z = ret (Some (64, False, poke 0 as ?z))"
    using lv c1(2) assms(3) by simp
  obtain b w where w: "advance v 384 = (b, w)" by fastforce
  have bw: "iov_bytes ?m w = le_bytes 4 (- 64 :: u32) @ bs" using advance_bytes(1) [OF w, of ?m] c1(2) assms(3) by simp
  obtain d x where x: "advance w 4 = (d, x)" by fastforce
  note c2 = read_count [OF advance_bytes(2) [OF w c1(3)] bw x]
  have lx: "length (addrs_of x) = 2 ^ 32 - 384" using arg_cong [OF c2(2), of length] assms(4) by simp
  have n2: "unat (- 64 * of_nat ETH_ALEN :: u32) = 2 ^ 32 - 384" by (simp add: ETH_ALEN_def)
  have sz: "iov_size x = of_nat (2 ^ 32 - 384)" by (simp only: iov_size_addrs lx)
  have "iov_to_buf x 0 (2 ^ 32 - 384) ?m = ret bs" using read_iov [OF c2(3)] c2(2) assms(4) by simp
  then have "read_macs ?m True x 64 (- 64) (poke 0 as ?z) = fail Overrun"
    unfolding read_macs_def Let_def n2 sz using assms(3,4) z by (auto simp: MAC_TABLE_ENTRIES_def ETH_ALEN_def ensure_def)
  then show ?thesis
    unfolding virtio_net_handle_mac_def mac_table_set_def Let_def using c1(1) v r1 w n1 c2(1) x by simp
qed


text \<open>
  C29. The two commands on the VLAN table add one VLAN to the set the filter lets pass, or remove it, and change no other
  part of the card.
\<close>

theorem vlan_commands:
  assumes "card_ok s" "readable (host_of env s) iov" "take 2 (iov_bytes (host_of env s) iov) = le_bytes 2 (of_nat vid :: u16)"
    "vid < 4096" "cmd = 0 \<or> cmd = 1"
  shows "\<exists>s'. virtio_net_handle_vlan_table env cmd iov s = ret (VIRTIO_NET_OK, s') \<and> card_ok s' \<and>
    vlan_set (vx_net s') = (if cmd = 0 then insert vid (vlan_set (vx_net s)) else vlan_set (vx_net s) - {vid}) \<and>
    vx_net s' = (vx_net s)\<lparr>xn_vlans := xn_vlans (vx_net s')\<rparr>"
proof -
  let ?ws = "xn_vlans (vx_net s)"
  have len: "length ?ws = 128" using assms(1) by (simp add: card_ok_def net_ok_def MAX_VLAN_def)
  have vid: "unat (of_nat vid :: u16) = vid" using assms(4) by (intro unat_of_nat_small) simp
  define f :: "u32 \<Rightarrow> u32" where "f w = (if cmd = 0 then w OR push_bit (vid mod 32) 1 else w AND NOT (push_bit (vid mod 32) 1))" for w
  let ?s = "upd_net (\<lambda>n. n\<lparr>xn_vlans := (xn_vlans n)[vid div 32 := f (xn_vlans n ! (vid div 32))]\<rparr>) s"
  have "card_ok ?s" using assms(1) unfolding upd_net_def by (intro card_ok_net) (auto simp: card_ok_def net_ok_def)
  then obtain s' where s': "rxfilter_notify ?s = ret s'" "card_ok s'" "vx_net s' = vx_net ?s" using notify_ok by blast
  have "length (take 2 (iov_bytes (host_of env s) iov)) = 2" by (simp only: assms(3) length_le_bytes)
  moreover have "vid div 32 < length ?ws" using assms(4) len by simp
  ultimately have "virtio_net_handle_vlan_table env cmd iov s = ret (VIRTIO_NET_OK, s')"
    unfolding virtio_net_handle_vlan_table_def read_iov [OF assms(2)] bindE_ret assms(3) Let_def
    using assms(4,5) s'(1) vid by (auto simp: set_vlan_def MAX_VLAN_def f_def)
  moreover have "vlan_set (vx_net s') = (if cmd = 0 then insert vid (vlan_set (vx_net s)) else vlan_set (vx_net s) - {vid})"
    using set_vlan_words [OF len assms(4)] assms(4) unfolding s'(3) by (auto simp: vlan_set_def upd_net_def MAX_VLAN_def f_def)
  ultimately show ?thesis using s'(2,3) by (auto simp: upd_net_def)
qed

text \<open>
  C30. The report of the filter names the addresses of both lists, the last one first.  It leaves out every VLAN whose
  number is 31 modulo 32, and it says that broadcasts are allowed exactly when they are not.
\<close>

theorem query_rxfilter_reports:
  assumes "card_ok s"
  shows "\<exists>info s'. virtio_net_query_rxfilter s = ret (info, s') \<and> vx_net s' = vx_net s \<and>
    rf_unicast_table info = rev (map mac_strdup_printf (uni_macs (xn_mac_table (vx_net s)))) \<and>
    rf_multicast_table info = rev (map mac_strdup_printf (multi_macs (xn_mac_table (vx_net s)))) \<and>
    set (rf_vlan_table info) = int ` {v \<in> vlan_set (vx_net s). v mod 32 \<noteq> 31} \<and>
    rf_broadcast_allowed info = (xn_nobcast (vx_net s) \<noteq> 0)"
proof -
  let ?n = "vx_net s" and ?t = "xn_mac_table (vx_net s)"
  have ok: "net_ok ?n" using assms by (simp add: card_ok_def)
  then have t: "0 \<le> mt_first_multi ?t" "mt_first_multi ?t \<le> mt_in_use ?t" "mt_in_use ?t \<le> int MAC_TABLE_ENTRIES" "length (xn_vlans ?n) = 128"
    by (simp_all add: net_ok_def MAX_VLAN_def)
  have u: "mac_strings ?t (nat (mt_first_multi ?t)) 0 [] = ret (rev (map mac_strdup_printf (uni_macs ?t)))"
    using mac_strings_spec [OF ok, of 0 "nat (mt_first_multi ?t)" "[]"] t by (simp add: uni_macs_def comp_def)
  have "mac_strings ?t (nat (mt_in_use ?t - mt_first_multi ?t)) (int (nat (mt_first_multi ?t))) [] = ret (rev (map mac_strdup_printf (multi_macs ?t)))"
    unfolding multi_macs_def using mac_strings_spec [OF ok, of "nat (mt_first_multi ?t)" "nat (mt_in_use ?t - mt_first_multi ?t)" "[]"] t
    by (simp add: nat_diff_distrib comp_def)
  then have m: "mac_strings ?t (nat (mt_in_use ?t - mt_first_multi ?t)) (mt_first_multi ?t) [] = ret (rev (map mac_strdup_printf (multi_macs ?t)))"
    using t(1) by simp
  have "vx_ncs s \<noteq> []" using assms by (simp add: card_ok_def)
  then show ?thesis
    unfolding virtio_net_query_rxfilter_def Let_def u m bindE_ret using t(4) vlan_ids_set [OF t(4)]
    by (simp add: MAX_VLAN_def qemu_get_queue_def qemu_get_subqueue_def put_client_def)
qed

section \<open>Examples\<close>

lemma sample_card_ok [simp]: "card_ok (sample_card m)" "net_ok sample_nic" "vx_net (sample_card m) = sample_nic"
  by (simp_all add: card_ok_def net_ok_def sample_card_def sample_nic_def MAC_TABLE_ENTRIES_def ETH_ALEN_def MAX_VLAN_def)

lemma buffer_readable:
  assumes "length bs < 2 ^ 64"
  shows "readable (buffer_mem bs) (buffer_iov bs)" "iov_bytes (buffer_mem bs) (buffer_iov bs) = bs" "length (addrs_of (buffer_iov bs)) = length bs"
  using buffer_bytes [OF assms] by (simp_all add: readable_def iov_bytes_def buffer_addrs [OF assms])

theorem filter_refines_witness:
  "receive_filter sample_nic [0x52, 0x54, 0, 0x12, 0x34, 0x56, 0, 0, 0, 0, 0, 0, 8, 0, 0, 0] = ret True \<and>
   receive_filter sample_nic [2, 0, 0, 0, 0, 2, 0, 0, 0, 0, 0, 0, 8, 0, 0, 0] = ret False"
  using filter_refines [of sample_nic "[0x52, 0x54, 0, 0x12, 0x34, 0x56, 0, 0, 0, 0, 0, 0, 8, 0, 0, 0]"] filter_refines [of sample_nic "[2, 0, 0, 0, 0, 2, 0, 0, 0, 0, 0, 0, 8, 0, 0, 0]"]
  by (simp add: accepts_def frame_vlan_def peek_def uni_macs_def)

text \<open>A list of one address and a list of two.\<close>

lemma sample_command:
  "length (mac_command [[2, 0, 0, 0, 0, 1]] [[1, 0, 0x5e, 0, 0, 1], [1, 0, 0x5e, 0, 0, 2]]) = 26"
  by (simp add: mac_command_def)

theorem commands_safe_witness:
  "\<exists>st iov' s'. handle_command sample_net_env 0 1 0 (buffer_iov (replicate 7 3)) (sample_card (buffer_mem (replicate 7 3))) = ret (st, iov', s') \<and>
     card_ok s'"
  using commands_safe [of "sample_card (buffer_mem (replicate 7 3))" sample_net_env "buffer_iov (replicate 7 3)" 1 0 0]
    buffer_readable [of "replicate 7 3"] by auto

theorem mac_table_filters_witness:
  "let bs = mac_command [[2, 0, 0, 0, 0, 1]] [[1, 0, 0x5e, 0, 0, 1], [1, 0, 0x5e, 0, 0, 2]] in
   \<exists>iov' s'. virtio_net_handle_mac sample_net_env 0 (buffer_iov bs) (sample_card (buffer_mem bs)) = ret (VIRTIO_NET_OK, iov', s') \<and>
     uni_macs (xn_mac_table (vx_net s')) = [[2, 0, 0, 0, 0, 1]] \<and> accepts (vx_net s') [2, 0, 0, 0, 0, 1, 0, 0, 0, 0, 0, 0, 8, 0, 0, 0] \<and>
     \<not> accepts (vx_net s') [1, 0, 0x5e, 0, 0, 3, 0, 0, 0, 0, 0, 0, 8, 0, 0, 0]"
proof -
  let ?us = "[[2, 0, 0, 0, 0, 1]] :: u8 list list" and ?ms = "[[1, 0, 0x5e, 0, 0, 1], [1, 0, 0x5e, 0, 0, 2]] :: u8 list list"
  define bs where "bs = mac_command ?us ?ms"
  have "length bs = 26" unfolding bs_def by (rule sample_command)
  then have "readable (buffer_mem bs) (buffer_iov bs)" "iov_bytes (buffer_mem bs) (buffer_iov bs) = mac_command ?us ?ms"
      "length (addrs_of (buffer_iov bs)) = 26" using buffer_readable [of bs] by (simp_all add: bs_def)
  then obtain iov' s' where "virtio_net_handle_mac sample_net_env 0 (buffer_iov bs) (sample_card (buffer_mem bs)) = ret (VIRTIO_NET_OK, iov', s')"
      "uni_macs (xn_mac_table (vx_net s')) = ?us" "accepts (vx_net s') = wants ?us ?ms sample_nic"
    using mac_table_filters [of "sample_card (buffer_mem bs)" sample_net_env "buffer_iov bs" ?us ?ms]
    by (auto simp: is_mac_def ETH_ALEN_def uni_fits_def MAC_TABLE_ENTRIES_def)
  moreover have six: "replicate 6 (0xff :: u8) = [0xff, 0xff, 0xff, 0xff, 0xff, 0xff]" by (simp add: numeral_eq_Suc)
  have "wants ?us ?ms sample_nic [2, 0, 0, 0, 0, 1, 0, 0, 0, 0, 0, 0, 8, 0, 0, 0]"
      "\<not> wants ?us ?ms sample_nic [1, 0, 0x5e, 0, 0, 3, 0, 0, 0, 0, 0, 0, 8, 0, 0, 0]"
    by (simp_all add: wants_def frame_vlan_def peek_def uni_fits_def multi_fits_def MAC_TABLE_ENTRIES_def sample_nic_def six)
  ultimately show ?thesis unfolding Let_def bs_def by auto
qed

theorem mac_table_overflows_witness:
  "\<exists>bs. virtio_net_handle_mac sample_net_env 0 (buffer_iov bs) (sample_card (buffer_mem bs)) = fail Overrun"
proof -
  define bs :: "u8 list" where "bs = le_bytes 4 (64 :: u32) @ replicate 384 1 @ le_bytes 4 (- 64 :: u32) @ replicate (2 ^ 32 - 384) 2"
  have l: "length bs < 2 ^ 64" unfolding bs_def length_append length_replicate length_le_bytes by simp
  have "virtio_net_handle_mac sample_net_env 0 (buffer_iov bs) (sample_card (buffer_mem bs)) = fail Overrun"
    by (rule mac_table_overflows [of _ _ _ "replicate 384 1" "replicate (2 ^ 32 - 384) 2"])
      (simp_all only: sample_card_host buffer_readable [OF l] length_replicate bs_def [symmetric])
  then show ?thesis ..
qed

theorem vlan_commands_witness:
  "\<exists>s'. virtio_net_handle_vlan_table sample_net_env 0 (buffer_iov [5, 0]) (sample_card (buffer_mem [5, 0])) = ret (VIRTIO_NET_OK, s') \<and>
     vlan_set (vx_net s') = {5}"
proof -
  have "vlan_set sample_nic = {}" by (auto simp: vlan_set_def MAX_VLAN_def)
  moreover have "le_bytes 2 (of_nat 5 :: u16) = [5, 0]" by code_simp
  ultimately show ?thesis
    using vlan_commands [of "sample_card (buffer_mem [5, 0])" sample_net_env "buffer_iov [5, 0]" 5 0] buffer_readable [of "[5, 0]"] by auto
qed

theorem query_rxfilter_reports_witness:
  "\<exists>info s'. virtio_net_query_rxfilter (sample_card Map.empty) = ret (info, s') \<and> \<not> rf_broadcast_allowed info"
  using query_rxfilter_reports [of "sample_card Map.empty"] by auto

end
