(* ===== verification/NetSaveSpec.thy ===== *)
theory NetSaveSpec
  imports NetCtrlSpec VirtIOSpec
begin

text \<open>
  Migration of the network card: loading what was saved restores the card and its receive filter, and a stream with a
  table of addresses that is too long overruns a buffer.
\<close>

section \<open>Specification\<close>

text \<open>A card with one pair of queues and a vhost-user client, as the creation of the card leaves it.\<close>

definition blank_queue :: "VirtQueue \<Rightarrow> bool" where
  "blank_queue vq \<longleftrightarrow> vri_desc (vq_vring vq) = 0 \<and> vri_avail (vq_vring vq) = 0 \<and> vri_used (vq_vring vq) = 0"

definition new_card :: "vnet \<Rightarrow> bool" where
  "new_card s \<longleftrightarrow>
     net_ok (vx_net s) \<and> \<not> xn_has_vnet_hdr (vx_net s) \<and> xn_max_queues (vx_net s) = 1 \<and> length (xn_vqs (vx_net s)) = 1 \<and>
     (\<exists>nc u. vx_ncs s = [nc] \<and> sq_peer nc = Some (UserPeer u) \<and> nc_type (us_nc u) = KIND_VHOST_USER) \<and>
     length (vd_vq (vi_dev s)) = 64 \<and> (\<forall>j < 3. blank_queue (vd_vq (vi_dev s) ! j)) \<and>
     (\<forall>j < 2. vri_num (vq_vring (vd_vq (vi_dev s) ! j)) \<noteq> 0 \<and> vri_align (vq_vring (vd_vq (vi_dev s) ! j)) = VIRTIO_PCI_VRING_ALIGN)"

text \<open>A table in which the unicast addresses come first.\<close>

definition sorted_table :: "mac_table \<Rightarrow> bool" where
  "sorted_table t \<longleftrightarrow> (\<forall>m \<in> set (uni_macs t). \<not> bit (hd m) 0) \<and> (\<forall>m \<in> set (multi_macs t). bit (hd m) 0)"

text \<open>A card that can be saved.\<close>

definition savable :: "nenv \<Rightarrow> vnet \<Rightarrow> bool" where
  "savable env s \<longleftrightarrow>
     net_ok (vx_net s) \<and> sorted_table (xn_mac_table (vx_net s)) \<and> \<not> xn_vhost_started (vx_net s) \<and> \<not> xn_has_vnet_hdr (vx_net s) \<and>
     \<not> xn_has_ufo (vx_net s) \<and> xn_max_queues (vx_net s) = 1 \<and> xn_vqs (vx_net s) \<noteq> [] \<and>
     (let d = vi_dev s in
      \<not> bit (vd_guest_features d) VIRTIO_NET_F_MQ \<and> vd_guest_features d AND NOT (bc_get_features (ne_bus env)) = 0 \<and>
      length (vd_vq d) = 64 \<and> unat (vd_config_len d) < 2 ^ 31 \<and> length (vd_config d) = unat (vd_config_len d) \<and>
      queue_count d \<le> 3 \<and> (\<forall>j < queue_count d. queue_ok (vi_phys s) (vd_vq d ! j) \<and> vri_align (vq_vring (vd_vq d ! j)) = VIRTIO_PCI_VRING_ALIGN))"

definition sample_saved :: vnet where
  "sample_saved = (sample_card Map.empty)\<lparr>vi_dev := sample_source, vi_phys := sample_phys\<rparr>"

definition sample_new :: vnet where
  "sample_new = (sample_card Map.empty)\<lparr>vi_phys := sample_phys, vi_dev := put_queue 1
     ((fresh_queue 1)\<lparr>vq_vring := \<lparr>vri_num = 2, vri_align = 0x1000, vri_desc = 0, vri_avail = 0, vri_used = 0\<rparr>\<rparr>) (vi_dev sample_target)\<rparr>"

text \<open>Setting the features of a new card makes the control queue again.\<close>

definition new_ctrl :: "VirtIODevice \<Rightarrow> VirtIODevice" where
  "new_ctrl d = d\<lparr>vd_vq := (vd_vq d)[3 := (vd_vq d ! 3)\<lparr>vq_vring := (vq_vring (vd_vq d ! 3))\<lparr>vri_num := 0\<rparr>\<rparr>,
     2 := (vd_vq d ! 2)\<lparr>vq_vring := (vq_vring (vd_vq d ! 2))\<lparr>vri_num := 64, vri_align := VIRTIO_PCI_VRING_ALIGN\<rparr>, vq_handle_output := Some HANDLE_CTRL\<rparr>]\<rparr>"

definition user_clients :: "nic_client list \<Rightarrow> bool" where
  "user_clients ncs \<longleftrightarrow> (\<exists>nc u. ncs = [nc] \<and> sq_peer nc = Some (UserPeer u) \<and> nc_type (us_nc u) = KIND_VHOST_USER)"

definition with_features :: "u32 \<Rightarrow> VirtIONet \<Rightarrow> VirtIONet" where
  "with_features v n = n\<lparr>xn_multiqueue := False, xn_ctrl_vq := Some 2, xn_mergeable_rx_bufs := (if bit v VIRTIO_NET_F_MRG_RXBUF then 1 else 0),
     xn_guest_hdr_len := (if bit v VIRTIO_NET_F_MRG_RXBUF then MRG_HDR_LEN else NET_HDR_LEN)\<rparr>"

text \<open>The steps of loading, on what the steps of saving wrote.\<close>

definition with_modes :: "VirtIONet \<Rightarrow> VirtIONet \<Rightarrow> VirtIONet" where
  "with_modes n m = m\<lparr>xn_mac := xn_mac n, xn_vqs := (xn_vqs m)[0 := (xn_vqs m ! 0)\<lparr>xq_tx_waiting := xq_tx_waiting (hd (xn_vqs n))\<rparr>],
     xn_mergeable_rx_bufs := xn_mergeable_rx_bufs n, xn_guest_hdr_len := (if xn_mergeable_rx_bufs n \<noteq> 0 then MRG_HDR_LEN else NET_HDR_LEN),
     xn_status := xn_status n, xn_promisc := xn_promisc n, xn_allmulti := xn_allmulti n\<rparr>"

definition with_flags :: "VirtIONet \<Rightarrow> VirtIONet \<Rightarrow> VirtIONet" where
  "with_flags n m = m\<lparr>xn_mac_table := (xn_mac_table m)\<lparr>mt_multi_overflow := mt_multi_overflow (xn_mac_table n), mt_uni_overflow := mt_uni_overflow (xn_mac_table n)\<rparr>,
     xn_alluni := xn_alluni n, xn_nomulti := xn_nomulti n, xn_nouni := xn_nouni n, xn_nobcast := xn_nobcast n\<rparr>"

text \<open>The card after loading.\<close>

definition restored :: "VirtIONet \<Rightarrow> VirtIONet \<Rightarrow> VirtIONet" where
  "restored n m =
     (let m = with_modes n m; t = xn_mac_table m;
          m = m\<lparr>xn_mac_table := t\<lparr>mt_in_use := mt_in_use (xn_mac_table n), mt_macs := poke 0 (take (nat (mt_in_use (xn_mac_table n)) * 6) (mt_macs (xn_mac_table n))) (mt_macs t)\<rparr>,
                xn_vlans := xn_vlans n\<rparr> in with_flags n m)"

definition card_stream :: "VirtIONet \<Rightarrow> u32 \<Rightarrow> u8 list" where
  "card_stream n v =
     save_modes n @ put_be 4 (word_of_int (int (nat (mt_in_use (xn_mac_table n)))) :: u32) @
     take (nat (mt_in_use (xn_mac_table n)) * 6) (mt_macs (xn_mac_table n)) @ concat (map (le_bytes 4) (xn_vlans n)) @ put_be 4 (0 :: u32) @
     [mt_multi_overflow (xn_mac_table n), mt_uni_overflow (xn_mac_table n), xn_alluni n, xn_nomulti n, xn_nouni n, xn_nobcast n, 0] @
     (if bit v VIRTIO_NET_F_CTRL_GUEST_OFFLOADS then put_be 8 (xn_curr_guest_offloads n) else []) @ []"

section \<open>Lemmas\<close>

lemma hdr_len_none: "\<not> xn_has_vnet_hdr (vx_net s) \<Longrightarrow> i + k \<le> length (vx_ncs s) \<Longrightarrow> hdr_len_queues env k i s = ret s"
  by (induction k arbitrary: i) (simp_all add: qemu_get_subqueue_def)

lemma user_set_queues:
  assumes "vx_ncs s = [nc]" "sq_peer nc = Some (UserPeer u)" "xn_max_queues (vx_net s) = 1"
  shows "virtio_net_set_queues env s = ret s"
  using assms by (simp add: virtio_net_set_queues_def peer_attach_def peer_detach_def qemu_get_subqueue_def)

lemma del_two: "del_queues 2 2 s = bindE (virtio_del_queue 2 (vi_dev s)) (\<lambda>d. bindE (virtio_del_queue 3 d) (\<lambda>d. ret (s\<lparr>vi_dev := d\<rparr>)))"
  by (simp only: numeral_2_eq_2 del_queues.simps) simp

lemma del_one:
  assumes "length (vd_vq d) = 64" "0 \<le> n" "n < 64"
  shows "virtio_del_queue n d = ret (d\<lparr>vd_vq := (vd_vq d)[nat n := (vd_vq d ! nat n)\<lparr>vq_vring := (vq_vring (vd_vq d ! nat n))\<lparr>vri_num := 0\<rparr>\<rparr>]\<rparr>)"
  using assms by (simp add: virtio_del_queue_def upd_queue_def virtio_get_queue_def put_queue_def VIRTIO_PCI_QUEUE_MAX_def nat_less_iff)

lemma new_ctrl_add:
  assumes "new_card s"
  shows "bindE (del_queues 2 2 s) (\<lambda>s. add_net_queue 64 HANDLE_CTRL s) = ret (2, s\<lparr>vi_dev := new_ctrl (vi_dev s)\<rparr>)"
proof -
  let ?d = "vi_dev s"
  define d2 where "d2 = ?d\<lparr>vd_vq := (vd_vq ?d)[2 := (vd_vq ?d ! 2)\<lparr>vq_vring := (vq_vring (vd_vq ?d ! 2))\<lparr>vri_num := 0\<rparr>\<rparr>,
    3 := (vd_vq ?d ! 3)\<lparr>vq_vring := (vq_vring (vd_vq ?d ! 3))\<lparr>vri_num := 0\<rparr>\<rparr>]\<rparr>"
  have l: "length (vd_vq ?d) = 64" and n: "vri_num (vq_vring (vd_vq ?d ! 0)) \<noteq> 0" "vri_num (vq_vring (vd_vq ?d ! 1)) \<noteq> 0"
    using assms by (simp_all add: new_card_def)
  have del: "del_queues 2 2 s = ret (s\<lparr>vi_dev := d2\<rparr>)"
    using l by (simp add: del_two del_one d2_def)
  obtain a b c e xs where q: "vd_vq ?d = a # b # c # e # xs"
    using l by (cases "vd_vq ?d"; cases "tl (vd_vq ?d)"; cases "tl (tl (vd_vq ?d))"; cases "tl (tl (tl (vd_vq ?d)))") auto
  have upd: "qs[2 := x, 3 := y, 2 := z] = qs[3 := y, 2 := z]" for qs and x y z :: VirtQueue by (subst list_update_swap) simp_all
  have "queue_count d2 = 2" using n unfolding d2_def q by (simp add: queue_count_def)
  then show ?thesis
    unfolding del using l by (simp add: add_net_queue_def virtio_add_queue_def VIRTIO_PCI_QUEUE_MAX_def VIRTQUEUE_MAX_SIZE_def upd_queue_def virtio_get_queue_def put_queue_def
        d2_def new_ctrl_def upd)
qed

lemma user_ack:
  assumes "user_clients (vx_ncs s)"
  shows "\<exists>ncs. ack_features v 1 0 s = ret (s\<lparr>vx_ncs := ncs\<rparr>) \<and> user_clients ncs"
proof -
  obtain nc u where nc: "vx_ncs s = [nc]" "sq_peer nc = Some (UserPeer u)" "nc_type (us_nc u) = KIND_VHOST_USER"
    using assms by (auto simp: user_clients_def)
  show ?thesis
  proof (cases "us_vhost_net u")
    case None
    then show ?thesis using nc
      by (intro exI [of _ "vx_ncs s"]) (simp add: qemu_get_subqueue_def get_vhost_net_def vhost_user_get_vhost_net_def user_clients_def)
  next
    case (Some net)
    let ?ncs = "[put_vhost_net (net\<lparr>vn_dev := vhost_net_ack_features v (vn_dev net)\<rparr>) nc]"
    show ?thesis using nc Some
      by (intro exI [of _ ?ncs])
        (simp add: qemu_get_subqueue_def get_vhost_net_def vhost_user_get_vhost_net_def put_client_def put_vhost_net_def user_clients_def)
  qed
qed

lemma new_card_features:
  assumes "new_card s" "\<not> bit v VIRTIO_NET_F_MQ"
  shows "\<exists>ncs. virtio_net_set_features env v s = ret (s\<lparr>vi_dev := new_ctrl (vi_dev s), vx_net := with_features v (vx_net s), vx_ncs := ncs\<rparr>) \<and>
    user_clients ncs"
proof -
  let ?s1 = "s\<lparr>vx_net := (vx_net s)\<lparr>xn_multiqueue := False\<rparr>\<rparr>"
  let ?s2 = "s\<lparr>vi_dev := new_ctrl (vi_dev s), vx_net := (vx_net s)\<lparr>xn_multiqueue := False, xn_ctrl_vq := Some 2\<rparr>\<rparr>"
  let ?s3 = "s\<lparr>vi_dev := new_ctrl (vi_dev s), vx_net := with_features v (vx_net s)\<rparr>"
  have mq: "xn_max_queues (vx_net s) = 1" and hdr: "\<not> xn_has_vnet_hdr (vx_net s)" and uc: "user_clients (vx_ncs s)"
    using assms(1) by (auto simp: new_card_def user_clients_def)
  then obtain nc u where nc: "vx_ncs s = [nc]" "sq_peer nc = Some (UserPeer u)" by (auto simp: user_clients_def)
  have "new_card ?s1" using assms(1) by (simp add: new_card_def net_ok_def)
  from new_ctrl_add [OF this] have "virtio_net_set_multiqueue env False s = virtio_net_set_queues env ?s2"
    using mq by (auto simp: virtio_net_set_multiqueue_def upd_net_def Let_def bindE_eq_ret)
  also have "\<dots> = ret ?s2" using nc mq by (intro user_set_queues) simp_all
  finally have m: "virtio_net_set_multiqueue env False s = ret ?s2" .
  have h: "virtio_net_set_mrg_rx_bufs env (if bit v VIRTIO_NET_F_MRG_RXBUF then 1 else 0) ?s2 = ret ?s3"
    using mq hdr nc by (simp add: virtio_net_set_mrg_rx_bufs_def upd_net_def with_features_def qemu_get_subqueue_def Let_def)
  obtain ncs where "ack_features v 1 0 ?s3 = ret (?s3\<lparr>vx_ncs := ncs\<rparr>)" "user_clients ncs" using user_ack [of ?s3 v] uc by auto
  moreover have "unat (xn_max_queues (with_features v (vx_net s))) = 1" "\<not> xn_has_vnet_hdr (with_features v (vx_net s))"
    using mq hdr by (simp_all add: with_features_def)
  ultimately show ?thesis
    unfolding virtio_net_set_features_def using assms(2) m h by (intro exI [of _ ncs]) (simp del: ack_features.simps)
qed

lemma get_buffer_saved: "length bs \<le> length buf \<Longrightarrow> qemu_get_buffer buf (int (length bs)) (bs @ f) = ret (poke 0 bs buf, f)"
  by (simp add: qemu_get_buffer_def)

lemma get_byte: "get_be (Suc 0) (b # f) = (b, f)" for b :: u8
  by (simp add: get_be_def)

lemma load_modes_saved:
  assumes "\<not> xn_has_vnet_hdr (vx_net s)" "unat (xn_max_queues (vx_net s)) \<le> length (vx_ncs s)" "length (xn_vqs (vx_net s)) = 1"
    "length (xn_mac (vx_net s)) = 6" "length (xn_mac n) = 6" "xn_vqs n \<noteq> []"
  shows "load_modes env 11 (s, save_modes n @ f) = ret (s\<lparr>vx_net := with_modes n (vx_net s)\<rparr>, f)"
proof -
  obtain q qs where q: "xn_vqs n = q # qs" using assms(6) by (cases "xn_vqs n") auto
  have b: "qemu_get_buffer (xn_mac (vx_net s)) (int ETH_ALEN) (xn_mac n @ g) = ret (xn_mac n, g)" for g
    using get_buffer_saved [of "xn_mac n" "xn_mac (vx_net s)" g] assms(4,5) by (simp add: ETH_ALEN_def poke_def)
  have m: "virtio_net_set_mrg_rx_bufs env w t = ret (t\<lparr>vx_net := (vx_net t)\<lparr>xn_mergeable_rx_bufs := w,
      xn_guest_hdr_len := (if w \<noteq> 0 then MRG_HDR_LEN else NET_HDR_LEN)\<rparr>\<rparr>)"
    if "\<not> xn_has_vnet_hdr (vx_net t)" "unat (xn_max_queues (vx_net t)) \<le> length (vx_ncs t)" for w t
    using that by (simp add: virtio_net_set_mrg_rx_bufs_def upd_net_def hdr_len_none Let_def)
  show ?thesis
    unfolding load_modes_def save_modes_def waiting_words_def prod.case append_assoc b bindE_ret
    using assms(1-3) by (simp add: q get_put_be get_byte set_waiting_def upd_netq_def get_netq_def put_netq_def upd_net_def m with_modes_def)
qed

lemma load_macs_saved:
  assumes "k \<le> 64" "length macs = k * 6" "length (mt_macs (xn_mac_table m)) = 384"
  shows "load_macs 11 (m, put_be 4 (word_of_int (int k) :: u32) @ macs @ f) =
    ret (m\<lparr>xn_mac_table := (xn_mac_table m)\<lparr>mt_in_use := int k, mt_macs := poke 0 macs (mt_macs (xn_mac_table m))\<rparr>\<rparr>, f)"
proof -
  have "unat (word_of_int (int k) :: u32) = k" using assms(1) by (simp add: unat_of_nat)
  then have "int_of_u32 (word_of_int (int k)) = int k" using assms(1) by (subst int_of_u32_small) simp_all
  moreover have "unat (word_of_int (int k) * of_nat ETH_ALEN :: u32) = k * 6" using assms(1) by (simp add: ETH_ALEN_def unat_word_ariths unat_of_nat)
  then have "int_of_u32 (word_of_int (int k) * of_nat ETH_ALEN) = int (length macs)" using assms(1,2) by (subst int_of_u32_small) simp_all
  moreover have "qemu_get_buffer (mt_macs (xn_mac_table m)) (int (length macs)) (macs @ f) = ret (poke 0 macs (mt_macs (xn_mac_table m)), f)"
    by (rule get_buffer_saved) (use assms in simp)
  ultimately show ?thesis
    using assms(1) by (simp add: load_macs_def get_put_be MAC_TABLE_ENTRIES_def Let_def)
qed

lemma words_of_bytes: "words_of (concat (map (le_bytes 4) ws)) = ws" for ws :: "u32 list"
proof (induction ws)
  case (Cons w ws)
  obtain a b c d where w: "le_bytes 4 w = [a, b, c, d]"
    using length_le_bytes [of 4 w] by (auto simp: length_Suc_conv numeral_eq_Suc)
  then have "of_le [a, b, c, d] = w" using of_le_le_bytes [of 4 w] by simp
  then show ?case using Cons w by simp
qed simp

lemma load_vlans_saved:
  assumes "length ws = 128" "length (xn_vlans m) = 128"
  shows "load_vlans 11 (m, concat (map (le_bytes 4) ws) @ f) = ret (m\<lparr>xn_vlans := ws\<rparr>, f)"
proof -
  have l: "length (concat (map (le_bytes 4) vs)) = 4 * length vs" for vs :: "u32 list" by (induction vs) simp_all
  have "qemu_get_buffer (concat (map (le_bytes 4) (xn_vlans m))) (int (MAX_VLAN div 8)) (concat (map (le_bytes 4) ws) @ f) =
      ret (concat (map (le_bytes 4) ws), f)"
    using get_buffer_saved [of "concat (map (le_bytes 4) ws)" "concat (map (le_bytes 4) (xn_vlans m))" f] assms
    by (simp add: l MAX_VLAN_def poke_def)
  then show ?thesis by (simp add: load_vlans_def words_of_bytes)
qed

lemma load_flags_saved:
  "load_flags 11 (s, put_be 4 (0 :: u32) @ [mt_multi_overflow (xn_mac_table n), mt_uni_overflow (xn_mac_table n), xn_alluni n, xn_nomulti n, xn_nouni n,
     xn_nobcast n, 0] @ f) = ret (True, s\<lparr>vx_net := with_flags n (vx_net s)\<rparr>, f)"
  by (simp add: load_flags_def get_put_be get_byte upd_net_def with_flags_def Let_def)

lemma load_offloads_none:
  assumes "\<not> xn_has_vnet_hdr (vx_net s)"
  shows "load_offloads (s, (if bit (vd_guest_features (vi_dev s)) VIRTIO_NET_F_CTRL_GUEST_OFFLOADS then put_be 8 ol else []) @ f) =
    ret (s\<lparr>vx_net := (vx_net s)\<lparr>xn_curr_guest_offloads :=
      (if bit (vd_guest_features (vi_dev s)) VIRTIO_NET_F_CTRL_GUEST_OFFLOADS then ol else virtio_net_supported_guest_offloads s)\<rparr>\<rparr>, f)"
  using assms by (simp add: load_offloads_def get_put_be upd_net_def)

text \<open>Where the multicast addresses begin.\<close>

lemma first_multi_spec:
  assumes "length (mt_macs t) = 384" "a + b \<le> 64" "i \<le> a"
    "\<And>j. j < a \<Longrightarrow> \<not> bit (hd (mac_entry t j)) 0" "\<And>j. a \<le> j \<Longrightarrow> j < a + b \<Longrightarrow> bit (hd (mac_entry t j)) 0"
  shows "first_multi t (a + b - i) (int i) = ret (int a)"
  using assms(3)
proof (induction "a - i" arbitrary: i)
  case 0
  then have i: "i = a" by simp
  show ?case
  proof (cases b)
    case (Suc b')
    have "byte_at (mt_macs t) (int a * int ETH_ALEN) = ret (hd (mac_entry t a))"
      using assms(1,2) Suc by (simp add: byte_at_def mac_entry_def peek_def ETH_ALEN_def nat_mult_distrib hd_drop_conv_nth)
    then show ?thesis using Suc i assms(5) [of a] by simp
  qed (use i in simp)
next
  case (Suc k)
  then have i: "i < a" by simp
  then obtain m where m: "a + b - i = Suc m" "m = a + b - Suc i" by (metis Suc_diff_Suc trans_less_add1)
  have "byte_at (mt_macs t) (int i * int ETH_ALEN) = ret (hd (mac_entry t i))"
    using assms(1,2) i by (simp add: byte_at_def mac_entry_def peek_def ETH_ALEN_def nat_mult_distrib hd_drop_conv_nth)
  moreover have "first_multi t m (int (Suc i)) = ret (int a)" unfolding m(2) using Suc i by (intro Suc.hyps) simp_all
  ultimately show ?case using m(1) assms(4) [OF i] by (simp add: add.commute)
qed

text \<open>The part of the stream that every virtio device has.\<close>

lemma new_ctrl_blank:
  assumes "new_card s" "j < 3" "vri_align (vq_vring vq) = VIRTIO_PCI_VRING_ALIGN"
  shows "blank_for k vq (vd_vq (new_ctrl (vi_dev s)) ! j)"
proof -
  have "j = 0 \<or> j = 1 \<or> j = 2" using assms(2) by auto
  then show ?thesis
    using assms(1,3) by (auto simp: blank_for_def new_ctrl_def new_card_def blank_queue_def)
qed

lemma load_common:
  assumes "savable env s0" "new_card s" "bus_codec (ne_bus env)" "vi_phys s = vi_phys s0" "length (vd_config (vi_dev s)) = length (vd_config (vi_dev s0))"
  shows "\<exists>s2. virtio_load (ne_bus env) (virtio_net_class env) (virtio_save (ne_bus env) (vi_dev s0) @ rest) s = ret (0, s2, rest) \<and>
    vx_net s2 = with_features (vd_guest_features (vi_dev s0)) (vx_net s) \<and> user_clients (vx_ncs s2) \<and> same_registers (vi_dev s0) (vi_dev s2) \<and>
    (\<forall>j < queue_count (vi_dev s0). ring_state (vd_vq (vi_dev s2) ! j) = ring_state (vd_vq (vi_dev s0) ! j))"
proof -
  let ?d = "vi_dev s0" and ?k = "ne_bus env"
  let ?s = "s\<lparr>vi_dev := (vi_dev s)\<lparr>vd_status := vd_status ?d, vd_isr := vd_isr ?d, vd_queue_sel := vd_queue_sel ?d\<rparr>\<rparr>"
  have new: "new_card ?s" using assms(2) by (simp add: new_card_def)
  note sv = assms(1) [unfolded savable_def Let_def]
  obtain ncs where ncs: "virtio_net_set_features env (vd_guest_features ?d) ?s =
      ret (?s\<lparr>vi_dev := new_ctrl (vi_dev ?s), vx_net := with_features (vd_guest_features ?d) (vx_net ?s), vx_ncs := ncs\<rparr>)" "user_clients ncs"
    using new_card_features [OF new] sv by blast
  define s1 where "s1 = ?s\<lparr>vi_dev := new_ctrl (vi_dev ?s), vx_net := with_features (vd_guest_features ?d) (vx_net ?s), vx_ncs := ncs\<rparr>"
  have cb: "opt_call (dc_set_features (virtio_net_class env)) (vd_guest_features ?d) ?s = ret s1"
    using ncs(1) by (simp add: opt_call_def virtio_net_class_def s1_def)
  have len: "length (vd_vq (vi_dev s1)) = 64" "length (vd_config (vi_dev s1)) = unat (vd_config_len ?d)"
    using assms(2,5) sv by (simp_all add: s1_def new_ctrl_def new_card_def)
  have q: "queue_ok (vi_phys s1) (vd_vq ?d ! j) \<and> blank_for ?k (vd_vq ?d ! j) (vd_vq (vi_dev s1) ! j)" if "j < queue_count ?d" for j
    using that sv new_ctrl_blank [OF new, of j "vd_vq ?d ! j" ?k] assms(4) by (auto simp: s1_def)
  have "vd_status (vi_dev s1) = vd_status ?d" "vd_isr (vi_dev s1) = vd_isr ?d" "vd_queue_sel (vi_dev s1) = vd_queue_sel ?d"
    by (simp_all add: s1_def new_ctrl_def)
  then show ?thesis
    using load_saved [OF assms(3) _ cb _ len(1) _ _ len(2) q, of rest] sv ncs(2)
    by (auto simp: same_registers_def virtio_notify_vector_def s1_def)
qed

lemma restored_entry:
  assumes "net_ok n" "net_ok m" "j < nat (mt_in_use (xn_mac_table n))"
  shows "mac_entry (xn_mac_table (restored n m)) j = mac_entry (xn_mac_table n) j"
proof -
  let ?k = "nat (mt_in_use (xn_mac_table n))"
  have l: "length (mt_macs (xn_mac_table n)) = 384" "length (mt_macs (xn_mac_table m)) = 384" "?k \<le> 64"
    using assms(1,2) by (auto simp: net_ok_def MAC_TABLE_ENTRIES_def ETH_ALEN_def)
  have "peek (j * 6) 6 (poke 0 (take (?k * 6) (mt_macs (xn_mac_table n))) (mt_macs (xn_mac_table m))) = peek (j * 6) 6 (take (?k * 6) (mt_macs (xn_mac_table n)))"
    unfolding poke_def using l assms(3) by (simp add: peek_append_left)
  also have "\<dots> = peek (j * 6) 6 (mt_macs (xn_mac_table n))" by (rule peek_take) (use assms(3) in simp)
  finally show ?thesis by (simp add: mac_entry_def ETH_ALEN_def restored_def with_modes_def with_flags_def Let_def)
qed

lemma restored_accepts:
  assumes "net_ok n" "net_ok m" "t = (xn_mac_table (restored n m))\<lparr>mt_first_multi := mt_first_multi (xn_mac_table n)\<rparr>"
    "m' = (restored n m)\<lparr>xn_curr_guest_offloads := ol, xn_mac_table := t\<rparr>"
  shows "net_ok m'" "accepts m' = accepts n"
proof -
  have e: "mac_entry t j = mac_entry (xn_mac_table n) j" if "j < nat (mt_in_use (xn_mac_table n))" for j
    using restored_entry [OF assms(1,2) that] assms(3) by (simp add: mac_entry_def)
  have i: "mt_in_use t = mt_in_use (xn_mac_table n)" "mt_first_multi t = mt_first_multi (xn_mac_table n)"
    using assms(3) by (simp_all add: restored_def with_modes_def with_flags_def Let_def)
  have f: "mt_first_multi (xn_mac_table n) \<le> mt_in_use (xn_mac_table n)" using assms(1) by (simp add: net_ok_def)
  have u: "uni_macs t = uni_macs (xn_mac_table n)" and mu: "multi_macs t = multi_macs (xn_mac_table n)"
    unfolding uni_macs_def multi_macs_def i using f by (auto intro!: map_cong e)
  have v: "vlan_set m' = vlan_set n" using assms(4) by (simp add: vlan_set_def restored_def with_modes_def with_flags_def Let_def)
  show "net_ok m'"
    using assms by (simp add: net_ok_def restored_def with_modes_def with_flags_def Let_def MAC_TABLE_ENTRIES_def ETH_ALEN_def)
  show "accepts m' = accepts n"
    unfolding accepts_def [abs_def] v
    using u mu assms(3,4) by (simp add: restored_def with_modes_def with_flags_def Let_def)
qed


lemma card_saved:
  assumes "savable env s"
  shows "virtio_net_save env s = ret (virtio_save (ne_bus env) (vi_dev s) @ card_stream (vx_net s) (vd_guest_features (vi_dev s)))"
proof -
  let ?n = "vx_net s" and ?t = "xn_mac_table (vx_net s)"
  have ok: "net_ok ?n" "\<not> xn_vhost_started ?n" "\<not> xn_has_vnet_hdr ?n" "\<not> xn_has_ufo ?n" "xn_max_queues ?n = 1" "xn_vqs ?n \<noteq> []"
    using assms by (simp_all add: savable_def)
  have k: "0 \<le> mt_in_use ?t" "mt_in_use ?t \<le> 64" "length (mt_macs ?t) = 384"
    using ok(1) by (simp_all add: net_ok_def MAC_TABLE_ENTRIES_def ETH_ALEN_def)
  then have "bytes_at (mt_macs ?t) 0 (mt_in_use ?t * int ETH_ALEN) = ret (take (nat (mt_in_use ?t) * 6) (mt_macs ?t))"
    by (simp add: bytes_at_def peek_def ETH_ALEN_def nat_mult_distrib nat_le_iff)
  then show ?thesis
    using ok k(1) by (simp add: virtio_net_save_def get_netq_def save_pairs_def save_filter_def flag_byte_def card_stream_def Let_def)
qed

lemma finish_restored:
  assumes "net_ok n" "net_ok m" "sorted_table (xn_mac_table n)" "vx_net s = (restored n m)\<lparr>xn_curr_guest_offloads := ol\<rparr>" "vx_ncs s = [nc]"
    "xn_max_queues m = 1"
  shows "finish_load s = ret (s\<lparr>vx_net := (vx_net s)\<lparr>xn_mac_table := (xn_mac_table (restored n m))\<lparr>mt_first_multi := mt_first_multi (xn_mac_table n)\<rparr>\<rparr>,
    vx_ncs := [nc\<lparr>sq_link_down := (xn_status n AND VIRTIO_NET_S_LINK_UP = 0)\<rparr>]\<rparr>)"
proof -
  let ?t = "xn_mac_table n" and ?r = "xn_mac_table (restored n m)"
  let ?a = "nat (mt_first_multi ?t)" and ?k = "nat (mt_in_use ?t)"
  have k: "?k \<le> 64" "?a \<le> ?k" "int ?a = mt_first_multi ?t" using assms(1) by (auto simp: net_ok_def MAC_TABLE_ENTRIES_def)
  have r: "length (mt_macs ?r) = 384" "mt_in_use ?r = mt_in_use ?t" "xn_status (restored n m) = xn_status n" "xn_max_queues (restored n m) = 1"
    using assms(1,2,6) by (auto simp: restored_def with_modes_def with_flags_def Let_def net_ok_def MAC_TABLE_ENTRIES_def ETH_ALEN_def)
  have "first_multi ?r (?a + (?k - ?a) - 0) (int 0) = ret (int ?a)"
  proof (rule first_multi_spec [OF r(1)])
    fix j assume "j < ?a"
    then show "\<not> bit (hd (mac_entry ?r j)) 0"
      using assms(3) k(2) restored_entry [OF assms(1,2), of j] by (auto simp: sorted_table_def uni_macs_def)
  next
    fix j assume "?a \<le> j" "j < ?a + (?k - ?a)"
    then show "bit (hd (mac_entry ?r j)) 0"
      using assms(3) k(2) restored_entry [OF assms(1,2), of j] by (auto simp: sorted_table_def multi_macs_def)
  qed (use k in simp_all)
  then have "first_multi ?r ?k 0 = ret (mt_first_multi ?t)" using k by simp
  then show ?thesis using r assms(4,5) by (simp add: finish_load_def upd_net_def Let_def)
qed

lemma load_rest:
  assumes "virtio_load (ne_bus env) (virtio_net_class env) f s = ret (0, s2, card_stream n v)" "vd_guest_features (vi_dev s2) = v"
    "net_ok n" "xn_vqs n \<noteq> []" "sorted_table (xn_mac_table n)" "net_ok (vx_net s2)" "\<not> xn_has_vnet_hdr (vx_net s2)"
    "xn_max_queues (vx_net s2) = 1" "length (xn_vqs (vx_net s2)) = 1" "vx_ncs s2 = [nc]" "sq_peer nc = Some (UserPeer u)"
  shows "\<exists>ol. virtio_net_load env 11 f s = ret (0, s2\<lparr>vx_net := (restored n (vx_net s2))\<lparr>xn_curr_guest_offloads := ol,
      xn_mac_table := (xn_mac_table (restored n (vx_net s2)))\<lparr>mt_first_multi := mt_first_multi (xn_mac_table n)\<rparr>\<rparr>,
      vx_ncs := [nc\<lparr>sq_link_down := (xn_status n AND VIRTIO_NET_S_LINK_UP = 0)\<rparr>]\<rparr>)"
proof -
  let ?m = "vx_net s2" and ?M = "with_modes n (vx_net s2)"
  define k where "k = nat (mt_in_use (xn_mac_table n))"
  have kk: "k \<le> 64" "int k = mt_in_use (xn_mac_table n)" using assms(3) by (auto simp: net_ok_def MAC_TABLE_ENTRIES_def k_def)
  have lm: "length (take (k * 6) (mt_macs (xn_mac_table n))) = k * 6" "length (xn_vlans n) = 128" "length (xn_mac n) = 6"
    using assms(3) kk(1) by (simp_all add: net_ok_def MAC_TABLE_ENTRIES_def ETH_ALEN_def MAX_VLAN_def)
  have l2: "length (mt_macs (xn_mac_table ?M)) = 384" "length (xn_vlans ?M) = 128" "length (xn_mac ?m) = 6"
    using assms(6) by (simp_all add: with_modes_def net_ok_def MAC_TABLE_ENTRIES_def ETH_ALEN_def MAX_VLAN_def)
  have modes: "load_modes env 11 (s2, save_modes n @ g) = ret (s2\<lparr>vx_net := ?M\<rparr>, g)" for g
    by (rule load_modes_saved) (use assms lm(3) l2(3) in simp_all)
  let ?T = "?M\<lparr>xn_mac_table := (xn_mac_table ?M)\<lparr>mt_in_use := int k, mt_macs := poke 0 (take (k * 6) (mt_macs (xn_mac_table n))) (mt_macs (xn_mac_table ?M))\<rparr>\<rparr>"
  have vl: "load_vlans 11 (?T, concat (map (le_bytes 4) (xn_vlans n)) @ g) = ret (?T\<lparr>xn_vlans := xn_vlans n\<rparr>, g)" for g
    by (rule load_vlans_saved) (use lm(2) l2(2) in simp_all)
  have R: "with_flags n (?T\<lparr>xn_vlans := xn_vlans n\<rparr>) = restored n ?m" unfolding restored_def Let_def kk(2) k_def [symmetric] by simp
  have res: "xn_max_queues (restored n ?m) = 1" "\<not> xn_has_vnet_hdr (restored n ?m)"
    using assms(7,8) by (simp_all add: restored_def with_modes_def with_flags_def Let_def)
  let ?s = "s2\<lparr>vx_net := restored n ?m\<rparr>"
  obtain ol where ol: "load_offloads (?s, (if bit v VIRTIO_NET_F_CTRL_GUEST_OFFLOADS then put_be 8 (xn_curr_guest_offloads n) else []) @ []) =
      ret (?s\<lparr>vx_net := (restored n ?m)\<lparr>xn_curr_guest_offloads := ol\<rparr>\<rparr>, [])"
    using load_offloads_none [of ?s "xn_curr_guest_offloads n" "[]"] res(2) assms(2) by auto
  let ?s' = "?s\<lparr>vx_net := (restored n ?m)\<lparr>xn_curr_guest_offloads := ol\<rparr>\<rparr>"
  have q: "virtio_net_set_queues env ?s' = ret ?s'" by (rule user_set_queues) (use assms(10,11) res(1) in simp_all)
  have fin: "finish_load ?s' = ret (?s'\<lparr>vx_net := (vx_net ?s')\<lparr>xn_mac_table := (xn_mac_table (restored n ?m))\<lparr>mt_first_multi := mt_first_multi (xn_mac_table n)\<rparr>\<rparr>,
      vx_ncs := [nc\<lparr>sq_link_down := (xn_status n AND VIRTIO_NET_S_LINK_UP = 0)\<rparr>]\<rparr>)"
    by (rule finish_restored) (use assms in simp_all)
  have ver: "\<not> ((11 :: int) < 2 \<or> (11 :: int) > VIRTIO_NET_VM_VERSION)" by (simp add: VIRTIO_NET_VM_VERSION_def)
  have vn: "vx_net (s2\<lparr>vx_net := r\<rparr>) = r" for r by simp
  have up: "upd_net (\<lambda>_. p) (s2\<lparr>vx_net := r\<rparr>) = s2\<lparr>vx_net := p\<rparr>" for p r by (simp add: upd_net_def)
  have fl: "load_flags 11 (s2\<lparr>vx_net := ?T\<lparr>xn_vlans := xn_vlans n\<rparr>\<rparr>, put_be 4 (0 :: u32) @ [mt_multi_overflow (xn_mac_table n), mt_uni_overflow (xn_mac_table n),
      xn_alluni n, xn_nomulti n, xn_nouni n, xn_nobcast n, 0] @ g) = ret (True, ?s, g)" for g
    unfolding load_flags_saved using R by simp
  have pr: "load_pairs (?s, g) = ret (True, ?s, g)" for g using res(1) by (simp add: load_pairs_def)
  have "virtio_net_load env 11 f s = ret (0, ?s'\<lparr>vx_net := (vx_net ?s')\<lparr>xn_mac_table := (xn_mac_table (restored n ?m))\<lparr>mt_first_multi := mt_first_multi (xn_mac_table n)\<rparr>\<rparr>,
      vx_ncs := [nc\<lparr>sq_link_down := (xn_status n AND VIRTIO_NET_S_LINK_UP = 0)\<rparr>]\<rparr>)"
    unfolding virtio_net_load_def if_not_P [OF ver] assms(1) bindE_ret prod.case card_stream_def k_def [symmetric]
    by (simp only: modes vn load_macs_saved [OF kk(1) lm(1) l2(1)] vl simp_thms if_False if_True prod.case bindE_ret up fl pr ol q fin)
  then show ?thesis by (intro exI [of _ ol]) simp
qed

section \<open>Properties\<close>

text \<open>
  C16. Migration restores the card: what the destination loads, a new card of the same configuration with a vhost-user
  client, has the registers, the configuration and the rings of the card that was saved, the same status, header format
  and waiting flag, and its receive filter accepts exactly the same frames.  The table that is saved has to have its
  multicast addresses behind the unicast ones, as the destination finds the first of them by its lowest bit.
\<close>

theorem net_migration_restores:
  assumes "savable env s0" "new_card s" "bus_codec (ne_bus env)" "vi_phys s = vi_phys s0" "length (vd_config (vi_dev s)) = length (vd_config (vi_dev s0))"
  shows "\<exists>f s'. virtio_net_save env s0 = ret f \<and> virtio_net_load env VIRTIO_NET_VM_VERSION f s = ret (0, s') \<and>
    same_registers (vi_dev s0) (vi_dev s') \<and>
    (\<forall>j < queue_count (vi_dev s0). ring_state (vd_vq (vi_dev s') ! j) = ring_state (vd_vq (vi_dev s0) ! j)) \<and>
    net_ok (vx_net s') \<and> accepts (vx_net s') = accepts (vx_net s0) \<and>
    xn_status (vx_net s') = xn_status (vx_net s0) \<and> xn_mergeable_rx_bufs (vx_net s') = xn_mergeable_rx_bufs (vx_net s0) \<and>
    map xq_tx_waiting (xn_vqs (vx_net s')) = map xq_tx_waiting (take 1 (xn_vqs (vx_net s0))) \<and>
    map sq_link_down (vx_ncs s') = [xn_status (vx_net s0) AND VIRTIO_NET_S_LINK_UP = 0]"
proof -
  let ?n = "vx_net s0" and ?v = "vd_guest_features (vi_dev s0)" and ?m = "with_features (vd_guest_features (vi_dev s0)) (vx_net s)"
  have ok: "net_ok ?n" "xn_vqs ?n \<noteq> []" "sorted_table (xn_mac_table ?n)" using assms(1) by (simp_all add: savable_def)
  have m: "net_ok ?m" "\<not> xn_has_vnet_hdr ?m" "xn_max_queues ?m = 1" "length (xn_vqs ?m) = 1"
    using assms(2) by (simp_all add: new_card_def net_ok_def with_features_def)
  obtain s2 where s2: "virtio_load (ne_bus env) (virtio_net_class env) (virtio_save (ne_bus env) (vi_dev s0) @ card_stream ?n ?v) s = ret (0, s2, card_stream ?n ?v)"
      "vx_net s2 = ?m" "user_clients (vx_ncs s2)" "same_registers (vi_dev s0) (vi_dev s2)"
      "\<forall>j < queue_count (vi_dev s0). ring_state (vd_vq (vi_dev s2) ! j) = ring_state (vd_vq (vi_dev s0) ! j)"
    using load_common [OF assms, of "card_stream ?n ?v"] by blast
  obtain nc u where nc: "vx_ncs s2 = [nc]" "sq_peer nc = Some (UserPeer u)" using s2(3) by (auto simp: user_clients_def)
  have v: "vd_guest_features (vi_dev s2) = ?v" using s2(4) by (simp add: same_registers_def)
  define t where "t = (xn_mac_table (restored ?n ?m))\<lparr>mt_first_multi := mt_first_multi (xn_mac_table ?n)\<rparr>"
  obtain ol where ld: "virtio_net_load env 11 (virtio_save (ne_bus env) (vi_dev s0) @ card_stream ?n ?v) s =
      ret (0, s2\<lparr>vx_net := (restored ?n ?m)\<lparr>xn_curr_guest_offloads := ol, xn_mac_table := t\<rparr>,
        vx_ncs := [nc\<lparr>sq_link_down := (xn_status ?n AND VIRTIO_NET_S_LINK_UP = 0)\<rparr>]\<rparr>)"
    using load_rest [OF s2(1) v ok, unfolded s2(2), OF m nc] by (auto simp: t_def)
  have "map xq_tx_waiting (xn_vqs (restored ?n ?m)) = map xq_tx_waiting (take 1 (xn_vqs ?n))"
    using m(4) ok(2) by (cases "xn_vqs ?n"; cases "xn_vqs ?m") (auto simp: restored_def with_modes_def with_flags_def Let_def)
  moreover have "xn_status (restored ?n ?m) = xn_status ?n" "xn_mergeable_rx_bufs (restored ?n ?m) = xn_mergeable_rx_bufs ?n"
    by (simp_all add: restored_def with_modes_def with_flags_def Let_def)
  ultimately show ?thesis
    using card_saved [OF assms(1)] ld s2(4,5) restored_accepts [OF ok(1) m(1) t_def refl, of ol] by (simp add: VIRTIO_NET_VM_VERSION_def)
qed

text \<open>
  C33. A migration stream whose table has more than 64 addresses is read into a buffer of one byte for each address,
  and each address has six: loading writes past the end of the buffer, whatever follows.
\<close>

theorem net_load_overruns:
  assumes "savable env s0" "new_card s" "bus_codec (ne_bus env)" "vi_phys s = vi_phys s0" "length (vd_config (vi_dev s)) = length (vd_config (vi_dev s0))"
    "64 < k" "k < 2 ^ 28" "k < length f"
  shows "virtio_net_load env VIRTIO_NET_VM_VERSION
    (virtio_save (ne_bus env) (vi_dev s0) @ save_modes (vx_net s0) @ put_be 4 (of_nat k :: u32) @ f) s = fail Overrun"
proof -
  let ?n = "vx_net s0" and ?m = "with_features (vd_guest_features (vi_dev s0)) (vx_net s)"
  let ?rest = "save_modes ?n @ put_be 4 (of_nat k :: u32) @ f"
  obtain s2 where s2: "virtio_load (ne_bus env) (virtio_net_class env) (virtio_save (ne_bus env) (vi_dev s0) @ ?rest) s = ret (0, s2, ?rest)"
      "vx_net s2 = ?m" "user_clients (vx_ncs s2)"
    using load_common [OF assms(1-5), of ?rest] by blast
  have "load_modes env 11 (s2, save_modes ?n @ g) = ret (s2\<lparr>vx_net := with_modes ?n (vx_net s2)\<rparr>, g)" for g
    by (rule load_modes_saved) (use assms(1,2) s2(2,3) in \<open>auto simp: savable_def new_card_def net_ok_def with_features_def user_clients_def ETH_ALEN_def\<close>)
  moreover have "int_of_u32 (of_nat k) = int k" "int_of_u32 (of_nat k * of_nat ETH_ALEN) = int (6 * k)"
    using assms(7) by (subst int_of_u32_small; simp add: ETH_ALEN_def unat_word_ariths unat_of_nat)+
  then have "load_macs 11 (p, put_be 4 (of_nat k :: u32) @ f) = fail Overrun" for p
    using assms(6,8) by (simp add: load_macs_def get_put_be MAC_TABLE_ENTRIES_def qemu_get_buffer_def Let_def)
  ultimately show ?thesis using s2(1) by (simp add: virtio_net_load_def VIRTIO_NET_VM_VERSION_def)
qed

section \<open>Examples\<close>

lemma sample_savable: "savable sample_net_env sample_saved"
proof -
  have "vri_align (vq_vring (vd_vq sample_source ! 0)) = VIRTIO_PCI_VRING_ALIGN"
    by (simp add: sample_source_def put_queue_def sample_queues virtqueue_init_def Let_def VIRTIO_PCI_VRING_ALIGN_def)
  moreover have "\<not> bit (0x20000000 :: u32) VIRTIO_NET_F_MQ" by (simp add: VIRTIO_NET_F_MQ_def bit_numeral_rec)
  moreover have "bc_get_features (ne_bus sample_net_env) = 0x21000000" by (simp add: sample_net_env_def sample_net_bus_def)
  ultimately show ?thesis
    using sample_source_queue(1) by (simp add: savable_def sample_saved_def sample_source_simps sorted_table_def uni_macs_def multi_macs_def)
      (simp add: sample_nic_def)
qed

lemma sample_new_card: "new_card sample_new"
proof -
  have q: "vd_vq (vi_dev sample_new) = [(fresh_queue 0)\<lparr>vq_vring := \<lparr>vri_num = 2, vri_align = 0x1000, vri_desc = 0, vri_avail = 0, vri_used = 0\<rparr>\<rparr>,
      (fresh_queue 1)\<lparr>vq_vring := \<lparr>vri_num = 2, vri_align = 0x1000, vri_desc = 0, vri_avail = 0, vri_used = 0\<rparr>\<rparr>] @ map fresh_queue [2 ..< 64]"
    by (simp add: sample_new_def sample_target_def put_queue_def sample_queues)
  have "vd_vq (vi_dev sample_new) ! 2 = fresh_queue 2" unfolding q by (simp add: nth_append)
  then have "\<forall>j < 3. blank_queue (vd_vq (vi_dev sample_new) ! j)" "\<forall>j < 2. vri_num (vq_vring (vd_vq (vi_dev sample_new) ! j)) \<noteq> 0 \<and>
      vri_align (vq_vring (vd_vq (vi_dev sample_new) ! j)) = VIRTIO_PCI_VRING_ALIGN"
    unfolding q by (auto simp: less_Suc_eq numeral_eq_Suc blank_queue_def fresh_queue_def VIRTIO_PCI_VRING_ALIGN_def)
  moreover have "length (vd_vq (vi_dev sample_new)) = 64" unfolding q by simp
  ultimately show ?thesis
    unfolding new_card_def by (simp add: sample_new_def) (simp add: sample_card_def sample_nic_def sample_lost_def sample_client_def)
qed

lemma sample_new_simps: "bus_codec (ne_bus sample_net_env)" "vi_phys sample_new = vi_phys sample_saved"
  "length (vd_config (vi_dev sample_new)) = length (vd_config (vi_dev sample_saved))"
  by (simp_all add: bus_codec_def sample_net_env_def sample_net_bus_def sample_new_def sample_saved_def put_queue_def sample_source_simps)

theorem net_migration_restores_witness:
  "\<exists>f s'. virtio_net_save sample_net_env sample_saved = ret f \<and> virtio_net_load sample_net_env VIRTIO_NET_VM_VERSION f sample_new = ret (0, s') \<and>
     accepts (vx_net s') = accepts sample_nic"
  using net_migration_restores [OF sample_savable sample_new_card sample_new_simps] by (auto simp: sample_saved_def)

theorem net_load_overruns_witness:
  "virtio_net_load sample_net_env VIRTIO_NET_VM_VERSION
     (virtio_save (ne_bus sample_net_env) (vi_dev sample_saved) @ save_modes (vx_net sample_saved) @ put_be 4 (of_nat 65 :: u32) @ replicate 66 1) sample_new = fail Overrun"
  by (rule net_load_overruns [OF sample_savable sample_new_card sample_new_simps]) simp_all

end
