(* ===== verification/NetPathSpec.thy ===== *)
theory NetPathSpec
  imports NetSample VirtQueueSpec
begin

text \<open>
  The transmit path of the network card: sending ends after a burst, and the card never goes to sleep while packets
  of the guest wait.
\<close>

section \<open>Specification\<close>

text \<open>Something will make the card look at the transmit queue again: the back end, which holds a packet, the bottom
  half, which is scheduled, or the guest, whose notifications are on while its ring is empty.\<close>

definition held :: "nat \<Rightarrow> vnet \<Rightarrow> bool" where
  "held i s \<longleftrightarrow> i < length (xn_vqs (vx_net s)) \<and> el_out_sg (xq_async_elem (xn_vqs (vx_net s) ! i)) \<noteq> []"

definition awake :: "nat \<Rightarrow> vnet \<Rightarrow> bool" where
  "awake i s \<longleftrightarrow>
     i < length (xn_vqs (vx_net s)) \<and>
     (let q = xn_vqs (vx_net s) ! i in
      held i s \<or>
      (xq_tx_waiting q = 1 \<and> vi_io s \<noteq> [] \<and> last (vi_io s) = QBh i True) \<or>
      (\<exists>j vq. xq_tx_vq q = Some j \<and> virtio_get_queue (vi_dev s) (int j) = ret vq \<and> vq_notification vq \<and> virtio_queue_empty (vi_phys s) vq))"

text \<open>A back end that ends and does not change the limit of a burst.\<close>

definition sends :: "nenv \<Rightarrow> bool" where
  "sends env \<longleftrightarrow>
     (\<forall>i iov s. returns (ne_sendv env i iov s) \<and>
       (\<forall>r s'. ne_sendv env i iov s = ret (r, s') \<longrightarrow> xn_tx_burst (vx_net s') = xn_tx_burst (vx_net s)))"

definition sample_idle :: vnet where
  "sample_idle = (sample_card (\<lambda>_. None))\<lparr>vi_dev := sample_vdev\<lparr>vd_status := 4\<rparr>\<rparr>"

text \<open>The second look at the ring, after the notifications were switched on.\<close>

definition second_look :: "nenv \<Rightarrow> nat \<Rightarrow> vnet \<Rightarrow> vnet exec" where
  "second_look env i s =
     bindE (get_netq i s) (\<lambda>q. bindE (the_vq (xq_tx_vq q)) (\<lambda>j.
     bindE (net_set_notification j True s) (\<lambda>s.
     bindE (virtio_net_flush_tx env i s) (\<lambda>(r, s).
     if r > 0 then bindE (net_set_notification j False s) (\<lambda>s. set_waiting i 1 (log_net [QBh i True] s)) else ret s))))"

section \<open>Lemmas\<close>

lemma collect_grows:
  assumes "collect_descs ph pa mx i el = ret el'" "length (el_in_addr el) = length (el_in_sg el)" "length (el_out_addr el) = length (el_out_sg el)"
    "length (el_in_sg el) \<le> VIRTQUEUE_MAX_SIZE" "length (el_out_sg el) \<le> VIRTQUEUE_MAX_SIZE"
  shows "length (el_in_addr el') = length (el_in_sg el') \<and> length (el_out_addr el') = length (el_out_sg el') \<and> elem_count el < elem_count el'"
  using assms
proof (induction "2 * VIRTQUEUE_MAX_SIZE - elem_count el" arbitrary: i el rule: less_induct)
  case less
  from less.prems(1) obtain e j where e: "add_desc ph pa i el = ret e" and j: "(if j \<noteq> mx then collect_descs ph pa mx j e else ret e) = ret el'"
    unfolding collect_descs.simps [of ph pa mx i el] by (auto simp: bindE_eq_ret)
  have l: "length (el_in_addr e) = length (el_in_sg e)" "length (el_out_addr e) = length (el_out_sg e)"
      "length (el_in_sg e) \<le> VIRTQUEUE_MAX_SIZE" "length (el_out_sg e) \<le> VIRTQUEUE_MAX_SIZE"
    using e less.prems(2-5) by (auto simp: add_desc_def Let_def split: if_splits)
  have c: "elem_count e = Suc (elem_count el)" by (rule add_desc_ret [OF e])
  have "2 * VIRTQUEUE_MAX_SIZE - elem_count e < 2 * VIRTQUEUE_MAX_SIZE - elem_count el" using c l(3,4) by (auto simp: elem_count_def)
  then show ?case using less.hyps [OF _ _ l] j l c by (fastforce split: if_splits)
qed

lemma map_sg_length: "map_sg env w xs io = ret (ys, io') \<Longrightarrow> length ys = length xs"
  by (induction xs arbitrary: io ys io') (auto simp: Let_def bindE_eq_ret split: prod.splits if_splits)

text \<open>An empty result of taking a chain means that the ring is empty.\<close>

lemma pop_empty:
  assumes "virtqueue_pop env feat el vq (ph, io) = ret (0, el', vq', ph', io')"
  shows "virtio_queue_empty ph vq \<and> vq' = vq \<and> ph' = ph \<and> io' = io"
proof (cases "vring_avail_idx ph vq = vq_last_avail_idx vq")
  case True
  then show ?thesis using assms by (simp add: virtqueue_pop_def virtqueue_num_heads_def virtio_queue_empty_def split: if_splits)
next
  case False
  let ?el = "el\<lparr>el_in_addr := [], el_in_sg := [], el_out_addr := [], el_out_sg := []\<rparr>"
  have "vring_avail_idx ph vq - ucast (ucast (vq_last_avail_idx vq) :: u32) \<noteq> 0" using False by simp
  then obtain ph1 pa mx i e insg outsg io1 io2 where c: "collect_descs ph1 pa mx i ?el = ret e"
      "virtqueue_map_sg env True (el_in_addr e) (el_in_sg e) io = ret (insg, io1)"
      "virtqueue_map_sg env False (el_out_addr e) (el_out_sg e) io1 = ret (outsg, io2)" "length insg + length outsg = 0"
    using assms unfolding virtqueue_pop_def Let_def by (auto simp: bindE_eq_ret virtqueue_num_heads_def Let_def split: if_splits)
  have "length insg = length (el_in_sg e)" "length outsg = length (el_out_sg e)" "0 < elem_count e"
    using collect_grows [OF c(1)] c(2,3) by (auto simp: virtqueue_map_sg_def dest!: map_sg_length)
  then show ?thesis using c(4) by (simp add: elem_count_def)
qed

lemma net_pop_empty:
  assumes "net_pop env j s = ret (0, el, s')"
  shows "s' = s \<and> (\<exists>vq. virtio_get_queue (vi_dev s) (int j) = ret vq \<and> virtio_queue_empty (vi_phys s) vq)"
proof -
  obtain vq vq' ph io where v: "virtio_get_queue (vi_dev s) (int j) = ret vq"
      "virtqueue_pop (ne_env env) (vd_guest_features (vi_dev s)) no_elem vq (vi_phys s, vi_io s) = ret (0, el, vq', ph, io)"
      "s' = s\<lparr>vi_dev := put_queue (int j) vq' (vi_dev s), vi_phys := ph, vi_io := io\<rparr>"
    using assms by (auto simp: net_pop_def bindE_eq_ret)
  have e: "virtio_queue_empty (vi_phys s) vq" "vq' = vq" "ph = vi_phys s" "io = vi_io s" using pop_empty [OF v(2)] by simp_all
  have "put_queue (int j) vq (vi_dev s) = vi_dev s" using v(1) by (auto simp: put_queue_def virtio_get_queue_def split: if_splits)
  then show ?thesis using v e by simp
qed

lemma upd_netq_ret:
  assumes "upd_netq i f s = ret s'"
  shows "i < length (xn_vqs (vx_net s'))" "xn_vqs (vx_net s') ! i = f (xn_vqs (vx_net s) ! i)" "i < length (xn_vqs (vx_net s))"
    "vi_dev s' = vi_dev s" "vi_phys s' = vi_phys s" "vi_io s' = vi_io s" "xn_tx_burst (vx_net s') = xn_tx_burst (vx_net s)"
  using assms by (auto simp: upd_netq_def get_netq_def put_netq_def upd_net_def bindE_eq_ret split: if_splits)

text \<open>The results of the loop: a positive number of packets, a packet that waits, or an empty ring.\<close>

lemma flush_loop_ends:
  assumes "flush_tx_loop env i j k s = ret (r, s')"
  shows "r = - EBUSY \<and> held i s' \<or>
    int k < r \<or> r = int k \<and> s' = s \<and> (\<exists>vq. virtio_get_queue (vi_dev s) (int j) = ret vq \<and> virtio_queue_empty (vi_phys s) vq)"
proof -
  define P where "P env i j k s y \<longleftrightarrow> (\<forall>r s'. y = Inr (r, s') \<longrightarrow>
    r = - EBUSY \<and> held i s' \<or>
    int k < r \<or> r = int k \<and> s' = s \<and> (\<exists>vq. virtio_get_queue (vi_dev s) (int j) = ret vq \<and> virtio_queue_empty (vi_phys s) vq))"
    for env :: nenv and i j k s and y :: "fault + int \<times> vnet"
  have "P env i j k s (Inr (r, s'))"
  proof (rule flush_tx_loop.raw_induct [where P = P])
    show "flush_tx_loop env i j k s = Some (Inr (r, s'))" using assms by (simp add: ret_def)
  next
    fix f env i j k s y
    assume ih: "\<And>env i j k s y. f env i j k s = Some y \<Longrightarrow> P env i j k s y"
      and eq: "bindE (net_pop env j s) (\<lambda>(n, el, s).
       if n = 0 then ret (int k, s)
       else
         bindE (ensure (el_out_sg el \<noteq> []) (ExitFailure ''virtio-net header not in first element'')) (\<lambda>_.
         bindE (tx_vector (vx_net s) (el_out_sg el)) (\<lambda>sg.
         bindE (ne_sendv env (vq2q j) sg s) (\<lambda>(r, s).
         if r = 0
         then bindE (net_set_notification j False s) (\<lambda>s.
              bindE (upd_netq i (\<lambda>q. q\<lparr>xq_async_elem := el, xq_async_len := xn_guest_hdr_len (vx_net s)\<rparr>) s) (\<lambda>s. ret (- EBUSY, s)))
         else
           bindE (net_push j el 0 s) (\<lambda>s.
           bindE (virtio_notify (ne_bus env) (int j) s) (\<lambda>s.
           if int k + 1 \<ge> xn_tx_burst (vx_net s) then ret (int k + 1, s)
           else f env i j (Suc k) s)))))) = Some y"
    show "P env i j k s y"
      unfolding P_def
    proof (intro allI impI)
      fix r s' assume y: "y = Inr (r, s')"
      have ih': "r = - EBUSY \<and> held i s' \<or> int k < r"
        if "f env i j (Suc k) t = ret (r, s')" for t
        using ih [OF that [unfolded ret_def]] by (auto simp: P_def)
      obtain n el t where pop: "net_pop env j s = ret (n, el, t)" using eq [unfolded y, folded ret_def] by (auto simp: bindE_eq_ret)
      show "r = - EBUSY \<and> held i s' \<or>
        int k < r \<or> r = int k \<and> s' = s \<and> (\<exists>vq. virtio_get_queue (vi_dev s) (int j) = ret vq \<and> virtio_queue_empty (vi_phys s) vq)"
      proof (cases "n = 0")
        case True
        then show ?thesis using eq [unfolded y, folded ret_def] pop net_pop_empty [of env j s el t] by auto
      next
        case False
        then obtain sg x u where el: "el_out_sg el \<noteq> []" and u: "ne_sendv env (vq2q j) sg t = ret (x, u)"
            "(if x = 0 then bindE (net_set_notification j False u) (\<lambda>s.
                bindE (upd_netq i (\<lambda>q. q\<lparr>xq_async_elem := el, xq_async_len := xn_guest_hdr_len (vx_net s)\<rparr>) s) (\<lambda>s. ret (- EBUSY, s)))
              else bindE (net_push j el 0 u) (\<lambda>s. bindE (virtio_notify (ne_bus env) (int j) s) (\<lambda>s.
                if int k + 1 \<ge> xn_tx_burst (vx_net s) then ret (int k + 1, s) else f env i j (Suc k) s))) = ret (r, s')"
          using eq [unfolded y, folded ret_def] pop by (auto simp: bindE_eq_ret)
        show ?thesis
        proof (cases "x = 0")
          case True
          then have "r = - EBUSY \<and> held i s'" using u(2) el by (auto simp: bindE_eq_ret held_def dest: upd_netq_ret(1,2))
          then show ?thesis by simp
        next
          case False
          then have "(r = - EBUSY \<and> held i s') \<or> int k < r" using u(2) by (auto simp: bindE_eq_ret split: if_splits dest!: ih')
          then show ?thesis by blast
        qed
      qed
    qed
  qed
  then show ?thesis by (simp add: P_def)
qed

lemma set_notification_ret:
  assumes "net_set_notification j on s = ret s'"
  shows "vx_net s' = vx_net s" "vi_io s' = vi_io s" "vd_status (vi_dev s') = vd_status (vi_dev s)"
    "\<exists>vq. virtio_get_queue (vi_dev s') (int j) = ret vq \<and> vq_notification vq = on"
  using assms by (auto simp: net_set_notification_def virtio_queue_set_notification_def bindE_eq_ret virtio_get_queue_def put_queue_def Let_def split: if_splits)

lemma flush_tx_ends:
  assumes "virtio_net_flush_tx env i s = ret (r, s')"
  shows "held i s' \<or> 0 < r \<or>
    r = 0 \<and> s' = s \<and> (bit (vd_status (vi_dev s)) VIRTIO_CONFIG_S_DRIVER_OK \<longrightarrow>
      (\<exists>j vq. i < length (xn_vqs (vx_net s)) \<and> xq_tx_vq (xn_vqs (vx_net s) ! i) = Some j \<and>
        virtio_get_queue (vi_dev s) (int j) = ret vq \<and> virtio_queue_empty (vi_phys s) vq))"
proof -
  obtain j where i: "i < length (xn_vqs (vx_net s))" and j: "xq_tx_vq (xn_vqs (vx_net s) ! i) = Some j"
      and e: "(if \<not> bit (vd_status (vi_dev s)) VIRTIO_CONFIG_S_DRIVER_OK then ret (0, s)
        else bindE (ensure (vd_vm_running (vi_dev s)) AssertFail) (\<lambda>_.
        if el_out_sg (xq_async_elem (xn_vqs (vx_net s) ! i)) \<noteq> [] then bindE (net_set_notification j False s) (\<lambda>s. ret (0, s))
        else flush_tx_loop env i j 0 s)) = ret (r, s')"
    using assms unfolding virtio_net_flush_tx_def
    by (auto simp: bindE_eq_ret get_netq_def the_vq_def split: if_splits option.splits)
  show ?thesis
  proof (cases "bit (vd_status (vi_dev s)) VIRTIO_CONFIG_S_DRIVER_OK \<and> el_out_sg (xq_async_elem (xn_vqs (vx_net s) ! i)) = []")
    case True
    then have "flush_tx_loop env i j 0 s = ret (r, s')" using e by (simp add: bindE_eq_ret)
    from flush_loop_ends [OF this] i j show ?thesis by auto
  next
    case False
    then show ?thesis using e i by (auto simp: bindE_eq_ret held_def dest: set_notification_ret(1) split: if_splits)
  qed
qed

lemma rescheduled:
  assumes "set_waiting i 1 (log_net [QBh i True] s) = ret s'"
  shows "awake i s'"
  using upd_netq_ret [OF assms [unfolded set_waiting_def]] by (simp add: awake_def log_net_def Let_def)

lemma held_awake: "held i s \<Longrightarrow> awake i s"
  by (simp add: awake_def held_def Let_def)

lemma second_look_awake:
  assumes "second_look env i u = ret s'" "bit (vd_status (vi_dev s')) VIRTIO_CONFIG_S_DRIVER_OK"
  shows "awake i s'"
proof -
  obtain q j v r w where q: "get_netq i u = ret q" "the_vq (xq_tx_vq q) = ret j" and v: "net_set_notification j True u = ret v"
      and w: "virtio_net_flush_tx env i v = ret (r, w)"
        "(if r > 0 then bindE (net_set_notification j False w) (\<lambda>s. set_waiting i 1 (log_net [QBh i True] s)) else ret w) = ret s'"
    using assms(1) unfolding second_look_def by (auto simp: bindE_eq_ret)
  have j: "xq_tx_vq (xn_vqs (vx_net u) ! i) = Some j"
    using q by (auto simp: get_netq_def the_vq_def split: if_splits option.splits)
  show ?thesis
  proof (cases "0 < r")
    case True
    then show ?thesis using w(2) by (auto simp: bindE_eq_ret intro: rescheduled)
  next
    case False
    then have s: "s' = w" using w(2) by simp
    have "held i w \<or> (\<exists>vq. w = v \<and> i < length (xn_vqs (vx_net v)) \<and> virtio_get_queue (vi_dev v) (int j) = ret vq \<and> virtio_queue_empty (vi_phys v) vq)"
      using flush_tx_ends [OF w(1)] False assms(2) s j set_notification_ret(1) [OF v] by auto
    then show ?thesis using set_notification_ret [OF v] j s by (auto simp: awake_def held_def Let_def)
  qed
qed

text \<open>
  C15. When the bottom half that sends the packets of a queue has run, and the driver of the guest is still ready,
  the queue cannot be forgotten, whatever the rings hold and whatever the back end does: the back end keeps a packet and calls
  back, or the bottom half is scheduled again, or the ring is empty at the moment the handler ends and the guest was told to
  notify the card.
\<close>

theorem tx_bh_never_stalls:
  assumes "virtio_net_tx_bh env i s = ret s'" "bit (vd_status (vi_dev s')) VIRTIO_CONFIG_S_DRIVER_OK"
  shows "awake i s'"
proof -
  obtain t where t: "(if \<not> bit (vd_status (vi_dev t)) VIRTIO_CONFIG_S_DRIVER_OK then ret t
     else bindE (virtio_net_flush_tx env i t) (\<lambda>(r, s).
     if r = - EBUSY then ret s
     else if r \<ge> xn_tx_burst (vx_net s) then set_waiting i 1 (log_net [QBh i True] s) else second_look env i s)) = ret s'"
    using assms(1) unfolding virtio_net_tx_bh_def second_look_def by (auto simp: bindE_eq_ret)
  then have "bit (vd_status (vi_dev t)) VIRTIO_CONFIG_S_DRIVER_OK" using assms(2) by (auto split: if_splits)
  with t obtain r u where u: "virtio_net_flush_tx env i t = ret (r, u)"
    and k: "(if r = - EBUSY then ret u
     else if r \<ge> xn_tx_burst (vx_net u) then set_waiting i 1 (log_net [QBh i True] u) else second_look env i u) = ret s'"
    by (auto simp: bindE_eq_ret)
  show ?thesis
  proof (cases "r = - EBUSY")
    case True
    then show ?thesis using flush_tx_ends [OF u] k by (auto simp: EBUSY_def intro: held_awake)
  next
    case False
    then show ?thesis using k second_look_awake [OF _ assms(2)] rescheduled by (auto split: if_splits)
  qed
qed

lemma net_ops_keep:
  "net_pop env j s = ret (n, el, s') \<Longrightarrow> vx_net s' = vx_net s"
  "net_push j el len s = ret s' \<Longrightarrow> vx_net s' = vx_net s"
  "virtio_notify k m s = ret s' \<Longrightarrow> vx_net s' = vx_net s"
  by (auto simp: net_pop_def net_push_def virtio_notify_def virtio_irq_def virtio_notify_vector_def bindE_eq_ret Let_def case_prod_beta)

lemma queue_ops_return [simp]: "returns (virtio_get_queue d n)" "returns (virtqueue_push el len vq ps)" "returns (iov_copy c iov o1 o2)"
  by (auto simp: virtio_get_queue_def virtqueue_push_def virtqueue_fill_def iov_copy_def Let_def intro!: returns_bindE split: prod.splits)

lemma net_ops_return [simp]:
  "returns (net_pop env j s)" "returns (net_push j el len s)" "returns (virtio_notify k m s)" "returns (net_set_notification j on s)"
  "returns (tx_vector net sg)" "returns (upd_netq i f s)" "returns (get_netq i s)" "returns (the_vq p)"
  by (auto simp: net_pop_def net_push_def virtio_notify_def net_set_notification_def tx_vector_def upd_netq_def get_netq_def the_vq_def Let_def
    intro!: returns_bindE pop_returns split: prod.splits option.splits)

lemma flush_loop_bounded:
  assumes "sends env"
  shows "returns (flush_tx_loop env i j k s) \<and>
    (\<forall>r s'. flush_tx_loop env i j k s = ret (r, s') \<longrightarrow> r \<le> max (int k + 1) (xn_tx_burst (vx_net s)))"
proof (induction "nat (xn_tx_burst (vx_net s) - int k)" arbitrary: k s rule: less_induct)
  case less
  have ih: "returns (flush_tx_loop env i j (Suc k) t)" "flush_tx_loop env i j (Suc k) t = ret (r, s') \<Longrightarrow> r \<le> xn_tx_burst (vx_net s)"
    if "xn_tx_burst (vx_net t) = xn_tx_burst (vx_net s)" "\<not> int k + 1 \<ge> xn_tx_burst (vx_net t)" for t r s'
    using less [of t "Suc k"] that by auto
  have send: "returns (ne_sendv env q sg t)" "ne_sendv env q sg t = ret (x, u) \<Longrightarrow> xn_tx_burst (vx_net u) = xn_tx_burst (vx_net t)" for q sg t x u
    using assms by (auto simp: sends_def)
  have "returns (flush_tx_loop env i j k s)"
    unfolding flush_tx_loop.simps [of env i j k s]
    by (auto intro!: returns_bindE send(1) ih(1) dest!: send(2) net_ops_keep)
  moreover have "r \<le> max (int k + 1) (xn_tx_burst (vx_net s))" if r: "flush_tx_loop env i j k s = ret (r, s')" for r s'
  proof -
    obtain n el t where t: "net_pop env j s = ret (n, el, t)" using r unfolding flush_tx_loop.simps [of env i j k s] by (auto simp: bindE_eq_ret)
    consider "r = int k" | "r = - EBUSY" | sg x u v w where "ne_sendv env (vq2q j) sg t = ret (x, u)" "net_push j el 0 u = ret v"
        "virtio_notify (ne_bus env) (int j) v = ret w"
        "(if int k + 1 \<ge> xn_tx_burst (vx_net w) then ret (int k + 1, w) else flush_tx_loop env i j (Suc k) w) = ret (r, s')"
      using r unfolding flush_tx_loop.simps [of env i j k s] t bindE_ret prod.case
      by (cases "n = 0") (auto simp: bindE_eq_ret split: if_split_asm)
    then show ?thesis
    proof cases
      case (3 sg x u v w)
      have "xn_tx_burst (vx_net w) = xn_tx_burst (vx_net s)"
        using net_ops_keep(1) [OF t] send(2) [OF 3(1)] net_ops_keep(2) [OF 3(2)] net_ops_keep(3) [OF 3(3)] by simp
      then show ?thesis using 3(4) ih(2) [of w r s'] by (auto split: if_splits)
    qed (simp_all add: EBUSY_def)
  qed
  ultimately show ?case by blast
qed

text \<open>
  C28. Sending ends, however fast the guest adds packets to the ring: with a back end that answers, one run of the sender
  returns, and it has sent at most as many packets as a burst allows (at least one).
\<close>

theorem flush_tx_bounded:
  assumes "sends env"
  shows "returns (virtio_net_flush_tx env i s) \<and>
    (\<forall>r s'. virtio_net_flush_tx env i s = ret (r, s') \<longrightarrow> r \<le> max 1 (xn_tx_burst (vx_net s)))"
proof (intro conjI allI impI)
  show "returns (virtio_net_flush_tx env i s)"
    unfolding virtio_net_flush_tx_def by (auto intro!: returns_bindE flush_loop_bounded [OF assms, THEN conjunct1])
  show "r \<le> max 1 (xn_tx_burst (vx_net s))" if "virtio_net_flush_tx env i s = ret (r, s')" for r s'
    using that flush_loop_bounded [OF assms, of i _ 0 s] unfolding virtio_net_flush_tx_def by (auto simp: bindE_eq_ret split: if_splits)
qed

lemma sample_sends: "sends sample_net_env"
  by (simp add: sends_def sample_net_env_def)

lemma flush_tx_bounded_witness:
  "sends sample_net_env \<and> returns (virtio_net_flush_tx sample_net_env 0 sample_idle) \<and>
   (case virtio_net_flush_tx sample_net_env 0 sample_idle of Some (Inr (r, s')) \<Rightarrow> r \<le> 256 | _ \<Rightarrow> True)"
  using flush_tx_bounded [OF sample_sends, of 0 sample_idle] sample_sends
  by (auto simp: ret_def sample_idle_def sample_card_def sample_nic_def split: option.splits sum.splits)

lemma flush_loop_idle:
  assumes "virtio_get_queue (vi_dev s) (int j) = ret vq" "virtio_queue_empty (vi_phys s) vq"
  shows "flush_tx_loop env i j k s = ret (int k, s)"
proof -
  have "put_queue (int j) vq (vi_dev s) = vi_dev s" using assms(1) by (auto simp: put_queue_def virtio_get_queue_def split: if_splits)
  then have "net_pop env j s = ret (0, no_elem, s)"
    using assms by (simp add: net_pop_def virtqueue_pop_def virtqueue_num_heads_def virtio_queue_empty_def)
  then show ?thesis by (subst flush_tx_loop.simps) simp
qed

lemma flush_tx_idle:
  assumes "get_netq i s = ret q" "xq_tx_vq q = Some j" "vd_vm_running (vi_dev s)" "el_out_sg (xq_async_elem q) = []"
    "virtio_get_queue (vi_dev s) (int j) = ret vq" "virtio_queue_empty (vi_phys s) vq"
  shows "virtio_net_flush_tx env i s = ret (0, s)"
  using assms by (simp add: virtio_net_flush_tx_def the_vq_def flush_loop_idle)

text \<open>A card whose guest has sent nothing.\<close>

lemma sample_idle_simps [simp]:
  "vi_phys sample_idle = \<lparr>ph_ram = (\<lambda>_. None), ph_mmio = (\<lambda>_ _. 0)\<rparr>" "vx_net sample_idle = sample_nic" "vi_dev sample_idle = sample_vdev\<lparr>vd_status := 4\<rparr>"
  by (simp_all add: sample_idle_def sample_card_def)

lemma sample_vdev_queue [simp]:
  "virtio_get_queue (sample_vdev\<lparr>vd_status := x\<rparr>) 1 = ret (fresh_queue 1)" "vd_vm_running sample_vdev" "vd_guest_features sample_vdev = 0"
  by (simp_all add: sample_vdev_def virtio_init_def virtio_get_queue_def VIRTIO_PCI_QUEUE_MAX_def)

lemma fresh_empty [simp]:
  "virtio_queue_empty \<lparr>ph_ram = (\<lambda>_. None), ph_mmio = (\<lambda>_ _. 0)\<rparr> (fresh_queue i)"
  "virtio_queue_empty \<lparr>ph_ram = (\<lambda>_. None), ph_mmio = (\<lambda>_ _. 0)\<rparr> ((fresh_queue i)\<lparr>vq_notification := b\<rparr>)"
  by (simp_all add: virtio_queue_empty_def vring_avail_idx_def ld_phys_def fresh_queue_def numeral_2_eq_2)

lemma sample_idle_runs:
  "\<exists>s'. virtio_net_tx_bh sample_net_env 0 sample_idle = ret s' \<and> vd_status (vi_dev s') = 4"
proof -
  obtain t where t: "set_waiting 0 0 sample_idle = ret t" "vi_dev t = vi_dev sample_idle" "vi_phys t = vi_phys sample_idle"
      "get_netq 0 t = ret (zero_netq\<lparr>xq_rx_vq := Some 0, xq_tx_vq := Some 1, xq_tx_bh := True\<rparr>)" "xn_tx_burst (vx_net t) = 256"
    by (auto simp: set_waiting_def upd_netq_def get_netq_def put_netq_def upd_net_def sample_nic_def zero_netq_def)
  have f: "virtio_net_flush_tx sample_net_env 0 t = ret (0, t)"
    by (rule flush_tx_idle [OF t(4), of 1 "fresh_queue 1"]) (use t(2,3) in \<open>simp_all add: zero_netq_def no_elem_def\<close>)
  obtain u where u: "net_set_notification 1 True t = ret u" "vi_phys u = vi_phys t" "vx_net u = vx_net t"
      "vi_dev u = put_queue 1 ((fresh_queue 1)\<lparr>vq_notification := True\<rparr>) (vi_dev t)"
    by (auto simp: net_set_notification_def t(2,3) virtio_queue_set_notification_def vring_used_flags_unset_bit_def st_phys_def Let_def numeral_2_eq_2)
  have "virtio_net_flush_tx sample_net_env 0 u = ret (0, u)"
  proof (rule flush_tx_idle)
    show "get_netq 0 u = ret (zero_netq\<lparr>xq_rx_vq := Some 0, xq_tx_vq := Some 1, xq_tx_bh := True\<rparr>)" using t(4) u(3) by (simp add: get_netq_def split: if_splits)
    show "virtio_get_queue (vi_dev u) (int 1) = ret ((fresh_queue 1)\<lparr>vq_notification := True\<rparr>)"
      by (simp add: u(4) t(2) put_queue_def virtio_get_queue_def sample_vdev_def virtio_init_def VIRTIO_PCI_QUEUE_MAX_def)
  qed (simp_all add: zero_netq_def no_elem_def u(2,4) t(2,3) put_queue_def)
  then have "virtio_net_tx_bh sample_net_env 0 sample_idle = ret u"
    using t f u by (simp add: virtio_net_tx_bh_def VIRTIO_CONFIG_S_DRIVER_OK_def EBUSY_def the_vq_def)
  then show ?thesis using u(4) t(2) by (simp add: put_queue_def)
qed

lemma tx_bh_never_stalls_witness:
  "\<exists>s'. virtio_net_tx_bh sample_net_env 0 sample_idle = ret s' \<and> bit (vd_status (vi_dev s')) VIRTIO_CONFIG_S_DRIVER_OK \<and> awake 0 s'"
proof -
  obtain s' where "virtio_net_tx_bh sample_net_env 0 sample_idle = ret s'" "vd_status (vi_dev s') = 4" using sample_idle_runs by blast
  then show ?thesis using tx_bh_never_stalls [of sample_net_env 0 sample_idle s'] by (simp add: VIRTIO_CONFIG_S_DRIVER_OK_def)
qed

end
