(* ===== verification/VhostKeeps.thy ===== *)
theory VhostKeeps
  imports VhostNet
begin

text \<open>
  What the vhost code does to the virtio device it serves: everything but stopping a ring leaves the device alone, and
  stopping a ring sets the position of its queue only.
\<close>

section \<open>Operations that leave the device alone\<close>

named_theorems same_vdev

lemma vdev_upd [simp]:
  "q_vdev (upd_dev f q) = q_vdev q" "q_vdev (log_io e q) = q_vdev q" "q_vdev (put_hq i g q) = q_vdev q"
  "q_vdev (unmap_ring p n w l q) = q_vdev q" "q_vdev (undo_parts vq rp q) = q_vdev q" "q_vdev (release_parts vq rp q) = q_vdev q"
  "q_vdev (stopped q) = q_vdev q" "q_vdev (poll nc on q) = q_vdev q"
  by (simp_all add: upd_dev_def log_io_def put_hq_def unmap_ring_def undo_parts_def release_parts_def stopped_def poll_def)

lemma sendmsg_vdev [same_vdev]:
  assumes "sendmsg_retry env e q = ret (r, q')"
  shows "q_vdev q' = q_vdev q"
proof -
  define P where "P env e q y \<longleftrightarrow> (\<forall>r q'. y = Inr (r, q') \<longrightarrow> q_vdev q' = q_vdev q)"
    for env :: qenv and e :: qio and q :: qemu and y :: "fault + int \<times> qemu"
  have "P env e q (Inr (r, q'))"
  proof (rule sendmsg_retry.raw_induct [where P = P])
    show "sendmsg_retry env e q = Some (Inr (r, q'))" using assms by (simp add: ret_def)
    show "P env e q y" if "\<And>env e q y. f env e q = Some y \<Longrightarrow> P env e q y"
        "(let q = log_io e q; r = qe_sendmsg env (q_io q) in if r < 0 \<and> qe_errno env (q_io q) = EINTR then f env e q else ret (r, q)) = Some y"
      for f env e q y
      using that(2) that(1) [of env e "log_io e q" y] by (auto simp: P_def Let_def ret_def split: if_splits)
  qed
  then show ?thesis by (simp add: P_def)
qed

lemma backend_vdev [same_vdev]:
  "vhost_user_send_fds env fd m fds q = ret (r, q') \<Longrightarrow> q_vdev q' = q_vdev q"
  "vhost_user_cleanup env q = ret (r, q') \<Longrightarrow> q_vdev q' = q_vdev q"
  by (auto simp: vhost_user_send_fds_def vhost_user_cleanup_def bindE_eq_ret Let_def dest: same_vdev split: if_splits)

lemma user_vdev [same_vdev]:
  "vhost_user_echo env q = ret (r, q') \<Longrightarrow> q_vdev q' = q_vdev q"
  "vhost_user_call env req arg q = ret (r, q') \<Longrightarrow> q_vdev q' = q_vdev q"
  by (auto simp: vhost_user_echo_def vhost_user_call_def bindE_eq_ret Let_def dest!: same_vdev split: if_splits option.splits prod.splits)

lemma user_init_vdev [same_vdev]:
  "vhost_user_status env q = ret (r, q') \<Longrightarrow> q_vdev q' = q_vdev q"
  "vhost_user_init env path q = ret (r, q') \<Longrightarrow> q_vdev q' = q_vdev q"
  by (auto simp: vhost_user_status_def vhost_user_init_def bindE_eq_ret Let_def dest!: same_vdev split: if_splits)

lemma call_vdev [same_vdev]:
  "vhost_call env req arg q = ret (r, arg', q') \<Longrightarrow> q_vdev q' = q_vdev q"
  "vhost_backend_init env path q = ret (r, q') \<Longrightarrow> q_vdev q' = q_vdev q"
  "vhost_backend_cleanup env q = ret (r, q') \<Longrightarrow> q_vdev q' = q_vdev q"
  "vhost_set_backend_type bt q = (r, q') \<Longrightarrow> q_vdev q' = q_vdev q"
  by (auto simp: vhost_call_def vhost_backend_init_def vhost_backend_cleanup_def vhost_set_backend_type_def vhost_kernel_call_def
      vhost_kernel_init_def vhost_kernel_cleanup_def bindE_eq_ret Let_def dest!: same_vdev split: VhostBackendType.splits if_splits prod.splits)

lemma sync_vdev [same_vdev]:
  "vhost_dev_sync_region se a b c d q = ret q' \<Longrightarrow> q_vdev q' = q_vdev q"
  by (auto simp: vhost_dev_sync_region_def Let_def split: if_splits option.splits)

lemma sync_regions_vdev [same_vdev]: "sync_regions se a b rs q = ret q' \<Longrightarrow> q_vdev q' = q_vdev q"
  by (induction rs arbitrary: q) (auto dest!: same_vdev)

lemma sync_bitmap_vdev [same_vdev]: "vhost_sync_dirty_bitmap se a b q = ret q' \<Longrightarrow> q_vdev q' = q_vdev q"
  by (auto simp: vhost_sync_dirty_bitmap_def Let_def dest!: same_vdev split: if_splits)

lemma sync_sections_vdev [same_vdev]: "sync_sections ss a b q = ret q' \<Longrightarrow> q_vdev q' = q_vdev q"
  by (induction ss arbitrary: q) (auto dest!: same_vdev)

lemma log_vdev [same_vdev]:
  "vhost_log_sync_range a b q = ret q' \<Longrightarrow> q_vdev q' = q_vdev q"
  "vhost_virtqueue_set_addr env vq idx en q = ret (r, q') \<Longrightarrow> q_vdev q' = q_vdev q"
  "vhost_dev_set_features env en q = ret (r, q') \<Longrightarrow> q_vdev q' = q_vdev q"
  "vhost_set_memory env se add q = ret q' \<Longrightarrow> q_vdev q' = q_vdev q"
  by (auto simp: vhost_log_sync_range_def vhost_virtqueue_set_addr_def vhost_dev_set_features_def vhost_set_memory_def Let_def
      dest!: same_vdev split: if_splits)

lemma addrs_vdev [same_vdev]:
  "set_addrs env en n i q = ret (r, j, q') \<Longrightarrow> q_vdev q' = q_vdev q"
  "undo_addrs env i q = ret q' \<Longrightarrow> q_vdev q' = q_vdev q"
proof -
  show "set_addrs env en n i q = ret (r, j, q') \<Longrightarrow> q_vdev q' = q_vdev q"
    by (induction n arbitrary: i q) (auto dest!: same_vdev split: if_splits)
  show "undo_addrs env i q = ret q' \<Longrightarrow> q_vdev q' = q_vdev q"
    by (induction i arbitrary: q) (auto dest!: same_vdev)
qed

lemma log_resize_vdev [same_vdev]:
  "vhost_dev_log_resize env sz q = ret q' \<Longrightarrow> q_vdev q' = q_vdev q"
  "vhost_dev_set_log env en q = ret (r, q') \<Longrightarrow> q_vdev q' = q_vdev q"
  "vhost_region_add env se q = ret q' \<Longrightarrow> q_vdev q' = q_vdev q"
  by (auto simp: vhost_dev_log_resize_def vhost_dev_set_log_def vhost_region_add_def Let_def dest!: same_vdev split: if_splits)

lemma migration_vdev [same_vdev]: "vhost_migration_log env en q = ret (r, q') \<Longrightarrow> q_vdev q' = q_vdev q"
  by (auto simp: vhost_migration_log_def dest!: same_vdev split: if_splits)

lemma sections_vdev [same_vdev]: "add_sections env ss q = ret q' \<Longrightarrow> q_vdev q' = q_vdev q"
  by (induction ss arbitrary: q) (auto dest!: same_vdev)

lemma listener_vdev [same_vdev]: "memory_listener_register env q = ret q' \<Longrightarrow> q_vdev q' = q_vdev q"
  by (auto simp: memory_listener_register_def vhost_log_global_start_def Let_def dest!: same_vdev split: if_splits)

lemma ring_vdev [same_vdev]:
  "map_ring env a n w q = (p, bad, q') \<Longrightarrow> q_vdev q' = q_vdev q"
  "vhost_virtqueue_init env n' q = ret (r, q') \<Longrightarrow> q_vdev q' = q_vdev q"
  "vhost_virtqueue_cleanup n' q = ret q' \<Longrightarrow> q_vdev q' = q_vdev q"
  by (auto simp: map_ring_def vhost_virtqueue_init_def vhost_virtqueue_cleanup_def Let_def dest!: same_vdev split: if_splits prod.splits)

lemma map_parts_vdev [same_vdev]: "map_parts env i rp q = (r, q') \<Longrightarrow> q_vdev q' = q_vdev q"
  by (auto simp: map_parts_def Let_def dest!: same_vdev split: if_splits prod.splits)

lemma rings_vdev [same_vdev]:
  "init_rings env n i q = ret (r, j, q') \<Longrightarrow> q_vdev q' = q_vdev q"
  "cleanup_rings_down i q = ret q' \<Longrightarrow> q_vdev q' = q_vdev q"
  "cleanup_rings n i q = ret q' \<Longrightarrow> q_vdev q' = q_vdev q"
proof -
  show "init_rings env n i q = ret (r, j, q') \<Longrightarrow> q_vdev q' = q_vdev q"
    by (induction n arbitrary: i q) (auto dest!: same_vdev split: if_splits)
  show "cleanup_rings_down i q = ret q' \<Longrightarrow> q_vdev q' = q_vdev q"
    by (induction i arbitrary: q) (auto dest!: same_vdev)
  show "cleanup_rings n i q = ret q' \<Longrightarrow> q_vdev q' = q_vdev q"
    by (induction n arbitrary: i q) (auto dest!: same_vdev)
qed

lemma start_vdev [same_vdev]: "vhost_virtqueue_start env i idx q = ret (r, q') \<Longrightarrow> q_vdev q' = q_vdev q"
  by (auto simp: vhost_virtqueue_start_def Let_def dest!: same_vdev split: if_splits prod.splits)

lemma dev_vdev [same_vdev]:
  "fail_init env q = ret (r, q') \<Longrightarrow> q_vdev q' = q_vdev q"
  "vhost_dev_cleanup env q = ret q' \<Longrightarrow> q_vdev q' = q_vdev q"
  "vhost_dev_query env k q = (b, q') \<Longrightarrow> q_vdev q' = q_vdev q"
  "set_host_notifier env k n on q = ret (r, q') \<Longrightarrow> q_vdev q' = q_vdev q"
  by (auto simp: fail_init_def vhost_dev_cleanup_def vhost_dev_query_def set_host_notifier_def Let_def dest!: same_vdev split: if_splits)

lemma dev_init_vdev [same_vdev]: "vhost_dev_init env fd path bt force q = ret (r, q') \<Longrightarrow> q_vdev q' = q_vdev q"
  by (auto simp: vhost_dev_init_def Let_def dest!: same_vdev split: if_splits prod.splits)

lemma net_init_vdev [same_vdev]: "vhost_net_init env fresh opts q = ret (n, q') \<Longrightarrow> q_vdev q' = q_vdev q"
  by (auto simp: vhost_net_init_def Let_def dest!: same_vdev split: if_splits option.splits)

lemma notifiers_vdev [same_vdev]:
  "enable_notifiers env k n i q = ret (r, j, q') \<Longrightarrow> q_vdev q' = q_vdev q"
  "undo_notifiers env k i r' q = ret (r, q') \<Longrightarrow> q_vdev q' = q_vdev q"
  "disable_notifiers env k n i q = ret q' \<Longrightarrow> q_vdev q' = q_vdev q"
proof -
  show "enable_notifiers env k n i q = ret (r, j, q') \<Longrightarrow> q_vdev q' = q_vdev q"
    by (induction n arbitrary: i q) (auto dest!: same_vdev split: if_splits)
  show "undo_notifiers env k i r' q = ret (r, q') \<Longrightarrow> q_vdev q' = q_vdev q"
    by (induction i arbitrary: r' q) (auto dest!: same_vdev)
  show "disable_notifiers env k n i q = ret q' \<Longrightarrow> q_vdev q' = q_vdev q"
    by (induction n arbitrary: i q) (auto dest!: same_vdev)
qed

lemma backends_vdev [same_vdev]:
  "set_backends env fd n i q = ret (r, j, q') \<Longrightarrow> q_vdev q' = q_vdev q"
  "unset_backends_down env i q = ret q' \<Longrightarrow> q_vdev q' = q_vdev q"
  "unset_backends env n i q = ret q' \<Longrightarrow> q_vdev q' = q_vdev q"
proof -
  show "set_backends env fd n i q = ret (r, j, q') \<Longrightarrow> q_vdev q' = q_vdev q"
    by (induction n arbitrary: i q) (auto dest!: same_vdev split: if_splits)
  show "unset_backends_down env i q = ret q' \<Longrightarrow> q_vdev q' = q_vdev q"
    by (induction i arbitrary: q) (auto dest!: same_vdev)
  show "unset_backends env n i q = ret q' \<Longrightarrow> q_vdev q' = q_vdev q"
    by (induction n arbitrary: i q) (auto dest!: same_vdev)
qed

lemma start_rings_vdev [same_vdev]: "start_rings env n i q = ret (r, j, q') \<Longrightarrow> q_vdev q' = q_vdev q"
  by (induction n arbitrary: i q) (auto dest!: same_vdev split: if_splits)

lemma net_vdev [same_vdev]:
  "vhost_dev_enable_notifiers env k q = ret (r, q') \<Longrightarrow> q_vdev q' = q_vdev q"
  "vhost_dev_disable_notifiers env k q = ret q' \<Longrightarrow> q_vdev q' = q_vdev q"
  "vhost_virtqueue_pending env n q = ret (b, q') \<Longrightarrow> q_vdev q' = q_vdev q"
  "vhost_virtqueue_mask env n msk q = ret q' \<Longrightarrow> q_vdev q' = q_vdev q"
  "vhost_net_query env k q = (b, q') \<Longrightarrow> q_vdev q' = q_vdev q"
  by (auto simp: vhost_dev_enable_notifiers_def vhost_dev_disable_notifiers_def vhost_virtqueue_pending_def vhost_virtqueue_mask_def
      vhost_net_query_def Let_def dest!: same_vdev split: if_splits)


lemma user_stop_vdev [same_vdev]: "vhost_user_stop env u q = ret (u', q') \<Longrightarrow> q_vdev q' = q_vdev q"
  by (auto simp: vhost_user_stop_def vhost_net_cleanup_def dest!: same_vdev split: option.splits)

section \<open>Properties that stopping a ring keeps\<close>

locale vdev_property =
  fixes J :: "VirtIODevice \<Rightarrow> bool"
  assumes J_last: "virtio_queue_set_last_avail_idx n i d = ret d' \<Longrightarrow> J d \<longrightarrow> J d'"
    and J_invalidate: "virtio_queue_invalidate_signalled_used n d = ret d' \<Longrightarrow> J d \<longrightarrow> J d'"
begin

lemma stop_ring_keeps: "vhost_virtqueue_stop env i idx q = ret q' \<Longrightarrow> J (q_vdev q) \<longrightarrow> J (q_vdev q')"
  by (auto simp: vhost_virtqueue_stop_def dest!: same_vdev dest!: J_last J_invalidate)

lemma stop_rings_keep:
  "stop_rings_down env i q = ret q' \<Longrightarrow> J (q_vdev q) \<longrightarrow> J (q_vdev q')"
  "stop_rings env n i q = ret q' \<Longrightarrow> J (q_vdev q) \<longrightarrow> J (q_vdev q')"
proof -
  show "stop_rings_down env i q = ret q' \<Longrightarrow> J (q_vdev q) \<longrightarrow> J (q_vdev q')"
    by (induction i arbitrary: q) (auto dest!: stop_ring_keeps)
  show "stop_rings env n i q = ret q' \<Longrightarrow> J (q_vdev q) \<longrightarrow> J (q_vdev q')"
    by (induction n arbitrary: i q) (auto dest!: stop_ring_keeps)
qed

lemma dev_keeps:
  "vhost_dev_stop env q = ret q' \<Longrightarrow> J (q_vdev q) \<longrightarrow> J (q_vdev q')"
  "vhost_dev_start env q = ret (r, q') \<Longrightarrow> J (q_vdev q) \<longrightarrow> J (q_vdev q')"
  by (auto simp: vhost_dev_stop_def vhost_dev_start_def Let_def dest!: same_vdev dest!: stop_rings_keep split: if_splits)

lemma one_keeps:
  "vhost_net_stop_one env k net q = ret q' \<Longrightarrow> J (q_vdev q) \<longrightarrow> J (q_vdev q')"
  "vhost_net_start_one env k net i q = ret (r, q') \<Longrightarrow> J (q_vdev q) \<longrightarrow> J (q_vdev q')"
  by (auto simp: vhost_net_stop_one_def vhost_net_start_one_def Let_def dest!: same_vdev dest!: dev_keeps split: if_splits)

lemma stop_on_keeps: "stop_on env k i s = ret s' \<Longrightarrow> J (q_vdev (snd s)) \<longrightarrow> J (q_vdev (snd s'))"
  by (cases s) (auto simp: stop_on_def on_net_def dest!: one_keeps split: if_splits)

lemma nets_keep:
  "start_nets env k n i s = ret (r, j, s') \<Longrightarrow> J (q_vdev (snd s)) \<longrightarrow> J (q_vdev (snd s'))"
  "stop_nets_down env k i s = ret s' \<Longrightarrow> J (q_vdev (snd s)) \<longrightarrow> J (q_vdev (snd s'))"
  "stop_nets env k n i s = ret s' \<Longrightarrow> J (q_vdev (snd s)) \<longrightarrow> J (q_vdev (snd s'))"
proof -
  have "on_net i (\<lambda>net. vhost_net_start_one env k net (int i * 2)) s = ret (r, s') \<Longrightarrow> J (q_vdev (snd s)) \<longrightarrow> J (q_vdev (snd s'))" for i r s s'
    by (cases s) (auto simp: on_net_def dest!: one_keeps split: if_splits)
  then show "start_nets env k n i s = ret (r, j, s') \<Longrightarrow> J (q_vdev (snd s)) \<longrightarrow> J (q_vdev (snd s'))"
    by (induction n arbitrary: i s) (fastforce split: if_splits)+
  show "stop_nets_down env k i s = ret s' \<Longrightarrow> J (q_vdev (snd s)) \<longrightarrow> J (q_vdev (snd s'))"
    by (induction i arbitrary: s) (auto dest!: stop_on_keeps)
  show "stop_nets env k n i s = ret s' \<Longrightarrow> J (q_vdev (snd s)) \<longrightarrow> J (q_vdev (snd s'))"
    by (induction n arbitrary: i s) (auto dest!: stop_on_keeps)
qed

lemma net_keeps:
  "vhost_net_stop env k n s = ret s' \<Longrightarrow> J (q_vdev (snd s)) \<longrightarrow> J (q_vdev (snd s'))"
  "vhost_net_start env k n s = ret (r, s') \<Longrightarrow> J (q_vdev (snd s)) \<longrightarrow> J (q_vdev (snd s'))"
  by (cases s; auto simp: vhost_net_stop_def vhost_net_start_def set_guest_notifiers_def Let_def dest!: nets_keep split: if_splits)+

end


end
