(* ===== verification/NetLink.thy ===== *)
theory NetLink
  imports NetSample VhostNetSpec VhostKeeps
begin

text \<open>
  The network card and its vhost-user client together: the timer of the client, of
  \<^verbatim>\<open>src/qemu_vhost_user/net/vhost-user.c\<close>, with the function of the card that it calls when the link changes.  A client
  that lost its server is connected again by the second tick of the timer while the driver of the guest does not run;
  when the guest uses the network, the first tick ends QEMU.
\<close>

section \<open>The timer\<close>

definition resched_card :: "nenv \<Rightarrow> vnet \<Rightarrow> vnet" where
  "resched_card env s = log_net [QTimer (qe_clock (ne_env env) (vi_io s) + VHOST_USER_TIMEOUT)] s"

text \<open>The client is looked up again after the call of the card, which may have changed its device.\<close>

definition stop_client :: "nenv \<Rightarrow> vnet \<Rightarrow> vnet exec" where
  "stop_client env s =
     bindE (qemu_get_queue s) (\<lambda>nc. case sq_peer nc of
         Some (UserPeer u) \<Rightarrow>
           (case us_vhost_net u of
              None \<Rightarrow> ret s
            | Some net \<Rightarrow> bindE (vhost_user_stop (ne_env env) u (to_qemu (vn_dev net) s)) (\<lambda>(u, q).
                ret (put_client 0 (nc\<lparr>sq_peer := Some (UserPeer u)\<rparr>) (of_qemu q s))))
       | _ \<Rightarrow> ret s)"

text \<open>The client is the peer of the first queue of the card, and the card the peer of the client: \<^verbatim>\<open>nc.peer\<close> is not null,
  and its \<^verbatim>\<open>link_status_changed\<close> is \<open>virtio_net_set_link_status\<close>; the client itself has no such function.
  \<open>fresh\<close> is the storage of the device that a new connection allocates.\<close>

definition vhost_user_timer_handler :: "nenv \<Rightarrow> vhost_dev \<Rightarrow> vnet \<Rightarrow> vnet exec" where
  "vhost_user_timer_handler env fresh s =
     bindE (qemu_get_queue s) (\<lambda>nc. case sq_peer nc of
         Some (UserPeer u) \<Rightarrow>
           bindE (check_link (ne_env env) fresh u (to_qemu fresh s)) (\<lambda>(down, u, q).
           let s = put_client 0 (nc\<lparr>sq_peer := Some (UserPeer u)\<rparr>) (of_qemu q s) in
           if down = nc_link_down (us_nc u) then ret (resched_card env s)
           else
             let s = put_client 0 (nc\<lparr>sq_link_down := down, sq_peer := Some (UserPeer (u\<lparr>us_nc := (us_nc u)\<lparr>nc_link_down := down\<rparr>\<rparr>))\<rparr>) s in
             bindE (virtio_net_set_link_status env 0 s) (\<lambda>s.
             bindE (if down then stop_client env s else ret s) (\<lambda>s. ret (resched_card env s))))
       | _ \<Rightarrow> fail (Segv 0))"

section \<open>Specification\<close>

text \<open>A card with one pair of queues whose client lost its server.\<close>

definition lost_card :: "vnet \<Rightarrow> bool" where
  "lost_card s \<longleftrightarrow>
     \<not> xn_multiqueue (vx_net s) \<and>
     (\<exists>nc u net. vx_ncs s = [nc] \<and> sq_peer nc = Some (UserPeer u) \<and> nc_type (us_nc u) = KIND_VHOST_USER \<and> \<not> nc_link_down (us_nc u) \<and>
        us_vhost_net u = Some net \<and> hd_control (vn_dev net) < 0 \<and> hd_vhost_ops (vn_dev net) = VHOST_BACKEND_TYPE_USER \<and>
        0 < hd_nvqs (vn_dev net) \<and> nat (hd_nvqs (vn_dev net)) \<le> length (hd_vqs (vn_dev net)))"

definition card_device :: "vnet \<Rightarrow> vhost_dev option" where
  "card_device s = (case vx_ncs s of nc # _ \<Rightarrow> (case sq_peer nc of Some (UserPeer u) \<Rightarrow> map_option vn_dev (us_vhost_net u) | _ \<Rightarrow> None) | [] \<Rightarrow> None)"






definition sample_lost_card :: vnet where
  "sample_lost_card = (sample_card Map.empty)\<lparr>vx_net := sample_nic\<lparr>xn_vhost_started := True\<rparr>,
     vx_ncs := [\<lparr>sq_link_down = False, sq_rxfilter_notify_enabled = True, sq_peer = Some (UserPeer (sample_lost\<lparr>us_vhost_net :=
       Some \<lparr>vn_dev = sample_dev\<lparr>hd_control := -1, hd_started := True\<rparr>, vn_backend = -1, vn_nc = sample_client\<rparr>\<rparr>))\<rparr>]\<rparr>"

section \<open>Lemmas\<close>

lemma link_lost:
  assumes "us_vhost_net u = Some net" "hd_control (vn_dev net) < 0" "hd_vhost_ops (vn_dev net) = VHOST_BACKEND_TYPE_USER" "\<not> nc_link_down (us_nc u)"
  shows "check_link env fresh u q = ret (True, u, q\<lparr>q_dev := vn_dev net\<rparr>)"
proof -
  have "u\<lparr>us_vhost_net := Some (net\<lparr>vn_dev := vn_dev net\<rparr>)\<rparr> = u" using assms(1) by simp
  then show ?thesis
    using assms by (simp add: check_link_def vhost_user_running_def vhost_user_link_status_def vhost_net_link_status_def vhost_user_status_def
        vhost_user_echo_def)
qed


lemma of_to_qemu [simp]: "of_qemu ((to_qemu d s)\<lparr>q_dev := e\<rparr>) s = s" "of_qemu (to_qemu d s) s = s"
  by (simp_all add: of_qemu_def to_qemu_def)






section \<open>Properties\<close>


text \<open>
  C31. Losing the server while the guest uses the network ends QEMU: when the connection broke, the tick of the timer
  that notices it tells the card that the link is down, the card stops its vhost device, and stopping asserts that the
  request to detach the rings succeeds, which it cannot without a connection.  The client never comes to the code that
  would connect again.
\<close>

theorem link_loss_aborts:
  assumes "lost_card s" "card_device s = Some d" "hd_started d" "xn_vhost_started (vx_net s)"
    "bc_set_guest_notifiers (ne_bus env)" "\<And>io. 0 \<le> qe_guest_notifiers (ne_env env) io"
  shows "vhost_user_timer_handler env fresh s = fail AssertFail"
proof -
  obtain nc u net where c: "vx_ncs s = [nc]" "sq_peer nc = Some (UserPeer u)" "nc_type (us_nc u) = KIND_VHOST_USER" "\<not> nc_link_down (us_nc u)"
      "us_vhost_net u = Some net" "hd_control (vn_dev net) < 0" "hd_vhost_ops (vn_dev net) = VHOST_BACKEND_TYPE_USER" "0 < hd_nvqs (vn_dev net)"
      "\<not> xn_multiqueue (vx_net s)"
    using assms(1) by (auto simp: lost_card_def)
  have d: "d = vn_dev net" using assms(2) c by (simp add: card_device_def)
  let ?nc = "nc\<lparr>sq_link_down := True, sq_peer := Some (UserPeer (u\<lparr>us_nc := (us_nc u)\<lparr>nc_link_down := True\<rparr>\<rparr>))\<rparr>"
  define s1 where "s1 = s\<lparr>vx_ncs := [?nc]\<rparr>"
  have t: "vhost_user_timer_handler env fresh s = bindE (virtio_net_set_link_status env 0 s1) (\<lambda>s. bindE (stop_client env s) (\<lambda>s. ret (resched_card env s)))"
    using c by (simp add: vhost_user_timer_handler_def qemu_get_queue_def qemu_get_subqueue_def link_lost [OF c(5-7,4)] put_client_def s1_def Let_def)
  have "virtio_net_vhost_status env st s' = fail AssertFail"
    if "vx_ncs s' = [?nc]" "xn_vhost_started (vx_net s')" "\<not> xn_multiqueue (vx_net s')" for st s'
  proof -
    have "stop_on (ne_env env) (ne_bus env) 0 ([net], q) = fail AssertFail" for q
      using stop_aborts [of "q\<lparr>q_dev := vn_dev net\<rparr>" "ne_env env" "ne_bus env" net] assms(3) c(6-8) d by (simp add: stop_on_def on_net_def)
    then have "vhost_net_stop (ne_env env) (ne_bus env) 1 ([net], q) = fail AssertFail" for q
      using assms(5,6) by (simp add: vhost_net_stop_def set_guest_notifiers_def Let_def)
    then show ?thesis
      using that c(3,5) by (simp add: virtio_net_vhost_status_def qemu_get_queue_def qemu_get_subqueue_def get_vhost_net_def vhost_user_get_vhost_net_def
          peer_link_down_def)
  qed
  then have "virtio_net_set_link_status env 0 s1 = fail AssertFail"
    using assms(4) c(9) by (simp add: virtio_net_set_link_status_def qemu_get_subqueue_def virtio_net_set_status_def s1_def upd_net_def virtio_notify_config_def
        virtio_notify_vector_def Let_def)
  then show ?thesis using t by simp
qed

section \<open>Examples\<close>



theorem link_loss_aborts_witness: "vhost_user_timer_handler sample_net_env sample_dev sample_lost_card = fail AssertFail"
proof -
  have c: "lost_card sample_lost_card" "card_device sample_lost_card = Some (sample_dev\<lparr>hd_control := -1, hd_started := True\<rparr>)"
      "xn_vhost_started (vx_net sample_lost_card)"
    by (simp_all add: lost_card_def card_device_def sample_lost_card_def sample_lost_def sample_client_def sample_dev_def sample_nic_def)
  show ?thesis
    by (rule link_loss_aborts [OF c(1,2) _ c(3)]) (simp_all add: sample_net_env_def sample_net_bus_def sample_env_def)
qed

end
