(* ===== verification/NetTypes.thy ===== *)
theory NetTypes
  imports NetLink VirtIOSpec
begin

text \<open>
  The queues of the network card: from the moment it is realized, whatever the guest, the main loop, the back end and a
  migration do, the device keeps 64 queues that know their index, and no queue becomes larger than 1024 descriptors
  unless a migration stream or a negative size says so.  The laws of a property of the queues, of \<open>VirtIOSpec\<close>, are
  shown to be kept by every function of the card.
\<close>

section \<open>Steps of the card\<close>

text \<open>The operations of the virtio device with the class of the card, the calls of the network layer, of the timers and
  bottom halves and of the bus, and the timer of the vhost-user client.\<close>

inductive card_step :: "bool \<Rightarrow> nenv \<Rightarrow> vnet \<Rightarrow> vnet \<Rightarrow> bool" for any env where
  device: "guest_step any (ne_bus env) (virtio_net_class env) s s' \<Longrightarrow> card_step any env s s'"
| receive: "virtio_net_receive env i buf sz s = ret (r, s') \<Longrightarrow> card_step any env s s'"
| complete: "virtio_net_tx_complete env i s = ret s' \<Longrightarrow> card_step any env s s'"
| timer: "virtio_net_tx_timer env i s = ret s' \<Longrightarrow> card_step any env s s'"
| bottom_half: "virtio_net_tx_bh env i s = ret s' \<Longrightarrow> card_step any env s s'"
| link: "virtio_net_set_link_status env i s = ret s' \<Longrightarrow> card_step any env s s'"
| pending: "virtio_net_guest_notifier_pending env idx s = ret (b, s') \<Longrightarrow> card_step any env s s'"
| mask: "virtio_net_guest_notifier_mask env idx msk s = ret s' \<Longrightarrow> card_step any env s s'"
| features: "virtio_net_get_features ft s = ret (ft', s') \<Longrightarrow> card_step any env s s'"
| query: "virtio_net_query_rxfilter s = ret (info, s') \<Longrightarrow> card_step any env s s'"
| client: "vhost_user_timer_handler env fresh s = ret s' \<Longrightarrow> card_step any env s s'"
| load_card: "virtio_net_load env ver f s = ret (r, s') \<Longrightarrow> any \<Longrightarrow> card_step any env s s'"

text \<open>The sizes and the indices of the queues, and an environment that leaves them alone: the queues of packets of the
  network layer, which call back \<open>virtio_net_receive\<close> of a card, and the bus when the machine starts or stops.\<close>

definition shape :: "vnet \<Rightarrow> (u32 \<times> u16) list" where
  "shape s = map (\<lambda>vq. (vri_num (vq_vring vq), vq_queue_index vq)) (vd_vq (vi_dev s))"

definition env_keeps_shape :: "nenv \<Rightarrow> bool" where
  "env_keeps_shape env \<longleftrightarrow>
     (\<forall>i iov s r s'. ne_sendv env i iov s = ret (r, s') \<longrightarrow> shape s' = shape s) \<and>
     (\<forall>i s s'. ne_flush env i s = ret s' \<longrightarrow> shape s' = shape s) \<and>
     (\<forall>b s s'. opt_call (bc_vmstate_change (ne_bus env)) b s = ret s' \<longrightarrow> shape s' = shape s)"

section \<open>Functions that leave the device alone\<close>

named_theorems same_device

lemma device_upd [simp]:
  "vi_dev (log_net es s) = vi_dev s" "vi_dev (upd_net f s) = vi_dev s" "vi_dev (put_netq i nq s) = vi_dev s"
  "vi_dev (put_client i c s) = vi_dev s" "vi_dev (put_tap i t s) = vi_dev s" "vi_dev (tap_update_fd_handler t s) = vi_dev s"
  "vi_dev (set_started b s) = vi_dev s" "vi_dev (of_qemu q s) = q_vdev q" "q_vdev (to_qemu d s) = vi_dev s"
  "vi_dev (set_mac_table iu fm uo mo ms s) = vi_dev s" "vi_dev (resched_card env s) = vi_dev s"
  by (simp_all add: log_net_def upd_net_def put_netq_def put_client_def put_tap_def tap_update_fd_handler_def set_started_def
      of_qemu_def to_qemu_def set_mac_table_def resched_card_def)

lemma netq_same [same_device]:
  "upd_netq i f s = ret s' \<Longrightarrow> vi_dev s' = vi_dev s" "set_waiting i w s = ret s' \<Longrightarrow> vi_dev s' = vi_dev s"
  by (auto simp: upd_netq_def set_waiting_def)

lemma tap_same [same_device]:
  "tap_has_vnet_hdr_len env p len s = ret (b, s') \<Longrightarrow> vi_dev s' = vi_dev s"
  "tap_set_vnet_hdr_len i len s = ret s' \<Longrightarrow> vi_dev s' = vi_dev s"
  "tap_using_vnet_hdr i u s = ret s' \<Longrightarrow> vi_dev s' = vi_dev s"
  "tap_enable env i t s = (r, s') \<Longrightarrow> vi_dev s' = vi_dev s" "tap_disable env i t s = (r, s') \<Longrightarrow> vi_dev s' = vi_dev s"
  by (auto simp: tap_has_vnet_hdr_len_def tap_set_vnet_hdr_len_def tap_using_vnet_hdr_def tap_enable_def tap_disable_def Let_def
      split: if_splits)

lemma attach_same [same_device]:
  "peer_attach env i s = ret (r, s') \<Longrightarrow> vi_dev s' = vi_dev s" "peer_detach env i s = ret (r, s') \<Longrightarrow> vi_dev s' = vi_dev s"
  by (auto simp: peer_attach_def peer_detach_def ret_def [symmetric] dest!: same_device split: option.splits net_peer.splits)

lemma peer_same [same_device]:
  "peer_test_vnet_hdr s = ret s' \<Longrightarrow> vi_dev s' = vi_dev s" "peer_has_ufo s = ret (b, s') \<Longrightarrow> vi_dev s' = vi_dev s"
  "virtio_net_apply_guest_offloads s = ret s' \<Longrightarrow> vi_dev s' = vi_dev s" "rxfilter_notify s = ret s' \<Longrightarrow> vi_dev s' = vi_dev s"
  by (auto simp: peer_test_vnet_hdr_def peer_has_ufo_def virtio_net_apply_guest_offloads_def rxfilter_notify_def Let_def
      split: option.splits net_peer.splits if_splits)

lemma loops_same [same_device]:
  "hdr_len_queues env k i s = ret s' \<Longrightarrow> vi_dev s' = vi_dev s" "set_queues env k i s = ret s' \<Longrightarrow> vi_dev s' = vi_dev s"
  "ack_features ft k i s = ret s' \<Longrightarrow> vi_dev s' = vi_dev s" "status_queues env st k i s = ret s' \<Longrightarrow> vi_dev s' = vi_dev s"
  "using_hdr_queues k i s = ret s' \<Longrightarrow> vi_dev s' = vi_dev s"
proof -
  show "hdr_len_queues env k i s = ret s' \<Longrightarrow> vi_dev s' = vi_dev s"
    by (induction env k i s rule: hdr_len_queues.induct) (auto dest!: same_device split: if_splits)
  show "set_queues env k i s = ret s' \<Longrightarrow> vi_dev s' = vi_dev s"
    by (induction k arbitrary: i s) (auto dest!: same_device split: if_splits)
  show "ack_features ft k i s = ret s' \<Longrightarrow> vi_dev s' = vi_dev s"
    by (induction k arbitrary: i s) (fastforce split: option.splits)+
  show "status_queues env st k i s = ret s' \<Longrightarrow> vi_dev s' = vi_dev s"
    by (induction k arbitrary: i s) (fastforce simp: Let_def split: if_splits)+
  show "using_hdr_queues k i s = ret s' \<Longrightarrow> vi_dev s' = vi_dev s"
    by (induction k arbitrary: i s) (auto dest!: same_device)
qed

lemma header_same [same_device]:
  "virtio_net_set_mrg_rx_bufs env m s = ret s' \<Longrightarrow> vi_dev s' = vi_dev s" "virtio_net_set_queues env s = ret s' \<Longrightarrow> vi_dev s' = vi_dev s"
  "realize_header s = ret s' \<Longrightarrow> vi_dev s' = vi_dev s" "write_iov env iov off bs s = ret (n, s') \<Longrightarrow> vi_dev s' = vi_dev s"
  "virtio_net_get_features ft s = ret (ft', s') \<Longrightarrow> vi_dev s' = vi_dev s"
  by (auto simp: virtio_net_set_mrg_rx_bufs_def virtio_net_set_queues_def realize_header_def write_iov_def virtio_net_get_features_def Let_def
      dest!: same_device split: if_splits option.splits)

lemma commands_same [same_device]:
  "virtio_net_handle_rx_mode env cmd iov s = ret (st, s') \<Longrightarrow> vi_dev s' = vi_dev s"
  "virtio_net_handle_offloads env cmd iov s = ret (st, s') \<Longrightarrow> vi_dev s' = vi_dev s"
  "mac_table_set env iov s = ret (st, iov', s') \<Longrightarrow> vi_dev s' = vi_dev s"
  "virtio_net_handle_vlan_table env cmd iov s = ret (st, s') \<Longrightarrow> vi_dev s' = vi_dev s"
  by (auto simp: virtio_net_handle_rx_mode_def virtio_net_handle_offloads_def mac_table_set_def virtio_net_handle_vlan_table_def
      set_vlan_def Let_def dest!: same_device split: if_splits option.splits prod.splits)

lemma mac_same [same_device]: "virtio_net_handle_mac env cmd iov s = ret (st, iov', s') \<Longrightarrow> vi_dev s' = vi_dev s"
  by (auto simp: virtio_net_handle_mac_def dest!: same_device split: if_splits)

lemma header_receive_same [same_device]:
  "receive_header env iov buf sz s = ret (buf', s') \<Longrightarrow> vi_dev s' = vi_dev s"
  by (auto simp: receive_header_def Let_def dest!: same_device split: if_splits)

lemma first_same [same_device]: "receive_first env sg buf sz s = ret (mhdr, buf', s') \<Longrightarrow> vi_dev s' = vi_dev s"
  by (auto simp: receive_first_def dest!: same_device split: if_splits)

lemma fill_same [same_device]: "net_fill j el len idx s = ret s' \<Longrightarrow> vi_dev s' = vi_dev s"
  by (auto simp: net_fill_def)

lemma query_same [same_device]: "virtio_net_query_rxfilter s = ret (info, s') \<Longrightarrow> vi_dev s' = vi_dev s"
  by (auto simp: virtio_net_query_rxfilter_def Let_def split: if_splits)

lemma notifier_same [same_device]:
  "virtio_net_guest_notifier_pending env idx s = ret (b, s') \<Longrightarrow> vi_dev s' = vi_dev s"
  "virtio_net_guest_notifier_mask env idx msk s = ret s' \<Longrightarrow> vi_dev s' = vi_dev s"
  by (auto simp: virtio_net_guest_notifier_pending_def virtio_net_guest_notifier_mask_def vhost_net_virtqueue_pending_def
      vhost_net_virtqueue_mask_def dest!: same_vdev split: option.splits)

lemma load_waiting_same [same_device]: "load_waiting k i sf = ret (s', f') \<Longrightarrow> vi_dev s' = vi_dev (fst sf)"
  by (induction k i sf rule: load_waiting.induct) (auto dest!: same_device split: prod.splits)

lemma load_same [same_device]:
  "load_modes env ver sf = ret (s', f') \<Longrightarrow> vi_dev s' = vi_dev (fst sf)"
  "load_flags ver sf = ret (ok, s', f') \<Longrightarrow> vi_dev s' = vi_dev (fst sf)"
  "load_pairs sf = ret (ok, s', f') \<Longrightarrow> vi_dev s' = vi_dev (fst sf)"
  "load_offloads sf = ret (s', f') \<Longrightarrow> vi_dev s' = vi_dev (fst sf)"
  "finish_load s = ret s' \<Longrightarrow> vi_dev s' = vi_dev s"
proof -
  show "load_modes env ver sf = ret (s', f') \<Longrightarrow> vi_dev s' = vi_dev (fst sf)"
    by (cases sf) (auto simp: load_modes_def Let_def dest!: same_device split: prod.splits)
  show "load_flags ver sf = ret (ok, s', f') \<Longrightarrow> vi_dev s' = vi_dev (fst sf)"
    by (cases sf) (auto simp: load_flags_def Let_def case_prod_beta dest!: same_device split: if_split_asm)
  show "load_pairs sf = ret (ok, s', f') \<Longrightarrow> vi_dev s' = vi_dev (fst sf)"
    by (cases sf) (auto simp: load_pairs_def Let_def dest!: same_device split: prod.splits if_splits)
  show "load_offloads sf = ret (s', f') \<Longrightarrow> vi_dev s' = vi_dev (fst sf)"
    by (cases sf) (auto simp: load_offloads_def Let_def dest!: same_device split: prod.splits if_splits)
  show "finish_load s = ret s' \<Longrightarrow> vi_dev s' = vi_dev s"
    by (auto simp: finish_load_def Let_def split: if_splits)
qed

section \<open>Functions that keep a property of the queues\<close>

lemma check_vdev: "check_link env fresh u q = ret (down, u', q') \<Longrightarrow> q_vdev q' = q_vdev q"
  by (auto simp: check_link_def vhost_user_link_status_def vhost_net_link_status_def vhost_user_start_def Let_def dest!: same_vdev
      split: if_splits option.splits VhostBackendType.splits)

lemma queue_same:
  "virtqueue_pop env ft el vq w = ret (n, el', vq', w') \<Longrightarrow> vq_queue_index vq' = vq_queue_index vq \<and> vri_num (vq_vring vq') = vri_num (vq_vring vq)"
  "virtqueue_flush cnt vq ph = (vq', ph') \<Longrightarrow> vq_queue_index vq' = vq_queue_index vq \<and> vri_num (vq_vring vq') = vri_num (vq_vring vq)"
  "virtqueue_push el len vq w = ret (vq', w') \<Longrightarrow> vq_queue_index vq' = vq_queue_index vq \<and> vri_num (vq_vring vq') = vri_num (vq_vring vq)"
  "virtio_queue_set_notification ft en vq ph = (vq', ph') \<Longrightarrow>
     vq_queue_index vq' = vq_queue_index vq \<and> vri_num (vq_vring vq') = vri_num (vq_vring vq)"
  by (auto simp: virtqueue_pop_def virtqueue_flush_def virtqueue_push_def virtio_queue_set_notification_def Let_def split: if_splits prod.splits)

sublocale queue_property \<subseteq> dev: vdev_property "all_queues Q"
  by unfold_locales (use queue_ops in blast)+

context queue_property
begin

lemma shape_keeps: "shape s' = shape s \<Longrightarrow> all_queues Q (vi_dev s) \<longrightarrow> all_queues Q (vi_dev s')"
proof
  assume a: "shape s' = shape s" "all_queues Q (vi_dev s)"
  let ?v = "vd_vq (vi_dev s)" and ?v' = "vd_vq (vi_dev s')"
  have len: "length ?v' = length ?v" using map_eq_imp_length_eq a(1) unfolding shape_def by blast
  have "Q i (?v' ! i)" if "i < length ?v'" for i
  proof (rule Q_same)
    show "Q i (?v ! i)" using a(2) that len by (simp add: all_queues_def)
    have "shape s' ! i = shape s ! i" using a(1) by simp
    then show "vq_queue_index (?v' ! i) = vq_queue_index (?v ! i)" "vri_num (vq_vring (?v' ! i)) = vri_num (vq_vring (?v ! i))"
      using that len by (simp_all add: shape_def)
  qed
  then show "all_queues Q (vi_dev s')" using a(2) len by (simp add: all_queues_def)
qed

lemma put_keeps:
  assumes "virtio_get_queue d n = ret vq" "vq_queue_index vq' = vq_queue_index vq" "vri_num (vq_vring vq') = vri_num (vq_vring vq)" "all_queues Q d"
  shows "all_queues Q (put_queue n vq' d)"
  by (rule all_put [OF assms(4,1)]) (use assms(2,3) Q_same in blast)

lemma net_queue_keeps:
  "net_pop env j s = ret (n, el, s') \<Longrightarrow> all_queues Q (vi_dev s) \<longrightarrow> all_queues Q (vi_dev s')"
  "net_flush j num s = ret s' \<Longrightarrow> all_queues Q (vi_dev s) \<longrightarrow> all_queues Q (vi_dev s')"
  "net_push j el len s = ret s' \<Longrightarrow> all_queues Q (vi_dev s) \<longrightarrow> all_queues Q (vi_dev s')"
  "net_set_notification j en s = ret s' \<Longrightarrow> all_queues Q (vi_dev s) \<longrightarrow> all_queues Q (vi_dev s')"
  "virtio_notify k jn s = ret s' \<Longrightarrow> all_queues Q (vi_dev s) \<longrightarrow> all_queues Q (vi_dev s')"
proof -
  show "net_pop env j s = ret (n, el, s') \<Longrightarrow> all_queues Q (vi_dev s) \<longrightarrow> all_queues Q (vi_dev s')"
    by (auto simp: net_pop_def dest!: queue_same) (erule (3) put_keeps)
  show "net_flush j num s = ret s' \<Longrightarrow> all_queues Q (vi_dev s) \<longrightarrow> all_queues Q (vi_dev s')"
    by (auto simp: net_flush_def dest!: queue_same split: prod.splits) (erule (3) put_keeps)
  show "net_push j el len s = ret s' \<Longrightarrow> all_queues Q (vi_dev s) \<longrightarrow> all_queues Q (vi_dev s')"
    by (auto simp: net_push_def dest!: queue_same) (erule (3) put_keeps)
  show "net_set_notification j en s = ret s' \<Longrightarrow> all_queues Q (vi_dev s) \<longrightarrow> all_queues Q (vi_dev s')"
    by (auto simp: net_set_notification_def dest!: queue_same split: prod.splits) (erule (3) put_keeps)
  show "virtio_notify k jn s = ret s' \<Longrightarrow> all_queues Q (vi_dev s) \<longrightarrow> all_queues Q (vi_dev s')" using keep_notify by (auto simp: every_queue_def)
qed

lemma add_keeps: "add_net_queue num h s = ret (i, s') \<Longrightarrow> 0 \<le> num \<Longrightarrow> all_queues Q (vi_dev s) \<longrightarrow> all_queues Q (vi_dev s')"
  using queue_ops(8) by (auto simp: add_net_queue_def)

lemma add_queue_keeps:
  "add_net_queue 256 h s = ret (i, s') \<Longrightarrow> all_queues Q (vi_dev s) \<longrightarrow> all_queues Q (vi_dev s')"
  "add_net_queue 64 h s = ret (i, s') \<Longrightarrow> all_queues Q (vi_dev s) \<longrightarrow> all_queues Q (vi_dev s')"
  using add_keeps by simp_all

lemma del_queues_keep: "del_queues k i s = ret s' \<Longrightarrow> all_queues Q (vi_dev s) \<longrightarrow> all_queues Q (vi_dev s')"
  using queue_ops(6) by (induction k arbitrary: i s) fastforce+

lemma add_pairs_keep: "add_pairs k i s = ret s' \<Longrightarrow> all_queues Q (vi_dev s) \<longrightarrow> all_queues Q (vi_dev s')"
  by (induction k arbitrary: i s) (auto dest!: same_device add_queue_keeps)

lemma multiqueue_keeps: "virtio_net_set_multiqueue env m s = ret s' \<Longrightarrow> all_queues Q (vi_dev s) \<longrightarrow> all_queues Q (vi_dev s')"
  by (auto simp: virtio_net_set_multiqueue_def Let_def dest!: same_device add_queue_keeps del_queues_keep add_pairs_keep)

lemma features_keep: "virtio_net_set_features env ft s = ret s' \<Longrightarrow> all_queues Q (vi_dev s) \<longrightarrow> all_queues Q (vi_dev s')"
  by (auto simp: virtio_net_set_features_def dest!: same_device multiqueue_keeps split: if_splits)

lemma vhost_status_keeps: "virtio_net_vhost_status env st s = ret s' \<Longrightarrow> all_queues Q (vi_dev s) \<longrightarrow> all_queues Q (vi_dev s')"
  by (auto simp: virtio_net_vhost_status_def Let_def dest!: same_vdev dest!: dev.net_keeps split: option.splits if_splits prod.splits)

lemma status_keeps: "virtio_net_set_status env st s = ret s' \<Longrightarrow> all_queues Q (vi_dev s) \<longrightarrow> all_queues Q (vi_dev s')"
  by (auto simp: virtio_net_set_status_def dest!: same_device vhost_status_keeps)

lemma config_keeps: "all_queues Q (vi_dev (virtio_notify_config k s)) = all_queues Q (vi_dev s)"
  by (simp add: virtio_notify_config_def virtio_notify_vector_def all_queues_def)

lemma link_keeps: "virtio_net_set_link_status env i s = ret s' \<Longrightarrow> all_queues Q (vi_dev s) \<longrightarrow> all_queues Q (vi_dev s')"
  by (auto simp: virtio_net_set_link_status_def Let_def config_keeps dest!: status_keeps split: if_splits)

text \<open>The rest is under the condition that the environment leaves the shape alone.\<close>

lemma env_keeps:
  assumes "env_keeps_shape env"
  shows "ne_sendv env i iov s = ret (r, s') \<Longrightarrow> all_queues Q (vi_dev s) \<longrightarrow> all_queues Q (vi_dev s')"
    "ne_flush env i s = ret s' \<Longrightarrow> all_queues Q (vi_dev s) \<longrightarrow> all_queues Q (vi_dev s')"
    "opt_call (bc_vmstate_change (ne_bus env)) b s = ret s' \<Longrightarrow> all_queues Q (vi_dev s) \<longrightarrow> all_queues Q (vi_dev s')"
  using assms shape_keeps unfolding env_keeps_shape_def by blast+

lemma mq_keeps: "virtio_net_handle_mq env cmd iov s = ret (st, s') \<Longrightarrow> all_queues Q (vi_dev s) \<longrightarrow> all_queues Q (vi_dev s')"
  by (auto simp: virtio_net_handle_mq_def Let_def dest!: same_device status_keeps split: if_splits)

lemma command_keeps:
  "handle_command env st cls cmd iov s = ret (st', iov', s') \<Longrightarrow> all_queues Q (vi_dev s) \<longrightarrow> all_queues Q (vi_dev s')"
  by (auto simp: handle_command_def dest!: same_device mq_keeps split: if_splits)

lemma element_keeps:
  "ctrl_element env j st el s = ret (st', s') \<Longrightarrow> all_queues Q (vi_dev s) \<longrightarrow> all_queues Q (vi_dev s')"
  by (auto simp: ctrl_element_def dest!: same_device command_keeps net_queue_keeps split: if_splits prod.splits)

lemma ctrl_loop_keeps:
  assumes "ctrl_loop env j st s = ret s'"
  shows "all_queues Q (vi_dev s) \<longrightarrow> all_queues Q (vi_dev s')"
proof -
  define P where "P env j st s y \<longleftrightarrow> (\<forall>s'. y = Inr s' \<longrightarrow> all_queues Q (vi_dev s) \<longrightarrow> all_queues Q (vi_dev s'))"
    for env :: nenv and j :: nat and st :: u8 and s :: vnet and y :: "fault + vnet"
  have "P env j st s (Inr s')"
  proof (rule ctrl_loop.raw_induct [where P = P])
    show "ctrl_loop env j st s = Some (Inr s')" using assms by (simp add: ret_def)
    show "P env j st s y" if hyp: "\<And>env j st s y. f env j st s = Some y \<Longrightarrow> P env j st s y"
        and step: "bindE (net_pop env j s) (\<lambda>(n, el, s). if n = 0 then ret s
            else bindE (ctrl_element env j st el s) (\<lambda>(st, s). f env j st s)) = Some y" for f env j st s y
      unfolding P_def
    proof (intro allI impI)
      fix s' assume y: "y = Inr s'" and q: "all_queues Q (vi_dev s)"
      have h: "f env j st1 s1 = ret s' \<Longrightarrow> all_queues Q (vi_dev s1) \<longrightarrow> all_queues Q (vi_dev s')" for st1 s1
        using hyp [of env j st1 s1 "Inr s'"] by (auto simp: P_def ret_def)
      show "all_queues Q (vi_dev s')"
        using step q unfolding y ret_def [symmetric] by (auto dest!: net_queue_keeps element_keeps h split: if_splits)
    qed
  qed
  then show ?thesis by (simp add: P_def)
qed

lemma flush_loop_keeps:
  assumes "env_keeps_shape env" "flush_tx_loop env i j k s = ret (r, s')"
  shows "all_queues Q (vi_dev s) \<longrightarrow> all_queues Q (vi_dev s')"
proof -
  define P where "P env i j k s y \<longleftrightarrow> env_keeps_shape env \<longrightarrow> (\<forall>r s'. y = Inr (r, s') \<longrightarrow> all_queues Q (vi_dev s) \<longrightarrow> all_queues Q (vi_dev s'))"
    for env :: nenv and i j k :: nat and s :: vnet and y :: "fault + int \<times> vnet"
  have "P env i j k s (Inr (r, s'))"
  proof (rule flush_tx_loop.raw_induct [where P = P])
    show "flush_tx_loop env i j k s = Some (Inr (r, s'))" using assms(2) by (simp add: ret_def)
    show "P env i j k s y" if hyp: "\<And>env i j k s y. f env i j k s = Some y \<Longrightarrow> P env i j k s y"
        and step: "bindE (net_pop env j s) (\<lambda>(n, el, s).
           if n = 0 then ret (int k, s)
           else
             bindE (ensure (el_out_sg el \<noteq> []) (ExitFailure ''virtio-net header not in first element'')) (\<lambda>_.
             bindE (tx_vector (vx_net s) (el_out_sg el)) (\<lambda>sg.
             bindE (ne_sendv env (vq2q j) sg s) (\<lambda>(r, s).
             if r = 0
             then bindE (net_set_notification j False s) (\<lambda>s.
                  bindE (upd_netq i (\<lambda>q. q\<lparr>xq_async_elem := el, xq_async_len := xn_guest_hdr_len (vx_net s)\<rparr>) s) (\<lambda>s. ret (- EBUSY, s)))
             else
               bindE (net_push j el 0 s) (\<lambda>s.
               bindE (virtio_notify (ne_bus env) (int j) s) (\<lambda>s.
               if int k + 1 \<ge> xn_tx_burst (vx_net s) then ret (int k + 1, s)
               else f env i j (Suc k) s)))))) = Some y" for f env i j k s y
      unfolding P_def
    proof (intro allI impI)
      fix r s' assume e: "env_keeps_shape env" and y: "y = Inr (r, s')" and q: "all_queues Q (vi_dev s)"
      have h: "f env i j k1 s1 = ret (r, s') \<Longrightarrow> all_queues Q (vi_dev s1) \<longrightarrow> all_queues Q (vi_dev s')" for k1 s1
        using hyp [of env i j k1 s1 "Inr (r, s')"] e by (auto simp: P_def ret_def)
      show "all_queues Q (vi_dev s')"
        using step q unfolding y ret_def [symmetric]
        by (auto dest!: same_device net_queue_keeps env_keeps(1) [OF e] h split: if_splits)
    qed
  qed
  then show ?thesis using assms(1) by (simp add: P_def)
qed

lemma flush_keeps:
  assumes "env_keeps_shape env"
  shows "virtio_net_flush_tx env i s = ret (r, s') \<Longrightarrow> all_queues Q (vi_dev s) \<longrightarrow> all_queues Q (vi_dev s')"
  by (auto simp: virtio_net_flush_tx_def dest!: net_queue_keeps flush_loop_keeps [OF assms] split: if_splits)

lemma transmit_keeps:
  assumes "env_keeps_shape env"
  shows "virtio_net_tx_complete env i s = ret s' \<Longrightarrow> all_queues Q (vi_dev s) \<longrightarrow> all_queues Q (vi_dev s')"
    "virtio_net_tx_timer env i s = ret s' \<Longrightarrow> all_queues Q (vi_dev s) \<longrightarrow> all_queues Q (vi_dev s')"
    "virtio_net_tx_bh env i s = ret s' \<Longrightarrow> all_queues Q (vi_dev s) \<longrightarrow> all_queues Q (vi_dev s')"
    "virtio_net_handle_tx_timer env j s = ret s' \<Longrightarrow> all_queues Q (vi_dev s) \<longrightarrow> all_queues Q (vi_dev s')"
    "virtio_net_handle_tx_bh env j s = ret s' \<Longrightarrow> all_queues Q (vi_dev s) \<longrightarrow> all_queues Q (vi_dev s')"
  by (auto simp: virtio_net_tx_complete_def virtio_net_tx_timer_def virtio_net_tx_bh_def virtio_net_handle_tx_timer_def
      virtio_net_handle_tx_bh_def Let_def dest!: same_device net_queue_keeps flush_keeps [OF assms] split: if_splits)

lemma buffers_keep: "virtio_net_has_buffers j n s = ret (b, s') \<Longrightarrow> all_queues Q (vi_dev s) \<longrightarrow> all_queues Q (vi_dev s')"
  by (auto simp: virtio_net_has_buffers_def dest!: net_queue_keeps split: if_splits)

lemma receive_loop_keeps:
  assumes "receive_loop env j buf sz off i mhdr s = ret (r, n, mhdr', s')"
  shows "all_queues Q (vi_dev s) \<longrightarrow> all_queues Q (vi_dev s')"
proof -
  define P where "P env j buf sz off i mhdr s y \<longleftrightarrow> (\<forall>r n m s'. y = Inr (r, n, m, s') \<longrightarrow> all_queues Q (vi_dev s) \<longrightarrow> all_queues Q (vi_dev s'))"
    for env :: nenv and j :: nat and buf :: "u8 list" and sz off i :: nat and mhdr :: "iovec list" and s :: vnet
      and y :: "fault + int option \<times> nat \<times> iovec list \<times> vnet"
  have "P env j buf sz off i mhdr s (Inr (r, n, mhdr', s'))"
  proof (rule receive_loop.raw_induct [where P = P])
    show "receive_loop env j buf sz off i mhdr s = Some (Inr (r, n, mhdr', s'))" using assms by (simp add: ret_def)
    show "P env j buf sz offset i mhdr s y" if hyp: "\<And>env j buf sz off i mhdr s y. f env j buf sz off i mhdr s = Some y \<Longrightarrow> P env j buf sz off i mhdr s y"
        and step: "(if \<not> offset < sz then ret (None, i, mhdr, s)
          else
            bindE (net_pop env j s) (\<lambda>(n, el, s).
            if n = 0 then if i = 0 then ret (Some (-1), i, mhdr, s) else fail (ExitFailure ''virtio-net unexpected empty queue'')
            else if el_in_sg el = [] then fail (ExitFailure ''virtio-net receive queue contains no in buffers'')
            else
              let sg = el_in_sg el; net = vx_net s in
              bindE (if i = 0 then receive_first env sg buf sz s else ret (mhdr, buf, s)) (\<lambda>(mhdr, buf, s).
              let offset = (if i = 0 then xn_host_hdr_len net else offset); guest_offset = (if i = 0 then xn_guest_hdr_len net else 0) in
              bindE (ensure (offset \<le> sz) Overrun) (\<lambda>_.
              bindE (bytes_at buf (int offset) (int (sz - offset))) (\<lambda>bs.
              bindE (write_iov env sg guest_offset bs s) (\<lambda>(len, s).
              let total = guest_offset + len; offset = offset + len in
              if xn_mergeable_rx_bufs net = 0 \<and> offset < sz then ret (Some (int sz), i, mhdr, s)
              else bindE (net_fill j el (of_nat total) (of_nat i) s) (\<lambda>s. f env j buf sz offset (Suc i) mhdr s))))))) = Some y"
      for f env j buf sz offset i mhdr s y
      unfolding P_def
    proof (intro allI impI)
      fix r n m s' assume y: "y = Inr (r, n, m, s')" and q: "all_queues Q (vi_dev s)"
      have h: "f env j buf1 sz off1 i1 mhdr1 s1 = ret (r, n, m, s') \<Longrightarrow> all_queues Q (vi_dev s1) \<longrightarrow> all_queues Q (vi_dev s')" for buf1 off1 i1 mhdr1 s1
        using hyp [of env j buf1 sz off1 i1 mhdr1 s1 "Inr (r, n, m, s')"] by (auto simp: P_def ret_def)
      show "all_queues Q (vi_dev s')"
        using step q unfolding y ret_def [symmetric] Let_def
        by (auto dest!: same_device net_queue_keeps h split: if_split_asm)
    qed
  qed
  then show ?thesis by (simp add: P_def)
qed

lemma receive_keeps: "virtio_net_receive env i buf sz s = ret (r, s') \<Longrightarrow> all_queues Q (vi_dev s) \<longrightarrow> all_queues Q (vi_dev s')"
  by (auto simp: virtio_net_receive_def Let_def dest!: same_device net_queue_keeps buffers_keep receive_loop_keeps split: if_split_asm option.splits)

lemma handle_keeps:
  assumes "env_keeps_shape env"
  shows "net_handle_output env h j s = ret s' \<Longrightarrow> all_queues Q (vi_dev s) \<longrightarrow> all_queues Q (vi_dev s')"
  by (auto simp: net_handle_output_def virtio_net_handle_rx_def virtio_net_handle_ctrl_def
      dest!: env_keeps(2) [OF assms] transmit_keeps [OF assms] ctrl_loop_keeps split: if_splits)

lemma stop_keeps: "stop_client env s = ret s' \<Longrightarrow> all_queues Q (vi_dev s) \<longrightarrow> all_queues Q (vi_dev s')"
  by (auto simp: stop_client_def dest!: same_vdev split: option.splits net_peer.splits)

lemma client_keeps: "vhost_user_timer_handler env fresh s = ret s' \<Longrightarrow> all_queues Q (vi_dev s) \<longrightarrow> all_queues Q (vi_dev s')"
  by (auto simp: vhost_user_timer_handler_def Let_def dest!: check_vdev link_keeps stop_keeps split: option.splits net_peer.splits if_splits)

lemma class_keeps:
  assumes "env_keeps_shape env"
  shows "callbacks_keep (every_queue Q) (ne_bus env) (virtio_net_class env)"
  unfolding callbacks_keep_def every_queue_def
  using status_keeps [of env] features_keep [of env] env_keeps(3) [OF assms] handle_keeps [OF assms]
  by (auto simp: virtio_net_class_def opt_call_def virtio_net_reset_def virtio_net_set_config_def Let_def)

lemma load_card_keeps:
  assumes "env_keeps_shape env" "size_free Q"
  shows "virtio_net_load env ver f s = ret (r, s') \<Longrightarrow> all_queues Q (vi_dev s) \<longrightarrow> all_queues Q (vi_dev s')"
  using load_keeps [OF assms(2) class_keeps [OF assms(1)]]
  by (fastforce simp: virtio_net_load_def every_queue_def dest!: same_device split: if_splits)

lemma card_step_keeps:
  assumes "env_keeps_shape env" "any \<longrightarrow> size_free Q" "card_step any env s s'" "all_queues Q (vi_dev s)"
  shows "all_queues Q (vi_dev s')"
  using assms(3)
proof cases
  case device
  then show ?thesis using keep_step [OF class_keeps [OF assms(1)] assms(2)] assms(4) by (simp add: every_queue_def)
next
  case (load_card ver f r)
  then show ?thesis using load_card_keeps [OF assms(1)] assms(2,4) by blast
qed (use assms(4) in \<open>auto dest!: same_device receive_keeps transmit_keeps [OF assms(1)] link_keeps client_keeps\<close>)

lemma card_steps_keep:
  assumes "env_keeps_shape env" "any \<longrightarrow> size_free Q" "(card_step any env)\<^sup>*\<^sup>* s s'" "all_queues Q (vi_dev s)"
  shows "all_queues Q (vi_dev s')"
  using assms(3,4) by induction (use assms(1,2) card_step_keeps in blast)+

lemma realize_queues_keep: "realize_queues s = ret s' \<Longrightarrow> all_queues Q (vi_dev s) \<longrightarrow> all_queues Q (vi_dev s')"
  by (auto simp: realize_queues_def Let_def dest!: same_device add_queue_keeps)

lemma realize_keeps:
  assumes "virtio_net_device_realize env running idx peers s = ret s'"
    and "\<And>name dev_id cfg_size d. all_queues Q (virtio_init running name dev_id cfg_size d)"
  shows "all_queues Q (vi_dev s')"
  using assms by (auto simp: virtio_net_device_realize_def Let_def dest!: same_device realize_queues_keep)

end

text \<open>
  C10. Whatever the guest, the main loop, the network layer, the vhost-user client and a migration do with a realized
  network card until it is unrealized, in any order, its device keeps 64 queues, and each knows its index.  As long as no migration stream is
  loaded and no queue of a negative size is added, no queue has more than 1024 descriptors: neither \<^verbatim>\<open>virtio_load\<close> nor
  the comparison in \<^verbatim>\<open>virtio_add_queue\<close> prevents that, so the last part does not hold of sequences with such a step.
  The queues of packets and the bus are assumed to leave the sizes and indices alone.
\<close>

theorem card_types:
  assumes "env_keeps_shape env" "virtio_net_device_realize env running idx peers s = ret s0" "(card_step any env)\<^sup>*\<^sup>* s0 s'"
  shows "length (vd_vq (vi_dev s')) = 64 \<and> (\<forall>i < 64. vq_queue_index (vd_vq (vi_dev s') ! i) = of_nat i) \<and>
    (\<not> any \<longrightarrow> (\<forall>i < 64. unat (vri_num (vq_vring (vd_vq (vi_dev s') ! i))) \<le> 1024))"
proof -
  have new: "all_queues Q (virtio_init running name dev_id cfg_size d)" if "Q = sized \<or> Q = indexed" for Q name dev_id cfg_size d
    using that by (auto simp: all_queues_def sized_def indexed_def virtio_init_def fresh_queue_def)
  have i: "all_queues indexed (vi_dev s')"
    using indices.card_steps_keep [OF assms(1) _ assms(3)] indices.realize_keeps [OF assms(2) new] indexed_size_free by blast
  have z: "all_queues sized (vi_dev s')" if "\<not> any"
    using sizes.card_steps_keep [OF assms(1) _ assms(3)] sizes.realize_keeps [OF assms(2) new] that by blast
  show ?thesis
    using i z by (auto simp: all_queues_def sized_def indexed_def VIRTIO_PCI_QUEUE_MAX_def VIRTQUEUE_MAX_SIZE_def)
qed

section \<open>Example\<close>

lemma sample_realizes:
  "\<exists>s0. virtio_net_device_realize sample_net_env True 0 (\<lambda>_. None) (sample_card (\<lambda>_. None)) = ret s0 \<and>
        vri_num (vq_vring (vd_vq (vi_dev s0) ! 0)) = 256 \<and> length (vd_vq (vi_dev s0)) = 64"
proof -
  have q: "[0 ..< 64] = 0 # 1 # 2 # 3 # [4 ..< 64]" by (simp add: upt_rec)
  show ?thesis
    by (simp add: virtio_net_device_realize_def sample_card_def sample_nic_def Let_def realize_queues_def add_net_queue_def
        virtio_add_queue_def queue_count_def virtio_init_def VIRTIO_PCI_QUEUE_MAX_def VIRTQUEUE_MAX_SIZE_def q fresh_queue_def upd_queue_def
        virtio_get_queue_def put_queue_def upd_net_def upd_netq_def get_netq_def put_netq_def realize_header_def peer_test_vnet_hdr_def
        qemu_get_queue_def qemu_get_subqueue_def set_waiting_def virtio_net_set_mrg_rx_bufs_def put_client_def)
qed

theorem card_types_witness:
  "\<exists>s0 s'. virtio_net_device_realize sample_net_env True 0 (\<lambda>_. None) (sample_card (\<lambda>_. None)) = ret s0 \<and>
     (card_step False sample_net_env)\<^sup>*\<^sup>* s0 s' \<and> length (vd_vq (vi_dev s')) = 64 \<and>
     vq_queue_index (vd_vq (vi_dev s') ! 63) = 63 \<and> unat (vri_num (vq_vring (vd_vq (vi_dev s') ! 63))) \<le> 1024 \<and>
     vri_num (vq_vring (vd_vq (vi_dev s') ! 0)) = 128"
proof -
  obtain s0 where s0: "virtio_net_device_realize sample_net_env True 0 (\<lambda>_. None) (sample_card (\<lambda>_. None)) = ret s0"
      "vri_num (vq_vring (vd_vq (vi_dev s0) ! 0)) = 256" "length (vd_vq (vi_dev s0)) = 64"
    using sample_realizes by blast
  obtain d where d: "virtio_queue_set_num 0 128 (vi_dev s0) = ret d" "vri_num (vq_vring (vd_vq d ! 0)) = 128"
    using s0(2,3) by (simp add: virtio_queue_set_num_def virtio_get_queue_def put_queue_def virtqueue_init_def VIRTQUEUE_MAX_SIZE_def Let_def)
  have step: "(card_step False sample_net_env)\<^sup>*\<^sup>* s0 (s0\<lparr>vi_dev := d\<rparr>)"
    by (rule r_into_rtranclp, rule card_step.device, rule guest_step.set_num [OF d(1)])
  have env: "env_keeps_shape sample_net_env"
    by (simp add: env_keeps_shape_def sample_net_env_def sample_net_bus_def opt_call_def)
  note t = card_types [OF env s0(1) step]
  have "vq_queue_index (vd_vq d ! 63) = 63" "unat (vri_num (vq_vring (vd_vq d ! 63))) \<le> 1024"
    using t [THEN conjunct2, THEN conjunct1, rule_format, of 63] t [THEN conjunct2, THEN conjunct2, rule_format, of 63] by simp_all
  then show ?thesis
    using t s0(1) step d(2) by (intro exI [of _ s0] exI [of _ "s0\<lparr>vi_dev := d\<rparr>"]) simp
qed

end
