(* ===== verification/Spec2Isabelle.thy ===== *)
theory Spec2Isabelle
  imports Transport VirtIOSpec Protocol NetQueue NetSaveSpec NetPathSpec NetTypes
begin

text \<open>
  This library verifies the vhost-user network path of the repository: the user-space switch under
  \<^verbatim>\<open>src/\<close> that serves the rings of a guest, and the parts of the patched QEMU under
  \<^verbatim>\<open>src/qemu_vhost_user/\<close> that talk to it.

  \<^bold>\<open>The program.\<close>  A guest places packets in virtio rings that lie in its memory.  QEMU
  (\<^verbatim>\<open>hw/virtio/virtio.c\<close>, \<^verbatim>\<open>hw/virtio/vhost.c\<close>, \<^verbatim>\<open>hw/virtio/vhost-backend.c\<close>,
  \<^verbatim>\<open>hw/net/vhost_net.c\<close>, \<^verbatim>\<open>net/vhost-user.c\<close>) follows the memory map of the guest and hands rings, memory
  and event descriptors over a Unix socket to the server (\<^verbatim>\<open>src/vhost_user.c\<close>), which maps the memory, polls the
  rings, and moves packets between them and a transport (\<^verbatim>\<open>src/vhost_user_transport.c\<close>) over RDMA, whose
  connection data is exchanged over TCP.

  \<^bold>\<open>Conventions\<close> (\<^verbatim>\<open>Prelude\<close>, \<^verbatim>\<open>Memory\<close>).  Unsigned C integers are words of their width.  An operation has
  the type \<open>'a exec\<close>: \<open>None\<close> when a loop of the code never ends, \<open>Some (Inl f)\<close> when the process faults (an
  assertion, an access outside an object or the address space, a division by zero, an exit), and
  \<open>Some (Inr x)\<close> when it returns \<open>x\<close>.  Memory is a partial function from addresses to bytes.  What is outside
  the repository (kernel, verbs library, the peer) is a record of functions from the trace of calls to answers, so
  every theorem holds for all behaviours of the environment unless it names a hypothesis on them.  Theorems with
  hypotheses have a companion \<open>_witness\<close> that applies them to a concrete system (\<^verbatim>\<open>Sample\<close>, \<^verbatim>\<open>QemuSample\<close>).

  \<^bold>\<open>The server.\<close>
  \<^item> \<^verbatim>\<open>Message\<close>: the packed \<open>VHostUserMsg\<close> of \<^verbatim>\<open>vhost_user.h\<close>, its union as views of its bytes,
    \<open>vhost_user_receive\<close>; decoding is inverse to encoding.
  \<^item> \<^verbatim>\<open>FdList\<close>: the descriptor list of the event loop, with the contract \<open>fd_registry\<close> (a bounded bag),
    interpreted for both directions.
  \<^item> \<^verbatim>\<open>Regions\<close>: \<open>_set_mem_table\<close> and the address translations, as one loop in the locale \<open>addr_map\<close>,
    interpreted for user and guest addresses.
  \<^item> \<^verbatim>\<open>State\<close>: the process state and its type invariant.
  \<^item> \<^verbatim>\<open>Vring\<close>: \<open>process_desc\<close> and \<open>process_avail_vring\<close>; draining a ring equals consuming the list of its
    pending packets; when the copy loop is safe, when it overruns, and when it never ends.
  \<^item> \<^verbatim>\<open>Delivery\<close>: \<open>put_vring\<close>, \<open>put_rx_vring\<close> and \<open>kick\<close>, exact to the byte.
  \<^item> \<^verbatim>\<open>Server\<close>: every message handler, the dispatch, the select loop, the poll handler and \<open>main\<close>; invariants
    of every run by the locale \<open>proc_invariant\<close>.
  \<^item> \<^verbatim>\<open>Hex\<close> and \<^verbatim>\<open>Transport\<close>: printing and scanning of connection data, queue-pair states, RDMA writes and
    both transport threads.

  \<^bold>\<open>QEMU.\<close>
  \<^item> \<^verbatim>\<open>Ranges\<close> (\<^verbatim>\<open>include/qemu/range.h\<close>), \<^verbatim>\<open>RamBlocks\<close> (\<^verbatim>\<open>exec.c\<close>: the list of RAM blocks, allocation, lookup
    and the dirty bitmap), \<^verbatim>\<open>QemuEnv\<close> (the trace of calls, \<^verbatim>\<open>util/event_notifier-posix.c\<close>).
  \<^item> \<^verbatim>\<open>MemTable\<close> and \<^verbatim>\<open>MemTableSpec\<close>: the region table of \<^verbatim>\<open>vhost.c\<close>, refined to partial functions by the locale
    \<open>range_table\<close>; \<^verbatim>\<open>VhostMemory\<close> and \<^verbatim>\<open>VhostMemorySpec\<close>: the memory listener and the dirty log.
  \<^item> \<^verbatim>\<open>VirtQueue\<close>, \<^verbatim>\<open>VirtQueueSpec\<close>: taking and returning descriptor chains, the event index, layout and
    termination; \<^verbatim>\<open>VirtIO\<close>, \<^verbatim>\<open>VirtIOSpec\<close>: the device with its registers, properties of its queues kept by
    every operation (locale \<open>queue_property\<close>), and migration as a round trip.
  \<^item> \<^verbatim>\<open>VhostBackend\<close>, \<^verbatim>\<open>VhostDev\<close>, \<^verbatim>\<open>VhostNet\<close>, \<^verbatim>\<open>VhostNetSpec\<close>: the back ends, the life of a vhost device, the
    vhost-net device and the client; \<^verbatim>\<open>VhostKeeps\<close>: what all of them leave alone in the virtio device (locale
    \<open>vdev_property\<close>).
  \<^item> \<^verbatim>\<open>IoVec\<close> (\<^verbatim>\<open>util/iov.c\<close>) and \<^verbatim>\<open>Checksum\<close> (\<^verbatim>\<open>net/checksum.c\<close>): vectors of buffers as sequences of addresses,
    and the Internet checksum over them.
  \<^item> \<^verbatim>\<open>NetQueue\<close> (\<^verbatim>\<open>net/queue.c\<close>, \<^verbatim>\<open>net/net.c\<close>, \<^verbatim>\<open>net/hub.c\<close>): clients and their packet queues; packets to a
    client with a plain receive function are neither lost, doubled nor reordered.
  \<^item> The network card, \<^verbatim>\<open>hw/net/virtio-net.c\<close>: \<^verbatim>\<open>NetDev\<close> (configuration, status, start and stop of vhost, and
    the functions of \<^verbatim>\<open>net/tap.c\<close> it calls), \<^verbatim>\<open>NetCtrl\<close> (features, receive filter, commands), \<^verbatim>\<open>NetPath\<close> (control
    queue, receive and transmit paths), \<^verbatim>\<open>NetSave\<close> (creation, removal, migration); \<^verbatim>\<open>NetSample\<close> is a small card.
    \<^verbatim>\<open>NetCtrlSpec\<close>: the filter against a specification by sets of addresses and VLANs, and the commands that change
    those sets.  \<^verbatim>\<open>NetPathSpec\<close>: sending is bounded by a burst and never forgets a packet.  \<^verbatim>\<open>NetSaveSpec\<close>:
    migration restores the card and its filter.  \<^verbatim>\<open>NetLink\<close>: the reconnect timer of the client
    with the card that is its peer, which recovers a lost link while the guest is idle and aborts while it is not.
    \<^verbatim>\<open>NetTypes\<close>: the queues of a realized card keep their number, indices and bounds under every sequence of
    operations, by the two locales above.

  \<^bold>\<open>Both sides.\<close>  \<^verbatim>\<open>Protocol\<close> shows that the memory table QEMU sends is the table the server stores.  This theory
  composes the data path of the server: one pass of the poll handler drains the transmit ring and echoes its last
  packet.

  \<^bold>\<open>Loops and bounds.\<close>  Loops over arrays are structural recursion or have termination proofs.  Loops without a
  bound of their own (the descriptor walks of the server, retries of interrupted calls) are
  \<^theory_text>\<open>partial_function (option)\<close>, and the theorems that they return are stated as such.  The event loops of
  \<open>main\<close> and of the transport threads run for any given number of passes.

  \<^bold>\<open>Not modelled.\<close>  Terminal output, logging and memory that is only freed.  Concurrency inside a pass: the guest
  writes to its memory between passes, not during them, and the threads of the server, which share rings without a
  lock, run whole passes one after the other.  Of QEMU, everything off this path: processor emulation,
  the block layer, displays, the monitor, generated QAPI code, option parsing, the object model and the main loop.
  They do not take part in vhost-user, and a vhost-user guest is visible here through its memory and its
  notifications only.  Of the files above, the parts left out are named in the theories: address-space dispatch in
  \<^verbatim>\<open>exec.c\<close>, class registration in \<^verbatim>\<open>virtio.c\<close>, socket and terminal I/O in \<^verbatim>\<open>iov.c\<close>, deletion of
  clients in \<^verbatim>\<open>net.c\<close>, and the command-line glue of \<^verbatim>\<open>net/vhost-user.c\<close>.
\<close>

section \<open>The loop-back of packets\<close>

lemma take_poke_0: "length bs \<le> length xs \<Longrightarrow> take (length bs) (poke 0 bs xs) = bs"
  by (simp add: poke_def)

lemma last_packet:
  assumes "length (vu_buffer u) = BUFFER_SIZE" and "\<And>q. q \<in> set qs \<Longrightarrow> length q \<le> BUFFER_SIZE"
    and "length pkt < ETH_PACKET_SIZE"
  shows "vu_buffer_size (fold take_pkt (qs @ [pkt]) u) = of_nat (length pkt - HDR_LEN)"
    and "take (length pkt - HDR_LEN) (vu_buffer (fold take_pkt (qs @ [pkt]) u)) = drop HDR_LEN pkt"
  using wf_fold_take_pkt [OF assms(1,2)] assms(3) take_poke_0 [of "drop HDR_LEN pkt" "vu_buffer (fold take_pkt qs u)"]
  by (simp_all add: take_pkt_def BUFFER_SIZE_def)

lemma consumed_packet:
  assumes wf: "wf_proc s" and pe: "pending tr m vr a (qs @ [p])" and pkt: "pkt = drop HDR_LEN (concat (snd p))"
  shows "unat (vu_buffer_size (p_vu (consumed v vr (qs @ [p]) m' s))) = length pkt"
    and "take (length pkt) (vu_buffer (p_vu (consumed v vr (qs @ [p]) m' s))) = pkt"
proof -
  have pl: "length (concat (snd q)) < ETH_PACKET_SIZE" if "q \<in> set (qs @ [p])" for q using pending_len [OF pe that] .
  have "length q \<le> BUFFER_SIZE" if "q \<in> set (pkts qs)" for q
    using pl that by (fastforce simp: BUFFER_SIZE_def)
  moreover have "length (vu_buffer (p_vu s)) = BUFFER_SIZE" using wf by (simp add: wf_proc_def)
  moreover have pb: "length (concat (snd p)) < ETH_PACKET_SIZE" using pl by simp
  ultimately have *: "vu_buffer_size (p_vu (consumed v vr (qs @ [p]) m' s)) = of_nat (length pkt)"
    "take (length pkt) (vu_buffer (p_vu (consumed v vr (qs @ [p]) m' s))) = pkt"
    using last_packet [of "p_vu s" "pkts qs" "concat (snd p)"] by (simp_all add: consumed_def set_vrings_def pkt)
  have "length pkt < 2 ^ LENGTH(32)" using pb pkt by (simp add: ETH_PACKET_SIZE_def)
  with * show "unat (vu_buffer_size (p_vu (consumed v vr (qs @ [p]) m' s))) = length pkt"
    by (simp add: unat_of_nat_small)
  show "take (length pkt) (vu_buffer (p_vu (consumed v vr (qs @ [p]) m' s))) = pkt" by (rule *)
qed

text \<open>
  C1. The loop-back: when the guest has queued packets on the transmit ring, one call of the poll
  handler drains them all, delivers the last one to the head buffer of the receive ring, notifies
  the guest through both descriptors of that ring and leaves the packet buffer empty.
\<close>

theorem poll_handler_echoes:
  assumes wf: "wf_proc s" and rx: "rx = p_vrings s ! 0" and tx: "tx = p_vrings s ! 1"
    and nz: "vr_desc rx \<noteq> 0" "vr_desc tx \<noteq> 0"
    and ok: "ring_ok (p_mem s) tx" and ah: "ph_avail_handler (p_handler s) = Some AvailHandlerServer"
    and pe: "pending (map_desc_addr s) (p_mem s) tx (unat (vr_last_avail_idx tx)) (qs @ [p])"
    and n: "Suc (length qs) \<le> unat (vr_num tx)" "Suc (length qs) < 2 ^ 16"
    and ti: "avail_idx (p_mem s) (vr_avail tx) = ret (vr_last_avail_idx tx + of_nat (Suc (length qs)))"
    and pkt: "pkt = drop HDR_LEN (concat (snd p))" "pkt \<noteq> []"
    and dr: "desc_read (p_mem s) (used_region tx) (vr_desc rx) (ucast (vr_last_avail_idx rx)) addr dlen f nx"
    and fits: "length pkt \<le> unat dlen" and tr: "map_desc_addr s addr = ret dest"
    and put: "put_ok (p_mem s) rx dest (HDR_LEN + length pkt)"
    and dj: "avail_region rx \<inter> used_region tx = {}" and ri: "avail_idx (p_mem s) (vr_avail rx) = ret ai"
  shows "\<exists>s'. vhost_user_poll_handler s = ret s' \<and> delivered (p_mem s') rx dest ai pkt \<and>
           p_vrings s' = [rx\<lparr>vr_last_avail_idx := nx\<rparr>, bump (Suc (length qs)) tx] \<and>
           vu_buffer_size (p_vu s') = 0 \<and>
           p_io s' = p_io s @ [IoMsync dest (of_nat (length pkt + HDR_LEN)), IoMsyncLocal AVAIL_SIZE,
             IoWrite (vr_kickfd rx) (le_bytes 8 (1 :: u64)), IoFsync (vr_kickfd rx),
             IoWrite (vr_callfd rx) (le_bytes 8 (1 :: u64)), IoFsync (vr_callfd rx)]"
proof -
  let ?ps = "qs @ [p]"
  have len: "length (p_vrings s) = 2" using wf by (simp add: wf_proc_def VHOST_CLIENT_VRING_NUM_def)
  then have vrs: "p_vrings s = [rx, tx]" using rx tx by (simp add: list_eq_iff_nth_eq less_Suc_eq numeral_2_eq_2)
  obtain m1 where run: "process_avail_vring 1 s = ret (of_nat (length ?ps), consumed 1 tx ?ps m1 s)"
    and wf1: "wf_proc (consumed 1 tx ?ps m1 s)"
    and fr1: "\<And>x. x \<notin> used_region tx \<Longrightarrow> m1 x = p_mem s x" and dom1: "dom m1 = dom (p_mem s)"
    using process_avail_vring_spec [OF wf, of 1 tx ?ps] tx ok ah pe n ti by (auto simp: VHOST_CLIENT_VRING_NUM_def)
  let ?s1 = "consumed 1 tx ?ps m1 s"
  note pk = consumed_packet [OF wf pe pkt(1), of 1 m1]
  have "length pkt \<le> length (vu_buffer (p_vu ?s1))" using arg_cong [OF pk(2), of length] by simp
  moreover have vr1: "p_vrings ?s1 = [rx, bump (Suc (length qs)) tx]" using vrs by simp
  have "region (vr_avail rx + 2) 2 \<subseteq> avail_region rx"
    unfolding avail_region_def by (rule region_sub_const) simp
  then have "region (vr_avail rx + 2) 2 \<inter> used_region tx = {}" using dj by blast
  then have "load16 m1 (vr_avail rx + 2) = load16 (p_mem s) (vr_avail rx + 2)" using fr1 by (rule load_le_frame)
  then have ri1: "avail_idx (p_mem ?s1) (vr_avail rx) = ret ai" using ri by (simp add: avail_idx_def)
  have dr1: "desc_read (p_mem ?s1) {} (vr_desc rx) (ucast (vr_last_avail_idx rx)) addr dlen f nx"
    using desc_read_frame [OF dr fr1] by (simp add: desc_read_def)
  have tr1: "map_desc_addr ?s1 addr = ret dest"
    using map_desc_addr_cong [of ?s1 s] tr by (simp add: consumed_def set_vrings_def)
  have put1: "put_ok (p_mem ?s1) rx dest (HDR_LEN + length pkt)" using put dom1 by (simp add: put_ok_def)
  obtain m2 where pv: "put_vring 0 pkt ?s1 =
      ret (0, emit [IoMsync dest (of_nat (length pkt + HDR_LEN)), IoMsyncLocal AVAIL_SIZE]
        (set_vrings [rx\<lparr>vr_last_avail_idx := nx\<rparr>, bump (Suc (length qs)) tx] (?s1\<lparr>p_mem := m2\<rparr>)))"
    and dl: "delivered m2 rx dest ai pkt"
    using put_vring_spec [OF wf1, of 0 rx, OF _ _ dr1 fits tr1 put1 ri1] vr1 rx by (auto simp: VHOST_CLIENT_VRING_NUM_def)
  let ?s2 = "emit [IoMsync dest (of_nat (length pkt + HDR_LEN)), IoMsyncLocal AVAIL_SIZE]
        (set_vrings [rx\<lparr>vr_last_avail_idx := nx\<rparr>, bump (Suc (length qs)) tx] (?s1\<lparr>p_mem := m2\<rparr>))"
  have io: "p_io (consumed 1 tx ?ps m s) = p_io s" for m by (simp add: consumed_def set_vrings_def)
  have "get_vring ?s2 0 = ret (rx\<lparr>vr_last_avail_idx := nx\<rparr>)" by (simp add: get_vring_def)
  then have "vhost_user_poll_handler s =
      ret ((emit [IoWrite (vr_kickfd rx) (le_bytes 8 (1 :: u64)), IoFsync (vr_kickfd rx),
             IoWrite (vr_callfd rx) (le_bytes 8 (1 :: u64)), IoFsync (vr_callfd rx)] ?s2)
           \<lparr>p_vu := (p_vu ?s2)\<lparr>vu_buffer_size := 0\<rparr>\<rparr>)"
    using run pv pk nz pkt(2) vrs \<open>length pkt \<le> length (vu_buffer (p_vu ?s1))\<close>
    by (simp add: vhost_user_poll_handler_def get_vring_def VHOST_CLIENT_VRING_IDX_RX_def VHOST_CLIENT_VRING_IDX_TX_def
        poll_avail_vring_def kick_def Let_def)
  then show ?thesis using dl io by (simp add: set_vrings_def)
qed

lemma sample_echo:
  "desc_read sample_mem (used_region sample_vring) 0x10040 0 0x380 0x40 2 1"
  "avail_region sample_rx \<inter> used_region sample_vring = {}"
  by (simp_all add: desc_read_def used_region_def avail_region_def sample_eval sample_vring_def)

theorem poll_handler_echoes_witness:
  "\<exists>s'. vhost_user_poll_handler sample_proc = ret s' \<and>
     delivered (p_mem s') sample_rx 0x10380 0 [0xDE, 0xAD, 0xBE, 0xEF] \<and> vu_buffer_size (p_vu s') = 0"
proof -
  have "HDR_LEN + length [0xDE, 0xAD, 0xBE, 0xEF :: u8] = 14" by (simp add: HDR_LEN_def)
  then show ?thesis
    using poll_handler_echoes [OF sample_wf, of sample_rx sample_vring "[]" "(0, [replicate 10 0, [0xDE, 0xAD, 0xBE, 0xEF]])"
        "[0xDE, 0xAD, 0xBE, 0xEF]" "0x380" "0x40" 2 1 "0x10380" 0]
      sample_ring_ok sample_pending sample_put_ok sample_echo sample_map [of "0x380"]
    by (auto simp: sample_rx_simps sample_pkts_def HDR_LEN_def sample_vring_def avail_idx_def load_le_def memory_eval
        sample_mem_def sample_byte_def)
qed

end
